(* ===== verification/Pone_Prelude.thy ===== *)
theory Pone_Prelude
  imports Main "HOL-Library.Word"
begin

text \<open>
  Shared base of the Pone development: the machine types of the C sources, the outcome type of
  an operation of the runtime, the named collections of simplification rules and the generic
  lemmas on powers of two, masks and probe sequences that the components use.
\<close>

unbundle bit_operations_syntax

section \<open>Machine types\<close>

text \<open>
  \<open>pone_int_t\<close> is C's \<open>long\<close>: 64 bits, two's complement; \<open>sint\<close> reads it. \<open>pone_num_t\<close> is a
  \<open>double\<close>, kept as its 64-bit pattern; the floating-point operations themselves belong to the C
  implementation and are parameters wherever they are used. A \<open>char\<close> is signed; its bits are a
  byte.
\<close>

type_synonym byte = "8 word"
type_synonym pone_int_t = "64 word"
type_synonym pone_num_t = "64 word"
type_synonym bytes = "byte list"

named_theorems kh_simps \<open>bucket flags and bucket bookkeeping of the hash tables\<close>
named_theorems outcome_simps \<open>sequencing of runtime operations\<close>

section \<open>Outcomes of runtime operations\<close>

text \<open>
  A C function of the runtime returns (\<open>Ret\<close>), leaves by \<open>longjmp\<close> to an error handler
  (\<open>Jump\<close>, with the index of the handler), stops the process through a failed \<open>assert\<close> or
  \<open>abort\<close> (\<open>Abort\<close>), through \<open>exit\<close> (\<open>Exit\<close>, with the status), or does something C leaves
  undefined (\<open>Undef\<close>: an access outside an allocated block, a division by zero).
  \<open>andthen\<close> is sequencing; everything but \<open>Ret\<close> skips the rest.
\<close>

datatype ('a, 's) outcome = Ret 'a 's | Jump nat 's | Abort | Exit int | Undef

fun andthen :: "('a, 's) outcome \<Rightarrow> ('a \<Rightarrow> 's \<Rightarrow> ('b, 's) outcome) \<Rightarrow> ('b, 's) outcome" where
  "andthen (Ret x s) f = f x s"
| "andthen (Jump n s) f = Jump n s"
| "andthen Abort f = Abort"
| "andthen (Exit c) f = Exit c"
| "andthen Undef f = Undef"

definition assert_c :: "bool \<Rightarrow> 's \<Rightarrow> (unit, 's) outcome" where
  "assert_c b s = (if b then Ret () s else Abort)"

lemma assert_c_simps [simp, outcome_simps]:
  "b \<Longrightarrow> assert_c b s = Ret () s"
  "\<not> b \<Longrightarrow> assert_c b s = Abort"
  by (simp_all add: assert_c_def)

lemma andthen_assoc:
  "andthen (andthen m f) g = andthen m (\<lambda>x s. andthen (f x s) g)"
  by (cases m) simp_all

lemma andthen_Ret_iff:
  "andthen m f = Ret y s' \<longleftrightarrow> (\<exists>x s. m = Ret x s \<and> f x s = Ret y s')"
  by (cases m) simp_all

section \<open>Masks and powers of two\<close>

lemma and_pow2_minus_1 [kh_simps]: "(x::nat) AND (2 ^ k - 1) = x mod 2 ^ k"
  by (metis take_bit_eq_mask take_bit_eq_mod mask_eq_exp_minus_1)

text \<open>Triangular steps: the offsets of a probe sequence with growing step.\<close>

definition tri :: "nat \<Rightarrow> nat" where
  "tri t = t * (t + 1) div 2"

lemma tri_0 [simp]: "tri 0 = 0"
  by (simp add: tri_def)

lemma tri_Suc [simp]: "tri (Suc t) = tri t + Suc t"
  by (simp add: tri_def algebra_simps)

lemma two_tri: "2 * tri t = t * (t + 1)"
  by (simp add: tri_def)

lemma tri_mono: "s \<le> t \<Longrightarrow> tri s \<le> tri t"
  unfolding tri_def by (intro div_le_mono mult_le_mono) auto

text \<open>
  The first \<open>2 ^ k\<close> triangular numbers are distinct modulo \<open>2 ^ k\<close>: of two factors with an odd
  sum one is odd, so the power of two divides the other, which is too small.
\<close>

lemma tri_diff: "s \<le> t \<Longrightarrow> 2 * (tri t - tri s) = (t - s) * (t + s + 1)"
proof -
  assume "s \<le> t"
  then obtain d where t: "t = s + d" using le_Suc_ex by blast
  have "2 * (tri t - tri s) = t * (t + 1) - s * (s + 1)"
    by (simp only: diff_mult_distrib2 two_tri)
  then show ?thesis by (simp add: t algebra_simps)
qed

lemma pow2_dvd_odd_mult:
  fixes a b :: nat
  assumes "2 ^ m dvd a * b" and "odd (a + b)"
  shows "2 ^ m dvd a \<or> 2 ^ m dvd b"
proof (cases "even a")
  case True
  with assms(2) have "coprime (2 ^ m) b" by simp
  with assms(1) show ?thesis using coprime_dvd_mult_left_iff by blast
next
  case False
  then have "coprime (2 ^ m) a" by simp
  with assms(1) show ?thesis using coprime_dvd_mult_right_iff by blast
qed

lemma tri_inj_aux:
  assumes st: "s < t" and t: "t < 2 ^ k"
  shows "(x + tri s) mod 2 ^ k \<noteq> (x + tri t) mod 2 ^ k"
proof
  assume eq: "(x + tri s) mod 2 ^ k = (x + tri t) mod 2 ^ k"
  have le: "x + tri s \<le> x + tri t" using st tri_mono by simp
  from eq le have "2 ^ k dvd (x + tri t) - (x + tri s)" by (metis mod_eq_dvd_iff_nat)
  then have "2 ^ k dvd tri t - tri s" by simp
  then have "2 ^ Suc k dvd 2 * (tri t - tri s)" by (simp add: mult_dvd_mono)
  then have "2 ^ Suc k dvd (t - s) * (t + s + 1)" using st tri_diff by simp
  moreover have "odd ((t - s) + (t + s + 1))" using st by presburger
  ultimately have "2 ^ Suc k dvd t - s \<or> 2 ^ Suc k dvd t + s + 1"
    by (rule pow2_dvd_odd_mult)
  then have "2 ^ Suc k \<le> t - s \<or> 2 ^ Suc k \<le> t + s + 1"
    using st by (auto dest!: dvd_imp_le)
  then show False using st t by auto
qed

lemma tri_inj:
  assumes "s < 2 ^ k" "t < 2 ^ k" "(x + tri s) mod 2 ^ k = (x + tri t) mod 2 ^ k"
  shows "s = t"
  using assms tri_inj_aux [of s t k x] tri_inj_aux [of t s k x] by (metis nat_neq_iff)

text \<open>So they reach every residue.\<close>

lemma tri_surj:
  assumes "y < 2 ^ k"
  shows "\<exists>t < 2 ^ k. (x + tri t) mod 2 ^ k = y"
proof -
  let ?f = "\<lambda>t. (x + tri t) mod 2 ^ k"
  have "inj_on ?f {..<2 ^ k}" using tri_inj by (auto simp: inj_on_def)
  moreover have "?f ` {..<2 ^ k} \<subseteq> {..<2 ^ k}" by auto
  ultimately have "?f ` {..<2 ^ k} = {..<2 ^ k}"
    by (intro card_subset_eq) (auto simp: card_image)
  with assms show ?thesis by (metis (mono_tags, lifting) imageE lessThan_iff)
qed

end
