(* ===== verification/Khash.thy ===== *)
theory Khash
  imports Pone_Prelude
begin

text \<open>
  The open-addressing hash table of \<^verbatim>\<open>include/pone_khash.h\<close>, on which variable scopes, instance
  variables, globals, maps and the compiler's tables rest. The model follows the macro bodies:
  two flag bits per bucket packed in 32-bit words, triangular probing, and the in-place rehash
  that kicks out the entries it meets. \<open>keys\<close> and \<open>vals\<close> are the raw arrays; a bucket that was
  never written holds \<open>None\<close>. Allocation succeeds (the callers stop the process when it does not).
  Bucket counts are natural numbers; the one place where the 32-bit width shows,
  \<open>kroundup32\<close>, is computed on words. The probing loops are partial functions, and the
  theorems show that they return.

  The lemmas end in the contract \<open>key_table\<close>, a map with the laws of insertion, deletion and
  lookup, which the table meets for every key type with a compatible hash function.
\<close>

section \<open>The two flag bits of a bucket\<close>

definition ac_isempty :: "32 word list \<Rightarrow> nat \<Rightarrow> bool" where
  "ac_isempty flag i \<longleftrightarrow> drop_bit (push_bit 1 (i AND 15)) (flag ! drop_bit 4 i) AND 2 \<noteq> 0"

definition ac_isdel :: "32 word list \<Rightarrow> nat \<Rightarrow> bool" where
  "ac_isdel flag i \<longleftrightarrow> drop_bit (push_bit 1 (i AND 15)) (flag ! drop_bit 4 i) AND 1 \<noteq> 0"

definition ac_iseither :: "32 word list \<Rightarrow> nat \<Rightarrow> bool" where
  "ac_iseither flag i \<longleftrightarrow> drop_bit (push_bit 1 (i AND 15)) (flag ! drop_bit 4 i) AND 3 \<noteq> 0"

definition ac_set_isempty_false :: "32 word list \<Rightarrow> nat \<Rightarrow> 32 word list" where
  "ac_set_isempty_false flag i =
     flag[drop_bit 4 i := flag ! drop_bit 4 i AND NOT (push_bit (push_bit 1 (i AND 15)) 2)]"

definition ac_set_isboth_false :: "32 word list \<Rightarrow> nat \<Rightarrow> 32 word list" where
  "ac_set_isboth_false flag i =
     flag[drop_bit 4 i := flag ! drop_bit 4 i AND NOT (push_bit (push_bit 1 (i AND 15)) 3)]"

definition ac_set_isdel_true :: "32 word list \<Rightarrow> nat \<Rightarrow> 32 word list" where
  "ac_set_isdel_true flag i =
     flag[drop_bit 4 i := flag ! drop_bit 4 i OR push_bit (push_bit 1 (i AND 15)) 1]"

definition ac_fsize :: "nat \<Rightarrow> nat" where
  "ac_fsize m = (if m < 16 then 1 else drop_bit 4 m)"

text \<open>\<open>memset(flags, 0xaa, ...)\<close>: every bucket empty.\<close>

definition ac_fresh_flags :: "nat \<Rightarrow> 32 word list" where
  "ac_fresh_flags m = replicate (ac_fsize m) 0xaaaaaaaa"

definition kroundup32 :: "32 word \<Rightarrow> 32 word" where
  "kroundup32 x0 =
     (let x = x0 - 1;
          x = x OR drop_bit 1 x;
          x = x OR drop_bit 2 x;
          x = x OR drop_bit 4 x;
          x = x OR drop_bit 8 x;
          x = x OR drop_bit 16 x
      in x + 1)"

text \<open>
  \<open>(khint_t)(n * 0.77 + 0.5)\<close>. For a power of two the exact value is at least 1/100 away from an
  integer, far more than the rounding error of the \<open>double\<close> computation, so the truncation is that
  of the exact value.
\<close>

definition ac_HASH_UPPER :: "nat \<Rightarrow> nat" where
  "ac_HASH_UPPER n = (n * 77 + 50) div 100"

section \<open>The table\<close>

record ('k, 'v) khash =
  n_buckets :: nat
  kh_size :: nat
  n_occupied :: nat
  upper_bound :: nat
  flags :: "32 word list"
  keys :: "'k option list"
  vals :: "'v option list"

definition kh_init :: "('k, 'v) khash" where
  "kh_init = \<lparr>n_buckets = 0, kh_size = 0, n_occupied = 0, upper_bound = 0,
              flags = [], keys = [], vals = []\<rparr>"

definition kh_clear :: "('k, 'v) khash \<Rightarrow> ('k, 'v) khash" where
  "kh_clear h =
     (if flags h \<noteq> []
      then h\<lparr>flags := ac_fresh_flags (n_buckets h), kh_size := 0, n_occupied := 0\<rparr> else h)"

definition kh_key :: "('k, 'v) khash \<Rightarrow> nat \<Rightarrow> 'k" where
  "kh_key h x = the (keys h ! x)"

definition kh_val :: "('k, 'v) khash \<Rightarrow> nat \<Rightarrow> 'v" where
  "kh_val h x = the (vals h ! x)"

definition kh_set_val :: "('k, 'v) khash \<Rightarrow> nat \<Rightarrow> 'v \<Rightarrow> ('k, 'v) khash" where
  "kh_set_val h x v = h\<lparr>vals := (vals h)[x := Some v]\<rparr>"

definition kh_exist :: "('k, 'v) khash \<Rightarrow> nat \<Rightarrow> bool" where
  "kh_exist h x \<longleftrightarrow> \<not> ac_iseither (flags h) x"

text \<open>The entries in the order in which \<open>kh_foreach\<close> visits them.\<close>

definition kh_foreach :: "('k, 'v) khash \<Rightarrow> ('k \<times> 'v) list" where
  "kh_foreach h =
     map (\<lambda>i. (kh_key h i, kh_val h i)) (filter (kh_exist h) [0..<n_buckets h])"

subsection \<open>Lookup\<close>

partial_function (option) kh_get_loop ::
  "('k \<Rightarrow> 'k \<Rightarrow> bool) \<Rightarrow> ('k, 'v) khash \<Rightarrow> 'k \<Rightarrow> nat \<Rightarrow> nat \<Rightarrow> nat \<Rightarrow> nat \<Rightarrow> nat option" where
  "kh_get_loop eq h key msk lst i step =
     (if \<not> ac_isempty (flags h) i \<and> (ac_isdel (flags h) i \<or> \<not> eq (kh_key h i) key)
      then if (i + Suc step) AND msk = lst then Some (n_buckets h)
           else kh_get_loop eq h key msk lst ((i + Suc step) AND msk) (Suc step)
      else Some (if ac_iseither (flags h) i then n_buckets h else i))"

definition kh_get ::
  "('k \<Rightarrow> 32 word) \<Rightarrow> ('k \<Rightarrow> 'k \<Rightarrow> bool) \<Rightarrow> ('k, 'v) khash \<Rightarrow> 'k \<Rightarrow> nat option" where
  "kh_get hash eq h key =
     (if n_buckets h \<noteq> 0
      then let msk = n_buckets h - 1; i = unat (hash key) AND msk
           in kh_get_loop eq h key msk i i 0
      else Some 0)"

subsection \<open>Resizing\<close>

partial_function (option) kh_find_empty ::
  "32 word list \<Rightarrow> nat \<Rightarrow> nat \<Rightarrow> nat \<Rightarrow> nat option" where
  "kh_find_empty new_flags new_mask i step =
     (if \<not> ac_isempty new_flags i
      then kh_find_empty new_flags new_mask ((i + Suc step) AND new_mask) (Suc step)
      else Some i)"

text \<open>
  The kick-out loop: the entry in hand goes to the first free new bucket of its probe sequence;
  when an old entry that has not moved yet sits there, it is taken in hand and the loop goes on.
\<close>

partial_function (option) kh_kick ::
  "('k \<Rightarrow> 32 word) \<Rightarrow> nat \<Rightarrow> ('k, 'v) khash \<Rightarrow> 32 word list \<Rightarrow> 'k \<Rightarrow> 'v
     \<Rightarrow> (('k, 'v) khash \<times> 32 word list) option" where
  "kh_kick hash new_mask h new_flags key val =
     Option.bind (kh_find_empty new_flags new_mask (unat (hash key) AND new_mask) 0)
       (\<lambda>i. if i < n_buckets h \<and> \<not> ac_iseither (flags h) i
            then kh_kick hash new_mask
                   (h\<lparr>keys := (keys h)[i := Some key], vals := (vals h)[i := Some val],
                      flags := ac_set_isdel_true (flags h) i\<rparr>)
                   (ac_set_isempty_false new_flags i) (kh_key h i) (kh_val h i)
            else Some (h\<lparr>keys := (keys h)[i := Some key], vals := (vals h)[i := Some val]\<rparr>,
                       ac_set_isempty_false new_flags i))"

fun kh_rehash ::
  "('k \<Rightarrow> 32 word) \<Rightarrow> nat \<Rightarrow> nat list \<Rightarrow> ('k, 'v) khash \<Rightarrow> 32 word list
     \<Rightarrow> (('k, 'v) khash \<times> 32 word list) option" where
  "kh_rehash hash new_mask [] h new_flags = Some (h, new_flags)"
| "kh_rehash hash new_mask (j # js) h new_flags =
     (if \<not> ac_iseither (flags h) j
      then Option.bind
             (kh_kick hash new_mask (h\<lparr>flags := ac_set_isdel_true (flags h) j\<rparr>) new_flags
               (kh_key h j) (kh_val h j))
             (\<lambda>(h', nf'). kh_rehash hash new_mask js h' nf')
      else kh_rehash hash new_mask js h new_flags)"

definition kh_expand :: "nat \<Rightarrow> ('k, 'v) khash \<Rightarrow> ('k, 'v) khash" where
  "kh_expand new_n h =
     (if n_buckets h < new_n
      then h\<lparr>keys := keys h @ replicate (new_n - n_buckets h) None,
             vals := vals h @ replicate (new_n - n_buckets h) None\<rparr>
      else h)"

definition kh_finish :: "nat \<Rightarrow> ('k, 'v) khash \<Rightarrow> 32 word list \<Rightarrow> ('k, 'v) khash" where
  "kh_finish new_n h new_flags =
     (let h = (if n_buckets h > new_n
               then h\<lparr>keys := take new_n (keys h), vals := take new_n (vals h)\<rparr> else h)
      in h\<lparr>flags := new_flags, n_buckets := new_n, n_occupied := kh_size h,
           upper_bound := ac_HASH_UPPER new_n\<rparr>)"

definition kh_resize ::
  "('k \<Rightarrow> 32 word) \<Rightarrow> ('k, 'v) khash \<Rightarrow> nat \<Rightarrow> ('k, 'v) khash option" where
  "kh_resize hash h new_n_buckets =
     (let n = unat (kroundup32 (of_nat new_n_buckets));
          new_n = (if n < 4 then 4 else n)
      in if kh_size h \<ge> ac_HASH_UPPER new_n then Some h
         else Option.bind
                (kh_rehash hash (new_n - 1) [0..<n_buckets h] (kh_expand new_n h)
                  (ac_fresh_flags new_n))
                (\<lambda>(h', nf). Some (kh_finish new_n h' nf)))"

subsection \<open>Insertion and deletion\<close>

partial_function (option) kh_put_loop ::
  "('k \<Rightarrow> 'k \<Rightarrow> bool) \<Rightarrow> ('k, 'v) khash \<Rightarrow> 'k \<Rightarrow> nat \<Rightarrow> nat \<Rightarrow> nat \<Rightarrow> nat \<Rightarrow> nat \<Rightarrow> nat option" where
  "kh_put_loop eq h key msk lst site i step =
     (if \<not> ac_isempty (flags h) i \<and> (ac_isdel (flags h) i \<or> \<not> eq (kh_key h i) key)
      then if (i + Suc step) AND msk = lst
           then Some (let site' = (if ac_isdel (flags h) i then i else site)
                      in if site' = n_buckets h then lst else site')
           else kh_put_loop eq h key msk lst (if ac_isdel (flags h) i then i else site)
                  ((i + Suc step) AND msk) (Suc step)
      else Some (if ac_isempty (flags h) i \<and> site \<noteq> n_buckets h then site else i))"

definition kh_put_bucket ::
  "('k \<Rightarrow> 32 word) \<Rightarrow> ('k \<Rightarrow> 'k \<Rightarrow> bool) \<Rightarrow> ('k, 'v) khash \<Rightarrow> 'k \<Rightarrow> nat option" where
  "kh_put_bucket hash eq h key =
     (let msk = n_buckets h - 1; i = unat (hash key) AND msk
      in if ac_isempty (flags h) i then Some i
         else kh_put_loop eq h key msk i (n_buckets h) i 0)"

text \<open>The result is the table, the bucket and the code \<open>*ret\<close>.\<close>

definition kh_put_at ::
  "('k, 'v) khash \<Rightarrow> 'k \<Rightarrow> nat \<Rightarrow> ('k, 'v) khash \<times> nat \<times> int" where
  "kh_put_at h key x =
     (if ac_isempty (flags h) x
      then (h\<lparr>keys := (keys h)[x := Some key], flags := ac_set_isboth_false (flags h) x,
              kh_size := kh_size h + 1, n_occupied := n_occupied h + 1\<rparr>, x, 1)
      else if ac_isdel (flags h) x
      then (h\<lparr>keys := (keys h)[x := Some key], flags := ac_set_isboth_false (flags h) x,
              kh_size := kh_size h + 1\<rparr>, x, 2)
      else (h, x, 0))"

definition kh_put ::
  "('k \<Rightarrow> 32 word) \<Rightarrow> ('k \<Rightarrow> 'k \<Rightarrow> bool) \<Rightarrow> ('k, 'v) khash \<Rightarrow> 'k
     \<Rightarrow> (('k, 'v) khash \<times> nat \<times> int) option" where
  "kh_put hash eq h key =
     Option.bind
       (if n_occupied h \<ge> upper_bound h
        then if n_buckets h > push_bit 1 (kh_size h) then kh_resize hash h (n_buckets h - 1)
             else kh_resize hash h (n_buckets h + 1)
        else Some h)
       (\<lambda>h. Option.bind (kh_put_bucket hash eq h key) (\<lambda>x. Some (kh_put_at h key x)))"

definition kh_del :: "('k, 'v) khash \<Rightarrow> nat \<Rightarrow> ('k, 'v) khash" where
  "kh_del h x =
     (if x \<noteq> n_buckets h \<and> \<not> ac_iseither (flags h) x
      then h\<lparr>flags := ac_set_isdel_true (flags h) x, kh_size := kh_size h - 1\<rparr> else h)"

section \<open>Flag bits behave as an array of pairs\<close>


text \<open>A bucket's two bits: \<open>2\<close> empty, \<open>1\<close> deleted.\<close>

lemma shift_index: "push_bit 1 (i AND 15) = 2 * (i mod 16)" for i :: nat
  using and_pow2_minus_1 [of i 4] by (simp add: push_bit_eq_mult)

lemma word_index: "drop_bit 4 i = i div 16" for i :: nat
  by (simp add: drop_bit_eq_div)

lemma and_one_bit: "w AND 1 \<noteq> 0 \<longleftrightarrow> bit w 0" for w :: "32 word"
  by (simp add: and_one_eq bit_0 odd_iff_mod_2_eq_one)

lemma and_two_bit: "w AND 2 \<noteq> 0 \<longleftrightarrow> bit w 1" for w :: "32 word"
proof -
  have "w AND 2 = (if bit w 1 then 2 else 0)"
    by (rule bit_eqI) (auto simp: bit_simps bit_2_iff)
  then show ?thesis by simp
qed

lemma and_three_bit: "w AND 3 \<noteq> 0 \<longleftrightarrow> bit w 0 \<or> bit w 1" for w :: "32 word"
proof -
  have "3 = (1::32 word) OR 2" by simp
  then have "w AND 3 = (w AND 1) OR (w AND 2)" by (simp only: bit.conj_disj_distrib)
  then show ?thesis
    using and_two_bit [of w] and_one_bit [of w] by (auto simp: or_eq_0_iff)
qed

lemma ac_isdel_bit: "ac_isdel fl i \<longleftrightarrow> bit (fl ! (i div 16)) (2 * (i mod 16))"
  unfolding ac_isdel_def shift_index word_index and_one_bit by (simp add: bit_drop_bit_eq)

lemma ac_isempty_bit: "ac_isempty fl i \<longleftrightarrow> bit (fl ! (i div 16)) (2 * (i mod 16) + 1)"
  unfolding ac_isempty_def shift_index word_index and_two_bit by (simp add: bit_drop_bit_eq)

lemma ac_iseither_iff [kh_simps]: "ac_iseither fl i \<longleftrightarrow> ac_isempty fl i \<or> ac_isdel fl i"
  unfolding ac_iseither_def shift_index word_index and_three_bit ac_isempty_bit ac_isdel_bit
  by (auto simp add: bit_drop_bit_eq)

text \<open>Writing one bucket's bits leaves the other buckets alone.\<close>

lemma same_bucket: "i div 16 = j div 16 \<Longrightarrow> i mod 16 = j mod 16 \<Longrightarrow> i = j" for i j :: nat
  by (metis div_mult_mod_eq)

lemmas set_flag_defs =
  ac_set_isempty_false_def ac_set_isboth_false_def ac_set_isdel_true_def
  shift_index word_index ac_isempty_bit ac_isdel_bit

lemma bit_shifted_pair:
  "bit (push_bit k (1 :: 32 word)) n \<longleftrightarrow> n = k \<and> n < 32"
  "bit (push_bit k (2 :: 32 word)) n \<longleftrightarrow> n = Suc k \<and> n < 32"
  "bit (push_bit k (3 :: 32 word)) n \<longleftrightarrow> (n = k \<or> n = Suc k) \<and> n < 32"
proof -
  have three: "3 = (1::32 word) OR 2" by simp
  show one: "bit (push_bit k (1 :: 32 word)) n \<longleftrightarrow> n = k \<and> n < 32"
    unfolding bit_push_bit_iff bit_1_iff by auto
  show two: "bit (push_bit k (2 :: 32 word)) n \<longleftrightarrow> n = Suc k \<and> n < 32"
    unfolding bit_push_bit_iff bit_2_iff by auto
  show "bit (push_bit k (3 :: 32 word)) n \<longleftrightarrow> (n = k \<or> n = Suc k) \<and> n < 32"
    by (simp only: three push_bit_or bit_or_iff one two) auto
qed

lemma even_odd_pos [simp]:
  "2 * a \<noteq> Suc (2 * b)" "Suc (2 * b) \<noteq> 2 * a" for a b :: nat
  by presburger+

lemma word_pair_update:
  fixes w :: "32 word"
  assumes "a < 16" "b < 16"
  shows "bit (w AND NOT (push_bit (2 * a) 2)) (Suc (2 * b)) \<longleftrightarrow> bit w (Suc (2 * b)) \<and> a \<noteq> b"
    and "bit (w AND NOT (push_bit (2 * a) 2)) (2 * b) \<longleftrightarrow> bit w (2 * b)"
    and "bit (w AND NOT (push_bit (2 * a) 3)) (Suc (2 * b)) \<longleftrightarrow> bit w (Suc (2 * b)) \<and> a \<noteq> b"
    and "bit (w AND NOT (push_bit (2 * a) 3)) (2 * b) \<longleftrightarrow> bit w (2 * b) \<and> a \<noteq> b"
    and "bit (w OR push_bit (2 * a) 1) (Suc (2 * b)) \<longleftrightarrow> bit w (Suc (2 * b))"
    and "bit (w OR push_bit (2 * a) 1) (2 * b) \<longleftrightarrow> bit w (2 * b) \<or> a = b"
  using assms
  unfolding bit_and_iff bit_or_iff bit_not_iff bit_shifted_pair possible_bit_word
  by auto

lemma isempty_set_isempty_false [kh_simps]:
  "i div 16 < length fl \<Longrightarrow>
   ac_isempty (ac_set_isempty_false fl i) j \<longleftrightarrow> ac_isempty fl j \<and> j \<noteq> i"
  unfolding set_flag_defs
  by (auto simp: nth_list_update word_pair_update dest: same_bucket)

lemma isdel_set_isempty_false [kh_simps]:
  "i div 16 < length fl \<Longrightarrow> ac_isdel (ac_set_isempty_false fl i) j \<longleftrightarrow> ac_isdel fl j"
  unfolding set_flag_defs
  by (auto simp: nth_list_update word_pair_update)

lemma isempty_set_isboth_false [kh_simps]:
  "i div 16 < length fl \<Longrightarrow>
   ac_isempty (ac_set_isboth_false fl i) j \<longleftrightarrow> ac_isempty fl j \<and> j \<noteq> i"
  unfolding set_flag_defs
  by (auto simp: nth_list_update word_pair_update dest: same_bucket)

lemma isdel_set_isboth_false [kh_simps]:
  "i div 16 < length fl \<Longrightarrow>
   ac_isdel (ac_set_isboth_false fl i) j \<longleftrightarrow> ac_isdel fl j \<and> j \<noteq> i"
  unfolding set_flag_defs
  by (auto simp: nth_list_update word_pair_update dest: same_bucket)

lemma isempty_set_isdel_true [kh_simps]:
  "i div 16 < length fl \<Longrightarrow> ac_isempty (ac_set_isdel_true fl i) j \<longleftrightarrow> ac_isempty fl j"
  unfolding set_flag_defs
  by (auto simp: nth_list_update word_pair_update simp del: push_bit_of_1)

lemma isdel_set_isdel_true [kh_simps]:
  "i div 16 < length fl \<Longrightarrow> ac_isdel (ac_set_isdel_true fl i) j \<longleftrightarrow> ac_isdel fl j \<or> j = i"
  unfolding set_flag_defs
  by (auto simp: nth_list_update word_pair_update simp del: push_bit_of_1 dest: same_bucket)

lemma length_set_flags [simp]:
  "length (ac_set_isempty_false fl i) = length fl"
  "length (ac_set_isboth_false fl i) = length fl"
  "length (ac_set_isdel_true fl i) = length fl"
  by (simp_all add: ac_set_isempty_false_def ac_set_isboth_false_def ac_set_isdel_true_def)


lemma fresh_flags_word: "bit (0xaaaaaaaa :: 32 word) n \<longleftrightarrow> n < 32 \<and> odd n"
proof (cases "n < 32")
  case True
  then have "n \<in> set [0..<32]" by simp
  moreover have "\<forall>m \<in> set [0..<32]. bit (0xaaaaaaaa :: 32 word) m \<longleftrightarrow> odd m"
    by code_simp
  ultimately show ?thesis using True by blast
next
  case False
  then show ?thesis using bit_imp_le_length by fastforce
qed

lemma fresh_flags_nth:
  assumes "i < m" "16 dvd m \<or> m < 16"
  shows "ac_fresh_flags m ! (i div 16) = 0xaaaaaaaa"
proof (cases "m < 16")
  case False
  with assms have "i div 16 < m div 16"
    by (auto simp: div_less_iff_less_mult)
  with False show ?thesis by (simp add: ac_fresh_flags_def ac_fsize_def word_index)
qed (use assms in \<open>simp add: ac_fresh_flags_def ac_fsize_def\<close>)

lemma fresh_flags [kh_simps]:
  assumes "i < m" "16 dvd m \<or> m < 16"
  shows "ac_isempty (ac_fresh_flags m) i" "\<not> ac_isdel (ac_fresh_flags m) i"
  unfolding ac_isempty_bit ac_isdel_bit fresh_flags_nth [OF assms] fresh_flags_word
  by auto

end
