(* ===== verification/Khash_Correct.thy ===== *)
theory Khash_Correct
  imports Khash
begin

text \<open>
  Correctness of the hash table of \<open>Khash\<close>. The locale \<open>khash_keys\<close> states what a key type must
  offer: a view \<open>rep\<close> of its keys such that the equality test compares views and the hash depends
  on the view only. Under it every operation returns, keeps the invariant \<open>kh_inv\<close> and acts on the
  abstract map \<open>kh_lookup\<close> as a finite map does; \<open>key_table\<close> is that contract, the only thing the
  clients of the table use.
\<close>

section \<open>Probe sequences, invariant and abstract map\<close>

definition probe :: "nat \<Rightarrow> nat \<Rightarrow> nat \<Rightarrow> nat" where
  "probe n x t = (x + tri t) mod n"

lemma probe_less [simp]: "0 < n \<Longrightarrow> probe n x t < n"
  by (simp add: probe_def)

lemma probe_0 [simp]: "probe n x 0 = x mod n"
  by (simp add: probe_def)

lemma probe_step [kh_simps]: "(probe (2 ^ k) x t + Suc t) AND (2 ^ k - 1) = probe (2 ^ k) x (Suc t)"
  by (simp only: and_pow2_minus_1 probe_def tri_Suc mod_add_left_eq add.assoc)

lemma probe_inj: "s < 2 ^ k \<Longrightarrow> t < 2 ^ k \<Longrightarrow> probe (2 ^ k) x s = probe (2 ^ k) x t \<Longrightarrow> s = t"
  unfolding probe_def by (rule tri_inj)

lemma probe_surj: "y < 2 ^ k \<Longrightarrow> \<exists>t < 2 ^ k. probe (2 ^ k) x t = y"
  unfolding probe_def by (rule tri_surj)

text \<open>
  Some bucket that satisfies \<open>P\<close> is met within the first \<open>2 ^ k\<close> probes; the least such probe
  number is where a loop with stop condition \<open>P\<close> stops.
\<close>

lemma probe_first:
  assumes "y < 2 ^ k" "P y"
  obtains m where "m < 2 ^ k" "P (probe (2 ^ k) x m)" "\<forall>s < m. \<not> P (probe (2 ^ k) x s)"
proof -
  obtain t where t: "t < 2 ^ k" "probe (2 ^ k) x t = y" using probe_surj [OF assms(1)] by blast
  let ?m = "LEAST m. P (probe (2 ^ k) x m)"
  have "P (probe (2 ^ k) x ?m)" using t(2) assms(2) by (metis LeastI)
  moreover have "?m \<le> t" using t(2) assms(2) by (intro Least_le) simp
  ultimately show ?thesis using that [of ?m] t(1) not_less_Least by fastforce
qed

definition kh_live :: "('k, 'v) khash \<Rightarrow> nat set" where
  "kh_live h = {i. i < n_buckets h \<and> \<not> ac_isempty (flags h) i \<and> \<not> ac_isdel (flags h) i}"

definition kh_used :: "('k, 'v) khash \<Rightarrow> nat set" where
  "kh_used h = {i. i < n_buckets h \<and> \<not> ac_isempty (flags h) i}"

text \<open>Bucket \<open>i\<close> is reached from the hash of its key without passing an empty bucket.\<close>

definition kh_path :: "('k \<Rightarrow> 32 word) \<Rightarrow> nat \<Rightarrow> 32 word list \<Rightarrow> 'k \<Rightarrow> nat \<Rightarrow> bool" where
  "kh_path hash n fl key i \<longleftrightarrow>
     (\<exists>t < n. probe n (unat (hash key)) t = i \<and>
        (\<forall>s < t. \<not> ac_isempty fl (probe n (unat (hash key)) s)))"

definition kh_inv :: "('k \<Rightarrow> 32 word) \<Rightarrow> ('k \<Rightarrow> 'a) \<Rightarrow> ('k, 'v) khash \<Rightarrow> bool" where
  "kh_inv hash rep h \<longleftrightarrow>
     (n_buckets h = 0 \<and> keys h = [] \<and> vals h = [] \<and> flags h = [] \<or>
      (\<exists>k. 2 \<le> k \<and> k \<le> 31 \<and> n_buckets h = 2 ^ k) \<and>
      length (flags h) = ac_fsize (n_buckets h) \<and>
      length (keys h) = n_buckets h \<and> length (vals h) = n_buckets h) \<and>
     kh_size h = card (kh_live h) \<and>
     n_occupied h = card (kh_used h) \<and>
     upper_bound h = (if n_buckets h = 0 then 0 else ac_HASH_UPPER (n_buckets h)) \<and>
     n_occupied h \<le> upper_bound h \<and>
     inj_on (\<lambda>i. rep (kh_key h i)) (kh_live h) \<and>
     (\<forall>i \<in> kh_live h. kh_path hash (n_buckets h) (flags h) (kh_key h i) i)"

definition kh_lookup :: "('k \<Rightarrow> 'a) \<Rightarrow> ('k, 'v) khash \<Rightarrow> 'a \<Rightarrow> 'v option" where
  "kh_lookup rep h = map_of (map (\<lambda>(k, v). (rep k, v)) (kh_foreach h))"

text \<open>The two idioms of the clients: look a key up, and put a key and write its value.\<close>

definition kh_fetch ::
  "('k \<Rightarrow> 32 word) \<Rightarrow> ('k \<Rightarrow> 'k \<Rightarrow> bool) \<Rightarrow> ('k, 'v) khash \<Rightarrow> 'k \<Rightarrow> 'v option option" where
  "kh_fetch hash eq h key =
     Option.bind (kh_get hash eq h key)
       (\<lambda>x. Some (if x \<noteq> n_buckets h then Some (kh_val h x) else None))"

definition kh_store ::
  "('k \<Rightarrow> 32 word) \<Rightarrow> ('k \<Rightarrow> 'k \<Rightarrow> bool) \<Rightarrow> ('k, 'v) khash \<Rightarrow> 'k \<Rightarrow> 'v
     \<Rightarrow> (('k, 'v) khash \<times> int) option" where
  "kh_store hash eq h key v =
     Option.bind (kh_put hash eq h key) (\<lambda>(h', x, ret). Some (kh_set_val h' x v, ret))"

definition kh_remove ::
  "('k \<Rightarrow> 32 word) \<Rightarrow> ('k \<Rightarrow> 'k \<Rightarrow> bool) \<Rightarrow> ('k, 'v) khash \<Rightarrow> 'k \<Rightarrow> ('k, 'v) khash option" where
  "kh_remove hash eq h key = Option.bind (kh_get hash eq h key) (\<lambda>x. Some (kh_del h x))"

lemma finite_live [simp]: "finite (kh_live h)" and finite_used [simp]: "finite (kh_used h)"
  by (simp_all add: kh_live_def kh_used_def)

lemma live_subset_used: "kh_live h \<subseteq> kh_used h"
  by (auto simp: kh_live_def kh_used_def)

lemma set_kh_foreach: "set (kh_foreach h) = (\<lambda>i. (kh_key h i, kh_val h i)) ` kh_live h"
  by (auto simp: kh_foreach_def kh_exist_def kh_live_def ac_iseither_iff)

lemma distinct_foreach:
  "inj_on (\<lambda>i. rep (kh_key h i)) (kh_live h) \<Longrightarrow>
   distinct (map fst (map (\<lambda>(k, v). (rep k, v)) (kh_foreach h)))"
  by (auto simp: kh_foreach_def distinct_map comp_def kh_exist_def kh_live_def ac_iseither_iff
      inj_on_def)

lemma kh_lookup_Some:
  assumes "inj_on (\<lambda>i. rep (kh_key h i)) (kh_live h)"
  shows "kh_lookup rep h a = Some v \<longleftrightarrow> (\<exists>i \<in> kh_live h. rep (kh_key h i) = a \<and> kh_val h i = v)"
  unfolding kh_lookup_def map_of_eq_Some_iff [OF distinct_foreach [OF assms]]
  by (force simp: set_kh_foreach)

lemma kh_lookup_None:
  assumes "inj_on (\<lambda>i. rep (kh_key h i)) (kh_live h)"
  shows "kh_lookup rep h a = None \<longleftrightarrow> (\<forall>i \<in> kh_live h. rep (kh_key h i) \<noteq> a)"
  using kh_lookup_Some [OF assms, of a] by (metis not_None_eq)

lemma dom_kh_lookup: "dom (kh_lookup rep h) = (\<lambda>i. rep (kh_key h i)) ` kh_live h"
  unfolding kh_lookup_def dom_map_of_conv_image_fst by (force simp: set_kh_foreach)

lemma kh_inv_inj: "kh_inv hash rep h \<Longrightarrow> inj_on (\<lambda>i. rep (kh_key h i)) (kh_live h)"
  by (simp add: kh_inv_def)

lemma kh_size_dom: "kh_inv hash rep h \<Longrightarrow> kh_size h = card (dom (kh_lookup rep h))"
  by (simp add: dom_kh_lookup card_image kh_inv_inj) (simp add: kh_inv_def)

lemma kh_init_inv: "kh_inv hash rep kh_init"
  by (simp add: kh_inv_def kh_init_def kh_live_def kh_used_def)

lemma kh_init_lookup: "kh_lookup rep kh_init = Map.empty"
  by (simp add: kh_lookup_def kh_foreach_def kh_init_def)

section \<open>Bucket counts\<close>

lemma upper_less: "4 \<le> n \<Longrightarrow> ac_HASH_UPPER n < n"
  by (simp add: ac_HASH_UPPER_def)

lemma pow2_ge_4: "2 \<le> k \<Longrightarrow> 4 \<le> (2::nat) ^ k"
  using power_increasing [of 2 k "2::nat"] by simp

lemma pow2_16: "n = 2 ^ k \<Longrightarrow> 16 dvd n \<or> n < (16::nat)"
proof (cases "4 \<le> k")
  case True
  then show "n = 2 ^ k \<Longrightarrow> 16 dvd n \<or> n < 16" using le_imp_power_dvd [of 4 k "2::nat"] by simp
next
  case False
  then show "n = 2 ^ k \<Longrightarrow> 16 dvd n \<or> n < 16"
    using power_strict_increasing [of k 4 "2::nat"] by simp
qed

lemma flag_index:
  assumes "n = 2 ^ k" "i < n" "length fl = ac_fsize n"
  shows "i div 16 < length fl"
  using pow2_16 [OF assms(1)] assms(2,3)
  by (auto simp: ac_fsize_def word_index div_less_iff_less_mult)

lemma kroundup32_up: "2 \<le> k \<Longrightarrow> k \<le> 30 \<Longrightarrow> unat (kroundup32 (of_nat (2 ^ k + 1))) = 2 ^ Suc k"
proof -
  assume "2 \<le> k" "k \<le> 30"
  then have "k \<in> set [2..<31]" unfolding set_upt by simp
  moreover have "\<forall>k \<in> set [2..<31]. unat (kroundup32 (of_nat (2 ^ k + 1))) = 2 ^ Suc k"
    by (simp add: upt_rec_numeral kroundup32_def Let_def)
  ultimately show ?thesis by blast
qed

lemma kroundup32_same: "2 \<le> k \<Longrightarrow> k \<le> 31 \<Longrightarrow> unat (kroundup32 (of_nat (2 ^ k - 1))) = 2 ^ k"
proof -
  assume "2 \<le> k" "k \<le> 31"
  then have "k \<in> set [2..<32]" unfolding set_upt by simp
  moreover have "\<forall>k \<in> set [2..<32]. unat (kroundup32 (of_nat (2 ^ k - 1))) = 2 ^ k"
    by (simp add: upt_rec_numeral kroundup32_def Let_def)
  ultimately show ?thesis by blast
qed

lemma kroundup32_one: "unat (kroundup32 1) = 1"
  by (simp add: kroundup32_def Let_def)

section \<open>Key types\<close>

locale khash_keys =
  fixes hash :: "'k \<Rightarrow> 32 word"
    and eq :: "'k \<Rightarrow> 'k \<Rightarrow> bool"
    and rep :: "'k \<Rightarrow> 'a"
  assumes eq_rep: "eq a b \<longleftrightarrow> rep a = rep b"
    and hash_rep: "rep a = rep b \<Longrightarrow> hash a = hash b"
begin

text \<open>A loop over the probe sequence stops at its first stopping bucket, before the wrap test.\<close>

lemma get_loop_first:
  assumes n: "n_buckets h = 2 ^ k" and m: "m < 2 ^ k"
    and stop: "ac_isempty (flags h) (probe (2 ^ k) x m) \<or>
      \<not> ac_isdel (flags h) (probe (2 ^ k) x m) \<and> eq (kh_key h (probe (2 ^ k) x m)) key"
    and go: "\<forall>s < m. \<not> ac_isempty (flags h) (probe (2 ^ k) x s) \<and>
      (ac_isdel (flags h) (probe (2 ^ k) x s) \<or> \<not> eq (kh_key h (probe (2 ^ k) x s)) key)"
    and t: "t \<le> m"
  shows "kh_get_loop eq h key (2 ^ k - 1) (probe (2 ^ k) x 0) (probe (2 ^ k) x t) t =
    Some (if ac_iseither (flags h) (probe (2 ^ k) x m) then n_buckets h else probe (2 ^ k) x m)"
  using t
proof (induction "m - t" arbitrary: t)
  case 0
  then have "t = m" by simp
  then show ?case using stop by (subst kh_get_loop.simps) auto
next
  case (Suc d)
  then have tm: "t < m" and IH: "kh_get_loop eq h key (2 ^ k - 1) (probe (2 ^ k) x 0)
      (probe (2 ^ k) x (Suc t)) (Suc t) =
    Some (if ac_iseither (flags h) (probe (2 ^ k) x m) then n_buckets h else probe (2 ^ k) x m)"
    by auto
  have "probe (2 ^ k) x (Suc t) \<noteq> probe (2 ^ k) x 0"
    using probe_inj [of "Suc t" k 0 x] tm m by auto
  then show ?case
    using go tm IH by (subst kh_get_loop.simps, unfold probe_step) auto
qed

lemma put_loop_first:
  assumes n: "n_buckets h = 2 ^ k" and m: "m < 2 ^ k"
    and stop: "ac_isempty (flags h) (probe (2 ^ k) x m) \<or>
      \<not> ac_isdel (flags h) (probe (2 ^ k) x m) \<and> eq (kh_key h (probe (2 ^ k) x m)) key"
    and go: "\<forall>s < m. \<not> ac_isempty (flags h) (probe (2 ^ k) x s) \<and>
      (ac_isdel (flags h) (probe (2 ^ k) x s) \<or> \<not> eq (kh_key h (probe (2 ^ k) x s)) key)"
    and t: "t \<le> m"
    and site: "site = 2 ^ k \<or> (\<exists>s < m. site = probe (2 ^ k) x s \<and> ac_isdel (flags h) site)"
  shows "\<exists>r. kh_put_loop eq h key (2 ^ k - 1) (probe (2 ^ k) x 0) site (probe (2 ^ k) x t) t = Some r \<and>
    (r = probe (2 ^ k) x m \<or>
     ac_isempty (flags h) (probe (2 ^ k) x m) \<and>
     (\<exists>s < m. r = probe (2 ^ k) x s \<and> ac_isdel (flags h) r))"
  using t site
proof (induction "m - t" arbitrary: t site)
  case 0
  then have "t = m" by simp
  then show ?case using stop "0.prems"(2) n by (subst kh_put_loop.simps) auto
next
  case (Suc d)
  then have tm: "t < m" by simp
  let ?i = "probe (2 ^ k) x t"
  let ?site = "if ac_isdel (flags h) ?i then ?i else site"
  have wrap: "probe (2 ^ k) x (Suc t) \<noteq> probe (2 ^ k) x 0"
    using probe_inj [of "Suc t" k 0 x] tm m by auto
  have "?site = 2 ^ k \<or> (\<exists>s < m. ?site = probe (2 ^ k) x s \<and> ac_isdel (flags h) ?site)"
    using Suc.prems(2) tm by auto
  moreover have "d = m - Suc t" "Suc t \<le> m" using Suc.hyps(2) tm by auto
  ultimately have "\<exists>r. kh_put_loop eq h key (2 ^ k - 1) (probe (2 ^ k) x 0) ?site
      (probe (2 ^ k) x (Suc t)) (Suc t) = Some r \<and>
    (r = probe (2 ^ k) x m \<or>
     ac_isempty (flags h) (probe (2 ^ k) x m) \<and>
     (\<exists>s < m. r = probe (2 ^ k) x s \<and> ac_isdel (flags h) r))"
    using Suc.hyps(1) by blast
  then show ?case using go tm wrap by (subst kh_put_loop.simps, unfold probe_step) simp
qed


text \<open>There is always an empty bucket, so a probe sequence has a first stopping bucket.\<close>

lemma inv_empty_bucket:
  assumes "kh_inv hash rep h" "n_buckets h \<noteq> 0"
  obtains k y where "n_buckets h = 2 ^ k" "2 \<le> k" "k \<le> 31" "y < 2 ^ k" "ac_isempty (flags h) y"
proof -
  obtain k where k: "n_buckets h = 2 ^ k" "2 \<le> k" "k \<le> 31" using assms by (auto simp: kh_inv_def)
  have "card (kh_used h) < n_buckets h"
    using assms upper_less [of "n_buckets h"] pow2_ge_4 [OF k(2)] k(1) by (auto simp: kh_inv_def)
  then have "card (kh_used h) < card {..<n_buckets h}" by simp
  moreover have "kh_used h \<subseteq> {..<n_buckets h}" by (auto simp: kh_used_def)
  ultimately obtain y where "y < n_buckets h" "y \<notin> kh_used h"
    by (metis lessThan_iff nless_le subsetI subset_antisym)
  then show ?thesis using that k by (auto simp: kh_used_def)
qed

lemma first_stop:
  assumes "kh_inv hash rep h" "n_buckets h \<noteq> 0"
  obtains k m where "n_buckets h = 2 ^ k" "m < 2 ^ k"
    "ac_isempty (flags h) (probe (2 ^ k) x m) \<or>
      \<not> ac_isdel (flags h) (probe (2 ^ k) x m) \<and> eq (kh_key h (probe (2 ^ k) x m)) key"
    "\<forall>s < m. \<not> ac_isempty (flags h) (probe (2 ^ k) x s) \<and>
      (ac_isdel (flags h) (probe (2 ^ k) x s) \<or> \<not> eq (kh_key h (probe (2 ^ k) x s)) key)"
proof -
  obtain k y where k: "n_buckets h = 2 ^ k" and y: "y < 2 ^ k" "ac_isempty (flags h) y"
    using inv_empty_bucket [OF assms] by metis
  let ?P = "\<lambda>i. ac_isempty (flags h) i \<or> \<not> ac_isdel (flags h) i \<and> eq (kh_key h i) key"
  obtain m where "m < 2 ^ k" "?P (probe (2 ^ k) x m)" "\<forall>s < m. \<not> ?P (probe (2 ^ k) x s)"
    using probe_first [OF y(1), of ?P x] y(2) by blast
  then show ?thesis using that k by blast
qed

text \<open>A stored key is found at its own bucket.\<close>

lemma live_stop:
  assumes inv: "kh_inv hash rep h" and n: "n_buckets h = 2 ^ k" and m: "m < 2 ^ k"
    and stop: "ac_isempty (flags h) (probe (2 ^ k) (unat (hash key)) m) \<or>
      \<not> ac_isdel (flags h) (probe (2 ^ k) (unat (hash key)) m) \<and>
      eq (kh_key h (probe (2 ^ k) (unat (hash key)) m)) key"
    and go: "\<forall>s < m. \<not> ac_isempty (flags h) (probe (2 ^ k) (unat (hash key)) s) \<and>
      (ac_isdel (flags h) (probe (2 ^ k) (unat (hash key)) s) \<or>
       \<not> eq (kh_key h (probe (2 ^ k) (unat (hash key)) s)) key)"
    and i: "i \<in> kh_live h" "rep (kh_key h i) = rep key"
  shows "probe (2 ^ k) (unat (hash key)) m = i"
proof -
  have "hash (kh_key h i) = hash key" using i(2) by (rule hash_rep)
  moreover have "kh_path hash (2 ^ k) (flags h) (kh_key h i) i"
    using inv i(1) n by (auto simp: kh_inv_def)
  ultimately obtain t where t: "t < 2 ^ k" "probe (2 ^ k) (unat (hash key)) t = i"
    "\<forall>s < t. \<not> ac_isempty (flags h) (probe (2 ^ k) (unat (hash key)) s)"
    by (auto simp: kh_path_def)
  let ?j = "probe (2 ^ k) (unat (hash key)) m"
  have "\<not> t < m" using go t(2) i by (auto simp: kh_live_def eq_rep)
  moreover have "t = m" if "m < t"
  proof -
    from that t(3) stop have "\<not> ac_isempty (flags h) ?j" "\<not> ac_isdel (flags h) ?j"
      "rep (kh_key h ?j) = rep key" by (auto simp: eq_rep)
    then have "?j \<in> kh_live h" using n by (auto simp: kh_live_def)
    then have "?j = i" using kh_inv_inj [OF inv] i \<open>rep (kh_key h ?j) = rep key\<close>
      by (auto simp: inj_on_def)
    then show "t = m" using probe_inj t(1,2) m by metis
  qed
  ultimately show ?thesis using t(2) by (metis linorder_neqE_nat)
qed

lemma get_spec:
  assumes inv: "kh_inv hash rep h"
  shows "\<exists>r. kh_get hash eq h key = Some r \<and>
    (r \<in> kh_live h \<and> rep (kh_key h r) = rep key \<or>
     r = n_buckets h \<and> (\<forall>i \<in> kh_live h. rep (kh_key h i) \<noteq> rep key))"
proof (cases "n_buckets h = 0")
  case True
  then show ?thesis by (simp add: kh_get_def kh_live_def)
next
  case False
  let ?x = "unat (hash key)"
  obtain k m where k: "n_buckets h = 2 ^ k" and m: "m < 2 ^ k"
    and stop: "ac_isempty (flags h) (probe (2 ^ k) ?x m) \<or>
      \<not> ac_isdel (flags h) (probe (2 ^ k) ?x m) \<and> eq (kh_key h (probe (2 ^ k) ?x m)) key"
    and go: "\<forall>s < m. \<not> ac_isempty (flags h) (probe (2 ^ k) ?x s) \<and>
      (ac_isdel (flags h) (probe (2 ^ k) ?x s) \<or> \<not> eq (kh_key h (probe (2 ^ k) ?x s)) key)"
    by (rule first_stop [OF inv False])
  have "kh_get hash eq h key =
      Some (if ac_iseither (flags h) (probe (2 ^ k) ?x m) then n_buckets h else probe (2 ^ k) ?x m)"
    using get_loop_first [OF k m stop go, of 0] False k
    by (simp add: kh_get_def Let_def and_pow2_minus_1 [unfolded One_nat_def])
  moreover have "\<forall>i \<in> kh_live h. rep (kh_key h i) = rep key \<longrightarrow> probe (2 ^ k) ?x m = i"
    using live_stop [OF inv k m stop go] by blast
  ultimately show ?thesis using stop k
    by (auto simp: ac_iseither_iff kh_live_def eq_rep)
qed

lemma put_bucket_spec:
  assumes inv: "kh_inv hash rep h" and ne: "n_buckets h \<noteq> 0"
  shows "\<exists>r. kh_put_bucket hash eq h key = Some r \<and> r < n_buckets h \<and>
    (r \<in> kh_live h \<and> rep (kh_key h r) = rep key \<or>
     r \<notin> kh_live h \<and> (\<forall>i \<in> kh_live h. rep (kh_key h i) \<noteq> rep key) \<and>
     kh_path hash (n_buckets h) (flags h) key r)"
proof -
  let ?x = "unat (hash key)"
  obtain k m where k: "n_buckets h = 2 ^ k" and m: "m < 2 ^ k"
    and stop: "ac_isempty (flags h) (probe (2 ^ k) ?x m) \<or>
      \<not> ac_isdel (flags h) (probe (2 ^ k) ?x m) \<and> eq (kh_key h (probe (2 ^ k) ?x m)) key"
    and go: "\<forall>s < m. \<not> ac_isempty (flags h) (probe (2 ^ k) ?x s) \<and>
      (ac_isdel (flags h) (probe (2 ^ k) ?x s) \<or> \<not> eq (kh_key h (probe (2 ^ k) ?x s)) key)"
    by (rule first_stop [OF inv ne])
  note live = live_stop [OF inv k m stop go]
  have path: "kh_path hash (2 ^ k) (flags h) key (probe (2 ^ k) ?x s)" if "s \<le> m" for s
    unfolding kh_path_def by (rule exI [of _ s]) (use that go m in auto)
  have "\<exists>r. kh_put_bucket hash eq h key = Some r \<and> (r = probe (2 ^ k) ?x m \<or>
      ac_isempty (flags h) (probe (2 ^ k) ?x m) \<and>
      (\<exists>s < m. r = probe (2 ^ k) ?x s \<and> ac_isdel (flags h) r))"
  proof (cases "ac_isempty (flags h) (probe (2 ^ k) ?x 0)")
    case True
    then have "m = 0" using go by (metis bot_nat_0.not_eq_extremum)
    then show ?thesis using True k
      by (simp add: kh_put_bucket_def Let_def and_pow2_minus_1 [unfolded One_nat_def])
  next
    case False
    then show ?thesis using put_loop_first [OF k m stop go, of 0 "2 ^ k"] k
      by (simp add: kh_put_bucket_def Let_def and_pow2_minus_1 [unfolded One_nat_def])
  qed
  then obtain r where r: "kh_put_bucket hash eq h key = Some r"
    "r = probe (2 ^ k) ?x m \<or> ac_isempty (flags h) (probe (2 ^ k) ?x m) \<and>
      (\<exists>s < m. r = probe (2 ^ k) ?x s \<and> ac_isdel (flags h) r)" by blast
  show ?thesis
  proof (cases "ac_isempty (flags h) (probe (2 ^ k) ?x m)")
    case True
    then have "probe (2 ^ k) ?x m \<notin> kh_live h" by (simp add: kh_live_def)
    then have "\<forall>i \<in> kh_live h. rep (kh_key h i) \<noteq> rep key" using live by metis
    moreover have "r \<notin> kh_live h" using r(2) True by (auto simp: kh_live_def)
    moreover have "kh_path hash (2 ^ k) (flags h) key r" using r(2) path by auto
    ultimately show ?thesis using r k by auto
  next
    case False
    then have "r = probe (2 ^ k) ?x m" using r(2) by blast
    then show ?thesis using False stop r(1) k by (auto simp: kh_live_def eq_rep)
  qed
qed


subsection \<open>Writing a bucket\<close>

lemma set_val_inv: "kh_inv hash rep h \<Longrightarrow> kh_inv hash rep (kh_set_val h x v)"
  by (auto simp: kh_inv_def kh_set_val_def kh_live_def kh_used_def kh_key_def)

lemma set_val_live: "kh_live (kh_set_val h x v) = kh_live h"
  by (simp add: kh_live_def kh_set_val_def)

lemma set_val_lookup:
  assumes inv: "kh_inv hash rep h" and x: "x \<in> kh_live h"
  shows "kh_lookup rep (kh_set_val h x v) = (kh_lookup rep h)(rep (kh_key h x) \<mapsto> v)"
proof
  fix a
  let ?h = "kh_set_val h x v"
  have inj: "inj_on (\<lambda>i. rep (kh_key h i)) (kh_live h)" using inv by (rule kh_inv_inj)
  have key: "kh_key ?h i = kh_key h i" for i by (simp add: kh_key_def kh_set_val_def)
  have inj': "inj_on (\<lambda>i. rep (kh_key ?h i)) (kh_live ?h)" using inj by (simp add: key set_val_live)
  have "x < length (vals h)" using inv x by (auto simp: kh_inv_def kh_live_def)
  then have val: "kh_val ?h i = (if i = x then v else kh_val h i)" for i
    by (auto simp: kh_val_def kh_set_val_def nth_list_update)
  show "kh_lookup rep ?h a = ((kh_lookup rep h)(rep (kh_key h x) \<mapsto> v)) a"
  proof (cases "a = rep (kh_key h x)")
    case True
    then have "kh_lookup rep ?h a = Some v"
      unfolding kh_lookup_Some [OF inj'] using x by (auto simp: key val set_val_live)
    then show ?thesis using True by simp
  next
    case False
    have "kh_lookup rep ?h a = Some w \<longleftrightarrow> kh_lookup rep h a = Some w" for w
      unfolding kh_lookup_Some [OF inj'] kh_lookup_Some [OF inj] using False
      by (auto simp: key val set_val_live)
    then show ?thesis using False by (metis fun_upd_other not_Some_eq)
  qed
qed

text \<open>Filling a bucket that is not live.\<close>

lemma fill_bucket:
  assumes inv: "kh_inv hash rep h" and x: "x < n_buckets h" "x \<notin> kh_live h"
    and fresh: "\<forall>i \<in> kh_live h. rep (kh_key h i) \<noteq> rep key"
    and path: "kh_path hash (n_buckets h) (flags h) key x"
    and room: "n_occupied h < upper_bound h"
    and h': "h' = h\<lparr>keys := (keys h)[x := Some key], flags := ac_set_isboth_false (flags h) x,
      kh_size := kh_size h + 1,
      n_occupied := n_occupied h + (if ac_isempty (flags h) x then 1 else 0)\<rparr>"
  shows "kh_inv hash rep h'" "kh_live h' = insert x (kh_live h)" "rep (kh_key h' x) = rep key"
    "\<And>i. i \<in> kh_live h \<Longrightarrow> kh_key h' i = kh_key h i"
proof -
  obtain k where k: "n_buckets h = 2 ^ k" "2 \<le> k" "k \<le> 31"
    and len: "length (flags h) = ac_fsize (n_buckets h)" "length (keys h) = n_buckets h"
      "length (vals h) = n_buckets h"
    using inv x(1) by (auto simp: kh_inv_def)
  have idx: "x div 16 < length (flags h)" using flag_index [OF k(1) x(1) len(1)] .
  have live: "kh_live h' = insert x (kh_live h)"
    using x idx by (auto simp: h' kh_live_def kh_simps)
  have used: "kh_used h' = insert x (kh_used h)"
    using x idx by (auto simp: h' kh_used_def kh_simps)
  have key: "kh_key h' i = (if i = x then key else kh_key h i)" for i
    using x len by (simp add: h' kh_key_def nth_list_update)
  have more: "ac_isempty (flags h') i \<Longrightarrow> ac_isempty (flags h) i" for i
    using idx by (simp add: h' kh_simps)
  have sel: "n_buckets h' = n_buckets h" "upper_bound h' = upper_bound h" "vals h' = vals h"
    "kh_size h' = kh_size h + 1" "length (keys h') = length (keys h)"
    "length (flags h') = length (flags h)"
    by (simp_all add: h')
  have mono: "kh_path hash (n_buckets h) (flags h) w i \<Longrightarrow> kh_path hash (n_buckets h) (flags h') w i" for w i
    unfolding kh_path_def using more by blast
  have paths: "\<forall>i \<in> kh_live h'. kh_path hash (n_buckets h') (flags h') (kh_key h' i) i"
  proof
    fix i assume "i \<in> kh_live h'"
    then show "kh_path hash (n_buckets h') (flags h') (kh_key h' i) i"
      using mono path inv by (auto simp: live key kh_inv_def sel)
  qed
  have inj: "inj_on (\<lambda>i. rep (kh_key h' i)) (kh_live h')"
    using kh_inv_inj [OF inv] fresh x(2) by (auto simp: live key inj_on_def)
  have "ac_isempty (flags h) x \<longleftrightarrow> x \<notin> kh_used h" using x by (auto simp: kh_used_def)
  moreover have "n_occupied h' = n_occupied h + (if ac_isempty (flags h) x then 1 else 0)"
    by (simp add: h')
  ultimately have occ: "n_occupied h' = card (kh_used h')"
    using inv by (simp add: used kh_inv_def insert_absorb)
  have occ_le: "n_occupied h' \<le> upper_bound h'" using room by (simp add: h')
  show "kh_inv hash rep h'"
    unfolding kh_inv_def using inj paths occ occ_le k len inv x(2) live
    by (simp add: kh_inv_def sel)
  show "kh_live h' = insert x (kh_live h)" by (rule live)
  show "rep (kh_key h' x) = rep key" by (simp add: key)
  show "\<And>i. i \<in> kh_live h \<Longrightarrow> kh_key h' i = kh_key h i" using x(2) by (auto simp: key)
qed

lemma put_at_spec:
  assumes inv: "kh_inv hash rep h" and room: "n_occupied h < upper_bound h"
    and x: "x < n_buckets h"
    and spec: "x \<in> kh_live h \<and> rep (kh_key h x) = rep key \<or>
     x \<notin> kh_live h \<and> (\<forall>i \<in> kh_live h. rep (kh_key h i) \<noteq> rep key) \<and>
     kh_path hash (n_buckets h) (flags h) key x"
  shows "\<exists>h' r. kh_put_at h key x = (h', x, r) \<and> kh_inv hash rep h' \<and> x \<in> kh_live h' \<and>
    rep (kh_key h' x) = rep key \<and> (r = 0 \<longleftrightarrow> rep key \<in> dom (kh_lookup rep h)) \<and>
    kh_live h' = insert x (kh_live h) \<and> vals h' = vals h \<and>
    (\<forall>i \<in> kh_live h. rep (kh_key h' i) = rep (kh_key h i)) \<and>
    kh_size h' = kh_size h + (if r = 0 then 0 else 1) \<and>
    n_buckets h' = n_buckets h"
  using spec
proof
  assume live: "x \<in> kh_live h \<and> rep (kh_key h x) = rep key"
  then have "kh_put_at h key x = (h, x, 0)" by (simp add: kh_put_at_def kh_live_def)
  moreover have "rep key \<in> dom (kh_lookup rep h)"
    unfolding dom_kh_lookup using live by (metis imageI)
  ultimately show ?thesis using live inv by (auto simp: insert_absorb)
next
  assume new: "x \<notin> kh_live h \<and> (\<forall>i \<in> kh_live h. rep (kh_key h i) \<noteq> rep key) \<and>
     kh_path hash (n_buckets h) (flags h) key x"
  define h' where "h' = h\<lparr>keys := (keys h)[x := Some key], flags := ac_set_isboth_false (flags h) x,
      kh_size := kh_size h + 1,
      n_occupied := n_occupied h + (if ac_isempty (flags h) x then 1 else 0)\<rparr>"
  note fill = fill_bucket [OF inv x _ _ _ room h'_def]
  have put: "kh_put_at h key x = (h', x, if ac_isempty (flags h) x then 1 else 2)"
    using new x by (auto simp: kh_put_at_def h'_def kh_live_def)
  moreover have "rep key \<notin> dom (kh_lookup rep h)" using new by (auto simp: dom_kh_lookup)
  ultimately show ?thesis using fill new by (auto simp: h'_def)
qed

lemma lookup_same:
  assumes inj: "inj_on (\<lambda>i. rep (kh_key h i)) (kh_live h)"
    and inj': "inj_on (\<lambda>i. rep (kh_key h' i)) (kh_live h')"
    and same: "\<And>a v. (\<exists>i \<in> kh_live h'. rep (kh_key h' i) = a \<and> kh_val h' i = v) \<longleftrightarrow>
      (\<exists>i \<in> kh_live h. rep (kh_key h i) = a \<and> kh_val h i = v)"
  shows "kh_lookup rep h' = kh_lookup rep h"
proof
  fix a
  have "kh_lookup rep h' a = Some v \<longleftrightarrow> kh_lookup rep h a = Some v" for v
    unfolding kh_lookup_Some [OF inj'] kh_lookup_Some [OF inj] by (rule same)
  then show "kh_lookup rep h' a = kh_lookup rep h a" by (metis not_Some_eq)
qed

text \<open>Insertion into a table with room: the two halves of \<open>kh_store\<close> together.\<close>

lemma store_room:
  assumes inv: "kh_inv hash rep h" and room: "n_occupied h < upper_bound h"
    and ne: "n_buckets h \<noteq> 0"
  shows "\<exists>x h' r. kh_put_bucket hash eq h key = Some x \<and> kh_put_at h key x = (h', x, r) \<and>
    kh_inv hash rep (kh_set_val h' x v) \<and>
    kh_lookup rep (kh_set_val h' x v) = (kh_lookup rep h)(rep key \<mapsto> v) \<and>
    (r = 0 \<longleftrightarrow> rep key \<in> dom (kh_lookup rep h))"
proof -
  obtain x where x: "kh_put_bucket hash eq h key = Some x" "x < n_buckets h"
    and spec: "x \<in> kh_live h \<and> rep (kh_key h x) = rep key \<or>
     x \<notin> kh_live h \<and> (\<forall>i \<in> kh_live h. rep (kh_key h i) \<noteq> rep key) \<and>
     kh_path hash (n_buckets h) (flags h) key x"
    using put_bucket_spec [OF inv ne] by blast
  obtain h' r where h': "kh_put_at h key x = (h', x, r)" "kh_inv hash rep h'" "x \<in> kh_live h'"
    "rep (kh_key h' x) = rep key" "r = 0 \<longleftrightarrow> rep key \<in> dom (kh_lookup rep h)"
    "kh_live h' = insert x (kh_live h)" "vals h' = vals h"
    "\<forall>i \<in> kh_live h. rep (kh_key h' i) = rep (kh_key h i)"
    using put_at_spec [OF inv room x(2) spec] by blast
  have "kh_lookup rep (kh_set_val h' x v) = (kh_lookup rep h)(rep key \<mapsto> v)"
  proof
    fix a
    have inj: "inj_on (\<lambda>i. rep (kh_key h i)) (kh_live h)" using inv by (rule kh_inv_inj)
    have inj': "inj_on (\<lambda>i. rep (kh_key h' i)) (kh_live h')" using h'(2) by (rule kh_inv_inj)
    have *: "kh_lookup rep (kh_set_val h' x v) = (kh_lookup rep h')(rep key \<mapsto> v)"
      using set_val_lookup [OF h'(2,3)] h'(4) by simp
    have "kh_lookup rep h' a = kh_lookup rep h a" if "a \<noteq> rep key"
    proof -
      have "kh_lookup rep h' a = Some w \<longleftrightarrow> kh_lookup rep h a = Some w" for w
        unfolding kh_lookup_Some [OF inj'] kh_lookup_Some [OF inj]
        using that spec h'(4,6,7,8) by (auto simp: kh_val_def)
      then show ?thesis by (metis not_Some_eq)
    qed
    then show "kh_lookup rep (kh_set_val h' x v) a = ((kh_lookup rep h)(rep key \<mapsto> v)) a"
      by (simp add: *)
  qed
  then show ?thesis using x(1) h' set_val_inv [OF h'(2)] by blast
qed

end

end
