(* ===== verification/Khash_Rehash.thy ===== *)
theory Khash_Rehash
  imports Khash_Correct
begin

text \<open>
  The in-place rehash of \<open>kh_resize\<close>: while it runs, the old flags say which entries still wait
  (\<open>kh_live\<close> of the table under work), the new flags which buckets hold moved entries. Together
  with the entry in hand they are always the entries of the table before, and every moved entry
  lies on the probe path of its key.
\<close>

section \<open>Invariant of the rehash\<close>

definition rh_placed :: "nat \<Rightarrow> 32 word list \<Rightarrow> nat set" where
  "rh_placed nn nf = {i. i < nn \<and> \<not> ac_isempty nf i}"

definition rh_entry :: "('k \<Rightarrow> 'a) \<Rightarrow> ('k, 'v) khash \<Rightarrow> nat \<Rightarrow> 'a \<times> 'v" where
  "rh_entry rep h i = (rep (kh_key h i), kh_val h i)"

definition rh_inv ::
  "('k \<Rightarrow> 32 word) \<Rightarrow> ('k \<Rightarrow> 'a) \<Rightarrow> nat \<Rightarrow> ('a \<times> 'v) set \<Rightarrow> ('k, 'v) khash \<Rightarrow> 32 word list
     \<Rightarrow> ('k \<times> 'v) list \<Rightarrow> bool" where
  "rh_inv hash rep nn G h nf H \<longleftrightarrow>
     length nf = ac_fsize nn \<and> (\<forall>i < nn. \<not> ac_isdel nf i) \<and>
     length (keys h) = max (n_buckets h) nn \<and> length (vals h) = max (n_buckets h) nn \<and>
     (n_buckets h = 0 \<or> (\<exists>k. n_buckets h = 2 ^ k) \<and> length (flags h) = ac_fsize (n_buckets h)) \<and>
     kh_live h \<inter> rh_placed nn nf = {} \<and>
     inj_on (\<lambda>i. rep (kh_key h i)) (kh_live h \<union> rh_placed nn nf) \<and>
     (\<forall>(k, v) \<in> set H. \<forall>i \<in> kh_live h \<union> rh_placed nn nf. rep k \<noteq> rep (kh_key h i)) \<and>
     rh_entry rep h ` (kh_live h \<union> rh_placed nn nf) \<union> (\<lambda>(k, v). (rep k, v)) ` set H = G \<and>
     (\<forall>i \<in> rh_placed nn nf. kh_path hash nn nf (kh_key h i) i)"

lemma rh_flag_index:
  "rh_inv hash rep nn G h nf H \<Longrightarrow> i < n_buckets h \<Longrightarrow> i div 16 < length (flags h)"
  unfolding rh_inv_def by (metis flag_index not_less_zero)

lemma finite_placed [simp]: "finite (rh_placed nn nf)"
  by (simp add: rh_placed_def)

lemma rh_placed_card:
  assumes "rh_inv hash rep nn G h nf H" "finite G"
  shows "card (rh_placed nn nf) \<le> card G"
proof -
  have "inj_on (rh_entry rep h) (rh_placed nn nf)"
    using assms(1) by (auto simp: rh_inv_def rh_entry_def inj_on_def)
  moreover have "rh_entry rep h ` rh_placed nn nf \<subseteq> G"
    using assms(1) by (auto simp: rh_inv_def)
  ultimately show ?thesis using assms(2) by (metis card_image card_mono)
qed

lemma rh_empty_bucket:
  assumes "rh_inv hash rep nn G h nf H" "finite G" "card G < nn"
  shows "\<exists>y < nn. ac_isempty nf y"
proof (rule ccontr)
  assume "\<not> ?thesis"
  then have "rh_placed nn nf = {..<nn}" by (auto simp: rh_placed_def)
  then have "card (rh_placed nn nf) = nn" by simp
  then show False using rh_placed_card [OF assms(1,2)] assms(3) by simp
qed

text \<open>The search for a free new bucket stops at the first one of the probe sequence.\<close>

lemma find_empty_first:
  assumes "y < 2 ^ k" "ac_isempty nf y"
  shows "\<exists>m < 2 ^ k. kh_find_empty nf (2 ^ k - 1) (probe (2 ^ k) x 0) 0 = Some (probe (2 ^ k) x m) \<and>
    ac_isempty nf (probe (2 ^ k) x m) \<and> (\<forall>s < m. \<not> ac_isempty nf (probe (2 ^ k) x s))"
proof -
  obtain m where m: "m < 2 ^ k" "ac_isempty nf (probe (2 ^ k) x m)"
    "\<forall>s < m. \<not> ac_isempty nf (probe (2 ^ k) x s)"
    using probe_first [OF assms(1), of "ac_isempty nf" x] assms(2) by blast
  have "kh_find_empty nf (2 ^ k - 1) (probe (2 ^ k) x t) t = Some (probe (2 ^ k) x m)"
    if "t \<le> m" for t
    using that
  proof (induction "m - t" arbitrary: t)
    case 0
    then have "t = m" by simp
    then show ?case using m(2) by (subst kh_find_empty.simps) simp
  next
    case (Suc d)
    then have "t < m" by simp
    then have "\<not> ac_isempty nf (probe (2 ^ k) x t)" using m(3) by blast
    moreover have "kh_find_empty nf (2 ^ k - 1) (probe (2 ^ k) x (Suc t)) (Suc t) =
        Some (probe (2 ^ k) x m)"
      using Suc \<open>t < m\<close> by simp
    ultimately show ?case by (subst kh_find_empty.simps, unfold probe_step) simp
  qed
  then show ?thesis using m by blast
qed

text \<open>
  Writing the entry in hand into a free new bucket: an old entry found there is in hand next.
\<close>

lemma rh_write:
  assumes inv: "rh_inv hash rep nn G h nf [(key, v)]" and nn: "nn = 2 ^ k"
    and i: "i < nn" "ac_isempty nf i" and path: "kh_path hash nn nf key i"
    and h': "keys h' = (keys h)[i := Some key]" "vals h' = (vals h)[i := Some v]"
      "n_buckets h' = n_buckets h" "length (flags h') = length (flags h)"
      "kh_live h' = kh_live h - {i}"
  shows "rh_inv hash rep nn G h' (ac_set_isempty_false nf i)
    (if i \<in> kh_live h then [(kh_key h i, kh_val h i)] else [])"
proof -
  let ?nf = "ac_set_isempty_false nf i"
  let ?H = "if i \<in> kh_live h then [(kh_key h i, kh_val h i)] else []"
  have len: "length nf = ac_fsize nn" using inv by (simp add: rh_inv_def)
  have idx: "i div 16 < length nf" using flag_index [OF nn i(1) len] .
  have placed: "rh_placed nn ?nf = insert i (rh_placed nn nf)"
    using i idx by (auto simp: rh_placed_def kh_simps)
  have ni: "i \<notin> rh_placed nn nf" using i(2) by (simp add: rh_placed_def)
  have il: "i < length (keys h)" "i < length (vals h)" using inv i(1) by (auto simp: rh_inv_def)
  have key: "kh_key h' j = (if j = i then key else kh_key h j)" for j
    using il by (simp add: kh_key_def h' nth_list_update)
  have val: "kh_val h' j = (if j = i then v else kh_val h j)" for j
    using il by (simp add: kh_val_def h' nth_list_update)
  have mono: "kh_path hash nn nf w j \<Longrightarrow> kh_path hash nn ?nf w j" for w j
    unfolding kh_path_def using isempty_set_isempty_false [OF idx] by blast
  have all: "kh_live h' \<union> rh_placed nn ?nf = insert i (kh_live h \<union> rh_placed nn nf)"
    by (auto simp: h' placed)
  have inj: "inj_on (\<lambda>j. rep (kh_key h j)) (kh_live h \<union> rh_placed nn nf)"
    and hand: "\<forall>j \<in> kh_live h \<union> rh_placed nn nf. rep key \<noteq> rep (kh_key h j)"
    and disj: "kh_live h \<inter> rh_placed nn nf = {}"
    and G: "rh_entry rep h ` (kh_live h \<union> rh_placed nn nf) \<union> {(rep key, v)} = G"
    using inv by (auto simp: rh_inv_def)
  have inj': "inj_on (\<lambda>j. rep (kh_key h' j)) (kh_live h' \<union> rh_placed nn ?nf)"
  proof (rule inj_onI)
    fix a b assume "a \<in> kh_live h' \<union> rh_placed nn ?nf" "b \<in> kh_live h' \<union> rh_placed nn ?nf"
      and eq: "rep (kh_key h' a) = rep (kh_key h' b)"
    then have "a = i \<or> a \<in> kh_live h \<union> rh_placed nn nf" "b = i \<or> b \<in> kh_live h \<union> rh_placed nn nf"
      by (simp_all add: all)
    with eq inj hand show "a = b" unfolding key inj_on_def by metis
  qed
  have hand': "\<forall>(k, v) \<in> set ?H. \<forall>j \<in> kh_live h' \<union> rh_placed nn ?nf. rep k \<noteq> rep (kh_key h' j)"
  proof (cases "i \<in> kh_live h")
    case True
    have "rep (kh_key h i) \<noteq> rep (kh_key h' j)" if "j = i \<or> j \<in> kh_live h \<union> rh_placed nn nf" for j
      using that inj hand True unfolding key inj_on_def by (metis UnI1)
    then show ?thesis by (simp add: all True)
  qed simp
  have G': "rh_entry rep h' ` (kh_live h' \<union> rh_placed nn ?nf) \<union> (\<lambda>(k, v). (rep k, v)) ` set ?H = G"
  proof -
    let ?S = "kh_live h \<union> rh_placed nn nf"
    have "rh_entry rep h' j = (if j = i then (rep key, v) else rh_entry rep h j)" for j
      by (simp add: rh_entry_def key val)
    then have "rh_entry rep h' ` insert i ?S = insert (rep key, v) (rh_entry rep h ` (?S - {i}))"
      by auto
    moreover have "?S = (if i \<in> kh_live h then insert i (?S - {i}) else ?S - {i})" using ni by auto
    then have "rh_entry rep h ` ?S = rh_entry rep h ` (?S - {i}) \<union> (\<lambda>(k, v). (rep k, v)) ` set ?H"
      by (auto simp: rh_entry_def split: if_splits)
    ultimately show ?thesis unfolding all G [symmetric] by auto
  qed
  have paths: "\<forall>j \<in> rh_placed nn ?nf. kh_path hash nn ?nf (kh_key h' j) j"
    using inv mono path ni by (auto simp: placed key rh_inv_def)
  have disj': "kh_live h' \<inter> rh_placed nn ?nf = {}" using disj by (auto simp: h' placed)
  have del: "\<forall>j < nn. \<not> ac_isdel ?nf j" using inv idx by (simp add: rh_inv_def kh_simps)
  show ?thesis
    unfolding rh_inv_def using inj' hand' G' paths disj' del inv len
    by (simp add: h' rh_inv_def)
qed

lemma kick_spec:
  assumes inv: "rh_inv hash rep nn G h nf [(key, v)]" and nn: "nn = 2 ^ k"
    and G: "finite G" "card G < nn"
  shows "\<exists>h' nf'. kh_kick hash (nn - 1) h nf key v = Some (h', nf') \<and>
    rh_inv hash rep nn G h' nf' [] \<and> kh_live h' \<subseteq> kh_live h \<and>
    n_buckets h' = n_buckets h \<and> kh_size h' = kh_size h"
  using inv
proof (induction "card (kh_live h)" arbitrary: h nf key v rule: less_induct)
  case less
  obtain y where "y < 2 ^ k" "ac_isempty nf y" using rh_empty_bucket [OF less.prems G] nn by blast
  then obtain m where m: "m < 2 ^ k"
    and find: "kh_find_empty nf (nn - 1) (probe nn (unat (hash key)) 0) 0 =
      Some (probe nn (unat (hash key)) m)"
    and em: "ac_isempty nf (probe nn (unat (hash key)) m)"
    and before: "\<forall>s < m. \<not> ac_isempty nf (probe nn (unat (hash key)) s)"
    using find_empty_first nn by blast
  define i where "i = probe nn (unat (hash key)) m"
  have i: "i < nn" "ac_isempty nf i" using em by (auto simp: i_def nn)
  have path: "kh_path hash nn nf key i" unfolding kh_path_def i_def using m before nn by blast
  have start: "unat (hash key) AND (nn - 1) = probe nn (unat (hash key)) 0"
    unfolding nn and_pow2_minus_1 by simp
  have find_i: "kh_find_empty nf (nn - 1) (unat (hash key) AND (nn - 1)) 0 = Some i"
    unfolding start find i_def ..
  have fl: "i < n_buckets h \<Longrightarrow> i div 16 < length (flags h)"
    by (rule rh_flag_index [OF less.prems])
  let ?nf = "ac_set_isempty_false nf i"
  show ?case
  proof (cases "i \<in> kh_live h")
    case True
    define h1 where "h1 = h\<lparr>keys := (keys h)[i := Some key], vals := (vals h)[i := Some v],
      flags := ac_set_isdel_true (flags h) i\<rparr>"
    have live: "kh_live h1 = kh_live h - {i}"
      using fl True by (auto simp: h1_def kh_live_def kh_simps)
    have "rh_inv hash rep nn G h1 ?nf [(kh_key h i, kh_val h i)]"
      using rh_write [OF less.prems nn i path, of h1] live True by (simp add: h1_def)
    moreover have "card (kh_live h1) < card (kh_live h)"
      unfolding live using True by (metis card_Diff1_less finite_live)
    ultimately obtain h' nf' where IH:
      "kh_kick hash (nn - 1) h1 ?nf (kh_key h i) (kh_val h i) = Some (h', nf')"
      "rh_inv hash rep nn G h' nf' []" "kh_live h' \<subseteq> kh_live h1"
      "n_buckets h' = n_buckets h1" "kh_size h' = kh_size h1"
      using less.hyps by blast
    have "kh_kick hash (nn - 1) h nf key v = Some (h', nf')"
      using True IH(1)
      by (subst kh_kick.simps, unfold find_i) (simp add: h1_def kh_live_def ac_iseither_iff)
    then show ?thesis using IH live by (auto simp: h1_def)
  next
    case False
    define h1 where "h1 = h\<lparr>keys := (keys h)[i := Some key], vals := (vals h)[i := Some v]\<rparr>"
    have live: "kh_live h1 = kh_live h - {i}" using False by (simp add: h1_def kh_live_def)
    have "rh_inv hash rep nn G h1 ?nf []"
      using rh_write [OF less.prems nn i path, of h1] live False by (simp add: h1_def)
    moreover have "kh_kick hash (nn - 1) h nf key v = Some (h1, ?nf)"
      using False
      by (subst kh_kick.simps, unfold find_i) (auto simp: h1_def kh_live_def ac_iseither_iff)
    ultimately show ?thesis using live by (auto simp: h1_def)
  qed
qed


text \<open>Taking a waiting entry in hand.\<close>

lemma rh_take:
  assumes inv: "rh_inv hash rep nn G h nf []" and j: "j \<in> kh_live h"
  shows "rh_inv hash rep nn G (h\<lparr>flags := ac_set_isdel_true (flags h) j\<rparr>) nf
      [(kh_key h j, kh_val h j)]"
    and "kh_live (h\<lparr>flags := ac_set_isdel_true (flags h) j\<rparr>) = kh_live h - {j}"
proof -
  let ?h = "h\<lparr>flags := ac_set_isdel_true (flags h) j\<rparr>"
  have "j div 16 < length (flags h)"
    using rh_flag_index [OF inv] j by (simp add: kh_live_def)
  then show live: "kh_live ?h = kh_live h - {j}" by (auto simp: kh_live_def kh_simps)
  have key: "kh_key ?h i = kh_key h i" and val: "kh_val ?h i = kh_val h i" for i
    by (simp_all add: kh_key_def kh_val_def)
  have entry: "rh_entry rep ?h = rh_entry rep h" by (simp add: fun_eq_iff rh_entry_def key val)
  have inj: "inj_on (\<lambda>i. rep (kh_key h i)) (kh_live h \<union> rh_placed nn nf)"
    and disj: "kh_live h \<inter> rh_placed nn nf = {}"
    and G: "rh_entry rep h ` (kh_live h \<union> rh_placed nn nf) = G"
    using inv by (auto simp: rh_inv_def)
  have "kh_live h \<union> rh_placed nn nf = insert j (kh_live h - {j} \<union> rh_placed nn nf)"
    using j by auto
  then have "insert (rh_entry rep h j) (rh_entry rep h ` (kh_live h - {j} \<union> rh_placed nn nf)) = G"
    using G by (metis image_insert)
  then have G': "rh_entry rep h ` (kh_live h - {j} \<union> rh_placed nn nf) \<union>
      (\<lambda>(k, v). (rep k, v)) ` set [(kh_key h j, kh_val h j)] = G"
    unfolding rh_entry_def by simp
  have "rep (kh_key h j) \<noteq> rep (kh_key h i)" if "i \<in> kh_live h - {j} \<union> rh_placed nn nf" for i
    using that inj j disj by (auto simp: inj_on_def)
  then have "\<forall>(k, v) \<in> set [(kh_key h j, kh_val h j)].
      \<forall>i \<in> kh_live h - {j} \<union> rh_placed nn nf. rep k \<noteq> rep (kh_key h i)" by simp
  moreover have "inj_on (\<lambda>i. rep (kh_key h i)) (kh_live h - {j} \<union> rh_placed nn nf)"
    using inj by (rule inj_on_subset) auto
  moreover have "(kh_live h - {j}) \<inter> rh_placed nn nf = {}" using disj by auto
  moreover have "length (flags ?h) = length (flags h)" "n_buckets ?h = n_buckets h"
    "keys ?h = keys h" "vals ?h = vals h" by simp_all
  ultimately show "rh_inv hash rep nn G ?h nf [(kh_key h j, kh_val h j)]"
    using inv G' unfolding rh_inv_def entry live key val by simp
qed

lemma rehash_spec:
  assumes "rh_inv hash rep nn G h nf []" "nn = 2 ^ k" "finite G" "card G < nn"
    and "kh_live h \<subseteq> set js" "\<forall>j \<in> set js. j < n_buckets h"
  shows "\<exists>h' nf'. kh_rehash hash (nn - 1) js h nf = Some (h', nf') \<and>
    rh_inv hash rep nn G h' nf' [] \<and> kh_live h' = {} \<and>
    n_buckets h' = n_buckets h \<and> kh_size h' = kh_size h"
  using assms
proof (induction js arbitrary: h nf)
  case Nil
  then show ?case by simp
next
  case (Cons j js)
  show ?case
  proof (cases "j \<in> kh_live h")
    case True
    note take = rh_take [OF Cons.prems(1) True]
    obtain h1 nf1 where kick:
      "kh_kick hash (nn - 1) (h\<lparr>flags := ac_set_isdel_true (flags h) j\<rparr>) nf (kh_key h j) (kh_val h j)
        = Some (h1, nf1)"
      "rh_inv hash rep nn G h1 nf1 []" "kh_live h1 \<subseteq> kh_live h - {j}"
      "n_buckets h1 = n_buckets h" "kh_size h1 = kh_size h"
      using kick_spec [OF take(1) Cons.prems(2-4)] take(2) by auto
    have "kh_live h1 \<subseteq> set js" "\<forall>j \<in> set js. j < n_buckets h1"
      using kick(3,4) Cons.prems(5,6) by auto
    then obtain h' nf' where "kh_rehash hash (nn - 1) js h1 nf1 = Some (h', nf')"
      "rh_inv hash rep nn G h' nf' []" "kh_live h' = {}" "n_buckets h' = n_buckets h1"
      "kh_size h' = kh_size h1"
      using Cons.IH [OF kick(2) Cons.prems(2-4)] by blast
    moreover have "\<not> ac_iseither (flags h) j" using True by (simp add: kh_live_def ac_iseither_iff)
    ultimately show ?thesis using kick by simp
  next
    case False
    then have "ac_iseither (flags h) j" using Cons.prems(6) by (auto simp: kh_live_def ac_iseither_iff)
    moreover have "kh_live h \<subseteq> set js" using False Cons.prems(5) by auto
    ultimately show ?thesis using Cons by simp
  qed
qed

section \<open>Resizing keeps the contents\<close>

lemma expand_rh_inv:
  assumes inv: "kh_inv hash rep h" and nn: "nn = 2 ^ k"
  shows "rh_inv hash rep nn (rh_entry rep h ` kh_live h) (kh_expand nn h) (ac_fresh_flags nn) []"
    and "kh_live (kh_expand nn h) = kh_live h"
proof -
  let ?h = "kh_expand nn h"
  have sel: "n_buckets ?h = n_buckets h" "flags ?h = flags h" "kh_size ?h = kh_size h"
    by (simp_all add: kh_expand_def)
  show live: "kh_live ?h = kh_live h" by (simp add: kh_live_def sel)
  have lens: "length (keys h) = n_buckets h" "length (vals h) = n_buckets h"
    using inv by (auto simp: kh_inv_def)
  have "i < n_buckets h \<Longrightarrow> kh_key ?h i = kh_key h i \<and> kh_val ?h i = kh_val h i" for i
    using lens by (simp add: kh_key_def kh_val_def kh_expand_def nth_append)
  then have kv: "i \<in> kh_live h \<Longrightarrow> kh_key ?h i = kh_key h i \<and> kh_val ?h i = kh_val h i" for i
    by (simp add: kh_live_def)
  have entry: "rh_entry rep ?h ` kh_live h = rh_entry rep h ` kh_live h"
    by (rule image_cong) (auto simp: rh_entry_def kv)
  have placed: "rh_placed nn (ac_fresh_flags nn) = {}"
    using fresh_flags [OF _ pow2_16 [OF nn]] by (auto simp: rh_placed_def)
  have "inj_on (\<lambda>i. rep (kh_key ?h i)) (kh_live h)"
    using kh_inv_inj [OF inv] by (auto simp: inj_on_def kv)
  moreover have "length (keys ?h) = max (n_buckets h) nn" "length (vals ?h) = max (n_buckets h) nn"
    using lens by (auto simp: kh_expand_def)
  ultimately show "rh_inv hash rep nn (rh_entry rep h ` kh_live h) ?h (ac_fresh_flags nn) []"
    using inv entry placed fresh_flags [OF _ pow2_16 [OF nn]]
    by (auto simp: rh_inv_def live sel ac_fresh_flags_def kh_inv_def)
qed

lemma finish_spec:
  assumes inv: "rh_inv hash rep nn G h nf []" and live: "kh_live h = {}"
    and nn: "nn = 2 ^ k" "2 \<le> k" "k \<le> 31" and size: "kh_size h = card G" "card G < ac_HASH_UPPER nn"
  shows "kh_inv hash rep (kh_finish nn h nf)" "kh_live (kh_finish nn h nf) = rh_placed nn nf"
    "rh_entry rep (kh_finish nn h nf) ` rh_placed nn nf = G"
proof -
  let ?h = "kh_finish nn h nf"
  have sel: "n_buckets ?h = nn" "flags ?h = nf" "kh_size ?h = kh_size h" "n_occupied ?h = kh_size h"
    "upper_bound ?h = ac_HASH_UPPER nn"
    by (simp_all add: kh_finish_def Let_def)
  have lens: "length (keys h) = max (n_buckets h) nn" "length (vals h) = max (n_buckets h) nn"
    "length nf = ac_fsize nn"
    using inv by (auto simp: rh_inv_def)
  then have lens': "length (keys ?h) = nn" "length (vals ?h) = nn"
    by (auto simp: kh_finish_def Let_def)
  have kv: "i < nn \<Longrightarrow> kh_key ?h i = kh_key h i \<and> kh_val ?h i = kh_val h i" for i
    by (simp add: kh_finish_def Let_def kh_key_def kh_val_def)
  show live': "kh_live ?h = rh_placed nn nf"
    using inv by (auto simp: kh_live_def sel rh_placed_def rh_inv_def)
  have used: "kh_used ?h = rh_placed nn nf" by (simp add: kh_used_def sel rh_placed_def)
  have inj: "inj_on (\<lambda>i. rep (kh_key h i)) (rh_placed nn nf)"
    and G: "rh_entry rep h ` rh_placed nn nf = G"
    using inv live by (auto simp: rh_inv_def)
  have kvp: "i \<in> rh_placed nn nf \<Longrightarrow> kh_key ?h i = kh_key h i \<and> kh_val ?h i = kh_val h i" for i
    using kv by (simp add: rh_placed_def)
  then show "rh_entry rep ?h ` rh_placed nn nf = G"
    unfolding G [symmetric] by (intro image_cong) (auto simp: rh_entry_def)
  have "inj_on (rh_entry rep h) (rh_placed nn nf)" using inj by (auto simp: inj_on_def rh_entry_def)
  then have card: "card (rh_placed nn nf) = card G" using G by (metis card_image)
  have inj': "inj_on (\<lambda>i. rep (kh_key ?h i)) (rh_placed nn nf)"
    using inj by (auto simp: inj_on_def kvp)
  have "\<forall>i \<in> rh_placed nn nf. kh_path hash nn nf (kh_key ?h i) i"
    using inv by (auto simp: rh_inv_def kvp)
  then show "kh_inv hash rep ?h"
    unfolding kh_inv_def sel live' used using nn lens lens' inj' card size by auto
qed

lemma resize_spec:
  assumes inv: "kh_inv hash rep h"
    and nn: "nn = (let n = unat (kroundup32 (of_nat req)) in if n < 4 then 4 else n)"
      "nn = 2 ^ k" "2 \<le> k" "k \<le> 31"
    and size: "kh_size h < ac_HASH_UPPER nn"
  shows "\<exists>h'. kh_resize hash h req = Some h' \<and> kh_inv hash rep h' \<and>
    kh_lookup rep h' = kh_lookup rep h \<and> kh_size h' = kh_size h \<and> n_occupied h' = kh_size h' \<and>
    n_buckets h' = nn \<and> upper_bound h' = ac_HASH_UPPER nn"
proof -
  let ?G = "rh_entry rep h ` kh_live h"
  have inj: "inj_on (\<lambda>i. rep (kh_key h i)) (kh_live h)" using inv by (rule kh_inv_inj)
  then have "inj_on (rh_entry rep h) (kh_live h)" by (auto simp: inj_on_def rh_entry_def)
  then have card: "card ?G = kh_size h" using inv by (simp add: card_image kh_inv_def)
  have "ac_HASH_UPPER nn < nn" using upper_less pow2_ge_4 nn(2,3) by simp
  with size card have cardG: "card ?G < nn" by simp
  have ne: "n_buckets (kh_expand nn h) = n_buckets h" "kh_size (kh_expand nn h) = kh_size h"
    by (simp_all add: kh_expand_def)
  have js: "kh_live (kh_expand nn h) \<subseteq> set [0..<n_buckets h]"
    "\<forall>j \<in> set [0..<n_buckets h]. j < n_buckets (kh_expand nn h)"
    by (auto simp: kh_live_def ne)
  obtain h1 nf where h1:
    "kh_rehash hash (nn - 1) [0..<n_buckets h] (kh_expand nn h) (ac_fresh_flags nn) = Some (h1, nf)"
    "rh_inv hash rep nn ?G h1 nf []" "kh_live h1 = {}" "kh_size h1 = kh_size h"
    using rehash_spec [OF expand_rh_inv(1) [OF inv nn(2)] nn(2) _ cardG js] ne by auto
  have sz: "kh_size h1 = card ?G" "card ?G < ac_HASH_UPPER nn" using h1(4) card size by auto
  note fin = finish_spec [OF h1(2,3) nn(2-4) sz]
  let ?h = "kh_finish nn h1 nf"
  have res: "kh_resize hash h req = Some ?h"
    using h1(1) size nn(1) by (simp add: kh_resize_def Let_def)
  have "kh_lookup rep ?h = kh_lookup rep h"
  proof (rule ext, rule option.expand)
    fix a
    have "kh_lookup rep ?h a = Some v \<longleftrightarrow> kh_lookup rep h a = Some v" for v
    proof -
      have "kh_lookup rep ?h a = Some v \<longleftrightarrow> (a, v) \<in> rh_entry rep ?h ` kh_live ?h"
        unfolding kh_lookup_Some [OF kh_inv_inj [OF fin(1)]] by (auto simp: rh_entry_def)
      also have "\<dots> \<longleftrightarrow> (a, v) \<in> ?G" using fin by simp
      also have "\<dots> \<longleftrightarrow> kh_lookup rep h a = Some v"
        unfolding kh_lookup_Some [OF inj] by (auto simp: rh_entry_def)
      finally show ?thesis .
    qed
    then show "(kh_lookup rep ?h a = None) = (kh_lookup rep h a = None)"
      and "the (kh_lookup rep ?h a) = the (kh_lookup rep h a)"
      by (metis not_Some_eq)+
  qed
  then show ?thesis using res fin(1) h1(4) by (simp add: kh_finish_def Let_def)
qed

end
