(* ===== verification/Khash_Table.thy ===== *)
theory Khash_Table
  imports Khash_Rehash
begin

text \<open>
  The contract \<open>key_table\<close> of a keyed table and the proof that the hash table meets it for every
  key type of \<open>khash_keys\<close>; then the key types of the sources: C strings
  (\<open>KHASH_MAP_INIT_STR\<close>) and 64-bit integers (\<open>KHASH_SET_INIT_INT64\<close>).
\<close>

section \<open>Insertion, with growth\<close>

context khash_keys
begin

lemma grow_spec:
  assumes inv: "kh_inv hash rep h" and small: "kh_size h < 2 ^ 30"
    and full: "n_occupied h \<ge> upper_bound h"
    and req: "req = (if n_buckets h > push_bit 1 (kh_size h) then n_buckets h - 1 else n_buckets h + 1)"
  shows "\<exists>h'. kh_resize hash h req = Some h' \<and> kh_inv hash rep h' \<and>
    kh_lookup rep h' = kh_lookup rep h \<and> n_occupied h' < upper_bound h' \<and> n_buckets h' \<noteq> 0"
proof -
  have occ: "kh_size h \<le> n_occupied h" "n_occupied h \<le> upper_bound h"
    using inv card_mono [OF finite_used live_subset_used] by (auto simp: kh_inv_def)
  have "\<exists>k. 2 \<le> k \<and> k \<le> 31 \<and> 2 ^ k = (let n = unat (kroundup32 (of_nat req)) in if n < 4 then 4 else n) \<and>
      kh_size h < ac_HASH_UPPER (2 ^ k)"
  proof (cases "n_buckets h = 0")
    case True
    then have "kh_size h = 0" using inv by (simp add: kh_inv_def kh_live_def)
    then show ?thesis using True
      by (intro exI [of _ 2]) (simp add: req kroundup32_one ac_HASH_UPPER_def)
  next
    case False
    then obtain k where k: "n_buckets h = 2 ^ k" "2 \<le> k" "k \<le> 31" using inv by (auto simp: kh_inv_def)
    have up: "upper_bound h = ac_HASH_UPPER (2 ^ k)" using inv False k by (simp add: kh_inv_def)
    have ge: "4 \<le> (2::nat) ^ k" using pow2_ge_4 [OF k(2)] .
    show ?thesis
    proof (cases "2 ^ k > 2 * kh_size h")
      case True
      then have "req = 2 ^ k - 1" using req k by (simp add: push_bit_eq_mult)
      moreover have "kh_size h < ac_HASH_UPPER (2 ^ k)" using True ge by (simp add: ac_HASH_UPPER_def)
      ultimately show ?thesis using k ge kroundup32_same [OF k(2,3)]
        by (intro exI [of _ k]) (simp add: Let_def)
    next
      case no: False
      then have "req = 2 ^ k + 1" using req k by (simp add: push_bit_eq_mult)
      moreover have "(2::nat) ^ k < 2 ^ 31" using no small by simp
      then have "k \<le> 30" using power_less_imp_less_exp [of "2::nat" k 31] by simp
      moreover have "kh_size h < ac_HASH_UPPER (2 ^ Suc k)"
        using occ up ge by (simp add: ac_HASH_UPPER_def)
      ultimately show ?thesis using k ge kroundup32_up [OF k(2)]
        by (intro exI [of _ "Suc k"]) (simp add: Let_def)
    qed
  qed
  then obtain k where k: "2 \<le> k" "k \<le> 31" "kh_size h < ac_HASH_UPPER (2 ^ k)"
    "2 ^ k = (let n = unat (kroundup32 (of_nat req)) in if n < 4 then 4 else n)" by blast
  obtain h' where "kh_resize hash h req = Some h'" "kh_inv hash rep h'"
    "kh_lookup rep h' = kh_lookup rep h" "n_occupied h' = kh_size h'" "kh_size h' = kh_size h"
    "n_buckets h' = 2 ^ k" "upper_bound h' = ac_HASH_UPPER (2 ^ k)"
    using resize_spec [OF inv k(4) refl k(1,2,3)] by blast
  then show ?thesis using k(3) by simp
qed

lemma put_grow:
  assumes "kh_inv hash rep h" "kh_size h < 2 ^ 30"
  shows "\<exists>h1. (if n_occupied h \<ge> upper_bound h
        then if n_buckets h > push_bit 1 (kh_size h) then kh_resize hash h (n_buckets h - 1)
             else kh_resize hash h (n_buckets h + 1)
        else Some h) = Some h1 \<and> kh_inv hash rep h1 \<and> kh_lookup rep h1 = kh_lookup rep h \<and>
      n_occupied h1 < upper_bound h1 \<and> n_buckets h1 \<noteq> 0"
proof (cases "n_occupied h \<ge> upper_bound h")
  case True
  then show ?thesis using grow_spec [OF assms True refl] by (auto split: if_splits)
next
  case False
  moreover have "n_buckets h \<noteq> 0" using False assms(1) by (auto simp: kh_inv_def)
  ultimately show ?thesis using assms by auto
qed

lemma fetch_spec:
  assumes "kh_inv hash rep h"
  shows "kh_fetch hash eq h key = Some (kh_lookup rep h (rep key))"
proof -
  have inj: "inj_on (\<lambda>i. rep (kh_key h i)) (kh_live h)" using assms by (rule kh_inv_inj)
  obtain r where r: "kh_get hash eq h key = Some r"
    "r \<in> kh_live h \<and> rep (kh_key h r) = rep key \<or>
     r = n_buckets h \<and> (\<forall>i \<in> kh_live h. rep (kh_key h i) \<noteq> rep key)"
    using get_spec [OF assms] by blast
  from r(2) show ?thesis
  proof
    assume live: "r \<in> kh_live h \<and> rep (kh_key h r) = rep key"
    then have "kh_lookup rep h (rep key) = Some (kh_val h r)"
      unfolding kh_lookup_Some [OF inj] by blast
    then show ?thesis using r(1) live by (simp add: kh_fetch_def kh_live_def)
  next
    assume none: "r = n_buckets h \<and> (\<forall>i \<in> kh_live h. rep (kh_key h i) \<noteq> rep key)"
    then have "kh_lookup rep h (rep key) = None" unfolding kh_lookup_None [OF inj] by blast
    then show ?thesis using r(1) none by (simp add: kh_fetch_def)
  qed
qed

lemma store_spec:
  assumes "kh_inv hash rep h" "kh_size h < 2 ^ 30"
  shows "\<exists>h' r. kh_store hash eq h key v = Some (h', r) \<and> kh_inv hash rep h' \<and>
    kh_lookup rep h' = (kh_lookup rep h)(rep key \<mapsto> v) \<and>
    (r = 0 \<longleftrightarrow> rep key \<in> dom (kh_lookup rep h))"
proof -
  obtain h1 where h1: "(if n_occupied h \<ge> upper_bound h
        then if n_buckets h > push_bit 1 (kh_size h) then kh_resize hash h (n_buckets h - 1)
             else kh_resize hash h (n_buckets h + 1)
        else Some h) = Some h1" "kh_inv hash rep h1" "kh_lookup rep h1 = kh_lookup rep h"
      "n_occupied h1 < upper_bound h1" "n_buckets h1 \<noteq> 0"
    using put_grow [OF assms] by blast
  obtain x h' r where x: "kh_put_bucket hash eq h1 key = Some x" "kh_put_at h1 key x = (h', x, r)"
    "kh_inv hash rep (kh_set_val h' x v)"
    "kh_lookup rep (kh_set_val h' x v) = (kh_lookup rep h1)(rep key \<mapsto> v)"
    "r = 0 \<longleftrightarrow> rep key \<in> dom (kh_lookup rep h1)"
    using store_room [OF h1(2,4,5)] by blast
  have "kh_put hash eq h key = Some (h', x, r)"
    unfolding kh_put_def h1(1) using x(1,2) by simp
  then show ?thesis using x h1(3) by (simp add: kh_store_def)
qed

lemma del_spec:
  assumes inv: "kh_inv hash rep h" and x: "x \<in> kh_live h"
  shows "kh_inv hash rep (kh_del h x)" "kh_live (kh_del h x) = kh_live h - {x}"
proof -
  let ?h = "kh_del h x"
  obtain k where k: "n_buckets h = 2 ^ k" and len: "length (flags h) = ac_fsize (n_buckets h)"
    using inv x by (auto simp: kh_inv_def kh_live_def)
  have xn: "x < n_buckets h" using x by (simp add: kh_live_def)
  have idx: "x div 16 < length (flags h)" using flag_index [OF k xn len] .
  have h': "?h = h\<lparr>flags := ac_set_isdel_true (flags h) x, kh_size := kh_size h - 1\<rparr>"
    using x by (simp add: kh_del_def kh_live_def ac_iseither_iff)
  show live: "kh_live ?h = kh_live h - {x}" using idx by (auto simp: h' kh_live_def kh_simps)
  have used: "kh_used ?h = kh_used h" using idx by (auto simp: h' kh_used_def kh_simps)
  have key: "kh_key ?h i = kh_key h i" for i by (simp add: h' kh_key_def)
  have path: "kh_path hash n (flags ?h) w i \<longleftrightarrow> kh_path hash n (flags h) w i" for n w i
    using idx by (simp add: h' kh_path_def kh_simps)
  have "kh_size ?h = kh_size h - 1" by (simp add: h')
  then have "kh_size ?h = card (kh_live ?h)"
    unfolding live using inv x by (simp add: kh_inv_def card_Diff_singleton)
  moreover have "inj_on (\<lambda>i. rep (kh_key ?h i)) (kh_live ?h)"
    using kh_inv_inj [OF inv] by (simp add: key live inj_on_diff)
  moreover have "n_buckets ?h = n_buckets h" "n_occupied ?h = n_occupied h"
    "upper_bound ?h = upper_bound h" "keys ?h = keys h" "vals ?h = vals h"
    "length (flags ?h) = length (flags h)"
    by (simp_all add: h')
  moreover have "flags h \<noteq> []" using idx by auto
  ultimately show "kh_inv hash rep ?h" using inv xn unfolding kh_inv_def used path key by (auto simp: live)
qed

lemma remove_spec:
  assumes inv: "kh_inv hash rep h"
  shows "\<exists>h'. kh_remove hash eq h key = Some h' \<and> kh_inv hash rep h' \<and>
    kh_lookup rep h' = (kh_lookup rep h)(rep key := None)"
proof -
  have inj: "inj_on (\<lambda>i. rep (kh_key h i)) (kh_live h)" using inv by (rule kh_inv_inj)
  obtain r where r: "kh_get hash eq h key = Some r"
    "r \<in> kh_live h \<and> rep (kh_key h r) = rep key \<or>
     r = n_buckets h \<and> (\<forall>i \<in> kh_live h. rep (kh_key h i) \<noteq> rep key)"
    using get_spec [OF inv] by blast
  from r(2) show ?thesis
  proof
    assume live: "r \<in> kh_live h \<and> rep (kh_key h r) = rep key"
    then have rl: "r \<in> kh_live h" by simp
    note del = del_spec [OF inv rl]
    have kv: "kh_key (kh_del h r) i = kh_key h i" "kh_val (kh_del h r) i = kh_val h i" for i
      by (simp_all add: kh_del_def kh_key_def kh_val_def)
    have "kh_lookup rep (kh_del h r) a = ((kh_lookup rep h)(rep key := None)) a" for a
    proof -
      have "kh_lookup rep (kh_del h r) a = Some v \<longleftrightarrow> ((kh_lookup rep h)(rep key := None)) a = Some v" for v
        using kh_lookup_Some [OF kh_inv_inj [OF del(1)], of a v] kh_lookup_Some [OF inj, of a v]
          live inj by (auto simp: del(2) kv inj_on_def)
      then show ?thesis by (metis not_Some_eq)
    qed
    then show ?thesis using r(1) del(1) by (simp add: kh_remove_def fun_eq_iff)
  next
    assume none: "r = n_buckets h \<and> (\<forall>i \<in> kh_live h. rep (kh_key h i) \<noteq> rep key)"
    then have "kh_lookup rep h (rep key) = None" unfolding kh_lookup_None [OF inj] by blast
    then have "(kh_lookup rep h)(rep key := None) = kh_lookup rep h" by auto
    then show ?thesis using r(1) none inv by (simp add: kh_remove_def kh_del_def)
  qed
qed

end

section \<open>The contract of a keyed table\<close>

text \<open>
  What the users of the table rely on. \<open>look\<close> is the table as a finite map over the views of its
  keys, \<open>count\<close> its number of entries; \<open>store\<close> returns the table and the return code of
  \<open>kh_put\<close>.
\<close>

locale key_table =
  fixes empty :: "'t"
    and find :: "'t \<Rightarrow> 'k \<Rightarrow> 'v option option"
    and store :: "'t \<Rightarrow> 'k \<Rightarrow> 'v \<Rightarrow> ('t \<times> int) option"
    and remove :: "'t \<Rightarrow> 'k \<Rightarrow> 't option"
    and entries :: "'t \<Rightarrow> ('k \<times> 'v) list"
    and rep :: "'k \<Rightarrow> 'a"
    and look :: "'t \<Rightarrow> 'a \<Rightarrow> 'v option"
    and inv :: "'t \<Rightarrow> bool"
    and count :: "'t \<Rightarrow> nat"
  assumes empty_inv: "inv empty"
    and empty_look: "look empty = Map.empty"
    and find_look: "inv t \<Longrightarrow> find t k = Some (look t (rep k))"
    and store_look: "inv t \<Longrightarrow> count t < 2 ^ 30 \<Longrightarrow>
      \<exists>t' r. store t k v = Some (t', r) \<and> inv t' \<and> look t' = (look t)(rep k \<mapsto> v) \<and>
        (r = 0 \<longleftrightarrow> rep k \<in> dom (look t))"
    and remove_look: "inv t \<Longrightarrow>
      \<exists>t'. remove t k = Some t' \<and> inv t' \<and> look t' = (look t)(rep k := None)"
    and entries_look: "inv t \<Longrightarrow> map_of (map (\<lambda>(k, v). (rep k, v)) (entries t)) = look t"
    and entries_distinct: "inv t \<Longrightarrow> distinct (map (\<lambda>e. rep (fst e)) (entries t))"
    and count_dom: "inv t \<Longrightarrow> count t = card (dom (look t))"
begin

lemma storeE:
  assumes "inv t" "count t < 2 ^ 30"
  obtains t' r where "store t k v = Some (t', r)" "inv t'" "look t' = (look t)(rep k \<mapsto> v)"
    "r = 0 \<longleftrightarrow> rep k \<in> dom (look t)"
  using store_look [OF assms] that by blast

lemma store_total: "inv t \<Longrightarrow> count t < 2 ^ 30 \<Longrightarrow> store t k v \<noteq> None"
  using store_look [of t k v] by auto

lemma storeD:
  assumes "inv t" "count t < 2 ^ 30" "store t k v = Some (t', r)"
  shows "inv t'" "look t' = (look t)(rep k \<mapsto> v)" "r = 0 \<longleftrightarrow> rep k \<in> dom (look t)"
  using store_look [OF assms(1,2), of k v] assms(3) by auto

lemma find_store:
  assumes "inv t" "count t < 2 ^ 30" "store t k v = Some (t', r)"
  shows "find t' k' = (if rep k' = rep k then Some (Some v) else find t k')"
  using storeD [OF assms] assms(1) by (simp add: find_look)

lemma find_remove:
  assumes "inv t" "remove t k = Some t'"
  shows "find t' k' = (if rep k' = rep k then Some None else find t k')"
  using remove_look [OF assms(1), of k] assms by (auto simp: find_look)

lemma count_store:
  assumes "inv t" "count t < 2 ^ 30" "store t k v = Some (t', r)"
  shows "count t' = (if r = 0 then count t else Suc (count t))"
proof -
  note s = storeD [OF assms]
  have "finite (dom (look t))" using entries_look [OF assms(1)] finite_dom_map_of by metis
  then show ?thesis using s assms(1) by (auto simp: count_dom insert_absorb)
qed

lemma find_entries:
  assumes "inv t" "(k, v) \<in> set (entries t)"
  shows "find t k = Some (Some v)"
proof -
  let ?l = "map (\<lambda>(k, v). (rep k, v)) (entries t)"
  have "map fst ?l = map (\<lambda>e. rep (fst e)) (entries t)" by (simp add: comp_def case_prod_beta)
  then have "distinct (map fst ?l)" using entries_distinct [OF assms(1)] by metis
  moreover have "(rep k, v) \<in> set ?l" using assms(2) by force
  ultimately have "map_of ?l (rep k) = Some v" by (rule map_of_is_SomeI)
  then show ?thesis using assms(1) by (simp add: entries_look find_look)
qed

end

sublocale khash_keys \<subseteq> table: key_table kh_init "kh_fetch hash eq" "kh_store hash eq" "kh_remove hash eq"
  kh_foreach rep "kh_lookup rep" "kh_inv hash rep" kh_size
proof
  show "kh_inv hash rep kh_init" by (rule kh_init_inv)
  show "kh_lookup rep kh_init = Map.empty" by (rule kh_init_lookup)
  fix t assume inv: "kh_inv hash rep t"
  show "kh_fetch hash eq t k = Some (kh_lookup rep t (rep k))" for k
    using inv by (rule fetch_spec)
  show "\<exists>t' r. kh_store hash eq t k v = Some (t', r) \<and> kh_inv hash rep t' \<and>
      kh_lookup rep t' = (kh_lookup rep t)(rep k \<mapsto> v) \<and> (r = 0 \<longleftrightarrow> rep k \<in> dom (kh_lookup rep t))"
    if "kh_size t < 2 ^ 30" for k v
    using inv that by (rule store_spec)
  show "\<exists>t'. kh_remove hash eq t k = Some t' \<and> kh_inv hash rep t' \<and>
      kh_lookup rep t' = (kh_lookup rep t)(rep k := None)" for k
    using inv by (rule remove_spec)
  show "map_of (map (\<lambda>(k, v). (rep k, v)) (kh_foreach t)) = kh_lookup rep t"
    by (simp add: kh_lookup_def)
  show "distinct (map (\<lambda>e. rep (fst e)) (kh_foreach t))"
    using distinct_foreach [OF kh_inv_inj [OF inv]] by (simp add: comp_def case_prod_beta)
  show "kh_size t = card (dom (kh_lookup rep t))" using inv by (rule kh_size_dom)
qed

section \<open>The key types of the sources\<close>

text \<open>
  A C string is what precedes the first NUL. \<open>*s\<close> is a signed \<open>char\<close> and is sign-extended to
  \<open>khint_t\<close>. \<open>strcmp\<close> compares the bytes before the NUL.
\<close>

definition cstr :: "bytes \<Rightarrow> bytes" where
  "cstr s = takeWhile (\<lambda>c. c \<noteq> 0) s"

definition khint_of_char :: "byte \<Rightarrow> 32 word" where
  "khint_of_char c = signed c"

definition ac_X31_hash_string :: "bytes \<Rightarrow> 32 word" where
  "ac_X31_hash_string s =
     (case cstr s of
        [] \<Rightarrow> 0
      | c # cs \<Rightarrow> fold (\<lambda>c h. push_bit 5 h - h + khint_of_char c) cs (khint_of_char c))"

definition kh_str_hash_equal :: "bytes \<Rightarrow> bytes \<Rightarrow> bool" where
  "kh_str_hash_equal a b \<longleftrightarrow> cstr a = cstr b"

definition kh_int64_hash_func :: "64 word \<Rightarrow> 32 word" where
  "kh_int64_hash_func key = ucast (drop_bit 33 key XOR key XOR push_bit 11 key)"

definition kh_int64_hash_equal :: "64 word \<Rightarrow> 64 word \<Rightarrow> bool" where
  "kh_int64_hash_equal a b \<longleftrightarrow> a = b"

interpretation str_table: khash_keys ac_X31_hash_string kh_str_hash_equal cstr
  by unfold_locales (simp_all add: kh_str_hash_equal_def ac_X31_hash_string_def)

interpretation i64_table: khash_keys kh_int64_hash_func kh_int64_hash_equal "\<lambda>k. k"
  by unfold_locales (simp_all add: kh_int64_hash_equal_def)

text \<open>The table of the string-keyed hashes of the runtime, by the names its clients use.\<close>

type_synonym 'v str_khash = "(bytes, 'v) khash"

abbreviation str_kh_get :: "'v str_khash \<Rightarrow> bytes \<Rightarrow> 'v option option" where
  "str_kh_get \<equiv> kh_fetch ac_X31_hash_string kh_str_hash_equal"

abbreviation str_kh_put :: "'v str_khash \<Rightarrow> bytes \<Rightarrow> 'v \<Rightarrow> ('v str_khash \<times> int) option" where
  "str_kh_put \<equiv> kh_store ac_X31_hash_string kh_str_hash_equal"

abbreviation str_kh_inv :: "'v str_khash \<Rightarrow> bool" where
  "str_kh_inv \<equiv> kh_inv ac_X31_hash_string cstr"

abbreviation str_kh_map :: "'v str_khash \<Rightarrow> bytes \<Rightarrow> 'v option" where
  "str_kh_map \<equiv> kh_lookup cstr"

section \<open>Sequences of operations on a string table\<close>

text \<open>The two changing operations as data, and their effect on the table and on a map.\<close>

datatype 'v table_op = Store bytes 'v | Remove bytes

fun run_table :: "'v table_op list \<Rightarrow> 'v str_khash \<Rightarrow> 'v str_khash option" where
  "run_table [] t = Some t"
| "run_table (Store k v # ops) t = Option.bind (str_kh_put t k v) (\<lambda>(t', _). run_table ops t')"
| "run_table (Remove k # ops) t =
     Option.bind (kh_remove ac_X31_hash_string kh_str_hash_equal t k) (run_table ops)"

fun spec_table :: "'v table_op list \<Rightarrow> (bytes \<rightharpoonup> 'v) \<Rightarrow> (bytes \<rightharpoonup> 'v)" where
  "spec_table [] m = m"
| "spec_table (Store k v # ops) m = spec_table ops (m(cstr k \<mapsto> v))"
| "spec_table (Remove k # ops) m = spec_table ops (m(cstr k := None))"

lemma remove_size:
  assumes "str_kh_inv t" "kh_remove ac_X31_hash_string kh_str_hash_equal t k = Some t'"
  shows "kh_size t' \<le> kh_size t"
  using assms(2) by (auto simp: kh_remove_def kh_del_def bind_eq_Some_conv)

lemma run_table_spec:
  assumes "str_kh_inv t" "kh_size t + length ops \<le> 2 ^ 30"
  shows "\<exists>t'. run_table ops t = Some t' \<and> str_kh_inv t' \<and> str_kh_map t' = spec_table ops (str_kh_map t)"
  using assms
proof (induction ops arbitrary: t)
  case (Cons op ops)
  show ?case
  proof (cases op)
    case (Store k v)
    have lt: "kh_size t < 2 ^ 30" using Cons.prems(2) by simp
    obtain t1 r where s: "str_kh_put t k v = Some (t1, r)"
      using str_table.table.store_look [OF Cons.prems(1) lt, of k v] by blast
    note d = str_table.table.storeD [OF Cons.prems(1) lt s]
    have "kh_size t1 \<le> Suc (kh_size t)"
      using str_table.table.count_store [OF Cons.prems(1) lt s] by simp
    then have "kh_size t1 + length ops \<le> 2 ^ 30" using Cons.prems(2) by simp
    from Cons.IH [OF d(1) this] show ?thesis unfolding Store run_table.simps spec_table.simps s d(2)
      by (simp only: bind.bind_lunit prod.case)
  next
    case (Remove k)
    obtain t1 where s: "kh_remove ac_X31_hash_string kh_str_hash_equal t k = Some t1"
      "str_kh_inv t1" "str_kh_map t1 = (str_kh_map t)(cstr k := None)"
      using str_table.table.remove_look [OF Cons.prems(1), of k] by blast
    have "kh_size t1 + length ops \<le> 2 ^ 30"
      using Cons.prems(2) remove_size [OF Cons.prems(1) s(1)] by simp
    from Cons.IH [OF s(2) this] show ?thesis unfolding Remove run_table.simps spec_table.simps s
      by (simp only: bind.bind_lunit)
  qed
qed simp

section \<open>Properties\<close>

text \<open>
  C2: inserting into a string-keyed hash always returns; afterwards the key has the
  new value, every other key (as a C string) has what it had, and the return code is 0 exactly
  when the key was present. The bound keeps the bucket count within 32 bits.
\<close>

theorem str_table_put_get:
  assumes "str_kh_inv t" "kh_size t < 2 ^ 30"
  shows "\<exists>t' r. str_kh_put t k v = Some (t', r) \<and> str_kh_inv t' \<and>
    (\<forall>k'. str_kh_get t' k' = (if cstr k' = cstr k then Some (Some v) else str_kh_get t k')) \<and>
    (r = 0 \<longleftrightarrow> str_kh_get t k \<noteq> Some None) \<and>
    kh_size t' = (if r = 0 then kh_size t else Suc (kh_size t))"
proof -
  obtain t' r where s: "str_kh_put t k v = Some (t', r)" "str_kh_inv t'"
    "r = 0 \<longleftrightarrow> cstr k \<in> dom (str_kh_map t)"
    using str_table.table.storeE [OF assms, of k v] by metis
  have "str_kh_get t k \<noteq> Some None \<longleftrightarrow> cstr k \<in> dom (str_kh_map t)"
    by (simp add: str_table.table.find_look [OF assms(1)] domIff)
  then show ?thesis
    using s str_table.table.find_store [OF assms s(1)] str_table.table.count_store [OF assms s(1)]
    by simp
qed

theorem str_table_put_get_witness:
  "\<exists>t' r. str_kh_put (kh_init :: nat str_khash) [97] 7 = Some (t', r) \<and> str_kh_get t' [97] = Some (Some 7)"
  using str_table_put_get [of "kh_init :: nat str_khash" "[97]" 7] kh_init_inv
  by (fastforce simp: kh_init_def)

text \<open>
  C3: \<open>kh_foreach\<close> over a well-formed string table visits every entry exactly once,
  with the value that a lookup of its key finds.
\<close>

theorem str_table_foreach:
  assumes "str_kh_inv t"
  shows "distinct (map (\<lambda>e. cstr (fst e)) (kh_foreach t)) \<and> length (kh_foreach t) = kh_size t \<and>
    (\<forall>k v. str_kh_get t k = Some (Some v) \<longleftrightarrow> (\<exists>k'. cstr k' = cstr k \<and> (k', v) \<in> set (kh_foreach t)))"
proof (intro conjI allI)
  let ?l = "map (\<lambda>(k, v). (cstr k, v)) (kh_foreach t)"
  show d: "distinct (map (\<lambda>e. cstr (fst e)) (kh_foreach t))"
    by (rule str_table.table.entries_distinct [OF assms])
  have fst: "map fst ?l = map (\<lambda>e. cstr (fst e)) (kh_foreach t)"
    by (simp add: comp_def case_prod_beta)
  have look: "map_of ?l = str_kh_map t" by (rule str_table.table.entries_look [OF assms])
  have "card (dom (map_of ?l)) = length (kh_foreach t)"
    using d fst by (metis dom_map_of_conv_image_fst distinct_card length_map list.set_map)
  then show "length (kh_foreach t) = kh_size t"
    using kh_size_dom [OF assms] look by simp
  fix k v
  have "distinct (map fst ?l)" unfolding fst by (rule d)
  then have "map_of ?l (cstr k) = Some v \<longleftrightarrow> (cstr k, v) \<in> set ?l" by simp
  moreover have "(cstr k, v) \<in> set ?l \<longleftrightarrow> (\<exists>k'. cstr k' = cstr k \<and> (k', v) \<in> set (kh_foreach t))"
    by force
  ultimately
  show "str_kh_get t k = Some (Some v) \<longleftrightarrow> (\<exists>k'. cstr k' = cstr k \<and> (k', v) \<in> set (kh_foreach t))"
    by (simp add: str_table.table.find_look [OF assms] look)
qed

theorem str_table_foreach_witness:
  "length (kh_foreach (kh_init :: nat str_khash)) = kh_size (kh_init :: nat str_khash)"
  using str_table_foreach [of "kh_init :: nat str_khash"] kh_init_inv by blast

text \<open>
  C1: any sequence of insertions and deletions on an initially empty string table
  terminates, growing and rehashing as it goes, and lookups answer as they would on the finite
  map that received the same updates.
\<close>

theorem str_table_refines_map:
  assumes "length ops \<le> 2 ^ 30"
  shows "\<exists>t :: 'a str_khash. run_table ops kh_init = Some t \<and> str_kh_inv t \<and>
    (\<forall>k. str_kh_get t k = Some (spec_table ops Map.empty (cstr k)))"
proof -
  have i: "str_kh_inv (kh_init :: 'a str_khash)" by (rule kh_init_inv)
  have "kh_size (kh_init :: 'a str_khash) + length ops \<le> 2 ^ 30" using assms by (simp add: kh_init_def)
  from run_table_spec [OF i this] obtain t where
    "run_table ops kh_init = Some t" "str_kh_inv t" "str_kh_map t = spec_table ops Map.empty"
    unfolding kh_init_lookup by blast
  then show ?thesis by (simp add: str_table.table.find_look)
qed

theorem str_table_refines_map_witness:
  "\<exists>t. run_table [Store [97] (1::nat), Store [98] 2, Remove [97, 0, 99]] kh_init = Some t \<and>
     str_kh_get t [97] = Some None \<and> str_kh_get t [98] = Some (Some 2)"
proof -
  let ?ops = "[Store [97] (1::nat), Store [98] 2, Remove [97, 0, 99]]"
  obtain t where t: "run_table ?ops kh_init = Some t"
    "\<And>k. str_kh_get t k = Some (spec_table ?ops Map.empty (cstr k))"
    using str_table_refines_map [of ?ops] by auto
  show ?thesis unfolding t(1) by (simp add: t(2) cstr_def)
qed

end
