(* ===== verification/Val_Vec.thy ===== *)
theory Val_Vec
  imports Pone_Prelude
begin

text \<open>
  The growing vector of values (\<^verbatim>\<open>include/pone_val_vec.h\<close>). The slots hold addresses, 64-bit words, because
  \<open>pone_val_vec_delete\<close> moves them by bytes; \<open>vv_a\<close> is the whole block of \<open>vv_m\<close> slots, of which the first \<open>vv_n\<close>
  are in use. Memory is always available, and the capacity stays far below the bound of \<open>long\<close>.
\<close>

section \<open>Operations\<close>

record pone_val_vec =
  vv_n :: nat
  vv_m :: nat
  vv_a :: "64 word list"

definition pone_val_vec_init :: pone_val_vec where
  "pone_val_vec_init = \<lparr>vv_n = 0, vv_m = 0, vv_a = []\<rparr>"

text \<open>\<open>realloc\<close> keeps the contents; the new slots are not initialised, here 0.\<close>

definition pone_val_vec_push :: "64 word \<Rightarrow> pone_val_vec \<Rightarrow> (unit, pone_val_vec) outcome" where
  "pone_val_vec_push v vec =
     (let vec = (if vv_n vec = vv_m vec
                 then let m = (if vv_m vec = 0 then 2 else push_bit 1 (vv_m vec))
                      in vec\<lparr>vv_m := m, vv_a := take m (vv_a vec @ replicate m 0)\<rparr>
                 else vec)
      in if vv_n vec < length (vv_a vec)
         then Ret () (vec\<lparr>vv_a := (vv_a vec)[vv_n vec := v], vv_n := Suc (vv_n vec)\<rparr>)
         else Undef)"

definition pone_val_vec_last :: "pone_val_vec \<Rightarrow> (64 word, pone_val_vec) outcome" where
  "pone_val_vec_last vec =
     (if 0 < vv_n vec \<and> vv_n vec \<le> length (vv_a vec) then Ret (vv_a vec ! (vv_n vec - 1)) vec else Undef)"

definition pone_val_vec_pop :: "pone_val_vec \<Rightarrow> (unit, pone_val_vec) outcome" where
  "pone_val_vec_pop vec = (if 0 < vv_n vec then Ret () (vec\<lparr>vv_n := vv_n vec - 1\<rparr>) else Abort)"

text \<open>The index is signed: a negative one passes the assertion and reads before the block.\<close>

definition pone_val_vec_get :: "int \<Rightarrow> pone_val_vec \<Rightarrow> (64 word, pone_val_vec) outcome" where
  "pone_val_vec_get i vec =
     (if int (vv_n vec) \<le> i then Abort
      else if 0 \<le> i \<and> nat i < length (vv_a vec) then Ret (vv_a vec ! nat i) vec else Undef)"

definition pone_val_vec_size :: "pone_val_vec \<Rightarrow> nat" where
  "pone_val_vec_size vec = vv_n vec"

text \<open>The bytes of a word, the lowest first, and the word of eight bytes.\<close>

definition word_bytes :: "64 word \<Rightarrow> byte list" where
  "word_bytes x = map (\<lambda>i. ucast (drop_bit (8 * i) x)) [0..<8]"

definition bytes_word :: "byte list \<Rightarrow> 64 word" where
  "bytes_word b = foldr (\<lambda>c x. ucast c + 256 * x) b 0"

fun bytes_words :: "nat \<Rightarrow> byte list \<Rightarrow> 64 word list" where
  "bytes_words 0 b = []"
| "bytes_words (Suc k) b = bytes_word (take 8 b) # bytes_words k (drop 8 b)"

text \<open>\<open>memmove\<close> of \<open>len\<close> bytes.\<close>

definition memmove :: "nat \<Rightarrow> nat \<Rightarrow> nat \<Rightarrow> byte list \<Rightarrow> byte list" where
  "memmove dst src len b = take dst b @ take len (drop src b) @ drop (dst + len) b"

text \<open>The length given to \<open>memmove\<close> is a number of slots, not of bytes.\<close>

definition pone_val_vec_delete :: "int \<Rightarrow> pone_val_vec \<Rightarrow> (unit, pone_val_vec) outcome" where
  "pone_val_vec_delete i vec =
     (if int (vv_n vec) \<le> i then Abort
      else if i < 0 \<or> length (vv_a vec) < vv_n vec then Undef
      else let b = concat (map word_bytes (vv_a vec));
               b' = memmove (8 * nat i) (8 * (nat i + 1)) (vv_n vec - nat i - 1) b
           in Ret () (vec\<lparr>vv_a := bytes_words (length (vv_a vec)) b', vv_n := vv_n vec - 1\<rparr>))"

section \<open>Properties\<close>

definition vec_ok :: "pone_val_vec \<Rightarrow> bool" where
  "vec_ok vec \<longleftrightarrow> length (vv_a vec) = vv_m vec \<and> vv_n vec \<le> vv_m vec"

definition vec_list :: "pone_val_vec \<Rightarrow> 64 word list" where
  "vec_list vec = take (vv_n vec) (vv_a vec)"

lemma vec_init_ok: "vec_ok pone_val_vec_init" "vec_list pone_val_vec_init = []"
  by (simp_all add: vec_ok_def vec_list_def pone_val_vec_init_def)

lemma push_ok:
  assumes "vec_ok vec"
  shows "\<exists>vec'. pone_val_vec_push v vec = Ret () vec' \<and> vec_ok vec' \<and> vec_list vec' = vec_list vec @ [v]"
proof (cases "vv_n vec = vv_m vec")
  case True
  define m where "m = (if vv_m vec = 0 then 2 else push_bit 1 (vv_m vec))"
  have m: "vv_m vec < m" by (simp add: m_def push_bit_eq_mult)
  let ?a = "take m (vv_a vec @ replicate m 0)"
  have a: "length ?a = m" "take (vv_n vec) ?a = take (vv_n vec) (vv_a vec)"
    using assms True m by (simp_all add: vec_ok_def min_def)
  have "pone_val_vec_push v vec = Ret () (vec\<lparr>vv_m := m, vv_a := ?a[vv_n vec := v], vv_n := Suc (vv_n vec)\<rparr>)"
    using True m a(1) by (simp add: pone_val_vec_push_def m_def [symmetric] Let_def)
  then show ?thesis using a m True by (auto simp: vec_ok_def vec_list_def take_Suc_conv_app_nth)
next
  case False
  then show ?thesis using assms
    by (auto simp: pone_val_vec_push_def vec_ok_def vec_list_def take_Suc_conv_app_nth)
qed

lemma bytes_word_shift: "bytes_word (c # b) = ucast c + 256 * bytes_word b"
  by (simp add: bytes_word_def)

lemma word_low_byte: "(ucast (ucast x :: byte) :: 64 word) + 256 * drop_bit 8 x = x"
proof -
  have "(ucast (ucast x :: byte) :: 64 word) = take_bit 8 x"
    by (rule bit_word_eqI) (auto simp: bit_simps)
  moreover have "256 * drop_bit 8 x = push_bit 8 (drop_bit 8 x)" by (simp add: push_bit_eq_mult)
  ultimately show ?thesis using bits_ident [of 8 x] by (simp add: add.commute)
qed

lemma bytes_word_high:
  "k \<le> 8 \<Longrightarrow> bytes_word (map (\<lambda>i. ucast (drop_bit (8 * i) x)) [k..<8]) = drop_bit (8 * k) x"
proof (induction "8 - k" arbitrary: k)
  case 0
  then have "k = 8" by simp
  then show ?case by (simp add: bytes_word_def drop_bit_word_beyond)
next
  case (Suc d)
  then have k: "k < 8" "d = 8 - Suc k" by simp_all
  have "bytes_word (map (\<lambda>i. ucast (drop_bit (8 * i) x)) [k..<8]) =
      ucast (ucast (drop_bit (8 * k) x) :: byte) + 256 * bytes_word (map (\<lambda>i. ucast (drop_bit (8 * i) x)) [Suc k..<8])"
    using k(1) by (simp add: upt_conv_Cons bytes_word_shift)
  also have "\<dots> = ucast (ucast (drop_bit (8 * k) x) :: byte) + 256 * drop_bit (8 * Suc k) x"
    using Suc.hyps(1) [OF k(2)] k(1) by simp
  also have "\<dots> = drop_bit (8 * k) x"
    using word_low_byte [of "drop_bit (8 * k) x"] by (simp add: drop_bit_drop_bit add.commute)
  finally show ?case .
qed

lemma bytes_word_bytes: "bytes_word (word_bytes x) = x"
  using bytes_word_high [of 0 x] by (simp add: word_bytes_def)

lemma length_word_bytes: "length (word_bytes x) = 8"
  by (simp add: word_bytes_def)

lemma bytes_words_bytes: "bytes_words (length ws) (concat (map word_bytes ws)) = ws"
  by (induction ws) (simp_all add: length_word_bytes bytes_word_bytes)

lemma memmove_nothing: "memmove dst src 0 b = b"
  by (simp add: memmove_def)

lemma delete_last:
  assumes "vec_ok vec" "0 < vv_n vec"
  shows "pone_val_vec_delete (int (vv_n vec) - 1) vec = Ret () (vec\<lparr>vv_n := vv_n vec - 1\<rparr>)"
proof -
  have "vv_n vec - nat (int (vv_n vec) - 1) - 1 = 0" using assms(2) by simp
  then show ?thesis using assms bytes_words_bytes [of "vv_a vec"]
    by (simp add: pone_val_vec_delete_def Let_def memmove_nothing vec_ok_def nat_diff_distrib)
qed

text \<open>A vector after pushes onto an empty one.\<close>

fun vec_of :: "64 word list \<Rightarrow> pone_val_vec \<Rightarrow> (unit, pone_val_vec) outcome" where
  "vec_of [] vec = Ret () vec"
| "vec_of (v # vs) vec = andthen (pone_val_vec_push v vec) (\<lambda>_. vec_of vs)"

lemma vec_of_ok:
  "vec_ok vec \<Longrightarrow> \<exists>vec'. vec_of vs vec = Ret () vec' \<and> vec_ok vec' \<and> vec_list vec' = vec_list vec @ vs"
proof (induction vs arbitrary: vec)
  case (Cons v vs)
  obtain vec1 where 1: "pone_val_vec_push v vec = Ret () vec1" "vec_ok vec1" "vec_list vec1 = vec_list vec @ [v]"
    using push_ok [OF Cons.prems] by blast
  show ?case using Cons.IH [OF 1(2)] 1 by auto
qed simp

lemma vec_list_get:
  assumes "vec_ok vec" "i < length (vec_list vec)"
  shows "pone_val_vec_get (int i) vec = Ret (vec_list vec ! i) vec"
  using assms by (simp add: pone_val_vec_get_def vec_ok_def vec_list_def)

text \<open>Deleting the first of two mixes both: only one byte of the second has been moved.\<close>

lemma two_pushed: "vec_of [0x1122, 0x3344] pone_val_vec_init = Ret () \<lparr>vv_n = 2, vv_m = 2, vv_a = [0x1122, 0x3344]\<rparr>"
  by code_simp

lemma first_deleted:
  "pone_val_vec_delete 0 \<lparr>vv_n = 2, vv_m = 2, vv_a = [0x1122, 0x3344]\<rparr> =
     Ret () \<lparr>vv_n = 1, vv_m = 2, vv_a = [0x1144, 0x3344]\<rparr>"
  by code_simp

lemma val_vec_delete_mixes:
  "\<exists>vec vec'. vec_of [0x1122, 0x3344] pone_val_vec_init = Ret () vec \<and>
     pone_val_vec_delete 0 vec = Ret () vec' \<and> vec_list vec' = [0x1144]"
  using two_pushed first_deleted by (simp add: vec_list_def)


end
