(* ===== verification/Worker_Sync.thy ===== *)
theory Worker_Sync
  imports Pone_Prelude
begin

text \<open>
  The pool of worker threads as its threads interleave: \<open>thread_start\<close> and \<open>pone_thread_start\<close> of
  \<^verbatim>\<open>src/thread.c\<close>, \<open>pone_universe_wait_threads\<close>, \<open>pone_count_alive_threads\<close> and \<open>pone_universe_destroy\<close> of
  \<^verbatim>\<open>src/universe.c\<close>. A worker holds the mutex of its world except while it sleeps, before it has started and after
  it has ended; stretches under a mutex that touch nothing else that is shared are one event. Reading
  \<open>world->code\<close> before \<open>pthread_mutex_trylock\<close>, the count of the jobs world by world, and the test before
  \<open>pthread_cond_wait\<close> are events of their own, because others may come between.
\<close>

section \<open>The pool\<close>

datatype worker_pc =
    WNew \<comment> \<open>created, the mutex not yet taken\<close>
  | WTest \<comment> \<open>before the tests of the loop\<close>
  | WToSleep \<comment> \<open>has seen no job and no end\<close>
  | WAsleep
  | WWoken \<comment> \<open>woken, the mutex not yet taken again\<close>
  | WRun nat
  | WSignal \<comment> \<open>the world is released, before the signal to the waiting thread\<close>
  | WExit

datatype main_pc =
    MBusy
  | MScan "nat list" bool \<comment> \<open>worlds still to look at, and whether one had a job\<close>
  | MAsleep
  | MWoken
  | MLeft \<comment> \<open>has left \<open>pone_universe_wait_threads\<close>\<close>
  | MKill "nat list"
  | MJoin nat "nat list"
  | MGone

text \<open>The thread that starts a job: the main thread, or the worker of that world.\<close>

datatype starter = Main | Worker nat

text \<open>
  \<open>p_saw\<close> is the world that a starter has seen without a job and will try to lock. \<open>p_given\<close> counts the jobs
  and names them, \<open>p_done\<close> records which have ended; both are not part of the program.
\<close>

record pool =
  p_workers :: "nat list"
  p_pc :: "nat \<Rightarrow> worker_pc"
  p_code :: "nat \<Rightarrow> nat option"
  p_saw :: "starter \<Rightarrow> nat option"
  p_main :: main_pc
  p_end :: bool
  p_given :: nat
  p_done :: "nat list"

definition pool_start :: pool where
  "pool_start = \<lparr>p_workers = [], p_pc = (\<lambda>_. WNew), p_code = (\<lambda>_. None), p_saw = (\<lambda>_. None), p_main = MBusy,
     p_end = False, p_given = 0, p_done = []\<rparr>"

definition mutex_free :: "pool \<Rightarrow> nat \<Rightarrow> bool" where
  "mutex_free p w \<longleftrightarrow> p_pc p w \<in> {WNew, WAsleep, WWoken, WExit}"

text \<open>The waiting thread holds \<open>worker_worlds_mutex\<close> from its first look to its sleep.\<close>

definition list_free :: "pool \<Rightarrow> bool" where
  "list_free p \<longleftrightarrow> (case p_main p of MScan _ _ \<Rightarrow> False | _ \<Rightarrow> True)"

definition can_start :: "pool \<Rightarrow> starter \<Rightarrow> bool" where
  "can_start p t \<longleftrightarrow>
     (case t of Main \<Rightarrow> p_main p = MBusy | Worker w \<Rightarrow> w \<in> set (p_workers p) \<and> (case p_pc p w of WRun _ \<Rightarrow> True | _ \<Rightarrow> False))"

text \<open>
  \<open>pthread_cond_signal\<close> on the condition of a world, on which only its worker sleeps, and on
  \<open>worker_fin_cond\<close>, on which only the main thread sleeps.
\<close>

definition rouse :: "worker_pc \<Rightarrow> worker_pc" where
  "rouse c = (if c = WAsleep then WWoken else c)"

definition rouse_main :: "main_pc \<Rightarrow> main_pc" where
  "rouse_main c = (if c = MAsleep then MWoken else c)"

section \<open>Events\<close>

datatype pool_event =
    Look starter nat \<comment> \<open>\<open>world->code\<close> is NULL\<close>
  | Busy starter \<comment> \<open>\<open>pthread_mutex_trylock\<close> fails\<close>
  | Give starter \<comment> \<open>it succeeds: job, signal, unlock\<close>
  | Create starter nat
  | Lock nat
  | Test nat
  | Sleep nat
  | Spurious nat
  | Finish nat
  | Announce nat
  | WaitBegin
  | Scan
  | MainSpurious
  | Relock
  | Resume
  | Destroy
  | Kill
  | Join

text \<open>What a thread that starts a job does, in \<open>pone_thread_start\<close>.\<close>

inductive starting_step :: "pool_event \<Rightarrow> pool \<Rightarrow> pool \<Rightarrow> bool" where
  look: "can_start p t \<Longrightarrow> p_saw p t = None \<Longrightarrow> w \<in> set (p_workers p) \<Longrightarrow> p_code p w = None \<Longrightarrow>
     starting_step (Look t w) p (p\<lparr>p_saw := (p_saw p)(t := Some w)\<rparr>)"
| busy: "p_saw p t = Some w \<Longrightarrow> \<not> mutex_free p w \<Longrightarrow>
     starting_step (Busy t) p (p\<lparr>p_saw := (p_saw p)(t := None)\<rparr>)"
| give: "p_saw p t = Some w \<Longrightarrow> mutex_free p w \<Longrightarrow>
     starting_step (Give t) p (p\<lparr>p_saw := (p_saw p)(t := None), p_code := (p_code p)(w := Some (p_given p)),
       p_pc := (p_pc p)(w := rouse (p_pc p w)), p_given := Suc (p_given p)\<rparr>)"
| create: "can_start p t \<Longrightarrow> p_saw p t = None \<Longrightarrow> w \<notin> set (p_workers p) \<Longrightarrow> list_free p \<Longrightarrow>
     starting_step (Create t w) p (p\<lparr>p_workers := w # p_workers p, p_pc := (p_pc p)(w := WNew),
       p_code := (p_code p)(w := Some (p_given p)), p_given := Suc (p_given p)\<rparr>)"

text \<open>What a worker does, in \<open>thread_start\<close>.\<close>

inductive worker_step :: "pool_event \<Rightarrow> pool \<Rightarrow> pool \<Rightarrow> bool" where
  lock: "w \<in> set (p_workers p) \<Longrightarrow> p_pc p w \<in> {WNew, WWoken} \<Longrightarrow>
     worker_step (Lock w) p (p\<lparr>p_pc := (p_pc p)(w := WTest)\<rparr>)"
| quit: "w \<in> set (p_workers p) \<Longrightarrow> p_pc p w = WTest \<Longrightarrow> p_end p \<Longrightarrow>
     worker_step (Test w) p (p\<lparr>p_pc := (p_pc p)(w := WExit)\<rparr>)"
| idle: "w \<in> set (p_workers p) \<Longrightarrow> p_pc p w = WTest \<Longrightarrow> \<not> p_end p \<Longrightarrow> p_code p w = None \<Longrightarrow>
     worker_step (Test w) p (p\<lparr>p_pc := (p_pc p)(w := WToSleep)\<rparr>)"
| run: "w \<in> set (p_workers p) \<Longrightarrow> p_pc p w = WTest \<Longrightarrow> \<not> p_end p \<Longrightarrow> p_code p w = Some j \<Longrightarrow>
     worker_step (Test w) p (p\<lparr>p_pc := (p_pc p)(w := WRun j)\<rparr>)"
| sleep: "p_pc p w = WToSleep \<Longrightarrow>
     worker_step (Sleep w) p (p\<lparr>p_pc := (p_pc p)(w := WAsleep)\<rparr>)"
| spurious: "p_pc p w = WAsleep \<Longrightarrow>
     worker_step (Spurious w) p (p\<lparr>p_pc := (p_pc p)(w := WWoken)\<rparr>)"
| finish: "p_pc p w = WRun j \<Longrightarrow> p_saw p (Worker w) = None \<Longrightarrow>
     worker_step (Finish w) p (p\<lparr>p_pc := (p_pc p)(w := WSignal), p_code := (p_code p)(w := None), p_done := p_done p @ [j]\<rparr>)"
| announce: "p_pc p w = WSignal \<Longrightarrow> list_free p \<Longrightarrow>
     worker_step (Announce w) p (p\<lparr>p_pc := (p_pc p)(w := WTest), p_main := rouse_main (p_main p)\<rparr>)"

text \<open>What the main thread does, in \<open>pone_universe_wait_threads\<close> and \<open>pone_universe_destroy\<close>.\<close>

inductive main_step :: "pool_event \<Rightarrow> pool \<Rightarrow> pool \<Rightarrow> bool" where
  wait: "p_main p = MBusy \<Longrightarrow> p_saw p Main = None \<Longrightarrow>
     main_step WaitBegin p (p\<lparr>p_main := MScan (p_workers p) False\<rparr>)"
| scan: "p_main p = MScan (w # ws) alive \<Longrightarrow>
     main_step Scan p (p\<lparr>p_main := MScan ws (alive \<or> p_code p w \<noteq> None)\<rparr>)"
| wait_more: "p_main p = MScan [] alive \<Longrightarrow> alive \<or> p_workers p = [] \<Longrightarrow>
     main_step Scan p (p\<lparr>p_main := MAsleep\<rparr>)"
| waited: "p_main p = MScan [] False \<Longrightarrow> p_workers p \<noteq> [] \<Longrightarrow>
     main_step Scan p (p\<lparr>p_main := MLeft\<rparr>)"
| main_spurious: "p_main p = MAsleep \<Longrightarrow>
     main_step MainSpurious p (p\<lparr>p_main := MWoken\<rparr>)"
| relock: "p_main p = MWoken \<Longrightarrow>
     main_step Relock p (p\<lparr>p_main := MScan (p_workers p) False\<rparr>)"
| resume: "p_main p = MLeft \<Longrightarrow>
     main_step Resume p (p\<lparr>p_main := MBusy\<rparr>)"
| destroy: "p_main p = MBusy \<Longrightarrow> p_saw p Main = None \<Longrightarrow>
     main_step Destroy p (p\<lparr>p_end := True, p_main := MKill (p_workers p)\<rparr>)"
| kill: "p_main p = MKill (w # ws) \<Longrightarrow>
     main_step Kill p (p\<lparr>p_pc := (p_pc p)(w := rouse (p_pc p w)), p_main := MJoin w ws\<rparr>)"
| gone: "p_main p = MKill [] \<Longrightarrow>
     main_step Kill p (p\<lparr>p_main := MGone\<rparr>)"
| join: "p_main p = MJoin w ws \<Longrightarrow> p_pc p w = WExit \<Longrightarrow>
     main_step Join p (p\<lparr>p_main := MKill ws\<rparr>)"

text \<open>A step of the pool; each is named by its event.\<close>

inductive pool_step :: "pool_event \<Rightarrow> pool \<Rightarrow> pool \<Rightarrow> bool" where
  starting: "starting_step e p q \<Longrightarrow> pool_step e p q"
| worker: "worker_step e p q \<Longrightarrow> pool_step e p q"
| main: "main_step e p q \<Longrightarrow> pool_step e p q"

lemmas pool_look = starting_step.look [THEN pool_step.starting]
lemmas pool_busy = starting_step.busy [THEN pool_step.starting]
lemmas pool_give = starting_step.give [THEN pool_step.starting]
lemmas pool_create = starting_step.create [THEN pool_step.starting]
lemmas pool_lock = worker_step.lock [THEN pool_step.worker]
lemmas pool_quit = worker_step.quit [THEN pool_step.worker]
lemmas pool_idle = worker_step.idle [THEN pool_step.worker]
lemmas pool_run_job = worker_step.run [THEN pool_step.worker]
lemmas pool_sleep = worker_step.sleep [THEN pool_step.worker]
lemmas pool_spurious = worker_step.spurious [THEN pool_step.worker]
lemmas pool_finish = worker_step.finish [THEN pool_step.worker]
lemmas pool_announce = worker_step.announce [THEN pool_step.worker]
lemmas pool_wait = main_step.wait [THEN pool_step.main]
lemmas pool_scan = main_step.scan [THEN pool_step.main]
lemmas pool_wait_more = main_step.wait_more [THEN pool_step.main]
lemmas pool_waited = main_step.waited [THEN pool_step.main]
lemmas pool_main_spurious = main_step.main_spurious [THEN pool_step.main]
lemmas pool_relock = main_step.relock [THEN pool_step.main]
lemmas pool_resume = main_step.resume [THEN pool_step.main]
lemmas pool_destroy = main_step.destroy [THEN pool_step.main]
lemmas pool_kill = main_step.kill [THEN pool_step.main]
lemmas pool_gone = main_step.gone [THEN pool_step.main]
lemmas pool_join = main_step.join [THEN pool_step.main]

lemmas pool_steps = pool_look pool_busy pool_give pool_create pool_lock pool_quit pool_idle pool_run_job
  pool_sleep pool_spurious pool_finish pool_announce pool_wait pool_scan pool_wait_more pool_waited
  pool_main_spurious pool_relock pool_resume pool_destroy pool_kill pool_gone pool_join

lemma pool_step_cases [consumes 1, case_names look busy give create lock quit idle run sleep spurious finish announce wait scan wait_more waited main_spurious relock resume destroy kill gone join]:
  assumes "pool_step e p q"
    and "\<And>p t w. can_start p t \<Longrightarrow> p_saw p t = None \<Longrightarrow> w \<in> set (p_workers p) \<Longrightarrow> p_code p w = None \<Longrightarrow> P (Look t w) p (p\<lparr>p_saw := (p_saw p)(t := Some w)\<rparr>)"
    and "\<And>p t w. p_saw p t = Some w \<Longrightarrow> \<not> mutex_free p w \<Longrightarrow> P (Busy t) p (p\<lparr>p_saw := (p_saw p)(t := None)\<rparr>)"
    and "\<And>p t w. p_saw p t = Some w \<Longrightarrow> mutex_free p w \<Longrightarrow> P (Give t) p (p\<lparr>p_saw := (p_saw p)(t := None), p_code := (p_code p)(w := Some (p_given p)), p_pc := (p_pc p)(w := rouse (p_pc p w)), p_given := Suc (p_given p)\<rparr>)"
    and "\<And>p t w. can_start p t \<Longrightarrow> p_saw p t = None \<Longrightarrow> w \<notin> set (p_workers p) \<Longrightarrow> list_free p \<Longrightarrow> P (Create t w) p (p\<lparr>p_workers := w # p_workers p, p_pc := (p_pc p)(w := WNew), p_code := (p_code p)(w := Some (p_given p)), p_given := Suc (p_given p)\<rparr>)"
    and "\<And>p w. w \<in> set (p_workers p) \<Longrightarrow> p_pc p w \<in> {WNew, WWoken} \<Longrightarrow> P (Lock w) p (p\<lparr>p_pc := (p_pc p)(w := WTest)\<rparr>)"
    and "\<And>p w. w \<in> set (p_workers p) \<Longrightarrow> p_pc p w = WTest \<Longrightarrow> p_end p \<Longrightarrow> P (Test w) p (p\<lparr>p_pc := (p_pc p)(w := WExit)\<rparr>)"
    and "\<And>p w. w \<in> set (p_workers p) \<Longrightarrow> p_pc p w = WTest \<Longrightarrow> \<not> p_end p \<Longrightarrow> p_code p w = None \<Longrightarrow> P (Test w) p (p\<lparr>p_pc := (p_pc p)(w := WToSleep)\<rparr>)"
    and "\<And>p w j. w \<in> set (p_workers p) \<Longrightarrow> p_pc p w = WTest \<Longrightarrow> \<not> p_end p \<Longrightarrow> p_code p w = Some j \<Longrightarrow> P (Test w) p (p\<lparr>p_pc := (p_pc p)(w := WRun j)\<rparr>)"
    and "\<And>p w. p_pc p w = WToSleep \<Longrightarrow> P (Sleep w) p (p\<lparr>p_pc := (p_pc p)(w := WAsleep)\<rparr>)"
    and "\<And>p w. p_pc p w = WAsleep \<Longrightarrow> P (Spurious w) p (p\<lparr>p_pc := (p_pc p)(w := WWoken)\<rparr>)"
    and "\<And>p w j. p_pc p w = WRun j \<Longrightarrow> p_saw p (Worker w) = None \<Longrightarrow> P (Finish w) p (p\<lparr>p_pc := (p_pc p)(w := WSignal), p_code := (p_code p)(w := None), p_done := p_done p @ [j]\<rparr>)"
    and "\<And>p w. p_pc p w = WSignal \<Longrightarrow> list_free p \<Longrightarrow> P (Announce w) p (p\<lparr>p_pc := (p_pc p)(w := WTest), p_main := rouse_main (p_main p)\<rparr>)"
    and "\<And>p. p_main p = MBusy \<Longrightarrow> p_saw p Main = None \<Longrightarrow> P WaitBegin p (p\<lparr>p_main := MScan (p_workers p) False\<rparr>)"
    and "\<And>p w ws alive. p_main p = MScan (w # ws) alive \<Longrightarrow> P Scan p (p\<lparr>p_main := MScan ws (alive \<or> p_code p w \<noteq> None)\<rparr>)"
    and "\<And>p alive. p_main p = MScan [] alive \<Longrightarrow> alive \<or> p_workers p = [] \<Longrightarrow> P Scan p (p\<lparr>p_main := MAsleep\<rparr>)"
    and "\<And>p. p_main p = MScan [] False \<Longrightarrow> p_workers p \<noteq> [] \<Longrightarrow> P Scan p (p\<lparr>p_main := MLeft\<rparr>)"
    and "\<And>p. p_main p = MAsleep \<Longrightarrow> P MainSpurious p (p\<lparr>p_main := MWoken\<rparr>)"
    and "\<And>p. p_main p = MWoken \<Longrightarrow> P Relock p (p\<lparr>p_main := MScan (p_workers p) False\<rparr>)"
    and "\<And>p. p_main p = MLeft \<Longrightarrow> P Resume p (p\<lparr>p_main := MBusy\<rparr>)"
    and "\<And>p. p_main p = MBusy \<Longrightarrow> p_saw p Main = None \<Longrightarrow> P Destroy p (p\<lparr>p_end := True, p_main := MKill (p_workers p)\<rparr>)"
    and "\<And>p w ws. p_main p = MKill (w # ws) \<Longrightarrow> P Kill p (p\<lparr>p_pc := (p_pc p)(w := rouse (p_pc p w)), p_main := MJoin w ws\<rparr>)"
    and "\<And>p. p_main p = MKill [] \<Longrightarrow> P Kill p (p\<lparr>p_main := MGone\<rparr>)"
    and "\<And>p w ws. p_main p = MJoin w ws \<Longrightarrow> p_pc p w = WExit \<Longrightarrow> P Join p (p\<lparr>p_main := MKill ws\<rparr>)"
  shows "P e p q"
  using assms(1)
proof (cases rule: pool_step.cases)
  case starting
  then show ?thesis
    by (cases rule: starting_step.cases) (simp_all add: assms(2, 3, 4, 5) del: not_None_eq)
next
  case worker
  then show ?thesis
    by (cases rule: worker_step.cases) (simp_all add: assms(6, 7, 8, 9, 10, 11, 12, 13) del: not_None_eq)
next
  case main
  then show ?thesis
    by (cases rule: main_step.cases) (simp_all add: assms(14, 15, 16, 17, 18, 19, 20, 21, 22, 23, 24) del: not_None_eq)
qed

definition start_event :: "pool_event \<Rightarrow> starter option" where
  "start_event e = (case e of Look t _ \<Rightarrow> Some t | Busy t \<Rightarrow> Some t | Give t \<Rightarrow> Some t | Create t _ \<Rightarrow> Some t | _ \<Rightarrow> None)"

lemma start_event_simps [simp]:
  "start_event (Look t w) = Some t" "start_event (Busy t) = Some t" "start_event (Give t) = Some t"
  "start_event (Create t w) = Some t"
  by (simp_all add: start_event_def)

text \<open>The states that are reached when only the threads in \<open>S\<close> start jobs.\<close>

inductive pool_reach :: "starter set \<Rightarrow> pool \<Rightarrow> bool" for S where
  start: "pool_reach S pool_start"
| step: "pool_reach S p \<Longrightarrow> (\<forall>t. start_event e = Some t \<longrightarrow> t \<in> S) \<Longrightarrow> pool_step e p q \<Longrightarrow> pool_reach S q"

section \<open>Running a sequence of events\<close>

text \<open>The steps as a function of the event.\<close>

definition starting_act :: "pool_event \<Rightarrow> pool \<Rightarrow> pool option" where
  "starting_act e p =
     (case e of
        Look t w \<Rightarrow>
          if can_start p t \<and> p_saw p t = None \<and> w \<in> set (p_workers p) \<and> p_code p w = None
          then Some (p\<lparr>p_saw := (p_saw p)(t := Some w)\<rparr>) else None
      | Busy t \<Rightarrow>
          (case p_saw p t of
             Some w \<Rightarrow> if \<not> mutex_free p w then Some (p\<lparr>p_saw := (p_saw p)(t := None)\<rparr>) else None
           | None \<Rightarrow> None)
      | Give t \<Rightarrow>
          (case p_saw p t of
             Some w \<Rightarrow>
               if mutex_free p w
               then Some (p\<lparr>p_saw := (p_saw p)(t := None), p_code := (p_code p)(w := Some (p_given p)),
                      p_pc := (p_pc p)(w := rouse (p_pc p w)), p_given := Suc (p_given p)\<rparr>)
               else None
           | None \<Rightarrow> None)
      | Create t w \<Rightarrow>
          if can_start p t \<and> p_saw p t = None \<and> w \<notin> set (p_workers p) \<and> list_free p
          then Some (p\<lparr>p_workers := w # p_workers p, p_pc := (p_pc p)(w := WNew),
                 p_code := (p_code p)(w := Some (p_given p)), p_given := Suc (p_given p)\<rparr>)
          else None
      | _ \<Rightarrow> None)"

definition worker_act :: "pool_event \<Rightarrow> pool \<Rightarrow> pool option" where
  "worker_act e p =
     (case e of
        Lock w \<Rightarrow>
          if w \<in> set (p_workers p) \<and> p_pc p w \<in> {WNew, WWoken}
          then Some (p\<lparr>p_pc := (p_pc p)(w := WTest)\<rparr>) else None
      | Test w \<Rightarrow>
          if w \<in> set (p_workers p) \<and> p_pc p w = WTest
          then Some (p\<lparr>p_pc := (p_pc p)(w :=
                 if p_end p then WExit else case p_code p w of None \<Rightarrow> WToSleep | Some j \<Rightarrow> WRun j)\<rparr>)
          else None
      | Sleep w \<Rightarrow> if p_pc p w = WToSleep then Some (p\<lparr>p_pc := (p_pc p)(w := WAsleep)\<rparr>) else None
      | Spurious w \<Rightarrow> if p_pc p w = WAsleep then Some (p\<lparr>p_pc := (p_pc p)(w := WWoken)\<rparr>) else None
      | Finish w \<Rightarrow>
          (case p_pc p w of
             WRun j \<Rightarrow>
               if p_saw p (Worker w) = None
               then Some (p\<lparr>p_pc := (p_pc p)(w := WSignal), p_code := (p_code p)(w := None), p_done := p_done p @ [j]\<rparr>)
               else None
           | _ \<Rightarrow> None)
      | Announce w \<Rightarrow>
          if p_pc p w = WSignal \<and> list_free p
          then Some (p\<lparr>p_pc := (p_pc p)(w := WTest), p_main := rouse_main (p_main p)\<rparr>)
          else None
      | _ \<Rightarrow> None)"

definition scan_next :: "pool \<Rightarrow> nat list \<Rightarrow> bool \<Rightarrow> main_pc" where
  "scan_next p ws alive =
     (case ws of
        [] \<Rightarrow> if alive \<or> p_workers p = [] then MAsleep else MLeft
      | w # ws \<Rightarrow> MScan ws (alive \<or> p_code p w \<noteq> None))"

definition main_act :: "pool_event \<Rightarrow> pool \<Rightarrow> pool option" where
  "main_act e p =
     (case (e, p_main p) of
        (WaitBegin, MBusy) \<Rightarrow>
          if p_saw p Main = None then Some (p\<lparr>p_main := MScan (p_workers p) False\<rparr>) else None
      | (Scan, MScan ws alive) \<Rightarrow> Some (p\<lparr>p_main := scan_next p ws alive\<rparr>)
      | (MainSpurious, MAsleep) \<Rightarrow> Some (p\<lparr>p_main := MWoken\<rparr>)
      | (Relock, MWoken) \<Rightarrow> Some (p\<lparr>p_main := MScan (p_workers p) False\<rparr>)
      | (Resume, MLeft) \<Rightarrow> Some (p\<lparr>p_main := MBusy\<rparr>)
      | (Destroy, MBusy) \<Rightarrow>
          if p_saw p Main = None then Some (p\<lparr>p_end := True, p_main := MKill (p_workers p)\<rparr>) else None
      | (Kill, MKill (w # ws)) \<Rightarrow>
          Some (p\<lparr>p_pc := (p_pc p)(w := rouse (p_pc p w)), p_main := MJoin w ws\<rparr>)
      | (Kill, MKill []) \<Rightarrow> Some (p\<lparr>p_main := MGone\<rparr>)
      | (Join, MJoin w ws) \<Rightarrow> if p_pc p w = WExit then Some (p\<lparr>p_main := MKill ws\<rparr>) else None
      | _ \<Rightarrow> None)"

definition pool_act :: "pool_event \<Rightarrow> pool \<Rightarrow> pool option" where
  "pool_act e p =
     (case starting_act e p of
        Some q \<Rightarrow> Some q
      | None \<Rightarrow> (case worker_act e p of Some q \<Rightarrow> Some q | None \<Rightarrow> main_act e p))"

lemma starting_act_step: "starting_act e p = Some q \<Longrightarrow> pool_step e p q"
  unfolding starting_act_def
  by (cases e) (auto intro: pool_steps split: if_splits option.splits)

lemma worker_act_step: "worker_act e p = Some q \<Longrightarrow> pool_step e p q"
  unfolding worker_act_def
  by (cases e) (auto intro: pool_steps split: if_splits option.splits worker_pc.splits)

lemma scan_step: "p_main p = MScan ws alive \<Longrightarrow> pool_step Scan p (p\<lparr>p_main := scan_next p ws alive\<rparr>)"
proof (cases ws)
  case Nil
  assume "p_main p = MScan ws alive"
  with Nil show ?thesis
    by (cases "alive \<or> p_workers p = []") (auto simp: scan_next_def intro: pool_wait_more pool_waited)
next
  case (Cons w vs)
  assume "p_main p = MScan ws alive"
  with Cons show ?thesis using pool_scan [of p w vs alive] by (simp add: scan_next_def)
qed

lemma main_act_step: "main_act e p = Some q \<Longrightarrow> pool_step e p q"
  unfolding main_act_def
  by (cases e; cases "p_main p") (auto intro: pool_steps scan_step split: if_splits list.splits)

lemma pool_act_step: "pool_act e p = Some q \<Longrightarrow> pool_step e p q"
  by (auto simp: pool_act_def split: option.splits intro: starting_act_step worker_act_step main_act_step)

fun pool_run :: "pool_event list \<Rightarrow> pool \<Rightarrow> pool option" where
  "pool_run [] p = Some p"
| "pool_run (e # es) p = (case pool_act e p of Some q \<Rightarrow> pool_run es q | None \<Rightarrow> None)"

lemma pool_run_reach:
  assumes "pool_reach S p" "pool_run es p = Some q" "\<forall>t \<in> set (List.map_filter start_event es). t \<in> S"
  shows "pool_reach S q"
  using assms
proof (induction es arbitrary: p)
  case (Cons e es)
  then obtain r where r: "pool_act e p = Some r" "pool_run es r = Some q" by (auto split: option.splits)
  have e: "\<forall>t. start_event e = Some t \<longrightarrow> t \<in> S" and es: "\<forall>t \<in> set (List.map_filter start_event es). t \<in> S"
    using Cons.prems(3) by (auto simp: List.map_filter_simps split: option.splits)
  show ?case using Cons.IH [OF pool_reach.step [OF Cons.prems(1) e pool_act_step [OF r(1)]] r(2) es] .
qed simp

section \<open>Wake-ups\<close>

definition still_busy :: "pool \<Rightarrow> nat \<Rightarrow> bool" where
  "still_busy p w \<longleftrightarrow> w \<in> set (p_workers p) \<and> (p_code p w \<noteq> None \<or> p_pc p w = WSignal)"

text \<open>A job and the place of its worker, and which worlds exist.\<close>

definition workers_ok :: "pool \<Rightarrow> bool" where
  "workers_ok p \<longleftrightarrow>
     (\<forall>w. p_pc p w \<in> {WAsleep, WToSleep, WSignal} \<longrightarrow> p_code p w = None) \<and>
     (\<forall>w j. p_pc p w = WRun j \<longrightarrow> p_code p w = Some j) \<and>
     (\<forall>w. p_pc p w = WExit \<longrightarrow> p_end p) \<and>
     (\<forall>w. w \<notin> set (p_workers p) \<longrightarrow> p_pc p w = WNew \<and> p_code p w = None) \<and>
     (\<forall>t w. p_saw p t = Some w \<longrightarrow> w \<in> set (p_workers p))"

text \<open>Where the main thread is, and what it may rely on there.\<close>

definition main_ok :: "pool \<Rightarrow> bool" where
  "main_ok p \<longleftrightarrow>
     (case p_main p of
        MScan ws alive \<Rightarrow> \<not> p_end p \<and> (alive \<longrightarrow> (\<exists>w. still_busy p w))
      | MAsleep \<Rightarrow> \<not> p_end p \<and> (p_workers p \<noteq> [] \<longrightarrow> (\<exists>w. still_busy p w))
      | MBusy \<Rightarrow> \<not> p_end p | MWoken \<Rightarrow> \<not> p_end p | MLeft \<Rightarrow> \<not> p_end p
      | _ \<Rightarrow> p_end p)"

lemma workers_ok_start: "workers_ok pool_start"
  by (simp add: workers_ok_def pool_start_def)

lemma workers_ok_step: "pool_step e p q \<Longrightarrow> workers_ok p \<Longrightarrow> workers_ok q"
  by (induction rule: pool_step_cases) (auto simp: workers_ok_def mutex_free_def rouse_def)

lemma main_ok_start: "main_ok pool_start"
  by (simp add: main_ok_def pool_start_def)

lemma still_busy_main [simp]: "still_busy (p\<lparr>p_main := m\<rparr>) = still_busy p"
  by (simp add: still_busy_def fun_eq_iff)

lemma main_ok_keep:
  assumes "main_ok p" "p_main q = p_main p" "p_end q = p_end p"
    "\<And>w. still_busy p w \<Longrightarrow> \<exists>v. still_busy q v" "p_workers q = p_workers p \<or> (\<exists>v. still_busy q v)"
  shows "main_ok q"
  using assms by (cases "p_main p") (auto simp: main_ok_def)

lemma still_busy_upd:
  assumes "still_busy p v" "p_workers q = p_workers p" "p_pc q = (p_pc p)(w := c)" "p_code q = p_code p"
    "p_pc p w \<noteq> WSignal"
  shows "\<exists>v. still_busy q v"
  using assms by (intro exI [of _ v]) (auto simp: still_busy_def)

lemma main_ok_announce:
  assumes "main_ok p" "list_free p" "p_end q = p_end p" "p_main q = rouse_main (p_main p)"
  shows "main_ok q"
  using assms by (cases "p_main p") (auto simp: main_ok_def list_free_def rouse_main_def)

lemma main_ok_step:
  assumes "pool_step e p q" "workers_ok p" "main_ok p"
  shows "main_ok q"
  using assms
proof (induction rule: pool_step_cases)
  case (look p t w)
  then show ?case by (intro main_ok_keep [OF look(6)]) (auto simp: still_busy_def)
next
  case (busy p t w)
  then show ?case by (intro main_ok_keep [OF busy(4)]) (auto simp: still_busy_def)
next
  case (give p t w)
  then have "w \<in> set (p_workers p)" by (auto simp: workers_ok_def)
  then show ?case by (intro main_ok_keep [OF give(4)]) (auto simp: still_busy_def)
next
  case (create p t w)
  then show ?case by (intro main_ok_keep [OF create(6)]) (auto simp: still_busy_def)
next
  case (lock p w)
  then show ?case by (intro main_ok_keep [OF lock(4)]) (auto intro: still_busy_upd)
next
  case (quit p w)
  then show ?case by (intro main_ok_keep [OF quit(5)]) (auto intro: still_busy_upd)
next
  case (idle p w)
  then show ?case by (intro main_ok_keep [OF idle(6)]) (auto intro: still_busy_upd)
next
  case (run p w j)
  then show ?case by (intro main_ok_keep [OF run(6)]) (auto intro: still_busy_upd)
next
  case (sleep p w)
  then show ?case by (intro main_ok_keep [OF sleep(3)]) (auto intro: still_busy_upd)
next
  case (spurious p w)
  then show ?case by (intro main_ok_keep [OF spurious(3)]) (auto intro: still_busy_upd)
next
  case (finish p w j)
  then have "w \<in> set (p_workers p)" by (auto simp: workers_ok_def)
  then show ?case by (intro main_ok_keep [OF finish(4)]) (auto simp: still_busy_def)
next
  case (announce p w)
  then show ?case by (intro main_ok_announce [OF announce(4)]) auto
next
  case (scan p w ws alive)
  then have "p_code p w \<noteq> None \<Longrightarrow> still_busy p w" by (auto simp: still_busy_def workers_ok_def)
  with scan show ?case by (auto simp: main_ok_def)
qed (auto simp: main_ok_def)

lemma pool_reach_ok: "pool_reach S p \<Longrightarrow> workers_ok p \<and> main_ok p"
  by (induction rule: pool_reach.induct)
    (auto intro: workers_ok_start main_ok_start workers_ok_step main_ok_step)

text \<open>A worker that has work left, before the end, has a step of its own.\<close>

definition worker_event :: "nat \<Rightarrow> pool_event \<Rightarrow> bool" where
  "worker_event w e \<longleftrightarrow> e \<in> {Lock w, Test w, Sleep w, Finish w, Announce w} \<or> start_event e = Some (Worker w)"

lemma starter_goes_on: "p_saw p t = Some w \<Longrightarrow> \<exists>e q. start_event e = Some t \<and> pool_step e p q"
  using pool_busy [of p t w] pool_give [of p t w] by (cases "mutex_free p w") (metis start_event_simps)+

lemma busy_worker_steps:
  assumes "workers_ok p" "still_busy p w" "\<not> p_end p" "list_free p"
  shows "\<exists>e q. worker_event w e \<and> pool_step e p q"
proof (cases "p_pc p w")
  case WNew
  then show ?thesis using assms pool_lock [of w p] by (auto simp: still_busy_def worker_event_def)
next
  case WTest
  then show ?thesis using assms pool_idle [of w p] pool_run_job [of w p]
    by (cases "p_code p w") (auto simp: still_busy_def worker_event_def)
next
  case WToSleep
  then show ?thesis using assms(1,2) by (auto simp: still_busy_def workers_ok_def)
next
  case WAsleep
  then show ?thesis using assms(1,2) by (auto simp: still_busy_def workers_ok_def)
next
  case WWoken
  then show ?thesis using assms pool_lock [of w p] by (auto simp: still_busy_def worker_event_def)
next
  case (WRun j)
  show ?thesis
  proof (cases "p_saw p (Worker w)")
    case None
    then show ?thesis using WRun pool_finish [of p w j] by (auto simp: worker_event_def)
  next
    case (Some v)
    then show ?thesis using starter_goes_on by (fastforce simp: worker_event_def)
  qed
next
  case WSignal
  then show ?thesis using assms pool_announce [of p w] by (auto simp: worker_event_def)
next
  case WExit
  then show ?thesis using assms(1,3) by (auto simp: workers_ok_def)
qed

text \<open>
  C14: no wake-up is lost, whoever starts jobs: a worker that sleeps, or is about to, has no job; and when the main
  thread sleeps in \<open>pone_universe_wait_threads\<close> and there are workers, some worker with a job or on its way to the
  signal can take a step, so that the pool is not stuck.
\<close>

theorem pool_no_lost_wakeup:
  assumes "pool_reach S p"
  shows "(p_pc p w \<in> {WAsleep, WToSleep} \<longrightarrow> p_code p w = None) \<and>
     (p_main p = MAsleep \<and> p_workers p \<noteq> [] \<longrightarrow>
        (\<exists>v e q. still_busy p v \<and> worker_event v e \<and> pool_step e p q))"
proof (intro conjI)
  have ok: "workers_ok p" "main_ok p" using pool_reach_ok [OF assms] by simp_all
  then show "p_pc p w \<in> {WAsleep, WToSleep} \<longrightarrow> p_code p w = None" by (simp add: workers_ok_def)
  show "p_main p = MAsleep \<and> p_workers p \<noteq> [] \<longrightarrow>
      (\<exists>v e q. still_busy p v \<and> worker_event v e \<and> pool_step e p q)"
    using busy_worker_steps [OF ok(1)] ok(2) by (fastforce simp: main_ok_def list_free_def)
qed

section \<open>Jobs\<close>

definition jobs_ok :: "pool \<Rightarrow> bool" where
  "jobs_ok p \<longleftrightarrow>
     distinct (p_done p) \<and> set (p_done p) \<subseteq> {..<p_given p} \<and>
     (\<forall>j < p_given p. j \<in> set (p_done p) \<or> (\<exists>w. p_code p w = Some j)) \<and>
     (\<forall>w j. p_code p w = Some j \<longrightarrow> j < p_given p \<and> j \<notin> set (p_done p)) \<and>
     (\<forall>w v j. p_code p w = Some j \<and> p_code p v = Some j \<longrightarrow> w = v)"

text \<open>When only the main thread starts jobs: what it has seen stays so, as it counts or tries a lock.\<close>

definition main_alone :: "pool \<Rightarrow> bool" where
  "main_alone p \<longleftrightarrow>
     (\<forall>w. p_saw p (Worker w) = None) \<and>
     (\<forall>w. p_saw p Main = Some w \<longrightarrow> p_code p w = None \<and> p_main p = MBusy) \<and>
     (case p_main p of
        MScan ws alive \<Rightarrow> \<not> alive \<longrightarrow> (\<forall>w. w \<notin> set ws \<longrightarrow> p_code p w = None)
      | MLeft \<Rightarrow> \<forall>w. p_code p w = None
      | _ \<Rightarrow> True)"

lemma main_alone_start: "main_alone pool_start" and jobs_ok_start: "jobs_ok pool_start"
  by (simp_all add: main_alone_def jobs_ok_def pool_start_def)

lemma main_alone_step:
  assumes "pool_step e p q" "\<forall>t. start_event e = Some t \<longrightarrow> t = Main" "workers_ok p" "main_alone p"
  shows "main_alone q"
  using assms
proof (induction rule: pool_step_cases)
  case (announce p w)
  then show ?case by (cases "p_main p") (auto simp: main_alone_def rouse_main_def)
next
  case (wait p)
  then show ?case by (auto simp: main_alone_def workers_ok_def)
next
  case (relock p)
  then show ?case by (auto simp: main_alone_def workers_ok_def)
next
  case (scan p w ws alive)
  then have "p_code p v = None" if "\<not> alive" "p_code p w = None" "v \<notin> set ws" for v
    using that by (cases "v = w") (auto simp: main_alone_def)
  with scan show ?case by (auto simp: main_alone_def)
qed (auto simp: main_alone_def start_event_def can_start_def split: main_pc.splits)

lemma jobs_ok_cong:
  "jobs_ok p \<Longrightarrow> p_code q = p_code p \<Longrightarrow> p_done q = p_done p \<Longrightarrow> p_given q = p_given p \<Longrightarrow> jobs_ok q"
  by (simp add: jobs_ok_def)

lemma jobs_ok_new:
  assumes "jobs_ok p" "p_code p w = None" "p_code q = (p_code p)(w := Some (p_given p))" "p_done q = p_done p"
    "p_given q = Suc (p_given p)"
  shows "jobs_ok q"
proof -
  have new: "p_given p \<notin> set (p_done p)" "\<And>v. p_code p v \<noteq> Some (p_given p)" using assms(1) by (auto simp: jobs_ok_def)
  have "j \<in> set (p_done p) \<or> (\<exists>v. ((p_code p)(w := Some (p_given p))) v = Some j)" if j: "j < Suc (p_given p)" for j
  proof (cases "j = p_given p")
    case False
    then have "j \<in> set (p_done p) \<or> (\<exists>v. p_code p v = Some j)" using j assms(1) by (simp add: jobs_ok_def)
    then show ?thesis using assms(2) by (metis fun_upd_other option.distinct(1))
  qed (auto intro: exI [of _ w])
  then show ?thesis using assms new by (auto simp: jobs_ok_def less_Suc_eq)
qed

lemma jobs_ok_done:
  assumes "jobs_ok p" "p_code p w = Some j" "p_code q = (p_code p)(w := None)" "p_done q = p_done p @ [j]"
    "p_given q = p_given p"
  shows "jobs_ok q"
proof -
  have others: "p_code p v \<noteq> Some j" if "v \<noteq> w" for v using assms(1,2) that by (auto simp: jobs_ok_def)
  have "i \<in> set (p_done p @ [j]) \<or> (\<exists>v. ((p_code p)(w := None)) v = Some i)" if i: "i < p_given p" for i
  proof (cases "i = j")
    case False
    have "i \<in> set (p_done p) \<or> (\<exists>v. p_code p v = Some i)" using i assms(1) by (simp add: jobs_ok_def)
    then show ?thesis using assms(2) False by (metis Un_iff fun_upd_other option.inject set_append)
  qed simp
  then show ?thesis using assms others by (auto simp: jobs_ok_def)
qed

lemma jobs_ok_step:
  assumes "pool_step e p q" "\<forall>t. start_event e = Some t \<longrightarrow> t = Main" "workers_ok p" "main_alone p" "jobs_ok p"
  shows "jobs_ok q"
  using assms
proof (induction rule: pool_step_cases)
  case (give p t w)
  then have "p_code p w = None" by (auto simp: main_alone_def)
  then show ?case by (rule jobs_ok_new [OF give(6)]) simp_all
next
  case (create p t w)
  then have "p_code p w = None" by (auto simp: workers_ok_def)
  then show ?case by (rule jobs_ok_new [OF create(8)]) simp_all
next
  case (finish p w j)
  then have "p_code p w = Some j" by (auto simp: workers_ok_def)
  then show ?case by (rule jobs_ok_done [OF finish(6)]) simp_all
qed (auto intro: jobs_ok_cong)

lemma main_alone_reach: "pool_reach {Main} p \<Longrightarrow> main_alone p \<and> jobs_ok p"
proof (induction rule: pool_reach.induct)
  case start
  then show ?case by (simp add: main_alone_start jobs_ok_start)
next
  case (step p e q)
  then have "workers_ok p" "\<forall>t. start_event e = Some t \<longrightarrow> t = Main" by (auto dest: pool_reach_ok)
  with step show ?case using main_alone_step jobs_ok_step by blast
qed

text \<open>
  C13: as long as only the main thread starts jobs, none is lost, run twice or left over: each job has ended
  exactly once or is held by exactly one worker, and when \<open>pone_universe_wait_threads\<close> returns all have ended.
\<close>

theorem pool_jobs_complete:
  assumes "pool_reach {Main} p"
  shows "distinct (p_done p) \<and>
     (\<forall>j < p_given p. (j \<in> set (p_done p)) \<noteq> (\<exists>!w. p_code p w = Some j)) \<and>
     (p_main p = MLeft \<longrightarrow> set (p_done p) = {..<p_given p})"
proof -
  have "main_alone p" "jobs_ok p" using main_alone_reach [OF assms] by simp_all
  then show ?thesis unfolding main_alone_def jobs_ok_def by (auto; metis)
qed

section \<open>Concrete runs\<close>

lemmas act_defs = pool_act_def starting_act_def worker_act_def main_act_def scan_next_def pool_start_def can_start_def
  list_free_def mutex_free_def rouse_def rouse_main_def

text \<open>Two workers, of which the second has ended its job and sleeps, and the first runs its own.\<close>

definition two_workers :: "pool_event list" where
  "two_workers = [Create Main 0, Create Main 1, Lock 1, Test 1, Finish 1, Announce 1, Test 1, Sleep 1, Lock 0, Test 0]"

lemma pool_run_from_start:
  assumes "pool_run es pool_start = Some p" "\<forall>t \<in> set (List.map_filter start_event es). t \<in> S"
  shows "pool_reach S p"
  using assms by (rule pool_run_reach [OF pool_reach.start])

definition sleeping_main :: "pool_event list" where
  "sleeping_main = two_workers @ [WaitBegin, Scan, Scan, Scan]"

lemma sleeping_main_run:
  "\<exists>p. pool_run sleeping_main pool_start = Some p \<and> p_main p = MAsleep \<and> p_workers p = [1, 0] \<and> p_pc p 1 = WAsleep"
  by (simp add: sleeping_main_def two_workers_def act_defs)

lemma sleeping_main_starts: "\<forall>t \<in> set (List.map_filter start_event sleeping_main). t \<in> {Main}"
  by (simp add: sleeping_main_def two_workers_def List.map_filter_simps start_event_def)

theorem pool_no_lost_wakeup_witness:
  "\<exists>p. pool_reach {Main} p \<and> p_pc p 1 = WAsleep \<and> p_code p 1 = None \<and> p_main p = MAsleep \<and>
     (\<exists>v e q. still_busy p v \<and> worker_event v e \<and> pool_step e p q)"
proof -
  obtain p where p: "pool_run sleeping_main pool_start = Some p" "p_main p = MAsleep" "p_workers p = [1, 0]" "p_pc p 1 = WAsleep"
    using sleeping_main_run by blast
  have r: "pool_reach {Main} p" by (rule pool_run_from_start [OF p(1) sleeping_main_starts])
  show ?thesis using pool_no_lost_wakeup [OF r, of 1] p(2-) r by auto
qed

theorem pool_jobs_complete_witness:
  "\<exists>p. pool_reach {Main} p \<and> p_given p = 2 \<and> distinct (p_done p) \<and> (1 \<in> set (p_done p)) \<noteq> (\<exists>!w. p_code p w = Some 1)"
proof -
  obtain p where p: "pool_run sleeping_main pool_start = Some p" "p_given p = 2"
    by (simp add: sleeping_main_def two_workers_def act_defs)
  have r: "pool_reach {Main} p" by (rule pool_run_from_start [OF p(1) sleeping_main_starts])
  have "1 < p_given p" using p(2) by simp
  then have "(1 \<in> set (p_done p)) \<noteq> (\<exists>!w. p_code p w = Some 1)" "distinct (p_done p)"
    using pool_jobs_complete [OF r] by simp_all
  with p(2) r show ?thesis by (intro exI [of _ p] conjI)
qed

text \<open>
  C15: when a job may start jobs, as \<open>async\<close> lets it, two things can go wrong. Two starters that both saw a worker
  without a job both give it one, and the first is lost: \<open>world->code\<close> is not looked at again under the lock. And the
  count of the jobs, which goes from world to world, can miss a job that moves to a world it has passed:
  \<open>pone_universe_wait_threads\<close> returns while that job is still to be done.
\<close>

theorem pool_async_races:
  "(\<exists>p. pool_reach {Main, Worker 0} p \<and> (\<exists>j < p_given p. j \<notin> set (p_done p) \<and> (\<forall>w. p_code p w \<noteq> Some j))) \<and>
   (\<exists>p. pool_reach {Main, Worker 0} p \<and> p_main p = MLeft \<and> (\<exists>w \<in> set (p_workers p). p_code p w \<noteq> None))"
proof (intro conjI)
  let ?es = "two_workers @ [Look Main 1, Look (Worker 0) 1, Give (Worker 0), Give Main]"
  obtain p where p: "pool_run ?es pool_start = Some p" "p_given p = 4" "p_done p = [1]"
      "p_code p = (\<lambda>_. None)(0 := Some 0, 1 := Some 3)"
    by (simp add: two_workers_def act_defs fun_upd_def fun_eq_iff)
  have "pool_reach {Main, Worker 0} p"
    by (rule pool_run_from_start [OF p(1)]) (simp add: two_workers_def List.map_filter_simps start_event_def)
  with p show "\<exists>p. pool_reach {Main, Worker 0} p \<and> (\<exists>j < p_given p. j \<notin> set (p_done p) \<and> (\<forall>w. p_code p w \<noteq> Some j))"
    by (intro exI [of _ p] conjI exI [of _ 2]) auto
next
  let ?es = "two_workers @ [WaitBegin, Scan, Look (Worker 0) 1, Give (Worker 0), Finish 0, Scan, Scan]"
  obtain p where p: "pool_run ?es pool_start = Some p" "p_main p = MLeft" "p_workers p = [1, 0]" "p_code p 1 = Some 2"
    by (simp add: two_workers_def act_defs)
  have "pool_reach {Main, Worker 0} p"
    by (rule pool_run_from_start [OF p(1)]) (simp add: two_workers_def List.map_filter_simps start_event_def)
  with p show "\<exists>p. pool_reach {Main, Worker 0} p \<and> p_main p = MLeft \<and> (\<exists>w \<in> set (p_workers p). p_code p w \<noteq> None)"
    by (intro exI [of _ p]) auto
qed

text \<open>
  C16: the end can hang: \<open>pone_universe_destroy\<close> sets \<open>end_time\<close> and signals without the mutex of the world, so that a
  worker between its test and its sleep misses both, and \<open>pthread_join\<close> waits for it; only a spurious wake-up is
  left as a step.
\<close>

theorem pool_shutdown_hangs:
  "\<exists>p. pool_reach {Main} p \<and> p_main p = MJoin 0 [] \<and> p_pc p 0 = WAsleep \<and> {e. \<exists>q. pool_step e p q} = {Spurious 0}"
proof -
  let ?es = "[Create Main 0, Lock 0, Test 0, Finish 0, Announce 0, WaitBegin, Scan, Scan, Resume, Test 0, Destroy, Kill, Sleep 0]"
  obtain p where p: "pool_run ?es pool_start = Some p" "p_main p = MJoin 0 []" "p_workers p = [0]"
      "p_pc p = (\<lambda>_. WNew)(0 := WAsleep)" "p_saw p = (\<lambda>_. None)"
    by (simp add: act_defs fun_upd_def fun_eq_iff)
  have r: "pool_reach {Main} p"
    by (rule pool_run_from_start [OF p(1)]) (simp add: List.map_filter_simps start_event_def)
  have "r = p \<Longrightarrow> e = Spurious 0" if "pool_step e r q" for e r q
    using that
    by (induction rule: pool_step_cases) (simp_all add: p(2-) can_start_def split: if_splits starter.splits)
  then have "e = Spurious 0" if "pool_step e p q" for e q using that by blast
  moreover have "pool_step (Spurious 0) p (p\<lparr>p_pc := (p_pc p)(0 := WWoken)\<rparr>)" by (rule pool_spurious) (simp add: p(4))
  ultimately have "{e. \<exists>q. pool_step e p q} = {Spurious 0}" by blast
  moreover have "p_pc p 0 = WAsleep" by (simp add: p(4))
  ultimately show ?thesis using p(2) r by (intro exI [of _ p] conjI)
qed

end
