(* ===== verification/C_Stdio.thy ===== *)
theory C_Stdio
  imports Pone_Prelude
begin

text \<open>
  What the run-time uses of the C library for files and allocated structures: streams (\<open>FILE\<close>) over files
  with a name and contents, descriptors, and the blocks that opaque values point to. Every operation works on
  the state of the operating system and returns \<open>None\<close> where C leaves its behaviour undefined, as for a
  stream that is NULL or already closed. Permissions, directories and failing devices are left out:
  a stream for reading delivers the contents of its file and then the end of the file.
\<close>

section \<open>State\<close>

record c_file =
  f_inode :: nat
  f_pos :: nat
  f_eof :: bool
  f_err :: bool
  f_read :: bool
  f_write :: bool
  f_append :: bool
  f_fd :: int

text \<open>The fields of \<open>struct stat\<close> and \<open>struct tm\<close> by their names.\<close>

type_synonym c_struct = "string \<Rightarrow> pone_int_t"

datatype c_obj =
    Unallocated
  | FileObj c_file
  | StatObj c_struct
  | RegexObj bytes
  | SockObj int \<comment> \<open>its descriptor, 0 when closed\<close>
  | CtxObj \<comment> \<open>a context of the compiler\<close>

text \<open>
  \<open>os_dir\<close> and \<open>os_data\<close> are the files by name and their contents, \<open>os_fd\<close> the open descriptors,
  \<open>os_obj\<close> the blocks in memory by their address, of which 0 is NULL.
\<close>

record os_state =
  os_dir :: "bytes \<Rightarrow> nat option"
  os_data :: "nat \<Rightarrow> bytes"
  os_next_inode :: nat
  os_fd :: "int \<Rightarrow> nat option"
  os_next_fd :: int
  os_obj :: "nat \<Rightarrow> c_obj"
  os_next :: nat
  os_errno :: int

definition ENOENT :: int where "ENOENT = 2"
definition EBADF :: int where "EBADF = 9"
definition EINVAL :: int where "EINVAL = 22"

lemmas errno_defs = ENOENT_def EBADF_def EINVAL_def

section \<open>Memory\<close>

definition c_new :: "c_obj \<Rightarrow> os_state \<Rightarrow> nat \<times> os_state" where
  "c_new x os = (os_next os, os\<lparr>os_obj := (os_obj os)(os_next os := x), os_next := Suc (os_next os)\<rparr>)"

definition c_free :: "nat \<Rightarrow> os_state \<Rightarrow> (unit \<times> os_state) option" where
  "c_free p os =
     (if p = 0 then Some ((), os)
      else case os_obj os p of
             Unallocated \<Rightarrow> None
           | _ \<Rightarrow> Some ((), os\<lparr>os_obj := (os_obj os)(p := Unallocated)\<rparr>))"

definition set_obj :: "nat \<Rightarrow> c_obj \<Rightarrow> os_state \<Rightarrow> os_state" where
  "set_obj p x os = os\<lparr>os_obj := (os_obj os)(p := x)\<rparr>"

section \<open>Streams\<close>

definition c_stream :: "nat \<Rightarrow> os_state \<Rightarrow> c_file option" where
  "c_stream fp os = (if fp = 0 then None else case os_obj os fp of FileObj f \<Rightarrow> Some f | _ \<Rightarrow> None)"

text \<open>The letters of a mode: \<open>r\<close>, \<open>w\<close> or \<open>a\<close> first, then perhaps \<open>+\<close>.\<close>

definition c_mode_ok :: "bytes \<Rightarrow> bool" where
  "c_mode_ok mode \<longleftrightarrow> mode \<noteq> [] \<and> hd mode \<in> {114, 119, 97}"

definition c_open_stream :: "nat \<Rightarrow> int \<Rightarrow> bytes \<Rightarrow> os_state \<Rightarrow> nat \<times> os_state" where
  "c_open_stream inode fd mode =
     c_new (FileObj \<lparr>f_inode = inode, f_pos = 0, f_eof = False, f_err = False,
       f_read = (hd mode = 114 \<or> 43 \<in> set mode), f_write = (hd mode \<noteq> 114 \<or> 43 \<in> set mode),
       f_append = (hd mode = 97), f_fd = fd\<rparr>)"

definition c_open_fd :: "nat \<Rightarrow> os_state \<Rightarrow> int \<times> os_state" where
  "c_open_fd inode os =
     (os_next_fd os, os\<lparr>os_fd := (os_fd os)(os_next_fd os \<mapsto> inode), os_next_fd := os_next_fd os + 1\<rparr>)"

text \<open>A new empty file of that name.\<close>

definition c_creat :: "bytes \<Rightarrow> os_state \<Rightarrow> nat \<times> os_state" where
  "c_creat name os =
     (os_next_inode os,
      os\<lparr>os_dir := (os_dir os)(name \<mapsto> os_next_inode os), os_data := (os_data os)(os_next_inode os := []),
        os_next_inode := Suc (os_next_inode os)\<rparr>)"

definition c_fopen :: "bytes \<Rightarrow> bytes \<Rightarrow> os_state \<Rightarrow> nat \<times> os_state" where
  "c_fopen name mode os =
     (if \<not> c_mode_ok mode then (0, os\<lparr>os_errno := EINVAL\<rparr>)
      else case os_dir os name of
             None \<Rightarrow>
               if hd mode = 114 then (0, os\<lparr>os_errno := ENOENT\<rparr>)
               else let (i, os) = c_creat name os; (fd, os) = c_open_fd i os in c_open_stream i fd mode os
           | Some i \<Rightarrow>
               let os = (if hd mode = 119 then os\<lparr>os_data := (os_data os)(i := [])\<rparr> else os);
                   (fd, os) = c_open_fd i os
               in c_open_stream i fd mode os)"

definition c_fdopen :: "int \<Rightarrow> bytes \<Rightarrow> os_state \<Rightarrow> nat \<times> os_state" where
  "c_fdopen fd mode os =
     (if \<not> c_mode_ok mode then (0, os\<lparr>os_errno := EINVAL\<rparr>)
      else case os_fd os fd of
             None \<Rightarrow> (0, os\<lparr>os_errno := EBADF\<rparr>)
           | Some i \<Rightarrow> c_open_stream i fd mode os)"

text \<open>The result is whether it succeeded: the descriptor may have been closed through another stream.\<close>

definition c_fclose :: "nat \<Rightarrow> os_state \<Rightarrow> (bool \<times> os_state) option" where
  "c_fclose fp os =
     map_option (\<lambda>f.
       let os = set_obj fp Unallocated os
       in if os_fd os (f_fd f) = None then (False, os\<lparr>os_errno := EBADF\<rparr>)
          else (True, os\<lparr>os_fd := (os_fd os)(f_fd f := None)\<rparr>))
     (c_stream fp os)"

definition c_feof :: "nat \<Rightarrow> os_state \<Rightarrow> (bool \<times> os_state) option" where
  "c_feof fp os = map_option (\<lambda>f. (f_eof f, os)) (c_stream fp os)"

definition c_fileno :: "nat \<Rightarrow> os_state \<Rightarrow> (int \<times> os_state) option" where
  "c_fileno fp os = map_option (\<lambda>f. (f_fd f, os)) (c_stream fp os)"

definition c_ftell :: "nat \<Rightarrow> os_state \<Rightarrow> (pone_int_t \<times> os_state) option" where
  "c_ftell fp os = map_option (\<lambda>f. (of_nat (f_pos f), os)) (c_stream fp os)"

definition c_rewind :: "nat \<Rightarrow> os_state \<Rightarrow> (unit \<times> os_state) option" where
  "c_rewind fp os =
     map_option (\<lambda>f. ((), set_obj fp (FileObj (f\<lparr>f_pos := 0, f_eof := False, f_err := False\<rparr>)) os)) (c_stream fp os)"

text \<open>\<open>whence\<close> is 0 for \<open>SEEK_SET\<close>, 1 for \<open>SEEK_CUR\<close>, 2 for \<open>SEEK_END\<close>; the result is whether it succeeded.\<close>

definition c_fseek :: "nat \<Rightarrow> int \<Rightarrow> int \<Rightarrow> os_state \<Rightarrow> (bool \<times> os_state) option" where
  "c_fseek fp off whence os =
     map_option (\<lambda>f.
       let base = (if whence = 0 then 0 else if whence = 1 then int (f_pos f) else int (length (os_data os (f_inode f))))
       in if whence \<notin> {0, 1, 2} \<or> base + off < 0 then (False, os\<lparr>os_errno := EINVAL\<rparr>)
          else (True, set_obj fp (FileObj (f\<lparr>f_pos := nat (base + off), f_eof := False\<rparr>)) os))
     (c_stream fp os)"

text \<open>
  Reading \<open>n\<close> bytes delivers what is there; the end of the file is noticed only when fewer than \<open>n\<close> bytes are
  left.
\<close>

definition c_fread :: "nat \<Rightarrow> nat \<Rightarrow> os_state \<Rightarrow> (bytes \<times> os_state) option" where
  "c_fread n fp os =
     map_option (\<lambda>f.
       if f_read f then
         let b = take n (drop (f_pos f) (os_data os (f_inode f)))
         in (b, set_obj fp (FileObj (f\<lparr>f_pos := f_pos f + length b, f_eof := (f_eof f \<or> length b < n)\<rparr>)) os)
       else ([], set_obj fp (FileObj (f\<lparr>f_err := True\<rparr>)) (os\<lparr>os_errno := EBADF\<rparr>)))
     (c_stream fp os)"

text \<open>The text up to and including the first line feed, at most \<open>n\<close> bytes.\<close>

fun c_line :: "nat \<Rightarrow> bytes \<Rightarrow> bytes" where
  "c_line 0 b = []"
| "c_line (Suc n) [] = []"
| "c_line (Suc n) (c # cs) = (if c = 10 then [c] else c # c_line n cs)"

text \<open>\<open>None\<close> in the result is the NULL of \<open>fgets\<close>: the end of the file with nothing read.\<close>

definition c_fgets :: "nat \<Rightarrow> nat \<Rightarrow> os_state \<Rightarrow> (bytes option \<times> os_state) option" where
  "c_fgets sz fp os =
     map_option (\<lambda>f.
       if f_read f then
         let rest = drop (f_pos f) (os_data os (f_inode f));
             b = c_line (sz - 1) rest;
             hit = (length b < sz - 1 \<and> (b = [] \<or> last b \<noteq> 10))
         in (if b = [] then None else Some b,
             set_obj fp (FileObj (f\<lparr>f_pos := f_pos f + length b, f_eof := (f_eof f \<or> hit)\<rparr>)) os)
       else (None, set_obj fp (FileObj (f\<lparr>f_err := True\<rparr>)) (os\<lparr>os_errno := EBADF\<rparr>)))
     (c_stream fp os)"

text \<open>Bytes written beyond the end leave a gap of zeros.\<close>

definition overwrite :: "nat \<Rightarrow> bytes \<Rightarrow> bytes \<Rightarrow> bytes" where
  "overwrite pos b d = take pos (d @ replicate (pos - length d) 0) @ b @ drop (pos + length b) d"

definition c_fwrite :: "bytes \<Rightarrow> nat \<Rightarrow> os_state \<Rightarrow> (nat \<times> os_state) option" where
  "c_fwrite b fp os =
     map_option (\<lambda>f.
       if f_write f then
         let d = os_data os (f_inode f); pos = (if f_append f then length d else f_pos f)
         in (length b, set_obj fp (FileObj (f\<lparr>f_pos := pos + length b\<rparr>))
               (os\<lparr>os_data := (os_data os)(f_inode f := overwrite pos b d)\<rparr>))
       else (0, set_obj fp (FileObj (f\<lparr>f_err := True\<rparr>)) (os\<lparr>os_errno := EBADF\<rparr>)))
     (c_stream fp os)"

section \<open>Start\<close>

text \<open>Standard input, output and error are the streams 1, 2 and 3 on the descriptors 0, 1 and 2.\<close>

definition std_stream :: "nat \<Rightarrow> c_obj" where
  "std_stream i = FileObj \<lparr>f_inode = i, f_pos = 0, f_eof = False, f_err = False, f_read = (i = 0), f_write = (i \<noteq> 0),
     f_append = False, f_fd = int i\<rparr>"

definition blank_os :: os_state where
  "blank_os = \<lparr>os_dir = Map.empty, os_data = (\<lambda>_. []), os_next_inode = 3,
     os_fd = [0 \<mapsto> 0, 1 \<mapsto> 1, 2 \<mapsto> 2], os_next_fd = 3,
     os_obj = (\<lambda>_. Unallocated)(1 := std_stream 0, 2 := std_stream 1, 3 := std_stream 2), os_next = 4, os_errno = 0\<rparr>"

end
