(* ===== verification/Pone_Value.thy ===== *)
theory Pone_Value
  imports Khash_Table C_Stdio
begin

text \<open>
  Values, worlds and the universe (\<^verbatim>\<open>include/pone.h\<close>). A \<open>pone_val*\<close> is a pointer: NULL, one of the
  static values (\<open>pone_nil_val\<close>, \<open>pone_true_val\<close>, \<open>pone_false_val\<close>, the integer literals of
  compiled code) or slot \<open>i\<close> of arena \<open>a\<close> of world \<open>w\<close>. The heap maps pointers to values. The union
  \<open>as\<close> of a value is a datatype whose constructor is the type tag; a type tag of 0 is a free slot.
  Memory that only one value owns (string buffers, array slots, hash bodies) is kept inside the
  value; the body of an opaque is shared between copies and lives in a store of its own.
  Lengths and capacities are natural numbers; integers of the language are 64-bit words.
\<close>

section \<open>Flags and type tags\<close>

definition PONE_FLAGS_GLOBAL :: "8 word" where "PONE_FLAGS_GLOBAL = push_bit 0 1"
definition PONE_FLAGS_FROZEN :: "8 word" where "PONE_FLAGS_FROZEN = push_bit 1 1"
definition PONE_FLAGS_GC_MARK :: "8 word" where "PONE_FLAGS_GC_MARK = push_bit 2 1"
definition PONE_FLAGS_STR_CONST :: "8 word" where "PONE_FLAGS_STR_CONST = push_bit 5 1"
definition PONE_FLAGS_STR_COPY :: "8 word" where "PONE_FLAGS_STR_COPY = push_bit 6 1"
definition PONE_FLAGS_STR_UTF8 :: "8 word" where "PONE_FLAGS_STR_UTF8 = push_bit 7 1"

lemmas flag_defs =
  PONE_FLAGS_GLOBAL_def PONE_FLAGS_FROZEN_def PONE_FLAGS_GC_MARK_def
  PONE_FLAGS_STR_CONST_def PONE_FLAGS_STR_COPY_def PONE_FLAGS_STR_UTF8_def

datatype pone_t =
    PONE_FREE \<comment> \<open>tag 0\<close>
  | PONE_NIL | PONE_INT | PONE_NUM | PONE_STRING | PONE_ARRAY | PONE_BOOL | PONE_MAP | PONE_CODE
  | PONE_OBJ | PONE_LEX | PONE_OPAQUE

section \<open>Values\<close>

datatype ptr = Null | NilP | TrueP | FalseP | ConstInt pone_int_t | Cell nat nat nat

text \<open>A function pointer is the name of the C function.\<close>

type_synonym pone_funcptr_t = string

text \<open>The union of \<open>pone_string\<close>: a buffer, or the string a copy refers to.\<close>

datatype str_data = StrBuf bytes | StrVal ptr

datatype pone_as =
    AsFree ptr
  | AsNil
  | AsInt pone_int_t
  | AsNum pone_num_t
  | AsStr str_data nat
  | AsAry "ptr list" nat nat \<comment> \<open>\<open>a\<close>, \<open>max\<close>, \<open>len\<close>\<close>
  | AsBool bool
  | AsMap "(ptr, ptr) khash" nat \<comment> \<open>\<open>h\<close>, \<open>len\<close>\<close>
  | AsCode pone_funcptr_t ptr
  | AsObj ptr "ptr str_khash"
  | AsLex ptr "ptr str_khash" nat \<comment> \<open>\<open>parent\<close>, \<open>map\<close>, \<open>thread_id\<close>\<close>
  | AsOpaque nat

record pone_val =
  val_flags :: "8 word"
  val_as :: pone_as

fun as_type :: "pone_as \<Rightarrow> pone_t" where
  "as_type (AsFree _) = PONE_FREE"
| "as_type AsNil = PONE_NIL"
| "as_type (AsInt _) = PONE_INT"
| "as_type (AsNum _) = PONE_NUM"
| "as_type (AsStr _ _) = PONE_STRING"
| "as_type (AsAry _ _ _) = PONE_ARRAY"
| "as_type (AsBool _) = PONE_BOOL"
| "as_type (AsMap _ _) = PONE_MAP"
| "as_type (AsCode _ _) = PONE_CODE"
| "as_type (AsObj _ _) = PONE_OBJ"
| "as_type (AsLex _ _ _) = PONE_LEX"
| "as_type (AsOpaque _) = PONE_OPAQUE"

definition pone_type :: "pone_val \<Rightarrow> pone_t" where
  "pone_type v = as_type (val_as v)"

definition pone_defined :: "pone_val \<Rightarrow> bool" where
  "pone_defined v \<longleftrightarrow> pone_type v \<noteq> PONE_NIL"

definition pone_alive :: "pone_val \<Rightarrow> bool" where
  "pone_alive v \<longleftrightarrow> pone_type v \<noteq> PONE_FREE"

definition has_flag :: "8 word \<Rightarrow> pone_val \<Rightarrow> bool" where
  "has_flag f v \<longleftrightarrow> val_flags v AND f \<noteq> 0"

definition pone_is_frozen :: "pone_val \<Rightarrow> bool" where
  "pone_is_frozen v \<longleftrightarrow> has_flag PONE_FLAGS_FROZEN v"

type_synonym pone_heap = "ptr \<Rightarrow> pone_val"

text \<open>The static values; every other pointer starts as a free slot.\<close>

definition initial_heap :: pone_heap where
  "initial_heap p =
     (case p of
        NilP \<Rightarrow> \<lparr>val_flags = PONE_FLAGS_GLOBAL, val_as = AsNil\<rparr>
      | TrueP \<Rightarrow> \<lparr>val_flags = PONE_FLAGS_GLOBAL, val_as = AsBool True\<rparr>
      | FalseP \<Rightarrow> \<lparr>val_flags = PONE_FLAGS_GLOBAL, val_as = AsBool False\<rparr>
      | ConstInt i \<Rightarrow> \<lparr>val_flags = PONE_FLAGS_FROZEN, val_as = AsInt i\<rparr>
      | _ \<Rightarrow> \<lparr>val_flags = 0, val_as = AsFree Null\<rparr>)"

definition pone_nil :: ptr where "pone_nil = NilP"
definition pone_true :: ptr where "pone_true = TrueP"
definition pone_false :: ptr where "pone_false = FalseP"

section \<open>Worlds, opaque bodies, universe\<close>

text \<open>
  \<open>w_arenas\<close> holds the \<open>idx\<close> of each arena from \<open>arena_head\<close> to \<open>arena_last\<close>. The temporary and save
  stacks are their first \<open>n\<close> entries together with the capacity \<open>m\<close>. The handler arrays have
  \<open>err_handler_max\<close> allocated entries (an entry that was never written is NULL); the \<open>jmp_buf\<close> of a
  handler is its index.
\<close>

record pone_world =
  w_arenas :: "nat list"
  w_code :: ptr
  w_freelist :: ptr
  w_lex :: ptr
  w_errvar :: ptr
  w_errsv :: int
  w_caller_stack :: ptr
  w_err_handler_lexs :: "ptr list"
  w_err_handler_callers :: "nat list"
  w_err_handler_idx :: int
  w_err_handler_max :: nat
  w_tmpstack :: "ptr list"
  w_tmpstack_m :: nat
  w_savestack :: "nat list"
  w_savestack_m :: nat
  w_thread_id :: nat
  w_gc_requested :: bool
  w_random_key :: "64 word \<times> 64 word"

record pone_opaque_body =
  o_klass :: ptr
  o_ptr :: nat \<comment> \<open>the C pointer, 0 for NULL\<close>
  o_finalizer :: "string option"
  o_refcnt :: int
  o_freed :: bool

record pone_universe =
  u_class_class :: ptr
  u_class_int :: ptr
  u_class_num :: ptr
  u_class_str :: ptr
  u_class_bytes :: ptr
  u_class_ary :: ptr
  u_class_bool :: ptr
  u_class_map :: ptr
  u_class_code :: ptr
  u_class_nil :: ptr
  u_class_range :: ptr
  u_class_pair :: ptr
  u_class_channel :: ptr
  u_class_errno :: ptr
  u_class_module :: ptr
  u_class_x_adhoc :: ptr
  u_class_caller :: ptr
  u_instance_iteration_end :: ptr
  u_inc :: ptr
  u_args :: ptr
  u_globals :: "ptr str_khash"
  u_signal_channels :: "ptr list list"
  u_worker_worlds :: "nat list"
  u_end_time :: bool
  u_class_regex :: ptr
  u_class_onig :: ptr
  u_class_match :: ptr
  u_class_file :: ptr
  u_class_tmpfile :: ptr
  u_class_path :: ptr
  u_class_stat :: ptr
  u_class_time :: ptr
  u_global_world :: "nat option"
  u_signal_world :: "nat option"
  u_compiler_world :: "nat option"

text \<open>\<open>st_self\<close> is \<open>pthread_self()\<close> of the running thread; \<open>st_out\<close> what has been printed to
  standard output; \<open>st_os\<close> the files and the memory that opaque values point to.\<close>

record pone_state =
  st_heap :: pone_heap
  st_world :: "nat \<Rightarrow> pone_world"
  st_opaque :: "nat \<Rightarrow> pone_opaque_body"
  st_next_opaque :: nat
  st_universe :: pone_universe
  st_self :: nat
  st_out :: bytes
  st_os :: os_state

type_synonym 'a pone = "pone_state \<Rightarrow> ('a, pone_state) outcome"

definition val_at :: "pone_state \<Rightarrow> ptr \<Rightarrow> pone_val" where
  "val_at s p = st_heap s p"

definition type_at :: "pone_state \<Rightarrow> ptr \<Rightarrow> pone_t" where
  "type_at s p = pone_type (st_heap s p)"

definition set_val :: "ptr \<Rightarrow> pone_val \<Rightarrow> pone_state \<Rightarrow> pone_state" where
  "set_val p v s = s\<lparr>st_heap := (st_heap s)(p := v)\<rparr>"

text \<open>Write the union of a value, keeping its flags.\<close>

definition set_as :: "ptr \<Rightarrow> pone_as \<Rightarrow> pone_state \<Rightarrow> pone_state" where
  "set_as p a s = set_val p ((st_heap s p)\<lparr>val_as := a\<rparr>) s"

definition set_flags :: "ptr \<Rightarrow> 8 word \<Rightarrow> pone_state \<Rightarrow> pone_state" where
  "set_flags p f s = set_val p ((st_heap s p)\<lparr>val_flags := f\<rparr>) s"

definition upd_world :: "nat \<Rightarrow> (pone_world \<Rightarrow> pone_world) \<Rightarrow> pone_state \<Rightarrow> pone_state" where
  "upd_world w f s = s\<lparr>st_world := (st_world s)(w := f (st_world s w))\<rparr>"

lemma heap_set_val [simp]: "st_heap (set_val p v s) = (st_heap s)(p := v)"
  and world_set_val [simp]: "st_world (set_val p v s) = st_world s"
  and universe_set_val [simp]: "st_universe (set_val p v s) = st_universe s"
  and self_set_val [simp]: "st_self (set_val p v s) = st_self s"
  and opaque_set_val [simp]: "st_opaque (set_val p v s) = st_opaque s"
  and out_set_val [simp]: "st_out (set_val p v s) = st_out s"
  by (simp_all add: set_val_def)

lemma set_as_simps [simp]:
  "st_heap (set_as p a s) = (st_heap s)(p := (st_heap s p)\<lparr>val_as := a\<rparr>)"
  "st_world (set_as p a s) = st_world s"
  "st_universe (set_as p a s) = st_universe s"
  "st_self (set_as p a s) = st_self s"
  "st_opaque (set_as p a s) = st_opaque s"
  "st_out (set_as p a s) = st_out s"
  by (simp_all add: set_as_def)

lemma set_flags_simps [simp]:
  "st_heap (set_flags p f s) = (st_heap s)(p := (st_heap s p)\<lparr>val_flags := f\<rparr>)"
  "st_world (set_flags p f s) = st_world s"
  "st_universe (set_flags p f s) = st_universe s"
  "st_self (set_flags p f s) = st_self s"
  by (simp_all add: set_flags_def)

lemma upd_world_simps [simp]:
  "st_heap (upd_world w f s) = st_heap s"
  "st_world (upd_world w f s) = (st_world s)(w := f (st_world s w))"
  "st_universe (upd_world w f s) = st_universe s"
  "st_self (upd_world w f s) = st_self s"
  "st_opaque (upd_world w f s) = st_opaque s"
  "st_out (upd_world w f s) = st_out s"
  by (simp_all add: upd_world_def)

lemma pone_alive_iff: "pone_alive v \<longleftrightarrow> (\<forall>n. val_as v \<noteq> AsFree n)"
  by (cases "val_as v") (simp_all add: pone_alive_def pone_type_def)

end
