(* ===== verification/Pone_Alloc.thy ===== *)
theory Pone_Alloc
  imports Pone_Value
begin

text \<open>
  Allocation of values (\<^verbatim>\<open>src/alloc.c\<close>), the temporary stack and lexical scopes
  (\<^verbatim>\<open>src/scope.c\<close>). A value comes from the world's free list or from its last arena; every new
  value is pushed on the temporary stack, so that the collector sees it before it is stored
  anywhere. \<open>arena_wf\<close> is the invariant: the free list is acyclic and links exactly the dead slots
  of the world's arenas.
\<close>

section \<open>Allocation\<close>

definition PONE_ARENA_SIZE :: nat where "PONE_ARENA_SIZE = 1024"

text \<open>The growth of a stack whose \<open>n\<close> entries may have filled its \<open>m\<close> slots.\<close>

definition kv_grow :: "nat \<Rightarrow> nat \<Rightarrow> nat" where
  "kv_grow n m = (if n = m then if m \<noteq> 0 then push_bit 1 m else 2 else m)"

definition pone_save_tmp :: "nat \<Rightarrow> ptr \<Rightarrow> ptr pone" where
  "pone_save_tmp w val s =
     (if val = Null then Abort
      else Ret val
        (upd_world w (\<lambda>W. W\<lparr>w_tmpstack_m := kv_grow (length (w_tmpstack W)) (w_tmpstack_m W),
                            w_tmpstack := w_tmpstack W @ [val]\<rparr>) s))"

text \<open>
  The slot that allocation takes, with the bookkeeping of the free list and the arenas. A free
  list that leads to a live value would be read through the wrong member of the union.
\<close>

definition pone_take_slot :: "nat \<Rightarrow> ptr pone" where
  "pone_take_slot w s =
     (let W = st_world s w; n = length (w_arenas W) in
      if w_arenas W = [] then Abort
      else if w_freelist W \<noteq> Null then
        (case val_as (st_heap s (w_freelist W)) of
           AsFree next \<Rightarrow> Ret (w_freelist W) (upd_world w (w_freelist_update (\<lambda>_. next)) s)
         | _ \<Rightarrow> Undef)
      else if last (w_arenas W) = PONE_ARENA_SIZE then
        Ret (Cell w n 0)
          (upd_world w (\<lambda>W. W\<lparr>w_gc_requested := True, w_arenas := w_arenas W @ [1]\<rparr>) s)
      else
        Ret (Cell w (n - 1) (last (w_arenas W)))
          (upd_world w (\<lambda>W. W\<lparr>w_arenas := butlast (w_arenas W) @ [Suc (last (w_arenas W))]\<rparr>) s))"

text \<open>The allocation together with the writes that initialise the value's union.\<close>

definition pone_obj_alloc :: "nat \<Rightarrow> pone_as \<Rightarrow> ptr pone" where
  "pone_obj_alloc w a s =
     andthen (pone_take_slot w s) (\<lambda>val s.
       pone_save_tmp w val (set_val val \<lparr>val_flags = 0, val_as = a\<rparr> s))"

definition pone_val_free :: "nat \<Rightarrow> ptr \<Rightarrow> pone_state \<Rightarrow> pone_state" where
  "pone_val_free w p s =
     upd_world w (w_freelist_update (\<lambda>_. p))
       (set_val p \<lparr>val_flags = 0, val_as = AsFree (w_freelist (st_world s w))\<rparr> s)"

text \<open>A duplicated buffer: the bytes and a terminating NUL.\<close>

definition pone_strdup :: "bytes \<Rightarrow> nat \<Rightarrow> bytes" where
  "pone_strdup src sz = take sz src @ [0]"

section \<open>Lexical scopes\<close>

definition pone_lex_new :: "nat \<Rightarrow> ptr \<Rightarrow> ptr pone" where
  "pone_lex_new w parent s = pone_obj_alloc w (AsLex parent kh_init (st_self s)) s"

definition pone_push_scope :: "nat \<Rightarrow> unit pone" where
  "pone_push_scope w s =
     andthen (pone_lex_new w (w_lex (st_world s w)) s) (\<lambda>lx s.
       Ret () (upd_world w (\<lambda>W. W\<lparr>w_lex := lx,
                 w_savestack_m := kv_grow (length (w_savestack W)) (w_savestack_m W),
                 w_savestack := w_savestack W @ [length (w_tmpstack W)]\<rparr>) s))"

definition pone_pop_scope :: "nat \<Rightarrow> unit pone" where
  "pone_pop_scope w s =
     (let W = st_world s w in
      case val_as (st_heap s (w_lex W)) of
        AsLex parent _ _ \<Rightarrow>
          if type_at s parent \<noteq> PONE_LEX then Abort
          else if w_savestack W = [] then Undef
          else if last (w_savestack W) > length (w_tmpstack W) then Undef
          else Ret () (upd_world w (\<lambda>W. W\<lparr>w_lex := parent,
                 w_tmpstack := take (last (w_savestack W)) (w_tmpstack W),
                 w_savestack := butlast (w_savestack W)\<rparr>) s)
      | _ \<Rightarrow> Abort)"

section \<open>The allocation invariant\<close>

definition world_cells :: "nat \<Rightarrow> pone_world \<Rightarrow> ptr set" where
  "world_cells w W = {Cell w a i |a i. a < length (w_arenas W) \<and> i < w_arenas W ! a}"

fun free_chain :: "pone_heap \<Rightarrow> ptr \<Rightarrow> ptr list \<Rightarrow> bool" where
  "free_chain h p [] \<longleftrightarrow> p = Null"
| "free_chain h p (q # qs) \<longleftrightarrow> p = q \<and> q \<noteq> Null \<and> (\<exists>n. val_as (h q) = AsFree n \<and> free_chain h n qs)"

definition arenas_ok :: "pone_world \<Rightarrow> bool" where
  "arenas_ok W \<longleftrightarrow> w_arenas W \<noteq> [] \<and> (\<forall>n \<in> set (w_arenas W). n \<le> PONE_ARENA_SIZE)"

definition arena_wf :: "nat \<Rightarrow> pone_state \<Rightarrow> bool" where
  "arena_wf w s \<longleftrightarrow>
     arenas_ok (st_world s w) \<and>
     (\<exists>ps. free_chain (st_heap s) (w_freelist (st_world s w)) ps \<and> distinct ps \<and>
        set ps = {p \<in> world_cells w (st_world s w). \<not> pone_alive (st_heap s p)}) \<and>
     (\<forall>a i. Cell w a i \<notin> world_cells w (st_world s w) \<longrightarrow> \<not> pone_alive (st_heap s (Cell w a i)))"

lemma alive_update [simp]:
  "pone_alive \<lparr>val_flags = f, val_as = AsFree n\<rparr> \<longleftrightarrow> False"
  by (simp add: pone_alive_iff)

lemma free_chain_cong:
  "(\<And>p. p \<in> set ps \<Longrightarrow> h' p = h p) \<Longrightarrow> free_chain h' q ps \<longleftrightarrow> free_chain h q ps"
  by (induction ps arbitrary: q) simp_all

lemma free_chain_dead: "free_chain h q ps \<Longrightarrow> p \<in> set ps \<Longrightarrow> \<not> pone_alive (h p)"
  by (induction ps arbitrary: q) (auto simp: pone_alive_iff)

lemma world_cells_new:
  assumes "w_arenas W \<noteq> []"
  shows "world_cells w (W\<lparr>w_arenas := w_arenas W @ [1]\<rparr>) =
      insert (Cell w (length (w_arenas W)) 0) (world_cells w W)" (is ?new)
    and "world_cells w (W\<lparr>w_arenas := butlast (w_arenas W) @ [Suc (last (w_arenas W))]\<rparr>) =
      insert (Cell w (length (w_arenas W) - 1) (last (w_arenas W))) (world_cells w W)" (is ?next)
proof -
  show ?new by (auto simp: world_cells_def nth_append split: if_splits)
  obtain xs x where W: "w_arenas W = xs @ [x]" using assms by (metis append_butlast_last_id)
  show ?next by (auto simp: world_cells_def W nth_append less_Suc_eq split: if_splits)
qed

lemma world_cells_cong [simp]:
  "world_cells w (W\<lparr>w_freelist := x\<rparr>) = world_cells w W"
  "world_cells w (W\<lparr>w_gc_requested := b\<rparr>) = world_cells w W"
  "world_cells w (W\<lparr>w_tmpstack := t\<rparr>) = world_cells w W"
  "world_cells w (W\<lparr>w_tmpstack_m := m\<rparr>) = world_cells w W"
  "world_cells w (W\<lparr>w_savestack := n\<rparr>) = world_cells w W"
  "world_cells w (W\<lparr>w_savestack_m := m\<rparr>) = world_cells w W"
  "world_cells w (W\<lparr>w_lex := p\<rparr>) = world_cells w W"
  by (simp_all add: world_cells_def)

text \<open>\<open>arena_wf\<close> reads only the arenas, the free list and the heap.\<close>

lemma arena_wf_cong:
  assumes "w_arenas (st_world s' w) = w_arenas (st_world s w)"
    "w_freelist (st_world s' w) = w_freelist (st_world s w)" "st_heap s' = st_heap s"
  shows "arena_wf w s' \<longleftrightarrow> arena_wf w s"
  using assms by (simp add: arena_wf_def arenas_ok_def world_cells_def)

lemma take_slot_spec:
  assumes wf: "arena_wf w s" and a: "\<And>n. a \<noteq> AsFree n"
  shows "\<exists>p s'. pone_take_slot w s = Ret p s' \<and> (\<exists>i j. p = Cell w i j) \<and>
    \<not> pone_alive (st_heap s p) \<and> st_heap s' = st_heap s \<and>
    arena_wf w (set_val p \<lparr>val_flags = 0, val_as = a\<rparr> s') \<and>
    (\<exists>F. s' = upd_world w F s \<and>
       (\<forall>W. F W = W\<lparr>w_arenas := w_arenas (F W), w_freelist := w_freelist (F W),
                    w_gc_requested := w_gc_requested (F W)\<rparr>))"
proof -
  let ?W = "st_world s w"
  obtain ps where ps: "free_chain (st_heap s) (w_freelist ?W) ps" "distinct ps"
    "set ps = {p \<in> world_cells w ?W. \<not> pone_alive (st_heap s p)}"
    and ok: "arenas_ok ?W"
    and out: "\<And>a i. Cell w a i \<notin> world_cells w ?W \<Longrightarrow> \<not> pone_alive (st_heap s (Cell w a i))"
    using wf by (auto simp: arena_wf_def)
  have ne: "w_arenas ?W \<noteq> []" using ok by (simp add: arenas_ok_def)
  have al: "pone_alive \<lparr>val_flags = 0, val_as = a\<rparr>" using a by (simp add: pone_alive_iff)
  show ?thesis
  proof (cases ps)
    case (Cons q qs)
    then obtain n where n: "w_freelist ?W = q" "q \<noteq> Null" "val_as (st_heap s q) = AsFree n"
      "free_chain (st_heap s) n qs" using ps(1) by auto
    have q: "q \<in> world_cells w ?W" "\<not> pone_alive (st_heap s q)" using ps(3) Cons by auto
    let ?s = "upd_world w (w_freelist_update (\<lambda>_. n)) s"
    have "free_chain ((st_heap s)(q := \<lparr>val_flags = 0, val_as = a\<rparr>)) n qs"
      using n(4) ps(2) Cons by (subst free_chain_cong) auto
    moreover have "set qs = {p \<in> world_cells w ?W. \<not> pone_alive (((st_heap s)(q := \<lparr>val_flags = 0, val_as = a\<rparr>)) p)}"
      using ps(2,3) al Cons by auto
    ultimately have "arena_wf w (set_val q \<lparr>val_flags = 0, val_as = a\<rparr> ?s)"
      using ok ps(2) Cons out q(1) by (auto simp: arena_wf_def arenas_ok_def)
    moreover have "pone_take_slot w s = Ret q ?s" using ne n by (simp add: pone_take_slot_def)
    ultimately show ?thesis using q n(2)
      by (intro exI [of _ q] exI [of _ ?s] conjI exI [of _ "w_freelist_update (\<lambda>_. n)"])
        (auto simp: world_cells_def)
  next
    case Nil
    then have nul: "w_freelist ?W = Null" and all: "\<And>p. p \<in> world_cells w ?W \<Longrightarrow> pone_alive (st_heap s p)"
      using ps by auto
    define p where "p = (if last (w_arenas ?W) = PONE_ARENA_SIZE then Cell w (length (w_arenas ?W)) 0
      else Cell w (length (w_arenas ?W) - 1) (last (w_arenas ?W)))"
    define F :: "pone_world \<Rightarrow> pone_world" where "F = (\<lambda>W. if last (w_arenas ?W) = PONE_ARENA_SIZE
      then W\<lparr>w_gc_requested := True, w_arenas := w_arenas W @ [1]\<rparr>
      else W\<lparr>w_arenas := butlast (w_arenas W) @ [Suc (last (w_arenas W))]\<rparr>)"
    have ts: "pone_take_slot w s = Ret p (upd_world w F s)"
      using ne nul by (simp add: pone_take_slot_def p_def F_def Let_def)
    have cells: "world_cells w (F ?W) = insert p (world_cells w ?W)"
      using world_cells_new [OF ne, of w] by (simp add: p_def F_def world_cells_def)
    have fresh: "p \<notin> world_cells w ?W"
      using ne by (auto simp: p_def world_cells_def last_conv_nth)
    have pc: "\<exists>i j. p = Cell w i j" by (simp add: p_def)
    have dead: "\<not> pone_alive (st_heap s p)" using out fresh pc by blast
    have free: "w_freelist (F ?W) = Null" using nul by (simp add: F_def)
    have ok': "arenas_ok (F ?W)"
    proof -
      obtain xs x where "w_arenas ?W = xs @ [x]" using ne by (metis append_butlast_last_id)
      then show ?thesis using ok by (auto simp: arenas_ok_def F_def PONE_ARENA_SIZE_def)
    qed
    have "arena_wf w (set_val p \<lparr>val_flags = 0, val_as = a\<rparr> (upd_world w F s))"
      unfolding arena_wf_def using ok' free all out al
      by (auto simp: cells intro!: exI [of _ "[]"])
    then show ?thesis using ts pc dead
      by (intro exI [of _ p] exI [of _ "upd_world w F s"] conjI exI [of _ F]) (auto simp: F_def)
  qed
qed

lemma obj_alloc_spec:
  assumes wf: "arena_wf w s" and a: "\<And>n. a \<noteq> AsFree n"
  shows "\<exists>p s'. pone_obj_alloc w a s = Ret p s' \<and> (\<exists>i j. p = Cell w i j) \<and>
    \<not> pone_alive (st_heap s p) \<and> st_heap s' = (st_heap s)(p := \<lparr>val_flags = 0, val_as = a\<rparr>) \<and>
    arena_wf w s' \<and> (\<exists>F. s' = upd_world w F (set_val p \<lparr>val_flags = 0, val_as = a\<rparr> s) \<and>
      w_tmpstack (st_world s' w) = w_tmpstack (st_world s w) @ [p] \<and>
       (\<forall>W. F W = W\<lparr>w_arenas := w_arenas (F W), w_freelist := w_freelist (F W),
                    w_gc_requested := w_gc_requested (F W), w_tmpstack := w_tmpstack (F W),
                    w_tmpstack_m := w_tmpstack_m (F W)\<rparr>))"
proof -
  let ?v = "\<lparr>val_flags = 0, val_as = a\<rparr>"
  obtain p s1 F where p: "pone_take_slot w s = Ret p s1" "\<exists>i j. p = Cell w i j"
    "\<not> pone_alive (st_heap s p)" "st_heap s1 = st_heap s" "arena_wf w (set_val p ?v s1)"
    and F: "s1 = upd_world w F s" "\<And>W. F W = W\<lparr>w_arenas := w_arenas (F W), w_freelist := w_freelist (F W),
                    w_gc_requested := w_gc_requested (F W)\<rparr>"
    using take_slot_spec [OF assms] by blast
  have comm: "set_val p ?v (upd_world w F s) = upd_world w F (set_val p ?v s)"
    by (simp add: set_val_def upd_world_def)
  let ?G = "\<lambda>W. W\<lparr>w_tmpstack_m := kv_grow (length (w_tmpstack W)) (w_tmpstack_m W),
                            w_tmpstack := w_tmpstack W @ [p]\<rparr>"
  have "p \<noteq> Null" using p(2) by auto
  then have al: "pone_obj_alloc w a s = Ret p (upd_world w ?G (set_val p ?v s1))"
    using p(1) by (simp add: pone_obj_alloc_def pone_save_tmp_def)
  have eq: "upd_world w ?G (set_val p ?v s1) = upd_world w (\<lambda>W. ?G (F W)) (set_val p ?v s)"
    unfolding F(1) comm by (simp add: upd_world_def)
  have tmp: "w_tmpstack (F W) = w_tmpstack W" for W by (subst F(2)) simp
  have form: "?G (F W) = W\<lparr>w_arenas := w_arenas (?G (F W)), w_freelist := w_freelist (?G (F W)),
                    w_gc_requested := w_gc_requested (?G (F W)), w_tmpstack := w_tmpstack (?G (F W)),
                    w_tmpstack_m := w_tmpstack_m (?G (F W))\<rparr>" for W
    by (subst F(2)) (simp add: tmp)
  have wf': "arena_wf w (upd_world w ?G (set_val p ?v s1))"
    using p(5) by (subst arena_wf_cong [where s = "set_val p ?v s1"]) simp_all
  show ?thesis
    by (intro exI [of _ p] exI [of _ "upd_world w ?G (set_val p ?v s1)"] conjI al p(2,3) wf'
        exI [of _ "\<lambda>W. ?G (F W)"] allI)
      (use p(4) tmp form eq F(1) in simp_all)
qed

text \<open>The same as an elimination rule over the fields of the world that allocation keeps.\<close>

lemma obj_allocE:
  assumes "arena_wf w s" "\<And>n. a \<noteq> AsFree n"
  obtains p s' where "pone_obj_alloc w a s = Ret p s'" "p \<noteq> Null" "\<not> pone_alive (st_heap s p)"
    "st_heap s' = (st_heap s)(p := \<lparr>val_flags = 0, val_as = a\<rparr>)" "arena_wf w s'"
    "w_tmpstack (st_world s' w) = w_tmpstack (st_world s w) @ [p]"
    "w_lex (st_world s' w) = w_lex (st_world s w)"
    "w_savestack (st_world s' w) = w_savestack (st_world s w)"
    "\<And>v. v \<noteq> w \<Longrightarrow> st_world s' v = st_world s v" "st_self s' = st_self s"
proof -
  obtain p s' F where p: "pone_obj_alloc w a s = Ret p s'" "\<exists>i j. p = Cell w i j"
    "\<not> pone_alive (st_heap s p)" "st_heap s' = (st_heap s)(p := \<lparr>val_flags = 0, val_as = a\<rparr>)"
    "arena_wf w s'" "w_tmpstack (st_world s' w) = w_tmpstack (st_world s w) @ [p]"
    and s': "s' = upd_world w F (set_val p \<lparr>val_flags = 0, val_as = a\<rparr> s)"
    and F: "\<And>W. F W = W\<lparr>w_arenas := w_arenas (F W), w_freelist := w_freelist (F W),
                    w_gc_requested := w_gc_requested (F W), w_tmpstack := w_tmpstack (F W),
                    w_tmpstack_m := w_tmpstack_m (F W)\<rparr>"
    using obj_alloc_spec [OF assms] by blast
  have "w_lex (F W) = w_lex W" "w_savestack (F W) = w_savestack W" for W
    by (subst F, simp)+
  then have "w_lex (st_world s' w) = w_lex (st_world s w)"
    "w_savestack (st_world s' w) = w_savestack (st_world s w)"
    "\<And>v. v \<noteq> w \<Longrightarrow> st_world s' v = st_world s v" "st_self s' = st_self s"
    by (simp_all add: s')
  then show thesis using that p by blast
qed

lemma val_free_wf:
  assumes wf: "arena_wf w s" and p: "p \<in> world_cells w (st_world s w)" "pone_alive (st_heap s p)"
  shows "arena_wf w (pone_val_free w p s)"
proof -
  let ?W = "st_world s w"
  let ?h = "(st_heap s)(p := \<lparr>val_flags = 0, val_as = AsFree (w_freelist ?W)\<rparr>)"
  obtain ps where ps: "free_chain (st_heap s) (w_freelist ?W) ps" "distinct ps"
    "set ps = {p \<in> world_cells w ?W. \<not> pone_alive (st_heap s p)}"
    using wf by (auto simp: arena_wf_def)
  have np: "p \<notin> set ps" using ps(3) p(2) by simp
  have "p \<noteq> Null" using p(1) by (auto simp: world_cells_def)
  moreover have "free_chain ?h (w_freelist ?W) ps" using np ps(1) by (subst free_chain_cong) auto
  ultimately have "free_chain ?h p (p # ps)" by simp
  moreover have "set (p # ps) = {p \<in> world_cells w ?W. \<not> pone_alive (?h p)}"
    using ps(3) p(1) by auto
  ultimately show ?thesis
    using wf ps(2) np p(1)
    by (auto simp: arena_wf_def pone_val_free_def arenas_ok_def intro!: exI [of _ "p # ps"])
qed

section \<open>A fresh world\<close>

text \<open>The zeroed world with its first arena, as \<open>pone_world_new\<close> has it before it makes values.\<close>

definition blank_world :: pone_world where
  "blank_world = \<lparr>w_arenas = [0], w_code = Null, w_freelist = Null, w_lex = Null,
     w_errvar = pone_nil, w_errsv = 0, w_caller_stack = Null, w_err_handler_lexs = [],
     w_err_handler_callers = [], w_err_handler_idx = 0, w_err_handler_max = 0, w_tmpstack = [],
     w_tmpstack_m = 0, w_savestack = [], w_savestack_m = 0, w_thread_id = 0,
     w_gc_requested = False, w_random_key = (0, 0)\<rparr>"

text \<open>The zeroed universe, with no thread running and the static values in place.\<close>

definition blank_universe :: pone_universe where
  "blank_universe = \<lparr>u_class_class = Null, u_class_int = Null, u_class_num = Null,
     u_class_str = Null, u_class_bytes = Null, u_class_ary = Null, u_class_bool = Null,
     u_class_map = Null, u_class_code = Null, u_class_nil = Null, u_class_range = Null,
     u_class_pair = Null, u_class_channel = Null, u_class_errno = Null, u_class_module = Null,
     u_class_x_adhoc = Null, u_class_caller = Null, u_instance_iteration_end = Null,
     u_inc = Null, u_args = Null, u_globals = kh_init, u_signal_channels = [],
     u_worker_worlds = [], u_end_time = False, u_class_regex = Null, u_class_onig = Null,
     u_class_match = Null, u_class_file = Null, u_class_tmpfile = Null, u_class_path = Null, u_class_stat = Null,
     u_class_time = Null, u_global_world = None, u_signal_world = None, u_compiler_world = None\<rparr>"

definition blank_state :: pone_state where
  "blank_state = \<lparr>st_heap = initial_heap, st_world = (\<lambda>_. blank_world),
     st_opaque = (\<lambda>_. \<lparr>o_klass = Null, o_ptr = 0, o_finalizer = None, o_refcnt = 0, o_freed = True\<rparr>),
     st_next_opaque = 0, st_universe = blank_universe, st_self = 0, st_out = [], st_os = blank_os\<rparr>"

lemma blank_world_wf:
  assumes "st_world s w = blank_world" "\<And>a i. \<not> pone_alive (st_heap s (Cell w a i))"
  shows "arena_wf w s"
  using assms unfolding arena_wf_def
  by (auto simp: blank_world_def arenas_ok_def world_cells_def intro!: exI [of _ "[]"])

section \<open>Scope discipline\<close>

text \<open>
  What compiled code does between entering and leaving a block: open and close scopes and create
  values. \<open>balanced\<close> are the sequences in which the scopes nest.
\<close>

datatype scope_op = PushScope | PopScope | NewValue pone_as

fun run_scope :: "nat \<Rightarrow> scope_op list \<Rightarrow> unit pone" where
  "run_scope w [] s = Ret () s"
| "run_scope w (PushScope # ops) s = andthen (pone_push_scope w s) (\<lambda>_. run_scope w ops)"
| "run_scope w (PopScope # ops) s = andthen (pone_pop_scope w s) (\<lambda>_. run_scope w ops)"
| "run_scope w (NewValue a # ops) s = andthen (pone_obj_alloc w a s) (\<lambda>_. run_scope w ops)"

inductive balanced :: "scope_op list \<Rightarrow> bool" where
  nil: "balanced []"
| val: "balanced ops \<Longrightarrow> as_type a \<noteq> PONE_FREE \<Longrightarrow> balanced (NewValue a # ops)"
| nest: "balanced ops1 \<Longrightarrow> balanced ops2 \<Longrightarrow> balanced (PushScope # ops1 @ PopScope # ops2)"

definition in_scope :: "nat \<Rightarrow> pone_state \<Rightarrow> bool" where
  "in_scope w s \<longleftrightarrow> arena_wf w s \<and> type_at s (w_lex (st_world s w)) = PONE_LEX"

text \<open>\<open>scope_step w s s'\<close>: \<open>s'\<close> has the scope of \<open>s\<close>, and whatever lived in \<open>s\<close> is unchanged.\<close>

definition scope_step :: "nat \<Rightarrow> pone_state \<Rightarrow> pone_state \<Rightarrow> bool" where
  "scope_step w s s' \<longleftrightarrow>
     w_lex (st_world s' w) = w_lex (st_world s w) \<and>
     w_savestack (st_world s' w) = w_savestack (st_world s w) \<and>
     (\<exists>ps. w_tmpstack (st_world s' w) = w_tmpstack (st_world s w) @ ps) \<and>
     (\<forall>p. pone_alive (st_heap s p) \<longrightarrow> st_heap s' p = st_heap s p)"

lemma scope_step_trans: "scope_step w s1 s2 \<Longrightarrow> scope_step w s2 s3 \<Longrightarrow> scope_step w s1 s3"
  unfolding scope_step_def by (metis append.assoc)

lemma as_type_free [simp]: "as_type a \<noteq> PONE_FREE \<Longrightarrow> a \<noteq> AsFree n"
  by (cases a) auto

lemma type_lex_alive: "type_at s p = PONE_LEX \<Longrightarrow> pone_alive (st_heap s p)"
  by (simp add: type_at_def pone_alive_def)

lemma type_lexD: "type_at s p = PONE_LEX \<Longrightarrow> \<exists>q m t. val_as (st_heap s p) = AsLex q m t"
  by (cases "val_as (st_heap s p)") (simp_all add: type_at_def pone_type_def)

lemma scope_step_in_scope:
  "scope_step w s s' \<Longrightarrow> in_scope w s \<Longrightarrow> arena_wf w s' \<Longrightarrow> in_scope w s'"
  using type_lex_alive by (auto simp: scope_step_def in_scope_def type_at_def)

lemma push_scope_spec:
  assumes "in_scope w s"
  shows "\<exists>s' p. pone_push_scope w s = Ret () s' \<and> in_scope w s' \<and>
    w_lex (st_world s' w) = p \<and> \<not> pone_alive (st_heap s p) \<and>
    val_as (st_heap s' p) = AsLex (w_lex (st_world s w)) kh_init (st_self s) \<and>
    w_savestack (st_world s' w) = w_savestack (st_world s w) @ [Suc (length (w_tmpstack (st_world s w)))] \<and>
    w_tmpstack (st_world s' w) = w_tmpstack (st_world s w) @ [p] \<and>
    (\<forall>q. pone_alive (st_heap s q) \<longrightarrow> st_heap s' q = st_heap s q)"
proof -
  let ?a = "AsLex (w_lex (st_world s w)) kh_init (st_self s)"
  have wf: "arena_wf w s" using assms by (simp add: in_scope_def)
  obtain p s1 where p: "pone_obj_alloc w ?a s = Ret p s1" "\<not> pone_alive (st_heap s p)"
    "st_heap s1 = (st_heap s)(p := \<lparr>val_flags = 0, val_as = ?a\<rparr>)" "arena_wf w s1"
    "w_tmpstack (st_world s1 w) = w_tmpstack (st_world s w) @ [p]"
    "w_savestack (st_world s1 w) = w_savestack (st_world s w)"
    by (rule obj_allocE [OF wf, of ?a]) simp_all
  let ?F = "\<lambda>W. W\<lparr>w_lex := p,
                 w_savestack_m := kv_grow (length (w_savestack W)) (w_savestack_m W),
                 w_savestack := w_savestack W @ [length (w_tmpstack W)]\<rparr>"
  have "arena_wf w (upd_world w ?F s1)"
    using p(4) by (subst arena_wf_cong [where s = s1]) simp_all
  moreover have "pone_push_scope w s = Ret () (upd_world w ?F s1)"
    using p(1) by (simp add: pone_push_scope_def pone_lex_new_def)
  ultimately show ?thesis using p
    by (intro exI [of _ "upd_world w ?F s1"] exI [of _ p])
      (auto simp: in_scope_def type_at_def pone_type_def)
qed

lemma pop_scope_spec:
  assumes "in_scope w s" "type_at s parent = PONE_LEX"
    "val_as (st_heap s (w_lex (st_world s w))) = AsLex parent m t"
    "w_savestack (st_world s w) = ns @ [n]" "n \<le> length (w_tmpstack (st_world s w))"
  shows "\<exists>s'. pone_pop_scope w s = Ret () s' \<and> in_scope w s' \<and> w_lex (st_world s' w) = parent \<and>
    w_savestack (st_world s' w) = ns \<and> w_tmpstack (st_world s' w) = take n (w_tmpstack (st_world s w)) \<and>
    st_heap s' = st_heap s"
proof -
  let ?F = "\<lambda>W. W\<lparr>w_lex := parent, w_tmpstack := take (last (w_savestack W)) (w_tmpstack W),
                 w_savestack := butlast (w_savestack W)\<rparr>"
  have "arena_wf w (upd_world w ?F s)"
    using assms(1) by (subst arena_wf_cong [where s = s]) (simp_all add: in_scope_def)
  moreover have "pone_pop_scope w s = Ret () (upd_world w ?F s)"
    using assms by (simp add: pone_pop_scope_def)
  ultimately show ?thesis using assms
    by (intro exI [of _ "upd_world w ?F s"]) (simp add: in_scope_def type_at_def)
qed

lemma run_scope_append:
  "run_scope w (ops1 @ ops2) s = andthen (run_scope w ops1 s) (\<lambda>_. run_scope w ops2)"
  by (induction w ops1 s rule: run_scope.induct)
    (auto simp: andthen_assoc intro!: arg_cong [where f = "andthen _"] ext)

text \<open>Entering a scope, running code that keeps the scope, and leaving it.\<close>

lemma bracket_scope:
  assumes s: "in_scope w s" and s1: "pone_push_scope w s = Ret () s1"
    and step: "scope_step w s1 s2" and s2: "arena_wf w s2"
  shows "\<exists>s3. pone_pop_scope w s2 = Ret () s3 \<and> in_scope w s3 \<and> scope_step w s s3 \<and>
    (\<exists>p. w_tmpstack (st_world s3 w) = w_tmpstack (st_world s w) @ [p])"
proof -
  let ?W = "st_world s w"
  obtain p where p: "in_scope w s1" "w_lex (st_world s1 w) = p"
    "val_as (st_heap s1 p) = AsLex (w_lex ?W) kh_init (st_self s)"
    "w_savestack (st_world s1 w) = w_savestack ?W @ [Suc (length (w_tmpstack ?W))]"
    "w_tmpstack (st_world s1 w) = w_tmpstack ?W @ [p]"
    "\<And>q. pone_alive (st_heap s q) \<Longrightarrow> st_heap s1 q = st_heap s q"
    using push_scope_spec [OF s] s1 by auto
  obtain ps where st: "w_lex (st_world s2 w) = p" "w_savestack (st_world s2 w) = w_savestack (st_world s1 w)"
    "w_tmpstack (st_world s2 w) = w_tmpstack (st_world s1 w) @ ps"
    "\<And>q. pone_alive (st_heap s1 q) \<Longrightarrow> st_heap s2 q = st_heap s1 q"
    using step p(2) by (auto simp: scope_step_def)
  have al: "pone_alive (st_heap s1 p)" using p(3) by (simp add: pone_alive_iff)
  have keep: "pone_alive (st_heap s q) \<Longrightarrow> st_heap s2 q = st_heap s q" for q
    using p(6) st(4) by metis
  have lx: "type_at s (w_lex ?W) = PONE_LEX" using s by (simp add: in_scope_def)
  have "in_scope w s2" using scope_step_in_scope [OF step p(1) s2] .
  moreover have "type_at s2 (w_lex ?W) = PONE_LEX"
    using keep [OF type_lex_alive [OF lx]] lx by (simp add: type_at_def)
  moreover have "val_as (st_heap s2 (w_lex (st_world s2 w))) = AsLex (w_lex ?W) kh_init (st_self s)"
    using st(1,4) al p(3) by simp
  moreover have "w_savestack (st_world s2 w) = w_savestack ?W @ [Suc (length (w_tmpstack ?W))]"
    using st(2) p(4) by simp
  ultimately obtain s3 where s3: "pone_pop_scope w s2 = Ret () s3" "in_scope w s3"
    "w_lex (st_world s3 w) = w_lex ?W" "w_savestack (st_world s3 w) = w_savestack ?W"
    "w_tmpstack (st_world s3 w) = take (Suc (length (w_tmpstack ?W))) (w_tmpstack (st_world s2 w))"
    "st_heap s3 = st_heap s2"
    using pop_scope_spec [of w s2 "w_lex ?W"] st(3) p(5) by fastforce
  then show ?thesis using st(3) p(5) keep
    by (intro exI [of _ s3]) (auto simp: scope_step_def)
qed

lemma run_balanced:
  assumes "balanced ops" "in_scope w s"
  shows "\<exists>s'. run_scope w ops s = Ret () s' \<and> in_scope w s' \<and> scope_step w s s'"
  using assms
proof (induction ops arbitrary: s rule: balanced.induct)
  case nil
  then show ?case by (simp add: scope_step_def)
next
  case (val ops a)
  have wf: "arena_wf w s" using val.prems by (simp add: in_scope_def)
  obtain p s1 where p: "pone_obj_alloc w a s = Ret p s1" "\<not> pone_alive (st_heap s p)"
    "st_heap s1 = (st_heap s)(p := \<lparr>val_flags = 0, val_as = a\<rparr>)" "arena_wf w s1"
    "w_tmpstack (st_world s1 w) = w_tmpstack (st_world s w) @ [p]"
    "w_lex (st_world s1 w) = w_lex (st_world s w)"
    "w_savestack (st_world s1 w) = w_savestack (st_world s w)"
    by (rule obj_allocE [OF wf as_type_free [OF val.hyps(2)]])
  have step: "scope_step w s s1" using p by (auto simp: scope_step_def)
  then have "in_scope w s1" using val.prems p(4) by (rule scope_step_in_scope)
  from val.IH [OF this] show ?case using p(1) step scope_step_trans by auto
next
  case (nest ops1 ops2)
  obtain s1 where s1: "pone_push_scope w s = Ret () s1" "in_scope w s1"
    using push_scope_spec [OF nest.prems] by blast
  obtain s2 where s2: "run_scope w ops1 s1 = Ret () s2" "in_scope w s2" "scope_step w s1 s2"
    using nest.IH(1) [OF s1(2)] by blast
  have "arena_wf w s2" using s2(2) by (simp add: in_scope_def)
  from bracket_scope [OF nest.prems s1(1) s2(3) this] obtain s3 where
    s3: "pone_pop_scope w s2 = Ret () s3" "in_scope w s3" "scope_step w s s3" by blast
  obtain s4 where "run_scope w ops2 s3 = Ret () s4" "in_scope w s4" "scope_step w s3 s4"
    using nest.IH(2) [OF s3(2)] by blast
  then show ?case using s1(1) s2(1) s3(1,3) scope_step_trans
    by (fastforce simp: run_scope_append)
qed

lemma blank_state_wf: "arena_wf w blank_state"
  by (rule blank_world_wf) (simp_all add: blank_state_def initial_heap_def)

section \<open>Properties\<close>

text \<open>
  C5: allocation always succeeds and returns a slot that held no live value; no other
  value changes, the new value is protected by the temporary stack, and the free list stays exact
  and acyclic.
\<close>

theorem pone_obj_alloc_fresh:
  assumes "arena_wf w s" "as_type a \<noteq> PONE_FREE"
  shows "\<exists>p s'. pone_obj_alloc w a s = Ret p s' \<and> \<not> pone_alive (st_heap s p) \<and>
    val_as (st_heap s' p) = a \<and> (\<forall>q. q \<noteq> p \<longrightarrow> st_heap s' q = st_heap s q) \<and>
    w_tmpstack (st_world s' w) = w_tmpstack (st_world s w) @ [p] \<and> arena_wf w s'"
  by (rule obj_allocE [OF assms(1) as_type_free [OF assms(2)]]) auto

theorem pone_obj_alloc_fresh_witness:
  "\<exists>p s'. pone_obj_alloc 0 (AsInt 5) blank_state = Ret p s' \<and> val_as (st_heap s' p) = AsInt 5"
  using pone_obj_alloc_fresh [of 0 blank_state "AsInt 5"] blank_state_wf by auto

text \<open>
  A freed slot is the next one handed out, and what was freed before it is handed out
  after it: freeing and allocating again restores the free list.
\<close>

theorem pone_val_free_alloc:
  assumes "arena_wf w s" "p \<in> world_cells w (st_world s w)" "pone_alive (st_heap s p)"
    "as_type a \<noteq> PONE_FREE"
  shows "arena_wf w (pone_val_free w p s) \<and>
    (\<exists>s'. pone_obj_alloc w a (pone_val_free w p s) = Ret p s' \<and> arena_wf w s' \<and>
       w_freelist (st_world s' w) = w_freelist (st_world s w) \<and>
       st_heap s' = (st_heap s)(p := \<lparr>val_flags = 0, val_as = a\<rparr>))"
proof -
  have wf: "arena_wf w (pone_val_free w p s)" using assms(1-3) by (rule val_free_wf)
  have p: "p \<noteq> Null" using assms(2) by (auto simp: world_cells_def)
  have "w_arenas (st_world s w) \<noteq> []" using assms(1) by (simp add: arena_wf_def arenas_ok_def)
  then have "pone_take_slot w (pone_val_free w p s) =
      Ret p (upd_world w (w_freelist_update (\<lambda>_. w_freelist (st_world s w))) (pone_val_free w p s))"
    using p by (simp add: pone_take_slot_def pone_val_free_def)
  then obtain s' where s': "pone_obj_alloc w a (pone_val_free w p s) = Ret p s'"
    "w_freelist (st_world s' w) = w_freelist (st_world s w)"
    using p by (simp add: pone_obj_alloc_def pone_save_tmp_def)
  obtain s2 where "pone_obj_alloc w a (pone_val_free w p s) = Ret p s2" "arena_wf w s2"
    "st_heap s2 = (st_heap (pone_val_free w p s))(p := \<lparr>val_flags = 0, val_as = a\<rparr>)"
    using s'(1) by (rule_tac obj_allocE [OF wf as_type_free [OF assms(4)]]) auto
  then show ?thesis using wf s' by (simp add: pone_val_free_def)
qed

theorem pone_val_free_alloc_witness:
  "\<exists>s' s''. pone_obj_alloc 0 AsNil blank_state = Ret (Cell 0 0 0) s' \<and>
     pone_obj_alloc 0 (AsInt 1) (pone_val_free 0 (Cell 0 0 0) s') = Ret (Cell 0 0 0) s''"
proof -
  have al: "pone_obj_alloc 0 AsNil blank_state = Ret (Cell 0 0 0)
    (case pone_obj_alloc 0 AsNil blank_state of Ret _ s \<Rightarrow> s | _ \<Rightarrow> blank_state)" (is "_ = Ret _ ?s")
    by (simp add: pone_obj_alloc_def pone_take_slot_def pone_save_tmp_def blank_state_def
        blank_world_def PONE_ARENA_SIZE_def Let_def)
  have "arena_wf 0 ?s" using obj_alloc_spec [OF blank_state_wf, of AsNil 0] al by auto
  moreover have "Cell 0 0 0 \<in> world_cells 0 (st_world ?s 0)" "pone_alive (st_heap ?s (Cell 0 0 0))"
    by (simp_all add: pone_obj_alloc_def pone_take_slot_def pone_save_tmp_def blank_state_def
        blank_world_def PONE_ARENA_SIZE_def Let_def world_cells_def pone_alive_iff)
  ultimately show ?thesis using al pone_val_free_alloc [of 0 ?s "Cell 0 0 0" "AsInt 1"] by auto
qed



end
