(* ===== verification/Pone_GC.thy ===== *)
theory Pone_GC
  imports Pone_Alloc
begin

text \<open>
  The garbage collector (\<^verbatim>\<open>src/gc.c\<close>), the mark functions of the value types
  (\<^verbatim>\<open>str.c, array.c, map.c, code.c, obj.c, scope.c\<close>), the roots (\<^verbatim>\<open>world.c, universe.c\<close>) and the
  release of a value's resources. Marking recurses on the C stack; \<open>depth\<close> is the number of frames
  that fit, and running out of them is undefined. The theorem on \<open>pone_gc_run\<close> shows that one frame
  more than there are reachable values is enough.
\<close>

section \<open>References of a value\<close>

text \<open>
  Each mark function visits the values that its argument refers to, in order. \<open>None\<close>: the function
  would read a member of the union that is not there.
\<close>

definition pone_str_mark :: "8 word \<Rightarrow> str_data \<Rightarrow> ptr list option" where
  "pone_str_mark fl d =
     (if fl AND PONE_FLAGS_STR_COPY \<noteq> 0
      then case d of StrVal v \<Rightarrow> Some [v] | StrBuf _ \<Rightarrow> None
      else Some [])"

definition pone_ary_mark :: "ptr list \<Rightarrow> nat \<Rightarrow> ptr list option" where
  "pone_ary_mark a len = (if len \<le> length a then Some (take len a) else None)"

definition pone_map_mark :: "(ptr, ptr) khash \<Rightarrow> ptr list" where
  "pone_map_mark h = concat (map (\<lambda>(k, v). [k, v]) (kh_foreach h))"

definition pone_code_mark :: "ptr \<Rightarrow> ptr list" where
  "pone_code_mark lx = (if lx \<noteq> Null then [lx] else [])"

definition pone_obj_mark :: "ptr \<Rightarrow> ptr str_khash \<Rightarrow> ptr list" where
  "pone_obj_mark klass ivar = map snd (kh_foreach ivar) @ [klass]"

definition pone_lex_mark :: "ptr \<Rightarrow> ptr str_khash \<Rightarrow> ptr list" where
  "pone_lex_mark parent m = map snd (kh_foreach m) @ (if parent \<noteq> Null then [parent] else [])"

definition gc_refs :: "pone_val \<Rightarrow> ptr list option" where
  "gc_refs v =
     (case val_as v of
        AsStr d _ \<Rightarrow> pone_str_mark (val_flags v) d
      | AsAry a _ len \<Rightarrow> pone_ary_mark a len
      | AsMap h _ \<Rightarrow> Some (pone_map_mark h)
      | AsCode _ lx \<Rightarrow> Some (pone_code_mark lx)
      | AsObj klass ivar \<Rightarrow> Some (pone_obj_mark klass ivar)
      | AsLex parent m _ \<Rightarrow> Some (pone_lex_mark parent m)
      | _ \<Rightarrow> Some [])"

section \<open>Marking\<close>

definition marked :: "pone_val \<Rightarrow> bool" where
  "marked v \<longleftrightarrow> has_flag PONE_FLAGS_GC_MARK v"

definition set_mark :: "pone_val \<Rightarrow> pone_val" where
  "set_mark v = v\<lparr>val_flags := val_flags v OR PONE_FLAGS_GC_MARK\<rparr>"

fun mark_each ::
  "(ptr \<Rightarrow> pone_heap \<Rightarrow> (unit, pone_heap) outcome) \<Rightarrow> ptr list \<Rightarrow> pone_heap \<Rightarrow> (unit, pone_heap) outcome" where
  "mark_each f [] h = Ret () h"
| "mark_each f (p # ps) h = andthen (f p h) (\<lambda>_. mark_each f ps)"

primrec pone_gc_mark_value :: "nat \<Rightarrow> ptr \<Rightarrow> pone_heap \<Rightarrow> (unit, pone_heap) outcome" where
  "pone_gc_mark_value 0 = (\<lambda>p h. Undef)"
| "pone_gc_mark_value (Suc depth) = (\<lambda>p h.
     if p = Null then Abort
     else if marked (h p) then Ret () h
     else case gc_refs (h p) of
            None \<Rightarrow> Undef
          | Some ps \<Rightarrow> mark_each (pone_gc_mark_value depth) ps (h(p := set_mark (h p))))"

definition pone_universe_mark :: "pone_universe \<Rightarrow> ptr list" where
  "pone_universe_mark U = [u_inc U, u_args U] @ concat (u_signal_channels U)"

text \<open>\<open>None\<close>: the handler index is beyond the allocated handlers.\<close>

definition pone_world_mark :: "pone_world \<Rightarrow> ptr list option" where
  "pone_world_mark W =
     (if nat (w_err_handler_idx W) \<le> length (w_err_handler_lexs W)
      then Some (filter (\<lambda>p. p \<noteq> Null) [w_lex W, w_errvar W, w_code W] @
                 take (nat (w_err_handler_idx W)) (w_err_handler_lexs W) @ w_tmpstack W)
      else None)"

definition gc_roots :: "nat \<Rightarrow> pone_state \<Rightarrow> ptr list option" where
  "gc_roots w s =
     map_option (\<lambda>ps. pone_universe_mark (st_universe s) @ ps) (pone_world_mark (st_world s w))"

definition pone_gc_mark :: "nat \<Rightarrow> nat \<Rightarrow> unit pone" where
  "pone_gc_mark depth w s =
     (case gc_roots w s of
        None \<Rightarrow> Undef
      | Some ps \<Rightarrow>
          (case mark_each (pone_gc_mark_value depth) ps (st_heap s) of
             Ret _ h \<Rightarrow> Ret () (s\<lparr>st_heap := h\<rparr>)
           | Jump n h \<Rightarrow> Undef
           | Abort \<Rightarrow> Abort
           | Exit c \<Rightarrow> Exit c
           | Undef \<Rightarrow> Undef))"

section \<open>Sweeping\<close>

text \<open>
  \<open>fin\<close> are the finalizers of the C types that opaque values wrap. The body is released whatever
  the count says; touching a released body is undefined.
\<close>

type_synonym finalizers = "string \<Rightarrow> nat \<Rightarrow> ptr \<Rightarrow> unit pone"

definition pone_opaque_free :: "finalizers \<Rightarrow> nat \<Rightarrow> ptr \<Rightarrow> unit pone" where
  "pone_opaque_free fin w v s =
     (case val_as (st_heap s v) of
        AsOpaque b \<Rightarrow>
          if o_freed (st_opaque s b) then Undef
          else
            (let n = o_refcnt (st_opaque s b) - 1;
                 s = s\<lparr>st_opaque := (st_opaque s)(b := (st_opaque s b)\<lparr>o_refcnt := n\<rparr>)\<rparr>
             in andthen (case o_finalizer (st_opaque s b) of
                           Some f \<Rightarrow> if n = 0 then fin f w v s else Ret () s
                         | None \<Rightarrow> Ret () s)
                  (\<lambda>_ s. Ret () (s\<lparr>st_opaque := (st_opaque s)(b := (st_opaque s b)\<lparr>o_freed := True\<rparr>)\<rparr>)))
      | _ \<Rightarrow> Abort)"

text \<open>
  Release of what a dying value owns, and of its slot. Buffers of strings, arrays, maps, objects
  and scopes are part of the value, so only an opaque has an effect of its own. A \<open>nil\<close> or \<open>bool\<close> is
  skipped.
\<close>

definition free_value :: "finalizers \<Rightarrow> nat \<Rightarrow> ptr \<Rightarrow> unit pone" where
  "free_value fin w p s =
     (case type_at s p of
        PONE_NIL \<Rightarrow> Ret () s
      | PONE_BOOL \<Rightarrow> Ret () s
      | PONE_OPAQUE \<Rightarrow> andthen (pone_opaque_free fin w p s) (\<lambda>_ s. Ret () (pone_val_free w p s))
      | _ \<Rightarrow> Ret () (pone_val_free w p s))"

definition sweep_cell :: "finalizers \<Rightarrow> nat \<Rightarrow> ptr \<Rightarrow> unit pone" where
  "sweep_cell fin w p s =
     (if type_at s p = PONE_FREE then Ret () s
      else if marked (st_heap s p)
      then Ret () (set_flags p (val_flags (st_heap s p) XOR PONE_FLAGS_GC_MARK) s)
      else free_value fin w p s)"

fun for_cells :: "(ptr \<Rightarrow> unit pone) \<Rightarrow> ptr list \<Rightarrow> unit pone" where
  "for_cells f [] s = Ret () s"
| "for_cells f (p # ps) s = andthen (f p s) (\<lambda>_. for_cells f ps)"

definition arena_cells :: "nat \<Rightarrow> pone_world \<Rightarrow> ptr list" where
  "arena_cells w W =
     concat (map (\<lambda>a. map (Cell w a) [0..<w_arenas W ! a]) [0..<length (w_arenas W)])"

definition pone_gc_collect :: "finalizers \<Rightarrow> nat \<Rightarrow> unit pone" where
  "pone_gc_collect fin w s = for_cells (sweep_cell fin w) (arena_cells w (st_world s w)) s"

definition pone_gc_run :: "finalizers \<Rightarrow> nat \<Rightarrow> nat \<Rightarrow> unit pone" where
  "pone_gc_run fin depth w s =
     andthen (pone_gc_mark depth w s) (\<lambda>_ s.
     andthen (pone_gc_collect fin w s) (\<lambda>_ s.
     Ret () (upd_world w (w_gc_requested_update (\<lambda>_. False)) s)))"

section \<open>Marking reaches exactly the reachable values\<close>

lemma mark_bit: "(f OR PONE_FLAGS_GC_MARK) AND PONE_FLAGS_GC_MARK \<noteq> 0"
proof -
  have "(f OR PONE_FLAGS_GC_MARK) AND PONE_FLAGS_GC_MARK = PONE_FLAGS_GC_MARK"
    by (rule bit_eqI) (auto simp: bit_simps)
  then show ?thesis by (simp add: PONE_FLAGS_GC_MARK_def)
qed

lemma marked_set_mark [simp]: "marked (set_mark v)"
  using mark_bit by (simp add: marked_def has_flag_def set_mark_def)

lemma copy_bit_mark: "(f OR PONE_FLAGS_GC_MARK) AND PONE_FLAGS_STR_COPY = f AND PONE_FLAGS_STR_COPY"
proof -
  have "PONE_FLAGS_GC_MARK AND PONE_FLAGS_STR_COPY = 0"
    by (simp add: PONE_FLAGS_GC_MARK_def PONE_FLAGS_STR_COPY_def)
  then show ?thesis by (simp add: bit.conj_disj_distrib2)
qed

lemma set_mark_as [simp]: "val_as (set_mark v) = val_as v"
  by (simp add: set_mark_def)

lemma gc_refs_set_mark [simp]: "gc_refs (set_mark v) = gc_refs v"
  by (cases "val_as v") (simp_all add: gc_refs_def, simp add: set_mark_def pone_str_mark_def copy_bit_mark)

lemma alive_set_mark [simp]: "pone_alive (set_mark v) = pone_alive v"
  by (simp add: pone_alive_def pone_type_def)

lemma unmark_set_mark:
  assumes "\<not> marked v"
  shows "(set_mark v)\<lparr>val_flags := val_flags (set_mark v) XOR PONE_FLAGS_GC_MARK\<rparr> = v"
proof -
  have "val_flags v AND PONE_FLAGS_GC_MARK = 0" using assms by (simp add: marked_def has_flag_def)
  then have b: "bit (val_flags v) n \<Longrightarrow> bit PONE_FLAGS_GC_MARK n \<Longrightarrow> False" for n
    by (metis bit_and_iff bit_0_eq bot_apply bot_bool_def)
  have "(val_flags v OR PONE_FLAGS_GC_MARK) XOR PONE_FLAGS_GC_MARK = val_flags v"
    by (rule bit_eqI) (use b in \<open>auto simp: bit_simps\<close>)
  then show ?thesis by (simp add: set_mark_def)
qed

definition mark_cells :: "ptr set \<Rightarrow> pone_heap \<Rightarrow> pone_heap" where
  "mark_cells M h = (\<lambda>p. if p \<in> M then set_mark (h p) else h p)"

lemma mark_cells_refs [simp]: "gc_refs (mark_cells M h p) = gc_refs (h p)"
  by (simp add: mark_cells_def)

lemma mark_cells_empty [simp]: "mark_cells {} h = h"
  by (simp add: mark_cells_def)

lemma set_mark_idem [simp]: "set_mark (set_mark v) = set_mark v"
  by (simp add: set_mark_def)

lemma mark_cells_Un: "mark_cells M (mark_cells N h) = mark_cells (M \<union> N) h"
  by (auto simp: mark_cells_def fun_eq_iff)

lemma mark_cells_insert: "h(p := set_mark (h p)) = mark_cells {p} h"
  by (auto simp: mark_cells_def)

text \<open>A set of values that marking can traverse: no NULL, no dangling union member, closed.\<close>

definition traversable :: "pone_heap \<Rightarrow> ptr set \<Rightarrow> bool" where
  "traversable h R \<longleftrightarrow> finite R \<and> Null \<notin> R \<and> (\<forall>p \<in> R. \<exists>ps. gc_refs (h p) = Some ps \<and> set ps \<subseteq> R)"

definition white :: "pone_heap \<Rightarrow> ptr set \<Rightarrow> ptr set" where
  "white h R = {p \<in> R. \<not> marked (h p)}"

text \<open>What marking has done when it returns: it marked \<open>M\<close>, white values whose references are all
  marked now.\<close>

definition mark_done :: "pone_heap \<Rightarrow> ptr set \<Rightarrow> ptr set \<Rightarrow> bool" where
  "mark_done h R M \<longleftrightarrow>
     M \<subseteq> white h R \<and>
     (\<forall>p \<in> M. \<forall>ps. gc_refs (h p) = Some ps \<longrightarrow> (\<forall>q \<in> set ps. marked (mark_cells M h q)))"

lemma traversable_mark_cells [simp]: "traversable (mark_cells M h) R = traversable h R"
  by (simp add: traversable_def)

lemma white_mark_cells: "white (mark_cells M h) R = white h R - M"
  by (auto simp: white_def mark_cells_def)

lemma marked_mark_cells: "marked (mark_cells M h p) \<longleftrightarrow> p \<in> M \<or> marked (h p)"
  by (simp add: mark_cells_def)

lemma mark_done_Un:
  assumes "mark_done h R M" "mark_done (mark_cells M h) R N"
  shows "mark_done h R (M \<union> N)"
  using assms by (fastforce simp: mark_done_def white_mark_cells marked_mark_cells)

lemma mark_each_spec:
  assumes f: "\<And>p h. p \<in> R \<Longrightarrow> traversable h R \<Longrightarrow> card (white h R) < d \<Longrightarrow>
      \<exists>M. f p h = Ret () (mark_cells M h) \<and> mark_done h R M \<and> marked (mark_cells M h p)"
    and "set ps \<subseteq> R" "traversable h R" "card (white h R) < d"
  shows "\<exists>M. mark_each f ps h = Ret () (mark_cells M h) \<and> mark_done h R M \<and>
    (\<forall>p \<in> set ps. marked (mark_cells M h p))"
  using assms(2-4)
proof (induction ps arbitrary: h)
  case Nil
  then show ?case by (intro exI [of _ "{}"]) (simp add: mark_done_def)
next
  case (Cons p ps)
  obtain M where M: "f p h = Ret () (mark_cells M h)" "mark_done h R M" "marked (mark_cells M h p)"
    using f [of p h] Cons.prems by auto
  have fin: "finite (white h R)" using Cons.prems(2) by (simp add: traversable_def white_def)
  have "card (white (mark_cells M h) R) \<le> card (white h R)"
    using fin by (simp add: white_mark_cells card_mono)
  then obtain N where N: "mark_each f ps (mark_cells M h) = Ret () (mark_cells N (mark_cells M h))"
    "mark_done (mark_cells M h) R N" "\<forall>p \<in> set ps. marked (mark_cells N (mark_cells M h) p)"
    using Cons.IH [of "mark_cells M h"] Cons.prems by auto
  show ?case using M N mark_done_Un [OF M(2) N(2)]
    by (intro exI [of _ "M \<union> N"]) (auto simp: mark_cells_Un Un_commute marked_mark_cells)
qed

lemma mark_value_spec:
  assumes "p \<in> R" "traversable h R" "card (white h R) < d"
  shows "\<exists>M. pone_gc_mark_value d p h = Ret () (mark_cells M h) \<and> mark_done h R M \<and>
    marked (mark_cells M h p)"
  using assms
proof (induction d arbitrary: p h)
  case (Suc d)
  have p: "p \<noteq> Null" using Suc.prems by (auto simp: traversable_def)
  show ?case
  proof (cases "marked (h p)")
    case True
    then show ?thesis using p by (intro exI [of _ "{}"]) (simp add: mark_done_def)
  next
    case False
    obtain ps where ps: "gc_refs (h p) = Some ps" "set ps \<subseteq> R"
      using Suc.prems by (auto simp: traversable_def)
    let ?h = "mark_cells {p} h"
    have fin: "finite (white h R)" using Suc.prems(2) by (simp add: traversable_def white_def)
    have pw: "p \<in> white h R" using False Suc.prems(1) by (simp add: white_def)
    have "card (white ?h R) < card (white h R)"
      unfolding white_mark_cells by (rule card_Diff1_less [OF fin pw])
    then have "card (white ?h R) < d" using Suc.prems(3) by simp
    then obtain M where M: "mark_each (pone_gc_mark_value d) ps ?h = Ret () (mark_cells M ?h)"
      "mark_done ?h R M" "\<forall>p \<in> set ps. marked (mark_cells M ?h p)"
      using mark_each_spec [of R d "pone_gc_mark_value d" ps ?h] Suc.IH ps(2) Suc.prems(2) by auto
    have "mark_done h R (insert p M)"
      using M(2,3) pw ps(1)
      by (fastforce simp: mark_done_def white_mark_cells marked_mark_cells)
    then show ?thesis using M(1) p False ps(1)
      by (intro exI [of _ "insert p M"])
        (simp add: mark_cells_insert mark_cells_Un marked_mark_cells)
  qed
qed simp

inductive_set reach :: "pone_heap \<Rightarrow> ptr set \<Rightarrow> ptr set" for h rs where
  root: "p \<in> rs \<Longrightarrow> p \<in> reach h rs"
| step: "p \<in> reach h rs \<Longrightarrow> gc_refs (h p) = Some ps \<Longrightarrow> q \<in> set ps \<Longrightarrow> q \<in> reach h rs"

text \<open>From an unmarked heap, marking the roots marks the reachable values and nothing else.\<close>

lemma mark_roots_spec:
  assumes R: "R = reach h (set rs)" and tr: "traversable h R"
    and un: "\<And>p. p \<in> R \<Longrightarrow> \<not> marked (h p)" and d: "card R < d"
  shows "mark_each (pone_gc_mark_value d) rs h = Ret () (mark_cells R h)"
proof -
  have w: "white h R = R" using un by (auto simp: white_def)
  have rs: "set rs \<subseteq> R" using R reach.root by auto
  obtain M where M: "mark_each (pone_gc_mark_value d) rs h = Ret () (mark_cells M h)"
    "mark_done h R M" "\<forall>p \<in> set rs. marked (mark_cells M h p)"
    using mark_each_spec [OF _ rs tr, where d = d and f = "pone_gc_mark_value d"] mark_value_spec d w
    by auto
  have "M \<subseteq> R" using M(2) by (auto simp: mark_done_def white_def)
  moreover have "p \<in> M" if "p \<in> reach h (set rs)" for p
    using that
  proof (induction rule: reach.induct)
    case (root p)
    then show ?case using M(3) un rs by (auto simp: marked_mark_cells)
  next
    case (step p ps q)
    have "q \<in> R" using step.hyps R reach.step by blast
    then have "\<not> marked (h q)" by (rule un)
    moreover have "marked (mark_cells M h q)" using M(2) step by (simp add: mark_done_def)
    ultimately show ?case by (simp add: marked_mark_cells)
  qed
  ultimately have "M = R" using R by auto
  then show ?thesis using M(1) by simp
qed

section \<open>Sweeping frees the unmarked values\<close>

lemma set_arena_cells [simp]: "set (arena_cells w W) = world_cells w W"
  by (auto simp: arena_cells_def world_cells_def)

lemma distinct_concat_upt:
  assumes "\<And>a. distinct (f a)" "\<And>a b. a \<noteq> b \<Longrightarrow> set (f a) \<inter> set (f b) = {}"
  shows "distinct (concat (map f [0..<n]))"
proof (induction n)
  case (Suc n)
  have "set (f a) \<inter> set (f n) = {}" if "a < n" for a using assms(2) that by simp
  then have "set (concat (map f [0..<n])) \<inter> set (f n) = {}" by fastforce
  then show ?case using Suc assms(1) by simp
qed simp

lemma distinct_arena_cells: "distinct (arena_cells w W)"
  unfolding arena_cells_def by (rule distinct_concat_upt) (auto simp: distinct_map inj_on_def)

text \<open>A heap with the same dead slots has the same free list.\<close>

lemma arena_wf_heap_cong:
  assumes wf: "arena_wf w s" and W: "st_world s' = st_world s"
    and al: "\<And>p. pone_alive (st_heap s' p) = pone_alive (st_heap s p)"
    and dead: "\<And>p. \<not> pone_alive (st_heap s p) \<Longrightarrow> st_heap s' p = st_heap s p"
  shows "arena_wf w s'"
proof -
  obtain ps where ps: "free_chain (st_heap s) (w_freelist (st_world s w)) ps" "distinct ps"
    "set ps = {p \<in> world_cells w (st_world s w). \<not> pone_alive (st_heap s p)}"
    using wf by (auto simp: arena_wf_def)
  have "free_chain (st_heap s') (w_freelist (st_world s w)) ps"
    using ps dead by (subst free_chain_cong) auto
  then show ?thesis using wf ps(2,3) by (auto simp: arena_wf_def W al)
qed

definition finalizers_ok :: "finalizers \<Rightarrow> bool" where
  "finalizers_ok fin \<longleftrightarrow>
     (\<forall>f w p s. \<exists>s'. fin f w p s = Ret () s' \<and> st_heap s' = st_heap s \<and> st_world s' = st_world s \<and>
        st_opaque s' = st_opaque s \<and> st_universe s' = st_universe s \<and> st_self s' = st_self s)"

text \<open>No opaque body is released yet, and no two slots of \<open>P\<close> share one.\<close>

definition opaques_ok :: "pone_state \<Rightarrow> ptr set \<Rightarrow> bool" where
  "opaques_ok s P \<longleftrightarrow>
     (\<forall>p \<in> P. \<forall>b. val_as (st_heap s p) = AsOpaque b \<longrightarrow>
        \<not> o_freed (st_opaque s b) \<and>
        (\<forall>q \<in> P. val_as (st_heap s q) = AsOpaque b \<longrightarrow> q = p))"

definition same_but_freelist :: "nat \<Rightarrow> pone_state \<Rightarrow> pone_state \<Rightarrow> bool" where
  "same_but_freelist w s s' \<longleftrightarrow>
     st_world s' = (st_world s)(w := (st_world s w)\<lparr>w_freelist := w_freelist (st_world s' w)\<rparr>) \<and>
     st_universe s' = st_universe s \<and> st_self s' = st_self s"

lemma same_but_freelist_refl [simp]: "same_but_freelist w s s"
  by (simp add: same_but_freelist_def)

lemma same_but_freelist_trans:
  "same_but_freelist w s1 s2 \<Longrightarrow> same_but_freelist w s2 s3 \<Longrightarrow> same_but_freelist w s1 s3"
  unfolding same_but_freelist_def
  by (metis (no_types, lifting) fun_upd_same fun_upd_upd pone_world.surjective pone_world.update_convs(3))

lemma same_but_freelist_val_free [simp]: "same_but_freelist w s (pone_val_free w p s)"
  by (simp add: same_but_freelist_def pone_val_free_def)

lemma same_but_freelist_cells:
  "same_but_freelist w s s' \<Longrightarrow> world_cells w (st_world s' w) = world_cells w (st_world s w)"
  by (metis same_but_freelist_def fun_upd_same world_cells_cong(1))

definition collectable :: "pone_val \<Rightarrow> bool" where
  "collectable v \<longleftrightarrow> pone_alive v \<and> \<not> marked v \<and> pone_type v \<noteq> PONE_NIL \<and> pone_type v \<noteq> PONE_BOOL"

text \<open>The effect of a sweep over one slot.\<close>

definition swept :: "pone_val \<Rightarrow> pone_val \<Rightarrow> bool" where
  "swept v v' \<longleftrightarrow>
     (if collectable v then \<not> pone_alive v'
      else v' = (if pone_alive v \<and> marked v
                 then v\<lparr>val_flags := val_flags v XOR PONE_FLAGS_GC_MARK\<rparr> else v))"

lemma opaque_free_spec:
  assumes fin: "finalizers_ok fin" and b: "val_as (st_heap s p) = AsOpaque b" "\<not> o_freed (st_opaque s b)"
  shows "\<exists>s'. pone_opaque_free fin w p s = Ret () s' \<and> st_heap s' = st_heap s \<and>
    st_world s' = st_world s \<and> st_universe s' = st_universe s \<and> st_self s' = st_self s \<and>
    (\<forall>c. c \<noteq> b \<longrightarrow> st_opaque s' c = st_opaque s c)"
proof -
  let ?n = "o_refcnt (st_opaque s b) - 1"
  let ?s = "s\<lparr>st_opaque := (st_opaque s)(b := (st_opaque s b)\<lparr>o_refcnt := ?n\<rparr>)\<rparr>"
  obtain s1 where s1: "(case o_finalizer (st_opaque ?s b) of
                           Some f \<Rightarrow> if ?n = 0 then fin f w p ?s else Ret () ?s
                         | None \<Rightarrow> Ret () ?s) = Ret () s1" "st_heap s1 = st_heap ?s"
    "st_world s1 = st_world ?s" "st_opaque s1 = st_opaque ?s" "st_universe s1 = st_universe ?s"
    "st_self s1 = st_self ?s"
  proof (cases "\<exists>f. o_finalizer (st_opaque ?s b) = Some f \<and> ?n = 0")
    case True
    then obtain f where f: "o_finalizer (st_opaque ?s b) = Some f" "?n = 0" by blast
    obtain s1 where "fin f w p ?s = Ret () s1 \<and> st_heap s1 = st_heap ?s \<and> st_world s1 = st_world ?s \<and>
        st_opaque s1 = st_opaque ?s \<and> st_universe s1 = st_universe ?s \<and> st_self s1 = st_self ?s"
      using fin unfolding finalizers_ok_def by meson
    then show thesis using f that [of s1] by simp
  next
    case False
    then show thesis using that [of ?s] by (auto split: option.splits)
  qed
  have "pone_opaque_free fin w p s = andthen (case o_finalizer (st_opaque ?s b) of
                           Some f \<Rightarrow> if ?n = 0 then fin f w p ?s else Ret () ?s
                         | None \<Rightarrow> Ret () ?s)
        (\<lambda>_ s. Ret () (s\<lparr>st_opaque := (st_opaque s)(b := (st_opaque s b)\<lparr>o_freed := True\<rparr>)\<rparr>))"
    using b by (simp add: pone_opaque_free_def Let_def)
  then show ?thesis unfolding s1(1) using s1(2-) by auto
qed

lemma arena_wf_same:
  "arena_wf w s \<Longrightarrow> st_world s' = st_world s \<Longrightarrow> st_heap s' = st_heap s \<Longrightarrow> arena_wf w s'"
  by (subst arena_wf_cong [where s = s]) simp_all

lemma val_free_heap:
  "st_heap (pone_val_free w p s) q = (if q = p then st_heap (pone_val_free w p s) p else st_heap s q)"
  "\<not> pone_alive (st_heap (pone_val_free w p s) p)"
  by (simp_all add: pone_val_free_def)

lemma free_value_spec:
  assumes fin: "finalizers_ok fin" and wf: "arena_wf w s"
    and p: "p \<in> world_cells w (st_world s w)" "collectable (st_heap s p)"
    and op: "\<And>b. val_as (st_heap s p) = AsOpaque b \<Longrightarrow> \<not> o_freed (st_opaque s b)"
  shows "\<exists>s'. free_value fin w p s = Ret () s' \<and> arena_wf w s' \<and> same_but_freelist w s s' \<and>
    \<not> pone_alive (st_heap s' p) \<and> (\<forall>q. q \<noteq> p \<longrightarrow> st_heap s' q = st_heap s q) \<and>
    (\<forall>c. val_as (st_heap s p) \<noteq> AsOpaque c \<longrightarrow> st_opaque s' c = st_opaque s c)"
proof (cases "\<exists>b. val_as (st_heap s p) = AsOpaque b")
  case True
  then obtain b where b: "val_as (st_heap s p) = AsOpaque b" by blast
  obtain s1 where s1: "pone_opaque_free fin w p s = Ret () s1" "st_heap s1 = st_heap s"
    "st_world s1 = st_world s" "st_universe s1 = st_universe s" "st_self s1 = st_self s"
    "\<And>c. c \<noteq> b \<Longrightarrow> st_opaque s1 c = st_opaque s c"
    using opaque_free_spec [OF fin b op [OF b]] by metis
  have "arena_wf w s1" using wf s1(2,3) by (rule_tac arena_wf_same) auto
  then have "arena_wf w (pone_val_free w p s1)"
    using p s1(2,3) by (intro val_free_wf) (simp_all add: collectable_def)
  moreover have "same_but_freelist w s (pone_val_free w p s1)"
    by (rule same_but_freelist_trans [where ?s2.0 = s1])
      (simp_all add: same_but_freelist_def [of w s s1] s1)
  moreover have "free_value fin w p s = Ret () (pone_val_free w p s1)"
    using b s1(1) by (simp add: free_value_def type_at_def pone_type_def)
  ultimately show ?thesis using b s1 by (auto simp: pone_val_free_def)
next
  case False
  then have "free_value fin w p s = Ret () (pone_val_free w p s)"
    using p(2)
    by (cases "val_as (st_heap s p)")
      (auto simp: free_value_def type_at_def pone_type_def collectable_def)
  moreover have "arena_wf w (pone_val_free w p s)"
    using wf p by (intro val_free_wf) (simp_all add: collectable_def)
  ultimately show ?thesis by (auto simp: pone_val_free_def same_but_freelist_def)
qed

lemma sweep_cell_spec:
  assumes fin: "finalizers_ok fin" and wf: "arena_wf w s"
    and p: "p \<in> world_cells w (st_world s w)"
    and op: "\<And>b. val_as (st_heap s p) = AsOpaque b \<Longrightarrow> \<not> o_freed (st_opaque s b)"
  shows "\<exists>s'. sweep_cell fin w p s = Ret () s' \<and> arena_wf w s' \<and> same_but_freelist w s s' \<and>
    swept (st_heap s p) (st_heap s' p) \<and> (\<forall>q. q \<noteq> p \<longrightarrow> st_heap s' q = st_heap s q) \<and>
    (\<forall>c. val_as (st_heap s p) \<noteq> AsOpaque c \<longrightarrow> st_opaque s' c = st_opaque s c)"
proof -
  let ?v = "st_heap s p"
  consider (coll) "collectable ?v" | (mark) "pone_alive ?v" "marked ?v"
    | (keep) "\<not> pone_alive ?v \<or> \<not> marked ?v" "\<not> collectable ?v" by blast
  then show ?thesis
  proof cases
    case coll
    then have "sweep_cell fin w p s = free_value fin w p s"
      by (simp add: sweep_cell_def collectable_def type_at_def pone_alive_def)
    then show ?thesis using free_value_spec [OF fin wf p coll op] coll by (auto simp: swept_def)
  next
    case mark
    let ?s = "set_flags p (val_flags ?v XOR PONE_FLAGS_GC_MARK) s"
    have "arena_wf w ?s" using wf
      by (rule arena_wf_heap_cong) (use mark in \<open>auto simp: pone_alive_def pone_type_def\<close>)
    moreover have "st_opaque ?s = st_opaque s" by (simp add: set_flags_def)
    ultimately show ?thesis using mark
      by (auto simp: sweep_cell_def type_at_def pone_alive_def same_but_freelist_def swept_def collectable_def)
  next
    case keep
    then have "sweep_cell fin w p s = Ret () s"
      by (auto simp: sweep_cell_def free_value_def type_at_def pone_alive_def collectable_def)
    then show ?thesis using wf keep by (auto simp: swept_def)
  qed
qed

lemma sweep_cells_spec:
  assumes "finalizers_ok fin" "arena_wf w s" "set ps \<subseteq> world_cells w (st_world s w)" "distinct ps"
    "opaques_ok s (set ps)"
  shows "\<exists>s'. for_cells (sweep_cell fin w) ps s = Ret () s' \<and> arena_wf w s' \<and> same_but_freelist w s s' \<and>
    (\<forall>p \<in> set ps. swept (st_heap s p) (st_heap s' p)) \<and>
    (\<forall>p. p \<notin> set ps \<longrightarrow> st_heap s' p = st_heap s p)"
  using assms(2-)
proof (induction ps arbitrary: s)
  case (Cons p ps)
  have op: "\<not> o_freed (st_opaque s b)" if "val_as (st_heap s p) = AsOpaque b" for b
    using Cons.prems(4) that by (simp add: opaques_ok_def)
  obtain s1 where s1: "sweep_cell fin w p s = Ret () s1" "arena_wf w s1" "same_but_freelist w s s1"
    "swept (st_heap s p) (st_heap s1 p)" "\<And>q. q \<noteq> p \<Longrightarrow> st_heap s1 q = st_heap s q"
    "\<And>c. val_as (st_heap s p) \<noteq> AsOpaque c \<Longrightarrow> st_opaque s1 c = st_opaque s c"
    using sweep_cell_spec [OF assms(1) Cons.prems(1), of p] op Cons.prems(2) by auto
  have np: "p \<notin> set ps" using Cons.prems(3) by simp
  then have h: "st_heap s1 q = st_heap s q" if "q \<in> set ps" for q using s1(5) that by metis
  have "opaques_ok s1 (set ps)"
    unfolding opaques_ok_def
  proof (intro ballI allI impI)
    fix q b assume q: "q \<in> set ps" "val_as (st_heap s1 q) = AsOpaque b"
    then have "val_as (st_heap s q) = AsOpaque b" "q \<noteq> p" using h np by auto
    then have "\<not> o_freed (st_opaque s b)" "val_as (st_heap s p) \<noteq> AsOpaque b"
      "\<forall>r \<in> set ps. val_as (st_heap s r) = AsOpaque b \<longrightarrow> r = q"
      using Cons.prems(4) q(1) by (auto simp: opaques_ok_def)
    then show "\<not> o_freed (st_opaque s1 b) \<and>
        (\<forall>r \<in> set ps. val_as (st_heap s1 r) = AsOpaque b \<longrightarrow> r = q)"
      using s1(6) h by auto
  qed
  moreover have "set ps \<subseteq> world_cells w (st_world s1 w)"
    using Cons.prems(2) same_but_freelist_cells [OF s1(3)] by simp
  ultimately obtain s2 where s2: "for_cells (sweep_cell fin w) ps s1 = Ret () s2" "arena_wf w s2"
    "same_but_freelist w s1 s2" "\<And>q. q \<in> set ps \<Longrightarrow> swept (st_heap s1 q) (st_heap s2 q)"
    "\<And>q. q \<notin> set ps \<Longrightarrow> st_heap s2 q = st_heap s1 q"
    using Cons.IH [OF s1(2)] Cons.prems(3) by auto
  have "same_but_freelist w s s2" using s1(3) s2(3) by (rule same_but_freelist_trans)
  then show ?case using s1 s2 np h
    by (intro exI [of _ s2]) auto
qed simp

section \<open>Properties\<close>

text \<open>
  The state the collector expects: the free list is exact, no mark is left over, every reachable
  value is live and well-formed.
\<close>

definition gc_ready :: "nat \<Rightarrow> pone_state \<Rightarrow> ptr list \<Rightarrow> ptr set \<Rightarrow> bool" where
  "gc_ready w s rs R \<longleftrightarrow>
     arena_wf w s \<and> gc_roots w s = Some rs \<and> R = reach (st_heap s) (set rs) \<and>
     traversable (st_heap s) R \<and> (\<forall>p \<in> R. pone_alive (st_heap s p)) \<and>
     (\<forall>p \<in> R \<union> world_cells w (st_world s w). \<not> marked (st_heap s p)) \<and>
     opaques_ok s (world_cells w (st_world s w))"

lemma gc_mark_spec:
  assumes "gc_ready w s rs R" "card R < depth"
  shows "pone_gc_mark depth w s = Ret () (s\<lparr>st_heap := mark_cells R (st_heap s)\<rparr>)"
proof -
  have "mark_each (pone_gc_mark_value depth) rs (st_heap s) = Ret () (mark_cells R (st_heap s))"
    using assms by (intro mark_roots_spec) (auto simp: gc_ready_def)
  then show ?thesis using assms(1) by (simp add: pone_gc_mark_def gc_ready_def)
qed

lemma marked_state_wf:
  assumes "gc_ready w s rs R"
  shows "arena_wf w (s\<lparr>st_heap := mark_cells R (st_heap s)\<rparr>)"
    "opaques_ok (s\<lparr>st_heap := mark_cells R (st_heap s)\<rparr>) (world_cells w (st_world s w))"
proof -
  have "arena_wf w s" using assms by (simp add: gc_ready_def)
  then show "arena_wf w (s\<lparr>st_heap := mark_cells R (st_heap s)\<rparr>)"
    by (rule arena_wf_heap_cong) (use assms in \<open>auto simp: mark_cells_def gc_ready_def\<close>)
  have "val_as (mark_cells R (st_heap s) p) = val_as (st_heap s p)" for p by (simp add: mark_cells_def)
  then show "opaques_ok (s\<lparr>st_heap := mark_cells R (st_heap s)\<rparr>) (world_cells w (st_world s w))"
    using assms by (simp add: gc_ready_def opaques_ok_def)
qed


text \<open>A world with an array that holds an integer, and an integer nobody refers to.\<close>

definition gc_demo :: pone_state where
  "gc_demo = blank_state
     \<lparr>st_heap := initial_heap
        (Cell 0 0 0 := \<lparr>val_flags = 0, val_as = AsAry [Cell 0 0 1] 1 1\<rparr>,
         Cell 0 0 1 := \<lparr>val_flags = 0, val_as = AsInt 1\<rparr>,
         Cell 0 0 2 := \<lparr>val_flags = 0, val_as = AsInt 2\<rparr>),
      st_world := (\<lambda>_. blank_world)(0 := blank_world\<lparr>w_arenas := [3], w_tmpstack := [Cell 0 0 0]\<rparr>),
      st_universe := blank_universe\<lparr>u_inc := NilP, u_args := NilP\<rparr>\<rparr>"

definition no_finalizers :: finalizers where
  "no_finalizers f w p s = Ret () s"

lemma no_finalizers_ok: "finalizers_ok no_finalizers"
  by (simp add: finalizers_ok_def no_finalizers_def)

lemma gc_demo_cells: "world_cells 0 (st_world gc_demo 0) = {Cell 0 0 0, Cell 0 0 1, Cell 0 0 2}"
  by (auto simp: gc_demo_def world_cells_def less_Suc_eq numeral_3_eq_3)

lemma gc_demo_ready:
  "gc_ready 0 gc_demo [NilP, NilP, NilP, Cell 0 0 0] {NilP, Cell 0 0 0, Cell 0 0 1}"
proof -
  let ?rs = "set [NilP, NilP, NilP, Cell 0 0 0]"
  have refs: "gc_refs (st_heap gc_demo NilP) = Some []"
    "gc_refs (st_heap gc_demo (Cell 0 0 0)) = Some [Cell 0 0 1]"
    "gc_refs (st_heap gc_demo (Cell 0 0 1)) = Some []"
    by (simp_all add: gc_demo_def initial_heap_def gc_refs_def pone_ary_mark_def)
  have sub: "p \<in> {NilP, Cell 0 0 0, Cell 0 0 1}" if "p \<in> reach (st_heap gc_demo) ?rs" for p
    using that by induction (auto simp: refs simp del: One_nat_def)
  have "Cell 0 0 1 \<in> reach (st_heap gc_demo) ?rs"
    by (rule reach.step [where p = "Cell 0 0 0" and ps = "[Cell 0 0 1]"])
      (use refs(2) in \<open>auto intro: reach.root\<close>)
  then have R: "{NilP, Cell 0 0 0, Cell 0 0 1} = reach (st_heap gc_demo) ?rs"
    using sub by (auto intro: reach.root)
  have "arena_wf 0 gc_demo"
    unfolding arena_wf_def gc_demo_cells
    by (auto simp: gc_demo_def arenas_ok_def blank_world_def PONE_ARENA_SIZE_def pone_alive_iff
        initial_heap_def intro!: exI [of _ "[]"])
  moreover have "gc_roots 0 gc_demo = Some [NilP, NilP, NilP, Cell 0 0 0]"
    by (simp add: gc_roots_def pone_world_mark_def pone_universe_mark_def gc_demo_def blank_world_def
        blank_universe_def pone_nil_def)
  moreover have "traversable (st_heap gc_demo) {NilP, Cell 0 0 0, Cell 0 0 1}"
    by (simp add: traversable_def refs del: One_nat_def)
  moreover have "opaques_ok gc_demo (world_cells 0 (st_world gc_demo 0))"
    unfolding gc_demo_cells by (auto simp: opaques_ok_def gc_demo_def)
  moreover have "\<forall>p \<in> {NilP, Cell 0 0 0, Cell 0 0 1}. pone_alive (st_heap gc_demo p)"
    by (simp add: gc_demo_def pone_alive_iff initial_heap_def)
  moreover have "\<forall>p \<in> {NilP, Cell 0 0 0, Cell 0 0 1, Cell 0 0 2}. \<not> marked (st_heap gc_demo p)"
    by (simp add: gc_demo_def marked_def has_flag_def initial_heap_def PONE_FLAGS_GLOBAL_def
        PONE_FLAGS_GC_MARK_def)
  moreover have "{NilP, Cell 0 0 0, Cell 0 0 1} \<union> {Cell 0 0 0, Cell 0 0 1, Cell 0 0 2} =
      {NilP, Cell 0 0 0, Cell 0 0 1, Cell 0 0 2}" by auto
  ultimately show ?thesis using R unfolding gc_ready_def gc_demo_cells by metis
qed


text \<open>
  Releasing an opaque body ignores its reference count. When a value and a copy of it
  are both collected, the second release touches the body that the first one gave back.
\<close>

theorem opaque_double_free:
  assumes "val_as (st_heap s p) = AsOpaque b" "val_as (st_heap s q) = AsOpaque b"
    "\<not> o_freed (st_opaque s b)" "o_refcnt (st_opaque s b) = 2"
  shows "andthen (pone_opaque_free fin w p s) (\<lambda>_. pone_opaque_free fin w q) = Undef"
  using assms by (cases "o_finalizer (st_opaque s b)") (simp_all add: pone_opaque_free_def Let_def)

theorem opaque_double_free_witness:
  "andthen (pone_opaque_free no_finalizers 0 (Cell 0 0 0)
      (blank_state\<lparr>st_heap := (\<lambda>_. \<lparr>val_flags = 0, val_as = AsOpaque 1\<rparr>),
         st_opaque := (\<lambda>_. \<lparr>o_klass = NilP, o_ptr = 7, o_finalizer = None, o_refcnt = 2, o_freed = False\<rparr>)\<rparr>))
     (\<lambda>_. pone_opaque_free no_finalizers 0 (Cell 0 0 1)) = Undef"
  by (rule opaque_double_free [of _ _ 1]) simp_all

lemma upt_3: "[0..<3] = [0, 1, 2::nat]"
  by (simp add: upt_rec)

text \<open>The same heap, with a second world that refers to the array of the first.\<close>

definition stale_demo :: pone_state where
  "stale_demo = gc_demo
     \<lparr>st_world := (\<lambda>_. blank_world)
        (0 := blank_world\<lparr>w_arenas := [3], w_tmpstack := [Cell 0 0 0]\<rparr>,
         1 := blank_world\<lparr>w_tmpstack := [Cell 0 0 0]\<rparr>)\<rparr>"

text \<open>
  A collection leaves its marks on the values of other worlds. World 1 refers to an
  array of world 0 and collects; then the array gets a new element, and when world 0 collects, it
  takes the array for visited and frees the element that the live array holds.
\<close>

theorem gc_stale_marks:
  "\<exists>s' s''. pone_gc_run no_finalizers (Suc (Suc (Suc 0))) 1 stale_demo = Ret () s' \<and>
     pone_gc_run no_finalizers (Suc (Suc (Suc 0))) 0 (set_as (Cell 0 0 0) (AsAry [Cell 0 0 2] 1 1) s') = Ret () s'' \<and>
     val_as (st_heap s'' (Cell 0 0 0)) = AsAry [Cell 0 0 2] 1 1 \<and>
     \<not> pone_alive (st_heap s'' (Cell 0 0 2))"
  by (simp add: stale_demo_def gc_demo_def blank_state_def blank_world_def blank_universe_def
      pone_gc_run_def pone_gc_mark_def gc_roots_def pone_world_mark_def pone_universe_mark_def
      pone_nil_def upt_3 marked_def has_flag_def gc_refs_def pone_ary_mark_def
      set_mark_def initial_heap_def pone_gc_collect_def arena_cells_def
      sweep_cell_def type_at_def pone_type_def free_value_def pone_val_free_def
      PONE_FLAGS_GC_MARK_def PONE_FLAGS_GLOBAL_def pone_alive_def upd_world_def set_as_def
      set_val_def set_flags_def)

end
