(* ===== verification/Pone_Data.thy ===== *)
theory Pone_Data
  imports Pone_GC
begin

text \<open>
  The values of the language below method dispatch: integers, numbers, strings
  (\<^verbatim>\<open>src/int.c, num.c, bool.c, str.c\<close>), arrays (\<^verbatim>\<open>array.c\<close>), objects (\<^verbatim>\<open>obj.c\<close>), maps
  (\<^verbatim>\<open>map.c, include/pone_map.h\<close>), code (\<^verbatim>\<open>code.c\<close>) and opaques (\<^verbatim>\<open>opaque.c\<close>). A failed \<open>assert\<close> is
  \<open>Abort\<close>; reading a union through the wrong member, or memory outside a block, is \<open>Undef\<close>, which
  also stands for a hash probe that does not end.
\<close>

section \<open>The C environment\<close>

text \<open>
  What the runtime takes from outside: the functions behind function pointers (\<open>e_call\<close>, the
  built-in methods and the compiled program), finalizers, the depth of the C stack, the
  floating-point operations of the C implementation on \<open>double\<close> bit patterns, the text that
  \<open>printf\<close> makes of a \<open>double\<close> or a pointer, and the encoded length of a UTF-8 character
  (Oniguruma).
\<close>

record pone_env =
  e_call :: "pone_funcptr_t \<Rightarrow> nat \<Rightarrow> ptr \<Rightarrow> ptr list \<Rightarrow> ptr pone"
  e_fin :: finalizers
  e_depth :: nat
  e_num_add :: "pone_num_t \<Rightarrow> pone_num_t \<Rightarrow> pone_num_t"
  e_num_sub :: "pone_num_t \<Rightarrow> pone_num_t \<Rightarrow> pone_num_t"
  e_num_mul :: "pone_num_t \<Rightarrow> pone_num_t \<Rightarrow> pone_num_t"
  e_num_div :: "pone_num_t \<Rightarrow> pone_num_t \<Rightarrow> pone_num_t"
  e_num_pow :: "pone_num_t \<Rightarrow> pone_num_t \<Rightarrow> pone_num_t \<times> int" \<comment> \<open>and \<open>errno\<close>\<close>
  e_num_eq :: "pone_num_t \<Rightarrow> pone_num_t \<Rightarrow> bool"
  e_num_lt :: "pone_num_t \<Rightarrow> pone_num_t \<Rightarrow> bool"
  e_num_le :: "pone_num_t \<Rightarrow> pone_num_t \<Rightarrow> bool"
  e_num_of_int :: "pone_int_t \<Rightarrow> pone_num_t"
  e_int_of_num :: "pone_num_t \<Rightarrow> pone_int_t"
  e_num_floor :: "pone_num_t \<Rightarrow> 32 word"
  e_num_fmt :: "pone_num_t \<Rightarrow> bytes"
  e_ptr_fmt :: "ptr \<Rightarrow> bytes"
  e_strtod :: "bytes \<Rightarrow> pone_num_t"
  e_mbc_enc_len :: "byte \<Rightarrow> nat"

definition from_option :: "'x option \<Rightarrow> 's \<Rightarrow> ('x, 's) outcome" where
  "from_option x s = (case x of Some y \<Rightarrow> Ret y s | None \<Rightarrow> Undef)"

lemma from_option_simps [simp]: "from_option (Some y) s = Ret y s" "from_option None s = Undef"
  by (simp_all add: from_option_def)

text \<open>The bytes of a C string literal, without the NUL.\<close>

definition bs :: "string \<Rightarrow> bytes" where
  "bs lit = map of_char lit"

definition or_flags :: "8 word \<Rightarrow> ptr \<Rightarrow> pone_state \<Rightarrow> pone_state" where
  "or_flags f p s = set_flags p (val_flags (st_heap s p) OR f) s"

section \<open>Integers, numbers, booleans\<close>

definition pone_int_new :: "nat \<Rightarrow> pone_int_t \<Rightarrow> ptr pone" where
  "pone_int_new w i = pone_obj_alloc w (AsInt i)"

definition pone_int_val :: "ptr \<Rightarrow> pone_int_t pone" where
  "pone_int_val p s = (case val_as (st_heap s p) of AsInt i \<Rightarrow> Ret i s | _ \<Rightarrow> Abort)"

text \<open>\<open>++\<close> on a signed \<open>long\<close>: undefined at \<open>LONG_MAX\<close>.\<close>

definition pone_int_incr :: "ptr \<Rightarrow> ptr pone" where
  "pone_int_incr p s =
     (if pone_is_frozen (st_heap s p) then Exit 1
      else case val_as (st_heap s p) of
             AsInt i \<Rightarrow> if sint i = 2 ^ 63 - 1 then Undef else Ret p (set_as p (AsInt (i + 1)) s)
           | _ \<Rightarrow> Undef)"

definition pone_num_new :: "nat \<Rightarrow> pone_num_t \<Rightarrow> ptr pone" where
  "pone_num_new w n = pone_obj_alloc w (AsNum n)"

definition pone_num_val :: "ptr \<Rightarrow> pone_num_t pone" where
  "pone_num_val p s = (case val_as (st_heap s p) of AsNum n \<Rightarrow> Ret n s | _ \<Rightarrow> Abort)"

definition pone_bool_val :: "ptr \<Rightarrow> bool pone" where
  "pone_bool_val p s = (case val_as (st_heap s p) of AsBool b \<Rightarrow> Ret b s | _ \<Rightarrow> Abort)"

definition pone_bool :: "bool \<Rightarrow> ptr" where
  "pone_bool b = (if b then pone_true else pone_false)"

section \<open>Strings\<close>

definition pone_bytes_new_strdup :: "nat \<Rightarrow> bytes \<Rightarrow> nat \<Rightarrow> ptr pone" where
  "pone_bytes_new_strdup w p len = pone_obj_alloc w (AsStr (StrBuf (pone_strdup p len)) len)"

definition pone_str_new_strdup :: "nat \<Rightarrow> bytes \<Rightarrow> nat \<Rightarrow> ptr pone" where
  "pone_str_new_strdup w p len s =
     andthen (pone_bytes_new_strdup w p len s) (\<lambda>v s. Ret v (or_flags PONE_FLAGS_STR_UTF8 v s))"

definition pone_str_new_allocd :: "nat \<Rightarrow> bytes \<Rightarrow> nat \<Rightarrow> ptr pone" where
  "pone_str_new_allocd w p len s =
     andthen (pone_obj_alloc w (AsStr (StrBuf p) len) s)
       (\<lambda>v s. Ret v (set_flags v PONE_FLAGS_STR_UTF8 s))"

definition pone_bytes_new_allocd :: "nat \<Rightarrow> bytes \<Rightarrow> nat \<Rightarrow> ptr pone" where
  "pone_bytes_new_allocd w p len = pone_obj_alloc w (AsStr (StrBuf p) len)"

definition pone_bytes_truncate :: "ptr \<Rightarrow> nat \<Rightarrow> unit pone" where
  "pone_bytes_truncate p len s =
     (case val_as (st_heap s p) of
        AsStr d l \<Rightarrow> if len \<le> l then Ret () (set_as p (AsStr d len) s) else Abort
      | _ \<Rightarrow> Abort)"

definition pone_bytes_new_const :: "nat \<Rightarrow> bytes \<Rightarrow> nat \<Rightarrow> ptr pone" where
  "pone_bytes_new_const w p len s =
     andthen (pone_obj_alloc w (AsStr (StrBuf p) len) s)
       (\<lambda>v s. Ret v (or_flags (PONE_FLAGS_STR_CONST OR PONE_FLAGS_FROZEN) v s))"

definition pone_str_new_const :: "nat \<Rightarrow> bytes \<Rightarrow> nat \<Rightarrow> ptr pone" where
  "pone_str_new_const w p len s =
     andthen (pone_bytes_new_const w p len s) (\<lambda>v s. Ret v (or_flags PONE_FLAGS_STR_UTF8 v s))"

text \<open>A C literal: its buffer ends in a NUL.\<close>

definition pone_str_lit :: "nat \<Rightarrow> string \<Rightarrow> ptr pone" where
  "pone_str_lit w lit = pone_str_new_const w (bs lit @ [0]) (length lit)"

text \<open>The text is what \<open>vsnprintf\<close> produces.\<close>

definition pone_str_new_vprintf :: "nat \<Rightarrow> bytes \<Rightarrow> ptr pone" where
  "pone_str_new_vprintf w txt s =
     andthen (pone_obj_alloc w (AsStr (StrBuf (txt @ [0])) (length txt)) s)
       (\<lambda>v s. Ret v (set_flags v PONE_FLAGS_STR_UTF8 s))"

definition pone_str_copy :: "nat \<Rightarrow> ptr \<Rightarrow> ptr pone" where
  "pone_str_copy w val s =
     (if type_at s val \<noteq> PONE_STRING then Abort
      else andthen (pone_obj_alloc w (AsStr (StrVal val) 0) s)
             (\<lambda>v s. Ret v (or_flags (PONE_FLAGS_STR_COPY OR PONE_FLAGS_STR_UTF8) v s)))"

text \<open>
  Buffer and length, through the chain of copies; each link is a C stack frame. \<open>pone_str_root\<close> is
  the string at the end of the chain.
\<close>

primrec pone_str_root :: "nat \<Rightarrow> ptr \<Rightarrow> ptr pone" where
  "pone_str_root 0 = (\<lambda>p s. Undef)"
| "pone_str_root (Suc depth) = (\<lambda>p s.
     case val_as (st_heap s p) of
       AsStr d len \<Rightarrow>
         if has_flag PONE_FLAGS_STR_COPY (st_heap s p)
         then case d of StrVal q \<Rightarrow> pone_str_root depth q s | StrBuf _ \<Rightarrow> Undef
         else Ret p s
     | _ \<Rightarrow> Abort)"

primrec pone_str_ptr :: "nat \<Rightarrow> ptr \<Rightarrow> bytes pone" where
  "pone_str_ptr 0 = (\<lambda>p s. Undef)"
| "pone_str_ptr (Suc depth) = (\<lambda>p s.
     case val_as (st_heap s p) of
       AsStr d len \<Rightarrow>
         if has_flag PONE_FLAGS_STR_COPY (st_heap s p)
         then case d of StrVal q \<Rightarrow> pone_str_ptr depth q s | StrBuf _ \<Rightarrow> Undef
         else (case d of StrBuf b \<Rightarrow> Ret b s | StrVal _ \<Rightarrow> Undef)
     | _ \<Rightarrow> Abort)"

primrec pone_str_len :: "nat \<Rightarrow> ptr \<Rightarrow> nat pone" where
  "pone_str_len 0 = (\<lambda>p s. Undef)"
| "pone_str_len (Suc depth) = (\<lambda>p s.
     case val_as (st_heap s p) of
       AsStr d len \<Rightarrow>
         if has_flag PONE_FLAGS_STR_COPY (st_heap s p)
         then case d of StrVal q \<Rightarrow> pone_str_len depth q s | StrBuf _ \<Rightarrow> Undef
         else Ret len s
     | _ \<Rightarrow> Abort)"

text \<open>The first \<open>len\<close> bytes at the pointer, as \<open>memcpy\<close>, \<open>memcmp\<close> or \<open>fwrite\<close> read them.\<close>

definition pone_str_bytes :: "nat \<Rightarrow> ptr \<Rightarrow> bytes pone" where
  "pone_str_bytes depth p s =
     andthen (pone_str_ptr depth p s) (\<lambda>b s.
     andthen (pone_str_len depth p s) (\<lambda>n s.
     if n \<le> length b then Ret (take n b) s else Undef))"

definition pone_str_contains_null :: "nat \<Rightarrow> ptr \<Rightarrow> bool pone" where
  "pone_str_contains_null depth p s =
     andthen (pone_str_bytes depth p s) (\<lambda>b s.
     Ret (if b = [] then False else 0 \<in> set (butlast b)) s)"

text \<open>\<open>pone_str_concat\<close> once both operands are strings.\<close>

definition pone_str_join :: "nat \<Rightarrow> nat \<Rightarrow> ptr \<Rightarrow> ptr \<Rightarrow> ptr pone" where
  "pone_str_join depth w s1 s2 s =
     andthen (pone_str_bytes depth s1 s) (\<lambda>b1 s.
     andthen (pone_str_bytes depth s2 s) (\<lambda>b2 s.
     andthen (pone_obj_alloc w (AsStr (StrBuf (b1 @ b2)) (length b1 + length b2)) s) (\<lambda>v s.
     Ret v (set_flags v PONE_FLAGS_STR_UTF8 s))))"

text \<open>Decimal text of an integer, as \<open>"%ld"\<close> prints it.\<close>

fun dec_of_nat :: "nat \<Rightarrow> bytes" where
  "dec_of_nat n =
     (if n < 10 then [of_nat (48 + n)] else dec_of_nat (n div 10) @ [of_nat (48 + n mod 10)])"

declare dec_of_nat.simps [simp del]

definition dec_of_int :: "int \<Rightarrow> bytes" where
  "dec_of_int i = (if i < 0 then 45 # dec_of_nat (nat (- i)) else dec_of_nat (nat i))"

text \<open>\<open>snprintf\<close> into 20 bytes writes at most 19 characters and a NUL but returns the full length.\<close>

definition pone_str_from_int :: "nat \<Rightarrow> pone_int_t \<Rightarrow> ptr pone" where
  "pone_str_from_int w i =
     (let txt = dec_of_int (sint i); buf = take 19 txt @ [0]
      in pone_str_new_strdup w buf (length txt))"

definition pone_str_from_num :: "('z pone_env_scheme) \<Rightarrow> nat \<Rightarrow> pone_num_t \<Rightarrow> ptr pone" where
  "pone_str_from_num E w n =
     (let txt = e_num_fmt E n in pone_str_new_strdup w (txt @ [0]) (length txt))"

text \<open>\<open>pone_str_append_c\<close> after the check that the string may be changed.\<close>

definition pone_str_extend :: "ptr \<Rightarrow> bytes \<Rightarrow> unit pone" where
  "pone_str_extend p b s =
     (case val_as (st_heap s p) of
        AsStr (StrBuf buf) len \<Rightarrow>
          if len + length b > 0
          then if len \<le> length buf
               then Ret () (set_as p (AsStr (StrBuf (take len buf @ b)) (len + length b)) s)
               else Undef
          else Ret () s
      | AsStr (StrVal _) _ \<Rightarrow> Undef
      | _ \<Rightarrow> Abort)"

section \<open>Arrays\<close>

definition pone_ary_new :: "nat \<Rightarrow> ptr list \<Rightarrow> ptr pone" where
  "pone_ary_new w vs = pone_obj_alloc w (AsAry vs (length vs) (length vs))"

definition pone_ary_size :: "ptr \<Rightarrow> nat pone" where
  "pone_ary_size p s = (case val_as (st_heap s p) of AsAry a mx len \<Rightarrow> Ret len s | _ \<Rightarrow> Abort)"

text \<open>The index is a \<open>long\<close>; a negative one reads before the block.\<close>

definition pone_ary_at_pos :: "ptr \<Rightarrow> int \<Rightarrow> ptr pone" where
  "pone_ary_at_pos p i s =
     (case val_as (st_heap s p) of
        AsAry a mx len \<Rightarrow>
          if int len > i
          then if 0 \<le> i \<and> nat i < length a then Ret (a ! nat i) s else Undef
          else Ret pone_nil s
      | _ \<Rightarrow> Abort)"

text \<open>\<open>realloc\<close> to \<open>n\<close> slots: the old contents, cut or followed by slots that hold nothing yet.\<close>

definition realloc_slots :: "nat \<Rightarrow> ptr list \<Rightarrow> ptr list" where
  "realloc_slots n a = take n a @ replicate (n - length a) Null"

definition pone_ary_resize :: "ptr \<Rightarrow> nat \<Rightarrow> unit pone" where
  "pone_ary_resize p sz s =
     (case val_as (st_heap s p) of
        AsAry a mx len \<Rightarrow>
          if len < sz
          then (let mx' = (if mx < sz then sz else mx);
                    a' = (if mx < sz then realloc_slots sz a else a)
                in if length a' < sz then Undef
                   else Ret () (set_as p
                     (AsAry (take len a' @ replicate (sz - len) pone_nil @ drop sz a') mx' sz) s))
          else Abort
      | _ \<Rightarrow> Undef)"

definition pone_ary_store :: "ptr \<Rightarrow> int \<Rightarrow> ptr \<Rightarrow> unit pone" where
  "pone_ary_store p i v s =
     (case val_as (st_heap s p) of
        AsAry a mx len \<Rightarrow>
          if 0 \<le> i \<and> nat i < length a then Ret () (set_as p (AsAry (a[nat i := v]) mx len) s)
          else Undef
      | _ \<Rightarrow> Undef)"

text \<open>\<open>pone_ary_assign_pos\<close> once the index is an integer.\<close>

definition pone_ary_assign :: "ptr \<Rightarrow> int \<Rightarrow> ptr \<Rightarrow> unit pone" where
  "pone_ary_assign p i v s =
     andthen (pone_ary_size p s) (\<lambda>len s.
     if int len > i then pone_ary_store p i v s
     else andthen (pone_ary_resize p (nat (i + 1)) s) (\<lambda>_. pone_ary_store p i v))"

definition pone_ary_push :: "ptr \<Rightarrow> ptr \<Rightarrow> unit pone" where
  "pone_ary_push p v s =
     (case val_as (st_heap s p) of
        AsAry a mx len \<Rightarrow>
          (let mx' = (if mx = len then if mx > 0 then mx * 2 else 1 else mx);
               a' = (if mx = len then realloc_slots mx' a else a)
           in if len < length a' then Ret () (set_as p (AsAry (a'[len := v]) mx' (Suc len)) s)
              else Undef)
      | _ \<Rightarrow> Abort)"

definition pone_ary_unshift :: "ptr \<Rightarrow> ptr \<Rightarrow> unit pone" where
  "pone_ary_unshift p v s =
     (case val_as (st_heap s p) of
        AsAry a mx len \<Rightarrow>
          (let mx' = (if mx = len then if mx \<noteq> 0 then push_bit 1 mx else 1 else mx);
               a' = (if mx = len then realloc_slots mx' a else a)
           in if len < length a'
              then Ret () (set_as p (AsAry (v # take len a' @ drop (Suc len) a') mx' (Suc len)) s)
              else Undef)
      | _ \<Rightarrow> Undef)"

text \<open>The part of \<open>pone_ary_pop\<close> and \<open>pone_ary_shift\<close> after the test for an empty array.\<close>

definition ary_take_last :: "nat \<Rightarrow> ptr \<Rightarrow> ptr pone" where
  "ary_take_last w p s =
     (case val_as (st_heap s p) of
        AsAry a mx len \<Rightarrow>
          if 0 < len \<and> len \<le> length a
          then pone_save_tmp w (a ! (len - 1)) (set_as p (AsAry (a[len - 1 := Null]) mx (len - 1)) s)
          else Undef
      | _ \<Rightarrow> Undef)"

definition ary_take_first :: "nat \<Rightarrow> ptr \<Rightarrow> ptr pone" where
  "ary_take_first w p s =
     (case val_as (st_heap s p) of
        AsAry a mx len \<Rightarrow>
          if 0 < len \<and> len \<le> length a
          then pone_save_tmp w (a ! 0)
                 (set_as p (AsAry (take (len - 1) (tl a) @ drop (len - 1) a) mx (len - 1)) s)
          else Undef
      | _ \<Rightarrow> Undef)"

section \<open>Objects\<close>

definition pone_obj_new :: "nat \<Rightarrow> ptr \<Rightarrow> ptr pone" where
  "pone_obj_new w klass s =
     (if klass = Null \<or> type_at s klass \<noteq> PONE_OBJ then Abort
      else pone_obj_alloc w (AsObj klass kh_init) s)"

definition pone_obj_set_ivar :: "ptr \<Rightarrow> bytes \<Rightarrow> ptr \<Rightarrow> unit pone" where
  "pone_obj_set_ivar obj name v s =
     (case val_as (st_heap s obj) of
        AsObj klass ivar \<Rightarrow>
          andthen (from_option (str_kh_put ivar name v) s) (\<lambda>(ivar', ret) s.
            Ret () (set_as obj (AsObj klass ivar') s))
      | _ \<Rightarrow> Abort)"

definition pone_obj_get_ivar :: "ptr \<Rightarrow> bytes \<Rightarrow> ptr pone" where
  "pone_obj_get_ivar obj name s =
     (case val_as (st_heap s obj) of
        AsObj klass ivar \<Rightarrow>
          andthen (from_option (str_kh_get ivar name) s) (\<lambda>r s.
            Ret (case r of Some v \<Rightarrow> v | None \<Rightarrow> pone_nil) s)
      | _ \<Rightarrow> Abort)"

fun set_ivars :: "ptr \<Rightarrow> (bytes \<times> ptr) list \<Rightarrow> unit pone" where
  "set_ivars obj [] s = Ret () s"
| "set_ivars obj ((k, v) # kvs) s = andthen (pone_obj_set_ivar obj k v s) (\<lambda>_. set_ivars obj kvs)"

definition pone_obj_copy :: "nat \<Rightarrow> ptr \<Rightarrow> ptr pone" where
  "pone_obj_copy w obj s =
     (case val_as (st_heap s obj) of
        AsObj klass ivar \<Rightarrow>
          andthen (pone_obj_new w klass s) (\<lambda>r s.
          andthen (set_ivars r (kh_foreach ivar) s) (\<lambda>_. Ret r))
      | _ \<Rightarrow> Undef)"

section \<open>Maps\<close>

text \<open>
  The hash of a key starts with its first byte, which is read even when the string is empty, and
  adds the others only when that one is not NUL. Keys in a table are strings
  (\<open>pone_map_assign_key\<close> converts them); a key to look up is checked by \<open>map_key\<close>.
\<close>

definition str_content :: "nat \<Rightarrow> pone_state \<Rightarrow> ptr \<Rightarrow> bytes" where
  "str_content depth s p = (case pone_str_bytes depth p s of Ret b _ \<Rightarrow> b | _ \<Rightarrow> [])"

definition X31_bytes :: "bytes \<Rightarrow> 32 word" where
  "X31_bytes b =
     (case b of
        [] \<Rightarrow> 0
      | c # cs \<Rightarrow>
          if khint_of_char c \<noteq> 0
          then fold (\<lambda>c h. push_bit 5 h - h + khint_of_char c) cs (khint_of_char c) else 0)"

definition pone_val_hash_func :: "nat \<Rightarrow> pone_state \<Rightarrow> ptr \<Rightarrow> 32 word" where
  "pone_val_hash_func depth s p = X31_bytes (str_content depth s p)"

definition pone_val_hash_equal :: "nat \<Rightarrow> pone_state \<Rightarrow> ptr \<Rightarrow> ptr \<Rightarrow> bool" where
  "pone_val_hash_equal depth s a b \<longleftrightarrow> str_content depth s a = str_content depth s b"

text \<open>An empty key must still have a NUL to read, or the hash loop runs away.\<close>

definition map_key :: "nat \<Rightarrow> ptr \<Rightarrow> unit pone" where
  "map_key depth p s =
     (if type_at s p \<noteq> PONE_STRING then Abort
      else andthen (pone_str_ptr depth p s) (\<lambda>buf s.
           andthen (pone_str_len depth p s) (\<lambda>n s.
           if n \<le> length buf \<and> buf \<noteq> [] \<and> (n = 0 \<longrightarrow> hd buf = 0) then Ret () s else Undef)))"

definition pone_map_new :: "nat \<Rightarrow> ptr pone" where
  "pone_map_new w = pone_obj_alloc w (AsMap kh_init 0)"

definition pone_map_at_key :: "nat \<Rightarrow> ptr \<Rightarrow> ptr \<Rightarrow> ptr pone" where
  "pone_map_at_key depth self key s =
     (case val_as (st_heap s self) of
        AsMap h len \<Rightarrow>
          andthen (map_key depth key s) (\<lambda>_ s.
          andthen (from_option (kh_fetch (pone_val_hash_func depth s) (pone_val_hash_equal depth s) h key) s)
            (\<lambda>r s. Ret (case r of Some v \<Rightarrow> v | None \<Rightarrow> pone_nil) s))
      | _ \<Rightarrow> Abort)"

definition pone_map_exists :: "nat \<Rightarrow> ptr \<Rightarrow> ptr \<Rightarrow> bool pone" where
  "pone_map_exists depth self key s =
     (case val_as (st_heap s self) of
        AsMap h len \<Rightarrow>
          andthen (map_key depth key s) (\<lambda>_ s.
          andthen (from_option (kh_fetch (pone_val_hash_func depth s) (pone_val_hash_equal depth s) h key) s)
            (\<lambda>r s. Ret (r \<noteq> None) s))
      | _ \<Rightarrow> Abort)"

text \<open>\<open>pone_map_assign_key\<close> with a key that is a string. The length counts every assignment.\<close>

definition pone_map_put :: "nat \<Rightarrow> ptr \<Rightarrow> ptr \<Rightarrow> ptr \<Rightarrow> unit pone" where
  "pone_map_put depth hv key v s =
     (case val_as (st_heap s hv) of
        AsMap h len \<Rightarrow>
          andthen (map_key depth key s) (\<lambda>_ s.
          andthen (from_option (kh_store (pone_val_hash_func depth s) (pone_val_hash_equal depth s) h key v) s)
            (\<lambda>(h', ret) s. Ret () (set_as hv (AsMap h' (Suc len)) s)))
      | _ \<Rightarrow> Abort)"

definition pone_map_size :: "ptr \<Rightarrow> nat pone" where
  "pone_map_size p s = (case val_as (st_heap s p) of AsMap h len \<Rightarrow> Ret len s | _ \<Rightarrow> Abort)"

fun push_all :: "ptr \<Rightarrow> ptr list \<Rightarrow> unit pone" where
  "push_all a [] s = Ret () s"
| "push_all a (v # vs) s = andthen (pone_ary_push a v s) (\<lambda>_. push_all a vs)"

definition pone_map_keys :: "nat \<Rightarrow> ptr \<Rightarrow> ptr pone" where
  "pone_map_keys w p s =
     (case val_as (st_heap s p) of
        AsMap h len \<Rightarrow>
          andthen (pone_ary_new w [] s) (\<lambda>r s.
          andthen (push_all r (map fst (kh_foreach h)) s) (\<lambda>_. Ret r))
      | _ \<Rightarrow> Abort)"

definition pone_map_values :: "nat \<Rightarrow> ptr \<Rightarrow> ptr pone" where
  "pone_map_values w p s =
     (case val_as (st_heap s p) of
        AsMap h len \<Rightarrow>
          andthen (pone_ary_new w [] s) (\<lambda>r s.
          andthen (push_all r (map snd (kh_foreach h)) s) (\<lambda>_. Ret r))
      | _ \<Rightarrow> Abort)"

section \<open>Code and opaques\<close>

definition pone_code_new_c :: "nat \<Rightarrow> pone_funcptr_t \<Rightarrow> ptr pone" where
  "pone_code_new_c w f = pone_obj_alloc w (AsCode f Null)"

definition pone_code_new :: "nat \<Rightarrow> pone_funcptr_t \<Rightarrow> ptr pone" where
  "pone_code_new w f s = pone_obj_alloc w (AsCode f (w_lex (st_world s w))) s"

definition pone_code_bind :: "ptr \<Rightarrow> bytes \<Rightarrow> ptr \<Rightarrow> unit pone" where
  "pone_code_bind code key v s =
     (case val_as (st_heap s code) of
        AsCode f lx \<Rightarrow>
          if lx = Null then Abort
          else (case val_as (st_heap s lx) of
                  AsLex parent m tid \<Rightarrow>
                    andthen (from_option (str_kh_put m key v) s) (\<lambda>(m', ret) s.
                      Ret () (set_as lx (AsLex parent m' tid) s))
                | _ \<Rightarrow> Undef)
      | _ \<Rightarrow> Abort)"

definition pone_opaque_new :: "nat \<Rightarrow> ptr \<Rightarrow> nat \<Rightarrow> string option \<Rightarrow> ptr pone" where
  "pone_opaque_new w klass p finalizer s =
     (let b = st_next_opaque s in
      pone_obj_alloc w (AsOpaque b)
        (s\<lparr>st_next_opaque := Suc b,
           st_opaque := (st_opaque s)(b := \<lparr>o_klass = klass, o_ptr = p, o_finalizer = finalizer,
                                           o_refcnt = 1, o_freed = False\<rparr>)\<rparr>))"

definition pone_opaque_copy :: "nat \<Rightarrow> ptr \<Rightarrow> ptr pone" where
  "pone_opaque_copy w v s =
     (case val_as (st_heap s v) of
        AsOpaque b \<Rightarrow>
          andthen (pone_obj_alloc w (AsOpaque b) s) (\<lambda>p s.
            if o_freed (st_opaque s b) then Undef
            else Ret p (s\<lparr>st_opaque := (st_opaque s)
                   (b := (st_opaque s b)\<lparr>o_refcnt := o_refcnt (st_opaque s b) + 1\<rparr>)\<rparr>))
      | _ \<Rightarrow> Undef)"

definition pone_opaque_class :: "ptr \<Rightarrow> ptr pone" where
  "pone_opaque_class v s =
     (case val_as (st_heap s v) of
        AsOpaque b \<Rightarrow>
          if o_freed (st_opaque s b) then Undef
          else if o_klass (st_opaque s b) = Null then Abort else Ret (o_klass (st_opaque s b)) s
      | _ \<Rightarrow> Abort)"

definition pone_opaque_ptr :: "ptr \<Rightarrow> nat pone" where
  "pone_opaque_ptr v s =
     (case val_as (st_heap s v) of
        AsOpaque b \<Rightarrow> if o_freed (st_opaque s b) then Undef else Ret (o_ptr (st_opaque s b)) s
      | _ \<Rightarrow> Abort)"

end
