(* ===== verification/Pone_Containers.thy ===== *)
theory Pone_Containers
  imports Pone_Data
begin

text \<open>
  Correctness of arrays and maps. \<open>mutable_seq\<close> is the contract of a sequence that grows and
  shrinks at both ends; arrays meet it, and the laws of queues and stacks follow once. Maps are
  tables keyed by the bytes of their key strings, an instance of the hash table for every heap.
\<close>

section \<open>Sequences\<close>

text \<open>Run an operation \<open>n\<close> times and list its results.\<close>

fun collect_n :: "('s \<Rightarrow> ('a, 's) outcome) \<Rightarrow> nat \<Rightarrow> 's \<Rightarrow> ('a list, 's) outcome" where
  "collect_n f 0 s = Ret [] s"
| "collect_n f (Suc n) s = andthen (f s) (\<lambda>v s. andthen (collect_n f n s) (\<lambda>vs. Ret (v # vs)))"

locale mutable_seq =
  fixes ok :: "'s \<Rightarrow> bool"
    and valid :: "'a \<Rightarrow> bool"
    and items :: "'s \<Rightarrow> 'a list"
    and push :: "'a \<Rightarrow> 's \<Rightarrow> (unit, 's) outcome"
    and unshift :: "'a \<Rightarrow> 's \<Rightarrow> (unit, 's) outcome"
    and pop :: "'s \<Rightarrow> ('a, 's) outcome"
    and shift :: "'s \<Rightarrow> ('a, 's) outcome"
  assumes push_law: "ok s \<Longrightarrow> valid v \<Longrightarrow> \<exists>s'. push v s = Ret () s' \<and> ok s' \<and> items s' = items s @ [v]"
    and unshift_law: "ok s \<Longrightarrow> valid v \<Longrightarrow> \<exists>s'. unshift v s = Ret () s' \<and> ok s' \<and> items s' = v # items s"
    and pop_law: "ok s \<Longrightarrow> items s \<noteq> [] \<Longrightarrow>
      \<exists>s'. pop s = Ret (last (items s)) s' \<and> ok s' \<and> items s' = butlast (items s)"
    and shift_law: "ok s \<Longrightarrow> items s \<noteq> [] \<Longrightarrow>
      \<exists>s'. shift s = Ret (hd (items s)) s' \<and> ok s' \<and> items s' = tl (items s)"
begin

fun push_list :: "'a list \<Rightarrow> 's \<Rightarrow> (unit, 's) outcome" where
  "push_list [] s = Ret () s"
| "push_list (v # vs) s = andthen (push v s) (\<lambda>_. push_list vs)"

lemma push_list_spec:
  assumes "ok s" "\<forall>v \<in> set vs. valid v"
  shows "\<exists>s'. push_list vs s = Ret () s' \<and> ok s' \<and> items s' = items s @ vs"
  using assms
proof (induction vs arbitrary: s)
  case (Cons v vs)
  obtain s1 where s1: "push v s = Ret () s1" "ok s1" "items s1 = items s @ [v]"
    using push_law [of s v] Cons.prems by auto
  then show ?case using Cons.IH [of s1] Cons.prems by auto
qed simp

lemma shift_n_spec:
  assumes "ok s" "n \<le> length (items s)"
  shows "\<exists>s'. collect_n shift n s = Ret (take n (items s)) s' \<and> ok s' \<and> items s' = drop n (items s)"
  using assms
proof (induction n arbitrary: s)
  case (Suc n)
  then have ne: "items s \<noteq> []" by auto
  obtain s1 where s1: "shift s = Ret (hd (items s)) s1" "ok s1" "items s1 = tl (items s)"
    using shift_law [OF Suc.prems(1) ne] by blast
  obtain s2 where "collect_n shift n s1 = Ret (take n (items s1)) s2" "ok s2" "items s2 = drop n (items s1)"
    using Suc.IH [of s1] s1 Suc.prems(2) by fastforce
  then show ?case using s1 ne by (cases "items s") auto
qed simp

lemma pop_n_spec:
  assumes "ok s" "n \<le> length (items s)"
  shows "\<exists>s'. collect_n pop n s = Ret (take n (rev (items s))) s' \<and> ok s' \<and>
    items s' = take (length (items s) - n) (items s)"
  using assms
proof (induction n arbitrary: s)
  case (Suc n)
  then have ne: "items s \<noteq> []" by auto
  then obtain xs x where xs: "items s = xs @ [x]" by (metis append_butlast_last_id)
  obtain s1 where s1: "pop s = Ret (last (items s)) s1" "ok s1" "items s1 = butlast (items s)"
    using pop_law [OF Suc.prems(1) ne] by blast
  obtain s2 where "collect_n pop n s1 = Ret (take n (rev (items s1))) s2" "ok s2"
    "items s2 = take (length (items s1) - n) (items s1)"
    using Suc.IH [of s1] s1 Suc.prems(2) xs by auto
  then show ?case using s1 xs Suc.prems(2) by auto
qed simp

text \<open>First in, first out through \<open>push\<close> and \<open>shift\<close>; last in, first out through \<open>push\<close> and \<open>pop\<close>.\<close>

lemma push_then_shift:
  assumes "ok s" "items s = []" "\<forall>v \<in> set vs. valid v"
  shows "\<exists>s'. andthen (push_list vs s) (\<lambda>_. collect_n shift (length vs)) = Ret vs s' \<and> ok s' \<and> items s' = []"
proof -
  obtain s1 where s1: "push_list vs s = Ret () s1" "ok s1" "items s1 = vs"
    using push_list_spec [OF assms(1,3)] assms(2) by auto
  then show ?thesis using shift_n_spec [of s1 "length vs"] by simp
qed

lemma push_then_pop:
  assumes "ok s" "\<forall>v \<in> set vs. valid v"
  shows "\<exists>s'. andthen (push_list vs s) (\<lambda>_. collect_n pop (length vs)) = Ret (rev vs) s' \<and> ok s' \<and>
    items s' = items s"
proof -
  obtain s1 where s1: "push_list vs s = Ret () s1" "ok s1" "items s1 = items s @ vs"
    using push_list_spec [OF assms] by auto
  then show ?thesis using pop_n_spec [of s1 "length vs"] by simp
qed

end

section \<open>Arrays\<close>

definition ary_items :: "ptr \<Rightarrow> pone_state \<Rightarrow> ptr list" where
  "ary_items p s = (case val_as (st_heap s p) of AsAry a mx len \<Rightarrow> take len a | _ \<Rightarrow> [])"

definition ary_ok :: "ptr \<Rightarrow> pone_state \<Rightarrow> bool" where
  "ary_ok p s \<longleftrightarrow>
     (\<exists>a mx len. val_as (st_heap s p) = AsAry a mx len \<and> length a = mx \<and> len \<le> mx \<and>
        Null \<notin> set (take len a))"

lemma ary_okE:
  assumes "ary_ok p s"
  obtains a mx len where "val_as (st_heap s p) = AsAry a mx len" "length a = mx" "len \<le> mx"
    "Null \<notin> set (take len a)" "ary_items p s = take len a"
  using assms by (auto simp: ary_ok_def ary_items_def)

lemma length_realloc [simp]: "length (realloc_slots n a) = n"
  by (simp add: realloc_slots_def)

lemma realloc_prefix: "len \<le> n \<Longrightarrow> len \<le> length a \<Longrightarrow> take len (realloc_slots n a) = take len a"
  by (simp add: realloc_slots_def min_def)

lemma ary_push_spec:
  assumes "ary_ok p s" "v \<noteq> Null"
  shows "\<exists>s'. pone_ary_push p v s = Ret () s' \<and> ary_ok p s' \<and> ary_items p s' = ary_items p s @ [v] \<and>
    (\<forall>q. q \<noteq> p \<longrightarrow> st_heap s' q = st_heap s q) \<and> st_world s' = st_world s"
  using assms(1)
proof (rule ary_okE)
  fix a mx len
  assume a: "val_as (st_heap s p) = AsAry a mx len" "length a = mx" "len \<le> mx"
    "Null \<notin> set (take len a)" "ary_items p s = take len a"
  define mx' where "mx' = (if mx = len then if mx > 0 then mx * 2 else 1 else mx)"
  define a' where "a' = (if mx = len then realloc_slots mx' a else a)"
  have len: "len < length a'" "length a' = mx'" using a(2,3) by (auto simp: a'_def mx'_def)
  have pre: "take len a' = take len a" using a len by (simp add: a'_def realloc_prefix)
  let ?s = "set_as p (AsAry (a'[len := v]) mx' (Suc len)) s"
  have tk: "take (Suc len) (a'[len := v]) = take len a @ [v]"
    using len(1) pre by (simp add: take_Suc_conv_app_nth)
  have push: "pone_ary_push p v s = Ret () ?s"
    using a(1) len(1) unfolding a'_def mx'_def by (simp add: pone_ary_push_def Let_def)
  have "ary_ok p ?s" using len tk a(4) assms(2) by (simp add: ary_ok_def)
  moreover have "ary_items p ?s = ary_items p s @ [v]" using tk a(5) by (simp add: ary_items_def)
  ultimately show ?thesis using push by auto
qed

lemma ary_unshift_spec:
  assumes "ary_ok p s" "v \<noteq> Null"
  shows "\<exists>s'. pone_ary_unshift p v s = Ret () s' \<and> ary_ok p s' \<and> ary_items p s' = v # ary_items p s"
  using assms(1)
proof (rule ary_okE)
  fix a mx len
  assume a: "val_as (st_heap s p) = AsAry a mx len" "length a = mx" "len \<le> mx"
    "Null \<notin> set (take len a)" "ary_items p s = take len a"
  define mx' where "mx' = (if mx = len then if mx \<noteq> 0 then push_bit 1 mx else 1 else mx)"
  define a' where "a' = (if mx = len then realloc_slots mx' a else a)"
  have len: "len < length a'" "length a' = mx'"
    using a(2,3) by (auto simp: a'_def mx'_def push_bit_eq_mult)
  have pre: "take len a' = take len a" using a len by (simp add: a'_def realloc_prefix)
  let ?a = "v # take len a' @ drop (Suc len) a'"
  have push: "pone_ary_unshift p v s = Ret () (set_as p (AsAry ?a mx' (Suc len)) s)"
    using a(1) len(1) unfolding a'_def mx'_def by (simp add: pone_ary_unshift_def Let_def)
  have tk: "take (Suc len) ?a = v # take len a" using len(1) pre a(2,3) by simp
  have la: "length ?a = mx'" using len by simp
  have "Null \<notin> set (take (Suc len) ?a)" unfolding tk using a(4) assms(2) by simp
  then have "ary_ok p (set_as p (AsAry ?a mx' (Suc len)) s)"
    unfolding ary_ok_def using la len
    by (intro exI [of _ ?a] exI [of _ mx'] exI [of _ "Suc len"]) simp
  moreover have "ary_items p (set_as p (AsAry ?a mx' (Suc len)) s) = v # ary_items p s"
    using tk a(5) by (simp add: ary_items_def)
  ultimately show ?thesis using push by blast
qed

lemma ary_pop_spec:
  assumes "ary_ok p s" "ary_items p s \<noteq> []"
  shows "\<exists>s'. ary_take_last w p s = Ret (last (ary_items p s)) s' \<and> ary_ok p s' \<and>
    ary_items p s' = butlast (ary_items p s) \<and> (\<forall>q. q \<noteq> p \<longrightarrow> st_heap s' q = st_heap s q)"
  using assms(1)
proof (rule ary_okE)
  fix a mx len
  assume a: "val_as (st_heap s p) = AsAry a mx len" "length a = mx" "len \<le> mx"
    "Null \<notin> set (take len a)" "ary_items p s = take len a"
  have len: "0 < len" "len \<le> length a" using assms(2) a by auto
  then obtain n where n: "len = Suc n" by (cases len) auto
  have tk: "take len a = take n a @ [a ! n]" using len n by (simp add: take_Suc_conv_app_nth)
  have nn: "a ! n \<noteq> Null" using a(4) tk by auto
  let ?s = "set_as p (AsAry (a[n := Null]) mx n) s"
  obtain s' where s': "pone_save_tmp w (a ! n) ?s = Ret (a ! n) s'" "st_heap s' = st_heap ?s"
    using nn by (simp add: pone_save_tmp_def)
  have run: "ary_take_last w p s = Ret (a ! n) s'"
    using a(1) len n s'(1) by (simp add: ary_take_last_def)
  have "ary_ok p s'" using a n tk s'(2) by (simp add: ary_ok_def)
  moreover have "ary_items p s' = take n a" using s'(2) by (simp add: ary_items_def)
  ultimately show ?thesis using run s'(2) tk a(5) by (intro exI [of _ s']) (simp add: butlast_append)
qed

lemma ary_shift_spec:
  assumes "ary_ok p s" "ary_items p s \<noteq> []"
  shows "\<exists>s'. ary_take_first w p s = Ret (hd (ary_items p s)) s' \<and> ary_ok p s' \<and>
    ary_items p s' = tl (ary_items p s)"
  using assms(1)
proof (rule ary_okE)
  fix a mx len
  assume a: "val_as (st_heap s p) = AsAry a mx len" "length a = mx" "len \<le> mx"
    "Null \<notin> set (take len a)" "ary_items p s = take len a"
  have len: "0 < len" "len \<le> length a" using assms(2) a by auto
  then obtain n x xs where n: "len = Suc n" "a = x # xs" by (cases len; cases a) auto
  let ?a = "take n xs @ drop n a"
  have x: "x \<noteq> Null" using a(4) n by auto
  let ?s = "set_as p (AsAry ?a mx n) s"
  obtain s' where s': "pone_save_tmp w x ?s = Ret x s'" "st_heap s' = st_heap ?s"
    using x by (simp add: pone_save_tmp_def)
  have run: "ary_take_first w p s = Ret x s'"
    using a(1) len n s'(1) by (simp add: ary_take_first_def)
  have nx: "n \<le> length xs" using len n by simp
  have tk: "take n ?a = take n xs" using nx by simp
  have "length ?a = mx" using nx n a(2) by simp
  then have "ary_ok p s'" using a n tk s'(2) by (simp add: ary_ok_def)
  moreover have "ary_items p s' = take n xs" using s'(2) tk by (simp add: ary_items_def)
  ultimately show ?thesis using run a(5) n by (intro exI [of _ s']) simp
qed

interpretation ary: mutable_seq "ary_ok p" "\<lambda>v. v \<noteq> Null" "ary_items p" "pone_ary_push p"
  "pone_ary_unshift p" "ary_take_last w p" "ary_take_first w p" for p w
proof
  fix s v assume ok: "ary_ok p s"
  show "\<exists>s'. pone_ary_push p v s = Ret () s' \<and> ary_ok p s' \<and> ary_items p s' = ary_items p s @ [v]"
    if "v \<noteq> Null" using ary_push_spec [OF ok that] by blast
  show "\<exists>s'. pone_ary_unshift p v s = Ret () s' \<and> ary_ok p s' \<and> ary_items p s' = v # ary_items p s"
    if "v \<noteq> Null" using ary_unshift_spec [OF ok that] .
  show "\<exists>s'. ary_take_last w p s = Ret (last (ary_items p s)) s' \<and> ary_ok p s' \<and>
      ary_items p s' = butlast (ary_items p s)" if "ary_items p s \<noteq> []"
    using ary_pop_spec [OF ok that] by blast
  show "\<exists>s'. ary_take_first w p s = Ret (hd (ary_items p s)) s' \<and> ary_ok p s' \<and>
      ary_items p s' = tl (ary_items p s)" if "ary_items p s \<noteq> []"
    using ary_shift_spec [OF ok that] .
qed

lemma ary_at_spec:
  assumes "ary_ok p s" "0 \<le> i"
  shows "pone_ary_at_pos p i s =
    Ret (if nat i < length (ary_items p s) then ary_items p s ! nat i else pone_nil) s"
  using assms(1)
proof (rule ary_okE)
  fix a mx len
  assume "val_as (st_heap s p) = AsAry a mx len" "length a = mx" "len \<le> mx" "ary_items p s = take len a"
  then show ?thesis using assms(2) by (auto simp: pone_ary_at_pos_def)
qed

lemma ary_assign_spec:
  assumes "ary_ok p s" "0 \<le> i" "v \<noteq> Null"
  shows "\<exists>s'. pone_ary_assign p i v s = Ret () s' \<and> ary_ok p s' \<and>
    ary_items p s' = (if nat i < length (ary_items p s) then (ary_items p s)[nat i := v]
      else ary_items p s @ replicate (nat i - length (ary_items p s)) pone_nil @ [v])"
  using assms(1)
proof (rule ary_okE)
  fix a mx len
  assume a: "val_as (st_heap s p) = AsAry a mx len" "length a = mx" "len \<le> mx"
    "Null \<notin> set (take len a)" "ary_items p s = take len a"
  obtain n where n: "i = int n" using assms(2) nonneg_int_cases by blast
  show ?thesis
  proof (cases "n < len")
    case True
    let ?s = "set_as p (AsAry (a[n := v]) mx len) s"
    have "pone_ary_assign p i v s = Ret () ?s"
      using a True n by (simp add: pone_ary_assign_def pone_ary_size_def pone_ary_store_def)
    moreover have "Null \<notin> set ((take len a)[n := v])"
      using a(4) assms(3) set_update_subset_insert [of "take len a" n v] by blast
    then have "ary_ok p ?s" using a by (simp add: ary_ok_def take_update_swap)
    moreover have "ary_items p ?s = (take len a)[n := v]" by (simp add: ary_items_def take_update_swap)
    ultimately show ?thesis using True n a(3,2,5) by auto
  next
    case False
    define a' where "a' = (if mx < Suc n then realloc_slots (Suc n) a else a)"
    define mx' where "mx' = (if mx < Suc n then Suc n else mx)"
    define b where "b = take len a' @ replicate (Suc n - len) pone_nil @ drop (Suc n) a'"
    have len: "Suc n \<le> length a'" "length a' = mx'" using a(2) by (auto simp: a'_def mx'_def)
    have pre: "take len a' = take len a" using a False by (simp add: a'_def realloc_prefix)
    have lb: "length b = mx'" using len False by (simp add: b_def)
    let ?s1 = "set_as p (AsAry b mx' (Suc n)) s"
    let ?s = "set_as p (AsAry (b[n := v]) mx' (Suc n)) ?s1"
    have "pone_ary_resize p (Suc n) s = Ret () ?s1"
      using a(1) False len(1) unfolding b_def a'_def mx'_def by (simp add: pone_ary_resize_def Let_def)
    then have run: "pone_ary_assign p i v s = Ret () ?s"
      using a(1) False n lb len by (simp add: pone_ary_assign_def pone_ary_size_def pone_ary_store_def nat_add_distrib)
    have lt: "length (take len a) = len" using a(2,3) by simp
    have rep: "replicate (Suc n - len) pone_nil = replicate (n - len) pone_nil @ [pone_nil]"
      using False by (simp add: Suc_diff_le replicate_append_same)
    have "take (Suc n) b = (take len a @ replicate (n - len) pone_nil) @ [pone_nil]"
      unfolding b_def pre rep using False lt by simp
    moreover have "length (take len a @ replicate (n - len) pone_nil) = n" using False lt by simp
    ultimately have tk: "take (Suc n) (b[n := v]) = take len a @ replicate (n - len) pone_nil @ [v]"
      by (metis take_update_swap list_update_length append.assoc)
    have "ary_ok p ?s" using lb len tk a(4) assms(3) by (auto simp: ary_ok_def pone_nil_def)
    moreover have "ary_items p ?s = take len a @ replicate (n - len) pone_nil @ [v]"
      using tk by (simp add: ary_items_def)
    ultimately show ?thesis using run False n a(5,2,3) by auto
  qed
qed

lemma push_all_list: "push_all p vs s = mutable_seq.push_list (pone_ary_push p) vs s"
  by (induction vs arbitrary: s) (auto simp: ary.push_list.simps intro!: arg_cong [where f = "andthen _"] ext)

section \<open>Maps\<close>

text \<open>For every state the key strings are keys of the hash table, viewed as their bytes.\<close>

interpretation val_table: khash_keys "pone_val_hash_func d s" "pone_val_hash_equal d s" "str_content d s" for d s
  by unfold_locales (simp_all add: pone_val_hash_equal_def pone_val_hash_func_def)

text \<open>Strings do not change when a value that is not a string is replaced by another such value.\<close>

definition same_strings :: "pone_state \<Rightarrow> pone_state \<Rightarrow> bool" where
  "same_strings s s' \<longleftrightarrow>
     (\<forall>p. st_heap s' p = st_heap s p \<or>
        pone_type (st_heap s p) \<noteq> PONE_STRING \<and> pone_type (st_heap s' p) \<noteq> PONE_STRING)"

lemma not_string:
  "pone_type v \<noteq> PONE_STRING \<Longrightarrow> val_as v \<noteq> AsStr d n"
  by (auto simp: pone_type_def)

lemma same_strings_set:
  "pone_type (st_heap s p) \<noteq> PONE_STRING \<Longrightarrow> as_type a \<noteq> PONE_STRING \<Longrightarrow> same_strings s (set_as p a s)"
  by (simp add: same_strings_def pone_type_def)

fun map_state :: "('s \<Rightarrow> 't) \<Rightarrow> ('a, 's) outcome \<Rightarrow> ('a, 't) outcome" where
  "map_state f (Ret x s) = Ret x (f s)"
| "map_state f (Jump n s) = Jump n (f s)"
| "map_state f Abort = Abort"
| "map_state f (Exit c) = Exit c"
| "map_state f Undef = Undef"

lemma str_ptr_same:
  assumes "same_strings s s'"
  shows "pone_str_ptr d p s' = map_state (\<lambda>_. s') (pone_str_ptr d p s)"
    and "pone_str_len d p s' = map_state (\<lambda>_. s') (pone_str_len d p s)"
proof -
  have c: "st_heap s' p = st_heap s p \<or> (\<forall>x n. val_as (st_heap s p) \<noteq> AsStr x n) \<and>
      (\<forall>x n. val_as (st_heap s' p) \<noteq> AsStr x n)" for p
    using assms not_string unfolding same_strings_def by metis
  show "pone_str_ptr d p s' = map_state (\<lambda>_. s') (pone_str_ptr d p s)"
  proof (induction d arbitrary: p)
    case (Suc d)
    show ?case using c [of p]
      by (cases "val_as (st_heap s p)"; cases "val_as (st_heap s' p)")
        (auto split: str_data.splits simp: Suc)
  qed simp
  show "pone_str_len d p s' = map_state (\<lambda>_. s') (pone_str_len d p s)"
  proof (induction d arbitrary: p)
    case (Suc d)
    show ?case using c [of p]
      by (cases "val_as (st_heap s p)"; cases "val_as (st_heap s' p)")
        (auto split: str_data.splits simp: Suc)
  qed simp
qed

text \<open>Reading a string changes nothing.\<close>

lemma str_ptr_state: "pone_str_ptr d p s = Ret b s' \<Longrightarrow> s' = s"
  by (induction d arbitrary: p) (auto split: pone_as.splits if_splits str_data.splits)

lemma str_len_state: "pone_str_len d p s = Ret n s' \<Longrightarrow> s' = s"
  by (induction d arbitrary: p) (auto split: pone_as.splits if_splits str_data.splits)

lemma str_bytes_state: "pone_str_bytes d p s = Ret b s' \<Longrightarrow> s' = s"
  by (auto simp: pone_str_bytes_def andthen_Ret_iff dest!: str_ptr_state str_len_state split: if_splits)

lemma map_key_state: "map_key d p s = Ret () s' \<Longrightarrow> s' = s"
  by (auto simp: map_key_def andthen_Ret_iff dest!: str_ptr_state str_len_state split: if_splits)

lemma str_content_same: "same_strings s s' \<Longrightarrow> str_content d s' = str_content d s"
proof
  fix p assume same: "same_strings s s'"
  note eqs = str_content_def pone_str_bytes_def str_ptr_same [OF same]
  show "str_content d s' p = str_content d s p"
  proof (cases "pone_str_ptr d p s")
    case (Ret b t)
    then have p: "pone_str_ptr d p s = Ret b s" using str_ptr_state by blast
    show ?thesis
    proof (cases "pone_str_len d p s")
      case (Ret n t)
      then have "pone_str_len d p s = Ret n s" using str_len_state by blast
      then show ?thesis using p by (simp add: eqs)
    qed (simp_all add: eqs p)
  qed (simp_all add: eqs)
qed

lemma map_key_same: "same_strings s s' \<Longrightarrow> map_key d p s = Ret () s \<Longrightarrow> map_key d p s' = Ret () s'"
proof -
  assume same: "same_strings s s'" and ok: "map_key d p s = Ret () s"
  have t: "type_at s p = PONE_STRING" using ok by (auto simp: map_key_def split: if_splits)
  then have "type_at s' p = PONE_STRING" using same unfolding same_strings_def type_at_def by metis
  then show ?thesis using ok t
    by (auto simp: map_key_def andthen_Ret_iff str_ptr_same [OF same] dest!: str_ptr_state split: if_splits)
qed

definition map_ok :: "nat \<Rightarrow> pone_state \<Rightarrow> ptr \<Rightarrow> bool" where
  "map_ok d s p \<longleftrightarrow>
     (\<exists>h len. val_as (st_heap s p) = AsMap h len \<and>
        kh_inv (pone_val_hash_func d s) (str_content d s) h \<and> kh_size h < 2 ^ 30)"

definition map_find :: "nat \<Rightarrow> pone_state \<Rightarrow> ptr \<Rightarrow> bytes \<Rightarrow> ptr" where
  "map_find d s p b =
     (case val_as (st_heap s p) of
        AsMap h len \<Rightarrow> (case kh_lookup (str_content d s) h b of Some v \<Rightarrow> v | None \<Rightarrow> pone_nil)
      | _ \<Rightarrow> pone_nil)"

lemma map_at_key_spec:
  assumes "map_ok d s p" "map_key d k s = Ret () s"
  shows "pone_map_at_key d p k s = Ret (map_find d s p (str_content d s k)) s"
proof -
  obtain h len where h: "val_as (st_heap s p) = AsMap h len"
    "kh_inv (pone_val_hash_func d s) (str_content d s) h"
    using assms(1) by (auto simp: map_ok_def)
  show ?thesis using h(1) assms(2) val_table.table.find_look [OF h(2), of k]
    by (simp add: pone_map_at_key_def map_find_def)
qed

lemma map_put_spec:
  assumes ok: "map_ok d s p" and k: "map_key d k s = Ret () s"
  shows "\<exists>h len h' r. val_as (st_heap s p) = AsMap h len \<and>
    pone_map_put d p k v s = Ret () (set_as p (AsMap h' (Suc len)) s) \<and>
    kh_store (pone_val_hash_func d s) (pone_val_hash_equal d s) h k v = Some (h', r) \<and>
    kh_inv (pone_val_hash_func d s) (str_content d s) h' \<and>
    kh_lookup (str_content d s) h' = (kh_lookup (str_content d s) h)(str_content d s k \<mapsto> v)"
proof -
  obtain h len where h: "val_as (st_heap s p) = AsMap h len"
    "kh_inv (pone_val_hash_func d s) (str_content d s) h" "kh_size h < 2 ^ 30"
    using ok by (auto simp: map_ok_def)
  obtain h' r where "kh_store (pone_val_hash_func d s) (pone_val_hash_equal d s) h k v = Some (h', r)"
    "kh_inv (pone_val_hash_func d s) (str_content d s) h'"
    "kh_lookup (str_content d s) h' = (kh_lookup (str_content d s) h)(str_content d s k \<mapsto> v)"
    using val_table.table.store_look [OF h(2,3)] by blast
  then show ?thesis using h(1) k by (simp add: pone_map_put_def)
qed

section \<open>Properties\<close>


definition ary_demo :: pone_state where
  "ary_demo = blank_state\<lparr>st_heap := initial_heap
     (Cell 0 0 0 := \<lparr>val_flags = 0, val_as = AsAry [TrueP, FalseP] 2 2\<rparr>)\<rparr>"


text \<open>
  Pushing values on an empty array and shifting them off returns them in the order
  in which they were pushed; popping them off a non-empty array returns them in reverse and
  restores it.
\<close>

theorem pone_ary_queue_stack:
  assumes "ary_ok p s" "\<forall>v \<in> set vs. v \<noteq> Null"
  shows "(ary_items p s = [] \<longrightarrow>
      (\<exists>s'. andthen (push_all p vs s) (\<lambda>_. collect_n (ary_take_first w p) (length vs)) = Ret vs s' \<and>
        ary_items p s' = [])) \<and>
    (\<exists>s'. andthen (push_all p vs s) (\<lambda>_. collect_n (ary_take_last w p) (length vs)) = Ret (rev vs) s' \<and>
      ary_items p s' = ary_items p s)"
  unfolding push_all_list
  using ary.push_then_shift [OF assms(1) _ assms(2), where w = w] ary.push_then_pop [OF assms, where w = w]
  by blast

theorem pone_ary_queue_stack_witness:
  "\<exists>s'. andthen (push_all (Cell 0 0 0) [NilP, TrueP] ary_demo)
     (\<lambda>_. collect_n (ary_take_last 0 (Cell 0 0 0)) (length [NilP, TrueP])) = Ret (rev [NilP, TrueP]) s'"
  using pone_ary_queue_stack [of "Cell 0 0 0" ary_demo "[NilP, TrueP]" 0]
  by (auto simp: ary_demo_def ary_ok_def)

text \<open>
  Assigning to an index that is not negative overwrites the element or extends the
  array, filling the gap with nil; reading returns the element, or nil beyond the end.
\<close>

theorem pone_ary_assign_at:
  assumes "ary_ok p s" "0 \<le> i" "0 \<le> j" "v \<noteq> Null"
  shows "\<exists>s'. pone_ary_assign p i v s = Ret () s' \<and> ary_ok p s' \<and>
    length (ary_items p s') = max (length (ary_items p s)) (Suc (nat i)) \<and>
    pone_ary_at_pos p j s' =
      Ret (if j = i then v else if nat j < length (ary_items p s) then ary_items p s ! nat j else pone_nil) s'"
proof -
  let ?n = "nat i" and ?l = "ary_items p s"
  obtain s' where s': "pone_ary_assign p i v s = Ret () s'" "ary_ok p s'"
    "ary_items p s' = (if ?n < length ?l then ?l[?n := v] else ?l @ replicate (?n - length ?l) pone_nil @ [v])"
    using ary_assign_spec [OF assms(1,2,4)] by blast
  have "nat j = nat i \<longleftrightarrow> j = i" using assms(2,3) by auto
  then show ?thesis using s' ary_at_spec [OF s'(2) assms(3)]
    by (intro exI [of _ s']) (auto simp: nth_append nth_list_update max_def)
qed

theorem pone_ary_assign_at_witness:
  "\<exists>s'. pone_ary_assign (Cell 0 0 0) 4 TrueP ary_demo = Ret () s' \<and>
     pone_ary_at_pos (Cell 0 0 0) 3 s' = Ret pone_nil s'"
  using pone_ary_assign_at [of "Cell 0 0 0" ary_demo 4 3 TrueP]
  by (auto simp: ary_demo_def ary_ok_def ary_items_def)

text \<open>
  A negative index is not caught: reading it is an access outside the array.
\<close>

theorem pone_ary_negative_index:
  assumes "ary_ok p s" "i < 0"
  shows "pone_ary_at_pos p i s = Undef \<and> pone_ary_assign p i v s = Undef"
  using assms(1)
  by (rule ary_okE)
    (use assms(2) in \<open>auto simp: pone_ary_at_pos_def pone_ary_assign_def pone_ary_size_def pone_ary_store_def\<close>)

theorem pone_ary_negative_index_witness:
  "pone_ary_at_pos (Cell 0 0 0) (- 1) ary_demo = Undef"
  using pone_ary_negative_index [of "Cell 0 0 0" ary_demo "- 1"]
  by (auto simp: ary_demo_def ary_ok_def)

text \<open>
  C22: assigning a key of a map and looking up any key: strings with the same bytes find
  the new value, all others what they found before; the size the map reports grows by one even
  when the key was there.
\<close>

theorem pone_map_put_at_key:
  assumes "map_ok d s p" "map_key d k s = Ret () s" "map_key d k' s = Ret () s"
  shows "\<exists>s' n. pone_map_put d p k v s = Ret () s' \<and>
    pone_map_at_key d p k' s' =
      Ret (if str_content d s k' = str_content d s k then v else map_find d s p (str_content d s k')) s' \<and>
    pone_map_size p s = Ret n s \<and> pone_map_size p s' = Ret (Suc n) s'"
proof -
  obtain h len h' r where h: "val_as (st_heap s p) = AsMap h len"
    "pone_map_put d p k v s = Ret () (set_as p (AsMap h' (Suc len)) s)"
    "kh_inv (pone_val_hash_func d s) (str_content d s) h'"
    "kh_lookup (str_content d s) h' = (kh_lookup (str_content d s) h)(str_content d s k \<mapsto> v)"
    using map_put_spec [OF assms(1,2)] by blast
  let ?s = "set_as p (AsMap h' (Suc len)) s"
  have same: "same_strings s ?s" using h(1) by (intro same_strings_set) (simp_all add: pone_type_def)
  have inv: "kh_inv (pone_val_hash_func d ?s) (str_content d ?s) h'"
    using h(3) by (simp add: str_content_same [OF same] pone_val_hash_func_def [abs_def])
  have "pone_map_at_key d p k' ?s =
      Ret (case kh_lookup (str_content d s) h' (str_content d s k') of Some v \<Rightarrow> v | None \<Rightarrow> pone_nil) ?s"
    using map_key_same [OF same assms(3)] val_table.table.find_look [OF inv, of k']
    by (simp add: pone_map_at_key_def str_content_same [OF same])
  then show ?thesis using h by (intro exI [of _ ?s] exI [of _ len]) (auto simp: map_find_def pone_map_size_def)
qed

definition map_demo :: pone_state where
  "map_demo = blank_state\<lparr>st_heap := initial_heap
     (Cell 0 0 0 := \<lparr>val_flags = 0, val_as = AsMap kh_init 0\<rparr>,
      Cell 0 0 1 := \<lparr>val_flags = 0, val_as = AsStr (StrBuf [97, 0]) 1\<rparr>)\<rparr>"

theorem pone_map_put_at_key_witness:
  "\<exists>s'. pone_map_put 1 (Cell 0 0 0) (Cell 0 0 1) TrueP map_demo = Ret () s' \<and>
     pone_map_at_key 1 (Cell 0 0 0) (Cell 0 0 1) s' = Ret TrueP s'"
proof -
  have "map_ok 1 map_demo (Cell 0 0 0)"
    using kh_init_inv by (auto simp: map_ok_def map_demo_def) (simp add: kh_init_def)
  moreover have "map_key 1 (Cell 0 0 1) map_demo = Ret () map_demo"
    by (simp add: map_key_def map_demo_def type_at_def pone_type_def has_flag_def)
  ultimately show ?thesis
    using pone_map_put_at_key [of 1 map_demo "Cell 0 0 0" "Cell 0 0 1" "Cell 0 0 1" TrueP] by auto
qed

end
