(* ===== verification/Pone_World.thy ===== *)
theory Pone_World
  imports Pone_Containers
begin

text \<open>
  Worlds (\<^verbatim>\<open>src/world.c\<close>), exceptions (\<^verbatim>\<open>src/exc.c\<close>) and the string operations that may throw
  (\<^verbatim>\<open>src/str.c\<close>). \<open>longjmp\<close> to handler \<open>i\<close> is the outcome \<open>Jump i\<close>; the \<open>setjmp\<close> that armed the handler
  is the place where that outcome is caught.
\<close>

section \<open>Exception handlers\<close>

definition PONE_ERR_HANDLERS_INIT :: nat where "PONE_ERR_HANDLERS_INIT = 10"

definition grow_handlers :: "pone_world \<Rightarrow> pone_world" where
  "grow_handlers W =
     (if w_err_handler_idx W = int (w_err_handler_max W)
      then W\<lparr>w_err_handler_max := w_err_handler_max W * 2,
             w_err_handler_lexs := w_err_handler_lexs W @ replicate (w_err_handler_max W) Null,
             w_err_handler_callers := w_err_handler_callers W @ replicate (w_err_handler_max W) 0\<rparr>
      else W)"

text \<open>The result is the index of the \<open>jmp_buf\<close> to arm. Entry \<open>idx + 1\<close> may lie outside the arrays.\<close>

definition pone_exc_handler_push :: "nat \<Rightarrow> nat pone" where
  "pone_exc_handler_push w s =
     (let W = grow_handlers (st_world s w); i = nat (w_err_handler_idx W + 1) in
      if w_err_handler_idx W + 1 < 0 \<or> length (w_err_handler_lexs W) \<le> i \<or>
         length (w_err_handler_callers W) \<le> i then Undef
      else andthen (pone_ary_size (w_caller_stack W) s) (\<lambda>n s.
             Ret i (upd_world w (\<lambda>_. W\<lparr>w_err_handler_lexs := (w_err_handler_lexs W)[i := w_lex W],
                                       w_err_handler_callers := (w_err_handler_callers W)[i := n],
                                       w_err_handler_idx := w_err_handler_idx W + 1\<rparr>) s)))"

definition pone_exc_handler_pop :: "nat \<Rightarrow> unit pone" where
  "pone_exc_handler_pop w s =
     (if w_err_handler_idx (st_world s w) \<ge> 0
      then Ret () (upd_world w (\<lambda>W. W\<lparr>w_err_handler_idx := w_err_handler_idx W - 1\<rparr>) s)
      else Abort)"

primrec rewind_callers :: "nat \<Rightarrow> nat \<Rightarrow> ptr \<Rightarrow> unit pone" where
  "rewind_callers w 0 = (\<lambda>p s. Ret () s)"
| "rewind_callers w (Suc n) = (\<lambda>p s. andthen (ary_take_last w p s) (\<lambda>_. rewind_callers w n p))"

text \<open>The loop pops \<open>len - size\<close> entries of the caller stack, one at a time.\<close>

definition pone_throw :: "nat \<Rightarrow> ptr \<Rightarrow> 'a pone" where
  "pone_throw w val s =
     (let W = st_world s w; i = nat (w_err_handler_idx W) in
      if val = Null then Abort
      else if w_err_handler_idx W < 0 \<or> length (w_err_handler_lexs W) \<le> i \<or>
              length (w_err_handler_callers W) \<le> i then Undef
      else let s = upd_world w (\<lambda>W. W\<lparr>w_errvar := val, w_lex := w_err_handler_lexs W ! i\<rparr>) s in
           andthen (pone_ary_size (w_caller_stack W) s) (\<lambda>len s.
           andthen (rewind_callers w (len - w_err_handler_callers W ! i) (w_caller_stack W) s) (\<lambda>_ s.
           Jump i (upd_world w (\<lambda>W. W\<lparr>w_err_handler_idx := w_err_handler_idx W - 1\<rparr>) s))))"

definition pone_throw_str :: "nat \<Rightarrow> bytes \<Rightarrow> 'a pone" where
  "pone_throw_str w msg s =
     andthen (pone_str_new_vprintf w msg s) (\<lambda>v s.
     andthen (pone_obj_new w (u_class_x_adhoc (st_universe s)) s) (\<lambda>exc s.
     andthen (pone_obj_set_ivar exc (bs ''$!payload'') v s) (\<lambda>_.
     pone_throw w exc)))"

section \<open>Changing strings\<close>

definition mutable :: "nat \<Rightarrow> nat \<Rightarrow> ptr \<Rightarrow> unit pone" where
  "mutable depth w val s =
     (if has_flag PONE_FLAGS_STR_COPY (st_heap s val)
      then (case val_as (st_heap s val) of
              AsStr (StrVal src) len \<Rightarrow>
                andthen (pone_str_bytes depth src s) (\<lambda>b s.
                Ret () (set_val val
                  \<lparr>val_flags = val_flags (st_heap s val) XOR PONE_FLAGS_STR_COPY,
                   val_as = AsStr (StrBuf (pone_strdup b (length b))) (length b)\<rparr> s))
            | _ \<Rightarrow> Undef)
      else if has_flag PONE_FLAGS_STR_CONST (st_heap s val)
      then pone_throw_str w (bs ''You can't modify immutable string'') s
      else Ret () s)"

definition pone_str_append_c :: "nat \<Rightarrow> nat \<Rightarrow> ptr \<Rightarrow> bytes \<Rightarrow> unit pone" where
  "pone_str_append_c depth w val b s =
     andthen (mutable depth w val s) (\<lambda>_. pone_str_extend val b)"

definition pone_ary_pop :: "nat \<Rightarrow> ptr \<Rightarrow> ptr pone" where
  "pone_ary_pop w p s =
     (case val_as (st_heap s p) of
        AsAry a mx len \<Rightarrow>
          if len = 0 then pone_throw_str w (bs ''Cannot pop from an empty Array'') s
          else ary_take_last w p s
      | _ \<Rightarrow> Undef)"

definition pone_ary_shift :: "nat \<Rightarrow> ptr \<Rightarrow> ptr pone" where
  "pone_ary_shift w p s =
     (case val_as (st_heap s p) of
        AsAry a mx len \<Rightarrow>
          if len = 0 then pone_throw_str w (bs ''Cannot shift from an empty Array'') s
          else ary_take_first w p s
      | _ \<Rightarrow> Undef)"

definition pone_ary_last :: "nat \<Rightarrow> ptr \<Rightarrow> ptr pone" where
  "pone_ary_last w p s =
     (case val_as (st_heap s p) of
        AsAry a mx len \<Rightarrow>
          if len = 0 then pone_throw_str w (bs ''Cannot get last element from an empty Array'') s
          else if len \<le> length a then Ret (a ! (len - 1)) s else Undef
      | _ \<Rightarrow> Abort)"

section \<open>Worlds\<close>

definition pone_world_new :: "nat \<Rightarrow> unit pone" where
  "pone_world_new w s =
     andthen (pone_lex_new w Null (upd_world w (\<lambda>_. blank_world) s)) (\<lambda>lx s.
     if type_at s lx \<noteq> PONE_LEX then Abort
     else andthen (pone_ary_new w [] (upd_world w (\<lambda>W. W\<lparr>w_lex := lx,
              w_err_handler_lexs := replicate PONE_ERR_HANDLERS_INIT Null,
              w_err_handler_callers := replicate PONE_ERR_HANDLERS_INIT 0,
              w_err_handler_idx := 0, w_err_handler_max := PONE_ERR_HANDLERS_INIT,
              w_tmpstack := [], w_tmpstack_m := 0, w_savestack := [], w_savestack_m := 0\<rparr>) s)) (\<lambda>st s.
     Ret () (upd_world w (\<lambda>W. W\<lparr>w_caller_stack := st, w_random_key := (0, 0)\<rparr>) s)))"

definition pone_world_release :: "finalizers \<Rightarrow> nat \<Rightarrow> nat \<Rightarrow> unit pone" where
  "pone_world_release fin depth w s =
     (let s = upd_world w (\<lambda>W. W\<lparr>w_tmpstack := [], w_savestack := [], w_code := Null\<rparr>) s in
      if w_gc_requested (st_world s w) then pone_gc_run fin depth w s else Ret () s)"

text \<open>The arenas and stacks of a freed world are gone.\<close>

definition pone_world_free :: "finalizers \<Rightarrow> nat \<Rightarrow> unit pone" where
  "pone_world_free fin w s =
     (let cells = arena_cells w (st_world s w);
          s = upd_world w (\<lambda>W. W\<lparr>w_freelist := Null, w_tmpstack := [], w_tmpstack_m := 0,
                w_savestack := [], w_savestack_m := 0\<rparr>) s
      in andthen (for_cells (\<lambda>p s. if pone_alive (st_heap s p) then free_value fin w p s else Ret () s) cells s)
           (\<lambda>_ s. Ret () (upd_world w (\<lambda>W. W\<lparr>w_arenas := [], w_err_handler_lexs := []\<rparr>) s)))"

definition pone_world_set_errno :: "nat \<Rightarrow> int \<Rightarrow> pone_state \<Rightarrow> pone_state" where
  "pone_world_set_errno w e = upd_world w (w_errsv_update (\<lambda>_. e))"

definition pone_universe_set_global :: "bytes \<Rightarrow> ptr \<Rightarrow> unit pone" where
  "pone_universe_set_global key v s =
     andthen (from_option (str_kh_put (u_globals (st_universe s)) key v) s) (\<lambda>(g, ret) s.
       Ret () (s\<lparr>st_universe := (st_universe s)\<lparr>u_globals := g\<rparr>\<rparr>))"

definition pone_errvar :: "nat \<Rightarrow> pone_state \<Rightarrow> ptr" where
  "pone_errvar w s = w_errvar (st_world s w)"

section \<open>Unwinding\<close>

definition same_but_tmp :: "nat \<Rightarrow> pone_state \<Rightarrow> pone_state \<Rightarrow> bool" where
  "same_but_tmp w s s' \<longleftrightarrow>
     (\<exists>t m. st_world s' = (st_world s)(w := (st_world s w)\<lparr>w_tmpstack_m := m, w_tmpstack := t\<rparr>))"

lemma same_but_tmp_refl [simp]: "same_but_tmp w s s"
  unfolding same_but_tmp_def
  by (intro exI [of _ "w_tmpstack (st_world s w)"] exI [of _ "w_tmpstack_m (st_world s w)"]) simp

lemma same_but_tmp_trans: "same_but_tmp w s1 s2 \<Longrightarrow> same_but_tmp w s2 s3 \<Longrightarrow> same_but_tmp w s1 s3"
  by (clarsimp simp: same_but_tmp_def) blast

lemma same_but_tmpD:
  assumes "same_but_tmp w s s'"
  shows "w_lex (st_world s' w) = w_lex (st_world s w)"
    "w_errvar (st_world s' w) = w_errvar (st_world s w)"
    "w_savestack (st_world s' w) = w_savestack (st_world s w)"
    "w_err_handler_idx (st_world s' w) = w_err_handler_idx (st_world s w)"
  using assms by (auto simp: same_but_tmp_def)

lemma take_last_same: "ary_take_last w p s = Ret r s' \<Longrightarrow> same_but_tmp w s s'"
  by (auto simp: ary_take_last_def pone_save_tmp_def same_but_tmp_def split: pone_as.splits if_splits) blast

lemma rewind_spec:
  assumes "ary_ok p s" "n \<le> length (ary_items p s)"
  shows "\<exists>s'. rewind_callers w n p s = Ret () s' \<and> ary_ok p s' \<and>
    ary_items p s' = take (length (ary_items p s) - n) (ary_items p s) \<and> same_but_tmp w s s'"
  using assms
proof (induction n arbitrary: s)
  case (Suc n)
  then have ne: "ary_items p s \<noteq> []" by auto
  then obtain s1 where s1: "ary_take_last w p s = Ret (last (ary_items p s)) s1" "ary_ok p s1"
    "ary_items p s1 = butlast (ary_items p s)"
    using ary_pop_spec [OF Suc.prems(1)] by blast
  have len: "length (ary_items p s1) = length (ary_items p s) - 1" using s1(3) by simp
  have "n \<le> length (ary_items p s1)" using len Suc.prems(2) ne by simp
  then obtain s2 where "rewind_callers w n p s1 = Ret () s2" "ary_ok p s2"
    "ary_items p s2 = take (length (ary_items p s1) - n) (ary_items p s1)" "same_but_tmp w s1 s2"
    using Suc.IH [OF s1(2)] by blast
  moreover have "take (length (ary_items p s1) - n) (ary_items p s1) =
      take (length (ary_items p s) - Suc n) (ary_items p s)"
    using s1(3) len Suc.prems(2) by (simp add: butlast_conv_take min_def)
  ultimately show ?case using s1(1) same_but_tmp_trans [OF take_last_same [OF s1(1)]] by auto
qed simp

lemma ary_size_spec: "ary_ok p s \<Longrightarrow> pone_ary_size p s = Ret (length (ary_items p s)) s"
  by (erule ary_okE) (simp add: pone_ary_size_def min_def)

text \<open>What code between arming a handler and throwing must leave alone.\<close>

definition handler_kept :: "nat \<Rightarrow> nat \<Rightarrow> pone_state \<Rightarrow> pone_state \<Rightarrow> bool" where
  "handler_kept w i s1 s2 \<longleftrightarrow>
     (let W1 = st_world s1 w; W2 = st_world s2 w in
      w_err_handler_idx W2 = w_err_handler_idx W1 \<and> w_caller_stack W2 = w_caller_stack W1 \<and>
      i < length (w_err_handler_lexs W2) \<and> i < length (w_err_handler_callers W2) \<and>
      w_err_handler_lexs W2 ! i = w_err_handler_lexs W1 ! i \<and>
      w_err_handler_callers W2 ! i = w_err_handler_callers W1 ! i \<and>
      (\<exists>cs. ary_items (w_caller_stack W1) s2 = ary_items (w_caller_stack W1) s1 @ cs) \<and>
      ary_ok (w_caller_stack W1) s2)"

lemma grow_handlers_fields [simp]:
  "w_err_handler_idx (grow_handlers W) = w_err_handler_idx W"
  "w_caller_stack (grow_handlers W) = w_caller_stack W"
  "w_lex (grow_handlers W) = w_lex W"
  by (simp_all add: grow_handlers_def)

lemma handler_push_spec:
  assumes "ary_ok (w_caller_stack (st_world s w)) s" "pone_exc_handler_push w s = Ret i s1"
  shows "int i = w_err_handler_idx (st_world s w) + 1" "st_heap s1 = st_heap s"
    "w_err_handler_idx (st_world s1 w) = int i" "w_caller_stack (st_world s1 w) = w_caller_stack (st_world s w)"
    "w_err_handler_lexs (st_world s1 w) ! i = w_lex (st_world s w)"
    "w_err_handler_callers (st_world s1 w) ! i = length (ary_items (w_caller_stack (st_world s w)) s)"
    "w_lex (st_world s1 w) = w_lex (st_world s w)"
  using assms(2) unfolding pone_exc_handler_push_def Let_def
  by (auto simp: ary_size_spec [OF assms(1)] split: if_splits)

section \<open>Frames for strings\<close>

text \<open>A string reads the same in a state in which no string changed.\<close>

lemma str_frame:
  assumes "\<And>q. pone_type (st_heap s q) = PONE_STRING \<Longrightarrow> st_heap s' q = st_heap s q"
    "pone_str_bytes d p s = Ret b s"
  shows "pone_str_bytes d p s' = Ret b s'"
proof -
  have ptr: "pone_str_ptr d p s = Ret x s \<Longrightarrow> pone_str_ptr d p s' = Ret x s'" for x p
    using assms(1) by (induction d arbitrary: p)
      (auto simp: pone_type_def split: pone_as.splits if_splits str_data.splits)
  have len: "pone_str_len d p s = Ret x s \<Longrightarrow> pone_str_len d p s' = Ret x s'" for x p
    using assms(1) by (induction d arbitrary: p)
      (auto simp: pone_type_def split: pone_as.splits if_splits str_data.splits)
  obtain x n where "pone_str_ptr d p s = Ret x s" "pone_str_len d p s = Ret n s" "n \<le> length x" "b = take n x"
    using assms(2) str_ptr_state str_len_state
    by (auto simp: pone_str_bytes_def andthen_Ret_iff split: if_splits) metis
  then show ?thesis using ptr len by (simp add: pone_str_bytes_def)
qed

section \<open>Properties\<close>

text \<open>
  C6: an exception unwinds to the innermost armed handler with the scope, the depth of the
  caller stack and the handler count that were current when it was armed, and the exception in
  \<open>$@\<close>. The save stack is not rewound: the scopes that were open at the throw keep their entries.
\<close>

theorem pone_throw_unwinds:
  assumes "ary_ok (w_caller_stack (st_world s w)) s" "pone_exc_handler_push w s = Ret i s1"
    "handler_kept w i s1 s2" "val \<noteq> Null"
  shows "\<exists>s3. pone_throw w val s2 = Jump i s3 \<and> w_lex (st_world s3 w) = w_lex (st_world s w) \<and>
    ary_items (w_caller_stack (st_world s w)) s3 = ary_items (w_caller_stack (st_world s w)) s \<and>
    w_err_handler_idx (st_world s3 w) = w_err_handler_idx (st_world s w) \<and> pone_errvar w s3 = val \<and>
    w_savestack (st_world s3 w) = w_savestack (st_world s2 w)"
proof -
  let ?W = "st_world s2 w" and ?cs = "w_caller_stack (st_world s w)"
  note p = handler_push_spec [OF assms(1,2)]
  have items1: "ary_items ?cs s1 = ary_items ?cs s" using p(2) by (simp add: ary_items_def)
  obtain cs where k: "w_err_handler_idx ?W = int i" "w_caller_stack ?W = ?cs"
    "i < length (w_err_handler_lexs ?W)" "i < length (w_err_handler_callers ?W)"
    "w_err_handler_lexs ?W ! i = w_lex (st_world s w)"
    "w_err_handler_callers ?W ! i = length (ary_items ?cs s)"
    "ary_items ?cs s2 = ary_items ?cs s @ cs" "ary_ok ?cs s2"
    using assms(3) p(3-6) items1 unfolding handler_kept_def Let_def by auto
  let ?s = "upd_world w (\<lambda>W. W\<lparr>w_errvar := val, w_lex := w_err_handler_lexs W ! i\<rparr>) s2"
  have same: "ary_items ?cs ?s = ary_items ?cs s2" "ary_ok ?cs ?s"
    using k(8) by (simp_all add: ary_items_def ary_ok_def)
  obtain s' where s': "rewind_callers w (length cs) ?cs ?s = Ret () s'"
    "ary_items ?cs s' = ary_items ?cs s" "same_but_tmp w ?s s'"
    using rewind_spec [OF same(2), of "length cs"] same(1) k(7) by auto
  let ?s3 = "upd_world w (\<lambda>W. W\<lparr>w_err_handler_idx := w_err_handler_idx W - 1\<rparr>) s'"
  have "pone_throw w val s2 = Jump i ?s3"
    unfolding pone_throw_def Let_def k(2)
    using k assms(4) s'(1) ary_size_spec [OF same(2)] same(1) by simp
  then show ?thesis using s'(2) same_but_tmpD [OF s'(3)] k(1,5) p(1)
    by (intro exI [of _ ?s3]) (simp add: pone_errvar_def ary_items_def)
qed

definition exc_demo :: pone_state where
  "exc_demo = ary_demo\<lparr>st_world := (\<lambda>_. blank_world
     \<lparr>w_caller_stack := Cell 0 0 0, w_lex := Cell 0 0 9, w_err_handler_max := 2,
      w_err_handler_lexs := [Null, Null], w_err_handler_callers := [0, 0]\<rparr>)\<rparr>"

lemma exc_demo_ok: "ary_ok (w_caller_stack (st_world exc_demo 0)) exc_demo"
  by (simp add: exc_demo_def ary_demo_def ary_ok_def)

theorem pone_throw_unwinds_witness:
  "\<exists>s1 s2 s3. pone_exc_handler_push 0 exc_demo = Ret 1 s1 \<and> pone_ary_push (Cell 0 0 0) NilP s1 = Ret () s2 \<and>
     pone_throw 0 TrueP s2 = Jump 1 s3 \<and> ary_items (Cell 0 0 0) s3 = [TrueP, FalseP]"
proof -
  let ?c = "Cell 0 0 0"
  obtain s1 where s1: "pone_exc_handler_push 0 exc_demo = Ret 1 s1"
    by (simp add: pone_exc_handler_push_def exc_demo_def grow_handlers_def blank_world_def
        pone_ary_size_def ary_demo_def Let_def)
  have c: "w_caller_stack (st_world exc_demo 0) = ?c" by (simp add: exc_demo_def)
  note p = handler_push_spec [OF exc_demo_ok s1]
  have "ary_ok ?c s1" using exc_demo_ok p(2) unfolding c by (simp add: ary_ok_def)
  then obtain s2 where s2: "pone_ary_push ?c NilP s1 = Ret () s2" "ary_ok ?c s2"
    "ary_items ?c s2 = ary_items ?c s1 @ [NilP]" "st_world s2 = st_world s1"
    using ary_push_spec [of ?c s1 NilP] by auto
  have "length (w_err_handler_lexs (st_world s1 0)) = 2" "length (w_err_handler_callers (st_world s1 0)) = 2"
    using s1 by (auto simp: pone_exc_handler_push_def exc_demo_def grow_handlers_def blank_world_def
        pone_ary_size_def ary_demo_def Let_def)
  then have "handler_kept 0 1 s1 s2" using s2 p(4) unfolding c by (simp add: handler_kept_def)
  then show ?thesis using pone_throw_unwinds [OF exc_demo_ok s1, of s2 TrueP] s1 s2
    by (auto simp: c exc_demo_def ary_demo_def ary_items_def)
qed

text \<open>
  Arming one handler too many. The arrays are grown when the index equals their size,
  but the entry written is the next one: with \<open>max\<close> slots, arming a handler when \<open>max - 1\<close> are armed
  writes outside the arrays.
\<close>

theorem pone_exc_handler_overflow:
  assumes "length (w_err_handler_lexs (st_world s w)) = w_err_handler_max (st_world s w)"
    "w_err_handler_idx (st_world s w) = int (w_err_handler_max (st_world s w)) - 1"
    "w_err_handler_max (st_world s w) \<noteq> 0"
  shows "pone_exc_handler_push w s = Undef"
  using assms by (simp add: pone_exc_handler_push_def grow_handlers_def Let_def)

theorem pone_exc_handler_overflow_witness:
  "pone_exc_handler_push 0 (upd_world 0 (\<lambda>W. W\<lparr>w_err_handler_idx := 1\<rparr>) exc_demo) = Undef"
  by (rule pone_exc_handler_overflow) (simp_all add: exc_demo_def)

text \<open>
  A new world is in a scope of its own with an empty caller stack that only the
  temporary stack protects, and its allocator is well-formed.
\<close>

theorem pone_world_new_ready:
  assumes "\<And>a i. \<not> pone_alive (st_heap s (Cell w a i))"
  shows "\<exists>s'. pone_world_new w s = Ret () s' \<and> in_scope w s' \<and>
    ary_ok (w_caller_stack (st_world s' w)) s' \<and> ary_items (w_caller_stack (st_world s' w)) s' = [] \<and>
    w_tmpstack (st_world s' w) = [w_caller_stack (st_world s' w)] \<and> w_err_handler_idx (st_world s' w) = 0 \<and>
    (\<forall>p. pone_alive (st_heap s p) \<longrightarrow> st_heap s' p = st_heap s p)"
proof -
  let ?s0 = "upd_world w (\<lambda>_. blank_world) s"
  have wf0: "arena_wf w ?s0" by (rule blank_world_wf) (use assms in simp_all)
  let ?a = "AsLex Null kh_init (st_self s)"
  obtain p s1 where p: "pone_obj_alloc w ?a ?s0 = Ret p s1" "\<not> pone_alive (st_heap ?s0 p)"
    "st_heap s1 = (st_heap ?s0)(p := \<lparr>val_flags = 0, val_as = ?a\<rparr>)" "arena_wf w s1"
    by (rule obj_allocE [OF wf0, of ?a]) simp_all
  let ?F = "\<lambda>W. W\<lparr>w_lex := p,
              w_err_handler_lexs := replicate PONE_ERR_HANDLERS_INIT Null,
              w_err_handler_callers := replicate PONE_ERR_HANDLERS_INIT 0,
              w_err_handler_idx := 0, w_err_handler_max := PONE_ERR_HANDLERS_INIT,
              w_tmpstack := [], w_tmpstack_m := 0, w_savestack := [], w_savestack_m := 0\<rparr>"
  have wf1: "arena_wf w (upd_world w ?F s1)"
    using p(4) by (subst arena_wf_cong [where s = s1]) simp_all
  obtain c s2 G where c: "pone_obj_alloc w (AsAry [] 0 0) (upd_world w ?F s1) = Ret c s2"
    "\<not> pone_alive (st_heap (upd_world w ?F s1) c)"
    "st_heap s2 = (st_heap (upd_world w ?F s1))(c := \<lparr>val_flags = 0, val_as = AsAry [] 0 0\<rparr>)" "arena_wf w s2"
    "w_tmpstack (st_world s2 w) = w_tmpstack (st_world (upd_world w ?F s1) w) @ [c]"
    and G: "s2 = upd_world w G (set_val c \<lparr>val_flags = 0, val_as = AsAry [] 0 0\<rparr> (upd_world w ?F s1))"
      "\<And>W. G W = W\<lparr>w_arenas := w_arenas (G W), w_freelist := w_freelist (G W),
                    w_gc_requested := w_gc_requested (G W), w_tmpstack := w_tmpstack (G W),
                    w_tmpstack_m := w_tmpstack_m (G W)\<rparr>"
    using obj_alloc_spec [OF wf1, of "AsAry [] 0 0"] by blast
  let ?H = "\<lambda>W. W\<lparr>w_caller_stack := c, w_random_key := (0, 0)\<rparr>"
  have gf: "w_lex (G W) = w_lex W" "w_err_handler_idx (G W) = w_err_handler_idx W" for W
    by (subst G(2), simp)+
  have run: "pone_world_new w s = Ret () (upd_world w ?H s2)"
    using p(1,3) c(1) by (simp add: pone_world_new_def pone_lex_new_def pone_ary_new_def type_at_def pone_type_def)
  have wf: "arena_wf w (upd_world w ?H s2)"
    using c(4) by (subst arena_wf_cong [where s = s2]) simp_all
  have pa: "pone_alive (st_heap s1 p)" using p(3) by (simp add: pone_alive_iff)
  then have cp: "c \<noteq> p" using c(2) by auto
  have tmp: "w_tmpstack (st_world (upd_world w ?H s2) w) = [c]" using c(5) by simp
  have lex: "w_lex (st_world s2 w) = p" "w_err_handler_idx (st_world s2 w) = 0" by (simp_all add: G(1) gf)
  show ?thesis
  proof (intro exI [of _ "upd_world w ?H s2"] conjI run)
    show "in_scope w (upd_world w ?H s2)"
      using wf lex cp p(3) c(3) by (simp add: in_scope_def type_at_def pone_type_def)
  qed (use tmp lex p(2,3) c(2,3) in \<open>auto simp: ary_ok_def ary_items_def\<close>)
qed

theorem pone_world_new_ready_witness:
  "\<exists>s'. pone_world_new 3 blank_state = Ret () s' \<and> in_scope 3 s'"
  using pone_world_new_ready [of blank_state 3] by (auto simp: blank_state_def initial_heap_def pone_alive_iff)

text \<open>A world as \<open>pone_world_new\<close> leaves it, with a collection requested.\<close>

definition release_demo :: pone_state where
  "release_demo = blank_state
     \<lparr>st_heap := initial_heap
        (Cell 0 0 0 := \<lparr>val_flags = 0, val_as = AsLex Null kh_init 0\<rparr>,
         Cell 0 0 1 := \<lparr>val_flags = 0, val_as = AsAry [] 0 0\<rparr>),
      st_world := (\<lambda>_. blank_world
        \<lparr>w_arenas := [2], w_lex := Cell 0 0 0, w_caller_stack := Cell 0 0 1,
         w_tmpstack := [Cell 0 0 1], w_tmpstack_m := 2, w_gc_requested := True,
         w_err_handler_lexs := replicate 10 Null, w_err_handler_callers := replicate 10 0,
         w_err_handler_max := 10\<rparr>),
      st_universe := blank_universe\<lparr>u_inc := NilP, u_args := NilP\<rparr>\<rparr>"

lemma upt_2: "[0..<2] = [0, 1::nat]"
  by (simp add: upt_rec)


text \<open>
  C23: a copy of a string shares the buffer until it is changed: appending to the copy
  yields the source's bytes followed by the new ones and leaves the source as it was.
\<close>
theorem str_copy_on_write:
  assumes wf: "arena_wf w s" and b: "pone_str_bytes d p s = Ret b s"
  shows "\<exists>c s1 s2. pone_str_copy w p s = Ret c s1 \<and> pone_str_append_c d w c x s1 = Ret () s2 \<and>
    pone_str_bytes d c s2 = Ret (b @ x) s2 \<and> pone_str_bytes d p s2 = Ret b s2"
proof -
  obtain n where d: "d = Suc n" using b by (cases d) (auto simp: pone_str_bytes_def)
  have t: "type_at s p = PONE_STRING"
    using b by (auto simp: d pone_str_bytes_def type_at_def pone_type_def split: pone_as.splits)
  obtain c s0 where c: "pone_obj_alloc w (AsStr (StrVal p) 0) s = Ret c s0" "\<not> pone_alive (st_heap s c)"
    "st_heap s0 = (st_heap s)(c := \<lparr>val_flags = 0, val_as = AsStr (StrVal p) 0\<rparr>)"
    by (rule obj_allocE [OF wf, of "AsStr (StrVal p) 0"]) simp_all
  let ?fl = "PONE_FLAGS_STR_COPY OR PONE_FLAGS_STR_UTF8"
  let ?s1 = "or_flags ?fl c s0"
  have copy: "pone_str_copy w p s = Ret c ?s1" using t c(1) by (simp add: pone_str_copy_def)
  have h1: "st_heap ?s1 = (st_heap s)(c := \<lparr>val_flags = ?fl, val_as = AsStr (StrVal p) 0\<rparr>)"
    using c(3) by (simp add: or_flags_def)
  have cs: "pone_type (st_heap s q) = PONE_STRING \<Longrightarrow> q \<noteq> c" for q
    using c(2) by (auto simp: pone_alive_def)
  have b1: "pone_str_bytes d p ?s1 = Ret b ?s1"
    by (rule str_frame [OF _ b]) (use cs h1 in auto)
  let ?v = "\<lparr>val_flags = PONE_FLAGS_STR_UTF8, val_as = AsStr (StrBuf (b @ [0])) (length b)\<rparr>"
  have fl: "?fl XOR PONE_FLAGS_STR_COPY = PONE_FLAGS_STR_UTF8" "?fl AND PONE_FLAGS_STR_COPY \<noteq> 0"
    "PONE_FLAGS_STR_UTF8 AND PONE_FLAGS_STR_COPY = 0"
    by (simp_all add: PONE_FLAGS_STR_COPY_def PONE_FLAGS_STR_UTF8_def)
  have mut: "mutable d w c ?s1 = Ret () (set_val c ?v ?s1)"
    using b1 h1 fl by (simp add: mutable_def has_flag_def pone_strdup_def)
  define s2 where "s2 = (if b @ x = [] then set_val c ?v ?s1
      else set_as c (AsStr (StrBuf (b @ x)) (length b + length x)) (set_val c ?v ?s1))"
  have app: "pone_str_append_c d w c x ?s1 = Ret () s2"
    using mut by (auto simp: pone_str_append_c_def pone_str_extend_def s2_def)
  have h2: "st_heap s2 c = \<lparr>val_flags = PONE_FLAGS_STR_UTF8,
      val_as = AsStr (StrBuf (if b @ x = [] then [0] else b @ x)) (length b + length x)\<rparr>"
    "q \<noteq> c \<Longrightarrow> st_heap s2 q = st_heap s q" for q
    using h1 by (auto simp: s2_def)
  have "pone_str_bytes d c s2 = Ret (b @ x) s2"
    by (simp add: d pone_str_bytes_def h2 has_flag_def fl(3))
  moreover have "pone_str_bytes d p s2 = Ret b s2"
    by (rule str_frame [OF _ b]) (use cs h2 in auto)
  ultimately show ?thesis using copy app by blast
qed

theorem str_copy_on_write_witness:
  "\<exists>c s1 s2. pone_str_copy 1 (Cell 0 0 1) map_demo = Ret c s1 \<and>
     pone_str_append_c 1 1 c [98] s1 = Ret () s2 \<and> pone_str_bytes 1 c s2 = Ret [97, 98] s2"
proof -
  have "arena_wf 1 map_demo"
    by (rule blank_world_wf) (simp_all add: map_demo_def blank_state_def initial_heap_def)
  moreover have "pone_str_bytes 1 (Cell 0 0 1) map_demo = Ret [97] map_demo"
    by (simp add: pone_str_bytes_def map_demo_def has_flag_def)
  ultimately show ?thesis using str_copy_on_write [of 1 map_demo 1 "Cell 0 0 1" "[97]" "[98]"] by auto
qed

end
