(* ===== verification/Pone_Call.thy ===== *)
theory Pone_Call
  imports Pone_World
begin

text \<open>
  Classes, method dispatch and calls (\<^verbatim>\<open>src/class.c, code.c, exc.c\<close>), the conversions that dispatch
  (\<^verbatim>\<open>src/str.c, op.c\<close>), and argument checking (\<^verbatim>\<open>src/arg.c\<close>). A function pointer is called through
  \<open>e_call\<close>; the text of an error message that needs a conversion of its own is obtained through
  \<open>e_cstr_of\<close>, so that the definitions recurse only through the environment. Where C leaves the
  order of evaluation of arguments open, it is left to right.
\<close>

record pone_rt = pone_env +
  e_cstr_of :: "nat \<Rightarrow> ptr \<Rightarrow> bytes pone"

text \<open>File, line and function of a call.\<close>

type_synonym call_site = "string \<times> nat \<times> string"

section \<open>Classes\<close>

definition pone_what :: "ptr \<Rightarrow> ptr pone" where
  "pone_what obj s =
     (let U = st_universe s in
      case val_as (st_heap s obj) of
        AsFree _ \<Rightarrow> Abort
      | AsNil \<Rightarrow> Ret (u_class_nil U) s
      | AsInt _ \<Rightarrow> Ret (u_class_int U) s
      | AsNum _ \<Rightarrow> Ret (u_class_num U) s
      | AsStr _ _ \<Rightarrow> Ret (if has_flag PONE_FLAGS_STR_UTF8 (st_heap s obj) then u_class_str U else u_class_bytes U) s
      | AsAry _ _ _ \<Rightarrow> Ret (u_class_ary U) s
      | AsBool _ \<Rightarrow> Ret (u_class_bool U) s
      | AsMap _ _ \<Rightarrow> Ret (u_class_map U) s
      | AsCode _ _ \<Rightarrow> Ret (u_class_code U) s
      | AsOpaque _ \<Rightarrow> pone_opaque_class obj s
      | AsObj klass _ \<Rightarrow> Ret klass s
      | AsLex _ _ _ \<Rightarrow> Abort)"

text \<open>The two lookups of a method in a class: \<open>Null\<close> when there is none.\<close>

definition class_method :: "nat \<Rightarrow> nat \<Rightarrow> ptr \<Rightarrow> bytes \<Rightarrow> ptr pone" where
  "class_method depth w klass name s =
     andthen (pone_obj_get_ivar klass (bs ''$!methods'') s) (\<lambda>methods s.
     andthen (pone_str_new_strdup w (name @ [0]) (length name) s) (\<lambda>key s.
     andthen (pone_map_at_key depth methods key s) (\<lambda>m s.
     Ret (if pone_defined (st_heap s m) then m else Null) s)))"

definition pone_find_method :: "nat \<Rightarrow> nat \<Rightarrow> ptr \<Rightarrow> bytes \<Rightarrow> ptr pone" where
  "pone_find_method depth w obj name s =
     andthen (pone_what obj s) (\<lambda>klass s.
     if klass = Null then Abort
     else if klass = u_class_module (st_universe s)
     then andthen (pone_obj_get_ivar obj name s) (\<lambda>m s.
            if pone_defined (st_heap s m) then Ret m s else class_method depth w klass name s)
     else class_method depth w klass name s)"

section \<open>Calls\<close>

definition pone_push_caller :: "nat \<Rightarrow> call_site \<Rightarrow> unit pone" where
  "pone_push_caller w site s =
     (case site of (filename, lineno, sub) \<Rightarrow>
        andthen (pone_str_lit w filename s) (\<lambda>f s.
        andthen (pone_int_new w (of_nat lineno) s) (\<lambda>l s.
        andthen (pone_str_lit w sub s) (\<lambda>u s.
        andthen (pone_ary_new w [f, l, u] s) (\<lambda>row s.
        pone_ary_push (w_caller_stack (st_world s w)) row s)))))"

definition pone_pop_caller :: "nat \<Rightarrow> unit pone" where
  "pone_pop_caller w s = andthen (pone_ary_pop w (w_caller_stack (st_world s w)) s) (\<lambda>_. Ret ())"

definition set_lex :: "nat \<Rightarrow> ptr \<Rightarrow> pone_state \<Rightarrow> pone_state" where
  "set_lex w lx = upd_world w (w_lex_update (\<lambda>_. lx))"

definition maybe_gc :: "('z pone_env_scheme) \<Rightarrow> nat \<Rightarrow> unit pone" where
  "maybe_gc E w s =
     (if w_gc_requested (st_world s w) then pone_gc_run (e_fin E) (e_depth E) w s else Ret () s)"

definition pone_code_vcall ::
  "('z pone_env_scheme) \<Rightarrow> nat \<Rightarrow> call_site \<Rightarrow> ptr \<Rightarrow> ptr \<Rightarrow> ptr list \<Rightarrow> ptr pone" where
  "pone_code_vcall E w site code self args s =
     (if type_at s code \<noteq> PONE_CODE then Abort
      else andthen (maybe_gc E w s) (\<lambda>_ s.
           andthen (pone_push_caller w site s) (\<lambda>_ s.
           case val_as (st_heap s code) of
             AsCode f lx \<Rightarrow>
               if lx \<noteq> Null
               then (let orig = w_lex (st_world s w) in
                     andthen (if orig \<noteq> Null then pone_save_tmp w orig s else Ret Null s) (\<lambda>_ s.
                     andthen (e_call E f w self args (set_lex w lx s)) (\<lambda>r s.
                     andthen (pone_pop_caller w (set_lex w orig s)) (\<lambda>_. Ret r))))
               else andthen (e_call E f w self args s) (\<lambda>r s.
                    andthen (pone_pop_caller w s) (\<lambda>_. Ret r))
           | _ \<Rightarrow> Undef)))"

definition pone_code_call ::
  "('z pone_env_scheme) \<Rightarrow> nat \<Rightarrow> call_site \<Rightarrow> ptr \<Rightarrow> ptr \<Rightarrow> ptr list \<Rightarrow> ptr pone" where
  "pone_code_call E w site code self args s =
     (if \<not> pone_alive (st_heap s code) \<or> type_at s code \<noteq> PONE_CODE then Abort
      else pone_code_vcall E w site code self args s)"

definition pone_what_str_c :: "('z pone_rt_scheme) \<Rightarrow> nat \<Rightarrow> ptr \<Rightarrow> bytes pone" where
  "pone_what_str_c E w val s =
     (case type_at s val of
        PONE_NIL \<Rightarrow> Ret (bs ''Nil'') s
      | PONE_INT \<Rightarrow> Ret (bs ''Int'') s
      | PONE_NUM \<Rightarrow> Ret (bs ''Num'') s
      | PONE_STRING \<Rightarrow> Ret (if has_flag PONE_FLAGS_STR_UTF8 (st_heap s val) then bs ''Str'' else bs ''Bytes'') s
      | PONE_ARRAY \<Rightarrow> Ret (bs ''Array'') s
      | PONE_BOOL \<Rightarrow> Ret (bs ''Bool'') s
      | PONE_MAP \<Rightarrow> Ret (bs ''Map'') s
      | PONE_CODE \<Rightarrow> Ret (bs ''Code'') s
      | PONE_LEX \<Rightarrow> Ret (bs ''Lex'') s
      | PONE_FREE \<Rightarrow> Abort
      | _ \<Rightarrow>
          andthen (pone_what val s) (\<lambda>klass s.
          if \<not> pone_alive (st_heap s klass) then Abort
          else andthen (pone_obj_get_ivar klass (bs ''$!name'') s) (\<lambda>name. e_cstr_of E w name)))"

definition pone_call_method ::
  "('z pone_rt_scheme) \<Rightarrow> nat \<Rightarrow> call_site \<Rightarrow> ptr \<Rightarrow> bytes \<Rightarrow> ptr list \<Rightarrow> ptr pone" where
  "pone_call_method E w site obj name args s =
     (if obj = Null \<or> \<not> pone_alive (st_heap s obj) then Abort
      else andthen (pone_find_method (e_depth E) w obj name s) (\<lambda>m s.
        if m \<noteq> Null
        then if type_at s m = PONE_CODE then pone_code_vcall E w site m obj args s else Ret m s
        else andthen (pone_what obj s) (\<lambda>klass s.
          if klass = u_class_module (st_universe s)
          then andthen (pone_obj_get_ivar obj (bs ''$!name'') s) (\<lambda>nm s.
               andthen (e_cstr_of E w nm s) (\<lambda>txt.
               pone_throw_str w (bs ''Method '' @ [39] @ cstr name @ [39] @
                 bs '' not found for invocant of module '' @ [39] @ cstr txt @ [39])))
          else andthen (pone_what_str_c E w obj s) (\<lambda>txt.
               pone_throw_str w (bs ''Method '' @ [39] @ cstr name @ [39] @
                 bs '' not found for invocant of class '' @ [39] @ cstr txt @ [39])))))"

definition pone_call_meta_method ::
  "('z pone_rt_scheme) \<Rightarrow> nat \<Rightarrow> ptr \<Rightarrow> bytes \<Rightarrow> ptr pone" where
  "pone_call_meta_method E w obj name s =
     (if cstr name = bs ''methods''
      then andthen (pone_what obj s) (\<lambda>klass s.
           andthen (pone_obj_get_ivar klass (bs ''$!methods'') s) (\<lambda>m. pone_map_keys w m))
      else andthen (pone_what_str_c E w obj s) (\<lambda>txt.
           pone_throw_str w (bs ''Meta method '' @ [39] @ cstr name @ [39] @
             bs '' not found for invocant of class '' @ [39] @ cstr txt @ [39])))"

section \<open>Conversions\<close>

definition pone_stringify :: "('z pone_rt_scheme) \<Rightarrow> nat \<Rightarrow> ptr \<Rightarrow> ptr pone" where
  "pone_stringify E w val s =
     andthen (pone_call_method E w (''str.c'', 167, ''pone_stringify'') val (bs ''Str'') [] s) (\<lambda>r s.
     if type_at s r = PONE_STRING then Ret r s else Abort)"

definition pone_intify :: "('z pone_rt_scheme) \<Rightarrow> nat \<Rightarrow> ptr \<Rightarrow> pone_int_t pone" where
  "pone_intify E w val s =
     andthen (pone_call_method E w (''op.c'', 260, ''pone_intify'') val (bs ''Int'') [] s) (\<lambda>r. pone_int_val r)"

definition pone_numify :: "('z pone_rt_scheme) \<Rightarrow> nat \<Rightarrow> ptr \<Rightarrow> pone_num_t pone" where
  "pone_numify E w val s =
     andthen (pone_call_method E w (''op.c'', 265, ''pone_numify'') val (bs ''Num'') [] s) (\<lambda>r. pone_num_val r)"

definition pone_str_concat :: "('z pone_rt_scheme) \<Rightarrow> nat \<Rightarrow> ptr \<Rightarrow> ptr \<Rightarrow> ptr pone" where
  "pone_str_concat E w v1 v2 s =
     andthen (pone_stringify E w v1 s) (\<lambda>s1 s.
     andthen (pone_stringify E w v2 s) (\<lambda>s2.
     pone_str_join (e_depth E) w s1 s2))"

definition pone_str_c_str :: "('z pone_rt_scheme) \<Rightarrow> nat \<Rightarrow> ptr \<Rightarrow> ptr pone" where
  "pone_str_c_str E w val s =
     (if type_at s val \<noteq> PONE_STRING then Abort
      else andthen (pone_str_contains_null (e_depth E) val s) (\<lambda>has_null s.
        if has_null
        then pone_throw_str w (bs ''You can't convert string to c-string. Since it contains '' @ [92] @ bs ''0.'') s
        else andthen (pone_str_new_strdup w [0] 1 s) (\<lambda>z. pone_str_concat E w val z)))"

text \<open>
  Appending a string to itself: the bytes to copy are in the buffer that \<open>realloc\<close> takes away.
\<close>

definition pone_str_append :: "('z pone_rt_scheme) \<Rightarrow> nat \<Rightarrow> ptr \<Rightarrow> ptr \<Rightarrow> unit pone" where
  "pone_str_append E w str v s =
     andthen (pone_stringify E w v s) (\<lambda>v s.
     andthen (pone_str_root (e_depth E) v s) (\<lambda>root s.
     andthen (pone_str_bytes (e_depth E) v s) (\<lambda>b s.
     if root = str then Undef else pone_str_append_c (e_depth E) w str b s)))"

definition pone_map_assign_key :: "('z pone_rt_scheme) \<Rightarrow> nat \<Rightarrow> ptr \<Rightarrow> ptr \<Rightarrow> ptr \<Rightarrow> unit pone" where
  "pone_map_assign_key E w hv key v s =
     andthen (if type_at s key \<noteq> PONE_STRING then pone_stringify E w key s else Ret key s) (\<lambda>key.
     pone_map_put (e_depth E) hv key v)"

fun pone_map_assign_keys :: "('z pone_rt_scheme) \<Rightarrow> nat \<Rightarrow> ptr \<Rightarrow> (ptr \<times> ptr) list \<Rightarrow> ptr pone" where
  "pone_map_assign_keys E w hash [] s = Ret hash s"
| "pone_map_assign_keys E w hash ((k, v) # kvs) s =
     andthen (pone_map_assign_key E w hash k v s) (\<lambda>_. pone_map_assign_keys E w hash kvs)"

section \<open>Making classes\<close>

definition pone_add_method :: "('z pone_rt_scheme) \<Rightarrow> nat \<Rightarrow> ptr \<Rightarrow> bytes \<Rightarrow> ptr \<Rightarrow> unit pone" where
  "pone_add_method E w klass name m s =
     (if klass = Null \<or> type_at s klass \<noteq> PONE_OBJ \<or> type_at s m \<noteq> PONE_CODE then Abort
      else andthen (pone_obj_get_ivar klass (bs ''$!methods'') s) (\<lambda>methods s.
        if type_at s methods \<noteq> PONE_MAP then Abort
        else andthen (pone_str_new_strdup w (name @ [0]) (length name) s) (\<lambda>key.
             pone_map_assign_key E w methods key m)))"

definition pone_add_method_c :: "('z pone_rt_scheme) \<Rightarrow> nat \<Rightarrow> ptr \<Rightarrow> string \<Rightarrow> pone_funcptr_t \<Rightarrow> unit pone" where
  "pone_add_method_c E w klass name f s =
     (if klass = Null then Abort
      else andthen (pone_code_new_c w f s) (\<lambda>code. pone_add_method E w klass (bs name) code))"

fun add_methods :: "('z pone_rt_scheme) \<Rightarrow> nat \<Rightarrow> ptr \<Rightarrow> (string \<times> pone_funcptr_t) list \<Rightarrow> unit pone" where
  "add_methods E w klass [] s = Ret () s"
| "add_methods E w klass ((n, f) # ms) s =
     andthen (pone_add_method_c E w klass n f s) (\<lambda>_. add_methods E w klass ms)"

definition pone_class_new :: "('z pone_rt_scheme) \<Rightarrow> nat \<Rightarrow> string \<Rightarrow> ptr pone" where
  "pone_class_new E w name s =
     andthen (pone_obj_new w (u_class_class (st_universe s)) s) (\<lambda>obj s.
     andthen (pone_str_new_strdup w (bs name @ [0]) (length name) s) (\<lambda>nm s.
     andthen (pone_obj_set_ivar obj (bs ''$!name'') nm s) (\<lambda>_ s.
     andthen (pone_map_new w s) (\<lambda>m s.
     andthen (pone_obj_set_ivar obj (bs ''$!methods'') m s) (\<lambda>_ s.
     andthen (add_methods E w obj [(''say'', ''mu_say''), (''Str'', ''mu_str'')] s) (\<lambda>_.
     Ret obj))))))"

definition pone_init_class :: "('z pone_rt_scheme) \<Rightarrow> nat \<Rightarrow> ptr pone" where
  "pone_init_class E w s =
     andthen (pone_obj_alloc w (AsObj pone_nil kh_init) s) (\<lambda>val s.
     andthen (pone_str_lit w ''Class'' s) (\<lambda>nm s.
     andthen (pone_obj_set_ivar val (bs ''$!name'') nm s) (\<lambda>_ s.
     andthen (pone_map_new w s) (\<lambda>m s.
     andthen (pone_obj_set_ivar val (bs ''$!methods'') m s) (\<lambda>_ s.
     andthen (add_methods E w val
       [(''name'', ''meth_name''), (''Str'', ''meth_Str''), (''say'', ''mu_say''),
        (''can'', ''meth_can''), (''ACCEPTS'', ''meth_accepts'')] s) (\<lambda>_.
     Ret val))))))"

definition pone_exc_class_new_simple :: "('z pone_rt_scheme) \<Rightarrow> nat \<Rightarrow> string \<Rightarrow> bytes \<Rightarrow> ptr pone" where
  "pone_exc_class_new_simple E w name msg s =
     andthen (pone_class_new E w name s) (\<lambda>klass s.
     andthen (add_methods E w klass [(''message'', ''meth_exc_message''), (''Str'', ''meth_exc_message'')] s) (\<lambda>_ s.
     andthen (pone_str_new_strdup w (msg @ [0]) (length msg) s) (\<lambda>m s.
     andthen (pone_obj_set_ivar klass (bs ''$!message'') m s) (\<lambda>_.
     Ret klass))))"

section \<open>Exceptions around calls\<close>

definition pone_try :: "('z pone_env_scheme) \<Rightarrow> nat \<Rightarrow> ptr \<Rightarrow> ptr pone" where
  "pone_try E w code s =
     (if type_at s code \<noteq> PONE_CODE then Abort
      else andthen (pone_exc_handler_push w s) (\<lambda>i s.
        case pone_code_call E w (''exc.c'', 83, ''pone_try'') code pone_nil [] s of
          Ret v s \<Rightarrow> andthen (pone_exc_handler_pop w s) (\<lambda>_. Ret v)
        | Jump j s \<Rightarrow> if j = i then Ret pone_nil s else Jump j s
        | Abort \<Rightarrow> Abort
        | Exit c \<Rightarrow> Exit c
        | Undef \<Rightarrow> Undef))"

section \<open>Argument checking\<close>

definition min_args :: "string \<Rightarrow> nat" where
  "min_args spec = length (takeWhile (\<lambda>c. c \<noteq> CHR '':'') spec)"

definition max_args :: "string \<Rightarrow> nat" where
  "max_args spec = length (filter (\<lambda>c. c \<noteq> CHR '':'') spec)"

datatype parg = PObj ptr | PStr bytes nat | PInt pone_int_t

definition arg_error :: "nat \<Rightarrow> string \<Rightarrow> string \<Rightarrow> nat \<Rightarrow> 'a pone" where
  "arg_error w name spec nargs =
     pone_throw_str w (bs name @ bs '': expected '' @ dec_of_nat (min_args spec) @ bs ''~'' @
       dec_of_nat (max_args spec) @ bs '' opts but you passed '' @ dec_of_nat nargs @ bs '' opts.'')"

text \<open>
  The loop over the specification. \<open>used\<close> is the number of arguments taken so far; an optional
  argument that was not passed leaves its variable alone. The length of an \<open>s\<close> argument counts the
  NUL that the conversion appended.
\<close>

fun arg_loop ::
  "('z pone_rt_scheme) \<Rightarrow> nat \<Rightarrow> string \<Rightarrow> string \<Rightarrow> ptr list \<Rightarrow> bool \<Rightarrow> nat \<Rightarrow> parg list \<Rightarrow> string
     \<Rightarrow> (parg list \<times> nat) pone" where
  "arg_loop E w name spec args opt used acc [] s = Ret (rev acc, used) s"
| "arg_loop E w name spec args opt used acc (c # cs) s =
     (if c = CHR ''o'' then
        if length args \<le> used then
          if opt then arg_loop E w name spec args opt used acc cs s else arg_error w name spec (length args) s
        else arg_loop E w name spec args opt (Suc used) (PObj (args ! used) # acc) cs s
      else if c = CHR ''s'' then
        if length args \<le> used then
          if opt then arg_loop E w name spec args opt used acc cs s else arg_error w name spec (length args) s
        else andthen (pone_stringify E w (args ! used) s) (\<lambda>v s.
             andthen (pone_str_c_str E w v s) (\<lambda>c_str s.
             andthen (pone_str_ptr (e_depth E) c_str s) (\<lambda>p s.
             andthen (pone_str_len (e_depth E) c_str s) (\<lambda>n s.
             arg_loop E w name spec args opt (Suc used) (PStr p n # acc) cs s))))
      else if c = CHR ''i'' then
        if length args \<le> used then
          if opt then arg_loop E w name spec args opt used acc cs s else arg_error w name spec (length args) s
        else andthen (pone_intify E w (args ! used) s) (\<lambda>i s.
             arg_loop E w name spec args opt (Suc used) (PInt i # acc) cs s)
      else if c = CHR '':'' then arg_loop E w name spec args True used acc cs s
      else pone_throw_str w (bs name @ bs '': Unknown argument spec char: '' @ [39, of_char (hd spec), 39]) s)"

definition pone_arg :: "('z pone_rt_scheme) \<Rightarrow> nat \<Rightarrow> string \<Rightarrow> string \<Rightarrow> ptr list \<Rightarrow> parg list pone" where
  "pone_arg E w name spec args s =
     andthen (arg_loop E w name spec args False 0 [] spec s) (\<lambda>(vals, used) s.
     if used < min_args spec \<or> max_args spec < used then arg_error w name spec (length args) s
     else Ret vals s)"

end
