(* ===== verification/Pone_Op.thy ===== *)
theory Pone_Op
  imports Pone_Call "HOL-Library.Signed_Division"
begin

text \<open>
  The operators of the language (\<^verbatim>\<open>src/op.c\<close>): variables, arithmetic, comparison, bits, strings,
  element access; deep copies of values (\<^verbatim>\<open>src/obj.c, array.c, map.c\<close>) and iteration
  (\<^verbatim>\<open>src/iter.c\<close>). Integer arithmetic is that of C's signed \<open>long\<close>: an overflow, a division by zero
  or a shift that C does not define is \<open>Undef\<close>.
\<close>

section \<open>Variables\<close>

text \<open>
  The search along the scopes. It is a loop over the parent links, which could in principle be
  cyclic; \<open>None\<close> is not returning.
\<close>

datatype lex_result = Found ptr | NotFound | DeadLex | BadLex

partial_function (option) lex_search :: "pone_heap \<Rightarrow> bytes \<Rightarrow> ptr \<Rightarrow> lex_result option" where
  "lex_search h key lx =
     (if lx = Null then Some NotFound
      else if \<not> pone_alive (h lx) then Some DeadLex
      else case val_as (h lx) of
             AsLex parent m tid \<Rightarrow>
               (case str_kh_get m key of
                  Some (Some v) \<Rightarrow> Some (Found v)
                | Some None \<Rightarrow> lex_search h key parent
                | None \<Rightarrow> None)
           | _ \<Rightarrow> Some BadLex)"

definition pone_get_lex :: "nat \<Rightarrow> bytes \<Rightarrow> ptr pone" where
  "pone_get_lex w key s =
     andthen (from_option (lex_search (st_heap s) key (w_lex (st_world s w))) s) (\<lambda>r s.
     case r of
       Found v \<Rightarrow> Ret v s
     | DeadLex \<Rightarrow> Abort
     | BadLex \<Rightarrow> Undef
     | NotFound \<Rightarrow>
         andthen (from_option (str_kh_get (u_globals (st_universe s)) key) s) (\<lambda>g s.
         case g of
           Some v \<Rightarrow> Ret v s
         | None \<Rightarrow> pone_throw_str w (bs ''Unknown lexical variable: '' @ cstr key) s))"

text \<open>The scope \<open>up\<close> levels out; beyond the outermost one the code reads through NULL.\<close>

fun lex_up :: "pone_heap \<Rightarrow> nat \<Rightarrow> ptr \<Rightarrow> ptr option" where
  "lex_up h 0 lx = Some lx"
| "lex_up h (Suc n) lx = (case val_as (h lx) of AsLex parent m tid \<Rightarrow> lex_up h n parent | _ \<Rightarrow> None)"

definition pone_assign :: "nat \<Rightarrow> nat \<Rightarrow> bytes \<Rightarrow> ptr \<Rightarrow> ptr pone" where
  "pone_assign w up key val s =
     (if val = Null then Abort
      else if type_at s (w_lex (st_world s w)) \<noteq> PONE_LEX then Abort
      else andthen (from_option (lex_up (st_heap s) up (w_lex (st_world s w))) s) (\<lambda>lx s.
        case val_as (st_heap s lx) of
          AsLex parent m tid \<Rightarrow>
            if st_self s \<noteq> tid
            then pone_throw_str w (bs ''You can't set variable to non-owned lexical variables from other thread'') s
            else andthen (from_option (str_kh_put m key val) s) (\<lambda>(m', ret) s.
                 Ret val (set_as lx (AsLex parent m' tid) s))
        | _ \<Rightarrow> Undef))"

fun assign_each :: "nat \<Rightarrow> ptr \<Rightarrow> nat \<Rightarrow> bytes list \<Rightarrow> unit pone" where
  "assign_each w val i [] s = Ret () s"
| "assign_each w val i (k # ks) s =
     andthen (pone_ary_at_pos val (int i) s) (\<lambda>v s.
     andthen (pone_assign w 0 k v s) (\<lambda>_. assign_each w val (Suc i) ks))"

definition pone_assign_list :: "nat \<Rightarrow> ptr \<Rightarrow> bytes list \<Rightarrow> ptr pone" where
  "pone_assign_list w val vars s =
     andthen (pone_ary_size val s) (\<lambda>n s.
     if length vars \<noteq> n
     then pone_throw_str w ([39] @ bs ''='' @ [39] @ bs '' operator: rhs expected '' @ dec_of_nat (length vars) @
            bs '' values but lhs returns '' @ dec_of_nat n) s
     else andthen (assign_each w val 0 vars s) (\<lambda>_. Ret pone_nil))"

section \<open>Truth\<close>

definition pone_so :: "nat \<Rightarrow> ptr \<Rightarrow> bool pone" where
  "pone_so depth val s =
     (case type_at s val of
        PONE_NIL \<Rightarrow> Ret False s
      | PONE_INT \<Rightarrow> andthen (pone_int_val val s) (\<lambda>i. Ret (i \<noteq> 0))
      | PONE_NUM \<Rightarrow> andthen (pone_int_val val s) (\<lambda>i. Ret (i \<noteq> 0))
      | PONE_STRING \<Rightarrow> andthen (pone_str_len depth val s) (\<lambda>n. Ret (n \<noteq> 0))
      | PONE_BOOL \<Rightarrow> pone_bool_val val s
      | _ \<Rightarrow> Ret True s)"

definition pone_not :: "nat \<Rightarrow> ptr \<Rightarrow> ptr pone" where
  "pone_not depth val s = andthen (pone_so depth val s) (\<lambda>b. Ret (if b then pone_false else pone_true))"

section \<open>Arithmetic\<close>

definition c_long :: "int \<Rightarrow> pone_int_t option" where
  "c_long i = (if - (2 ^ 63) \<le> i \<and> i < 2 ^ 63 then Some (word_of_int i) else None)"

definition c_add :: "pone_int_t \<Rightarrow> pone_int_t \<Rightarrow> pone_int_t option" where
  "c_add a b = c_long (sint a + sint b)"

definition c_sub :: "pone_int_t \<Rightarrow> pone_int_t \<Rightarrow> pone_int_t option" where
  "c_sub a b = c_long (sint a - sint b)"

definition c_mul :: "pone_int_t \<Rightarrow> pone_int_t \<Rightarrow> pone_int_t option" where
  "c_mul a b = c_long (sint a * sint b)"

definition c_div :: "pone_int_t \<Rightarrow> pone_int_t \<Rightarrow> pone_int_t option" where
  "c_div a b = (if b = 0 then None else c_long (sint a sdiv sint b))"

text \<open>\<open>%\<close> is undefined whenever the quotient is.\<close>

definition c_mod :: "pone_int_t \<Rightarrow> pone_int_t \<Rightarrow> pone_int_t option" where
  "c_mod a b =
     (if b = 0 \<or> c_long (sint a sdiv sint b) = None then None else c_long (sint a smod sint b))"

definition c_shr :: "pone_int_t \<Rightarrow> pone_int_t \<Rightarrow> pone_int_t option" where
  "c_shr a b = (if 0 \<le> sint b \<and> sint b < 64 then Some (signed_drop_bit (nat (sint b)) a) else None)"

definition c_shl :: "pone_int_t \<Rightarrow> pone_int_t \<Rightarrow> pone_int_t option" where
  "c_shl a b =
     (if 0 \<le> sint b \<and> sint b < 64 \<and> 0 \<le> sint a then c_long (sint a * 2 ^ nat (sint b)) else None)"

definition is_num :: "pone_state \<Rightarrow> ptr \<Rightarrow> bool" where
  "is_num s v \<longleftrightarrow> type_at s v = PONE_NUM"

text \<open>The two operands as integers, then the operation.\<close>

definition int_op ::
  "('z pone_rt_scheme) \<Rightarrow> (pone_int_t \<Rightarrow> pone_int_t \<Rightarrow> pone_int_t option) \<Rightarrow> nat \<Rightarrow> ptr \<Rightarrow> ptr \<Rightarrow> ptr pone" where
  "int_op E f w v1 v2 s =
     andthen (pone_intify E w v1 s) (\<lambda>i1 s.
     andthen (pone_intify E w v2 s) (\<lambda>i2 s.
     andthen (from_option (f i1 i2) s) (\<lambda>i. pone_int_new w i)))"

definition num_op ::
  "('z pone_rt_scheme) \<Rightarrow> (pone_num_t \<Rightarrow> pone_num_t \<Rightarrow> pone_num_t) \<Rightarrow> nat \<Rightarrow> ptr \<Rightarrow> ptr \<Rightarrow> ptr pone" where
  "num_op E f w v1 v2 s =
     andthen (pone_numify E w v1 s) (\<lambda>n1 s.
     andthen (pone_numify E w v2 s) (\<lambda>n2. pone_num_new w (f n1 n2)))"

definition pone_add :: "('z pone_rt_scheme) \<Rightarrow> nat \<Rightarrow> ptr \<Rightarrow> ptr \<Rightarrow> ptr pone" where
  "pone_add E w v1 v2 s =
     (if is_num s v1 \<or> is_num s v2 then num_op E (e_num_add E) w v1 v2 s else int_op E c_add w v1 v2 s)"

definition pone_subtract :: "('z pone_rt_scheme) \<Rightarrow> nat \<Rightarrow> ptr \<Rightarrow> ptr \<Rightarrow> ptr pone" where
  "pone_subtract E w v1 v2 s =
     (if is_num s v1 \<or> is_num s v2 then num_op E (e_num_sub E) w v1 v2 s else int_op E c_sub w v1 v2 s)"

definition pone_multiply :: "('z pone_rt_scheme) \<Rightarrow> nat \<Rightarrow> ptr \<Rightarrow> ptr \<Rightarrow> ptr pone" where
  "pone_multiply E w v1 v2 s =
     (if is_num s v1 \<or> is_num s v2 then num_op E (e_num_mul E) w v1 v2 s else int_op E c_mul w v1 v2 s)"

definition pone_divide :: "('z pone_rt_scheme) \<Rightarrow> nat \<Rightarrow> ptr \<Rightarrow> ptr \<Rightarrow> ptr pone" where
  "pone_divide E w v1 v2 s =
     (if is_num s v1 \<or> is_num s v2 then num_op E (e_num_div E) w v1 v2 s else int_op E c_div w v1 v2 s)"

definition pone_mod :: "('z pone_rt_scheme) \<Rightarrow> nat \<Rightarrow> ptr \<Rightarrow> ptr \<Rightarrow> ptr pone" where
  "pone_mod E = int_op E c_mod"

definition pone_pow :: "('z pone_rt_scheme) \<Rightarrow> nat \<Rightarrow> ptr \<Rightarrow> ptr \<Rightarrow> ptr pone" where
  "pone_pow E w v1 v2 s =
     andthen (pone_numify E w v1 s) (\<lambda>n1 s.
     andthen (pone_numify E w v2 s) (\<lambda>n2 s.
     case e_num_pow E n1 n2 of (n3, errno) \<Rightarrow> pone_num_new w n3 (pone_world_set_errno w errno s)))"

definition pone_bitwise_or :: "('z pone_rt_scheme) \<Rightarrow> nat \<Rightarrow> ptr \<Rightarrow> ptr \<Rightarrow> ptr pone" where
  "pone_bitwise_or E = int_op E (\<lambda>a b. Some (a OR b))"

definition pone_bitwise_and :: "('z pone_rt_scheme) \<Rightarrow> nat \<Rightarrow> ptr \<Rightarrow> ptr \<Rightarrow> ptr pone" where
  "pone_bitwise_and E = int_op E (\<lambda>a b. Some (a AND b))"

definition pone_bitwise_xor :: "('z pone_rt_scheme) \<Rightarrow> nat \<Rightarrow> ptr \<Rightarrow> ptr \<Rightarrow> ptr pone" where
  "pone_bitwise_xor E = int_op E (\<lambda>a b. Some (a XOR b))"

definition pone_brshift :: "('z pone_rt_scheme) \<Rightarrow> nat \<Rightarrow> ptr \<Rightarrow> ptr \<Rightarrow> ptr pone" where
  "pone_brshift E = int_op E c_shr"

definition pone_blshift :: "('z pone_rt_scheme) \<Rightarrow> nat \<Rightarrow> ptr \<Rightarrow> ptr \<Rightarrow> ptr pone" where
  "pone_blshift E = int_op E c_shl"

text \<open>\<open>$var op= val\<close>, the macro \<open>INFIX\<close>, for an operator of the sections above.\<close>

definition pone_inplace ::
  "(nat \<Rightarrow> ptr \<Rightarrow> ptr \<Rightarrow> ptr pone) \<Rightarrow> nat \<Rightarrow> nat \<Rightarrow> bytes \<Rightarrow> ptr \<Rightarrow> ptr pone" where
  "pone_inplace op_func w level varname val s =
     andthen (pone_get_lex w varname s) (\<lambda>lhs s.
     andthen (op_func w lhs val s) (\<lambda>r. pone_assign w level varname r))"

section \<open>Comparison\<close>

definition cmp_op ::
  "('z pone_rt_scheme) \<Rightarrow> (pone_num_t \<Rightarrow> pone_num_t \<Rightarrow> bool) \<Rightarrow> (int \<Rightarrow> int \<Rightarrow> bool) \<Rightarrow> nat \<Rightarrow> ptr \<Rightarrow> ptr \<Rightarrow> bool pone" where
  "cmp_op E nf cf w v1 v2 s =
     (if is_num s v1 \<or> is_num s v2
      then andthen (pone_numify E w v1 s) (\<lambda>n1 s.
           andthen (pone_numify E w v2 s) (\<lambda>n2. Ret (nf n1 n2)))
      else andthen (pone_intify E w v1 s) (\<lambda>i1 s.
           andthen (pone_intify E w v2 s) (\<lambda>i2. Ret (cf (sint i1) (sint i2)))))"

definition pone_eq :: "('z pone_rt_scheme) \<Rightarrow> nat \<Rightarrow> ptr \<Rightarrow> ptr \<Rightarrow> bool pone" where
  "pone_eq E = cmp_op E (e_num_eq E) (=)"
definition pone_ne :: "('z pone_rt_scheme) \<Rightarrow> nat \<Rightarrow> ptr \<Rightarrow> ptr \<Rightarrow> bool pone" where
  "pone_ne E = cmp_op E (\<lambda>a b. \<not> e_num_eq E a b) (\<noteq>)"
definition pone_le :: "('z pone_rt_scheme) \<Rightarrow> nat \<Rightarrow> ptr \<Rightarrow> ptr \<Rightarrow> bool pone" where
  "pone_le E = cmp_op E (e_num_le E) (\<le>)"
definition pone_lt :: "('z pone_rt_scheme) \<Rightarrow> nat \<Rightarrow> ptr \<Rightarrow> ptr \<Rightarrow> bool pone" where
  "pone_lt E = cmp_op E (e_num_lt E) (<)"
definition pone_ge :: "('z pone_rt_scheme) \<Rightarrow> nat \<Rightarrow> ptr \<Rightarrow> ptr \<Rightarrow> bool pone" where
  "pone_ge E = cmp_op E (\<lambda>a b. e_num_le E b a) (\<ge>)"
definition pone_gt :: "('z pone_rt_scheme) \<Rightarrow> nat \<Rightarrow> ptr \<Rightarrow> ptr \<Rightarrow> bool pone" where
  "pone_gt E = cmp_op E (\<lambda>a b. e_num_lt E b a) (>)"

text \<open>\<open>memcmp\<close> on equally long blocks, by the sign of its result; then the lengths.\<close>

fun memcmp :: "bytes \<Rightarrow> bytes \<Rightarrow> int" where
  "memcmp (a # xs) (b # ys) = (if a < b then -1 else if b < a then 1 else memcmp xs ys)"
| "memcmp _ _ = 0"

definition bytes_cmp :: "bytes \<Rightarrow> bytes \<Rightarrow> int" where
  "bytes_cmp b1 b2 =
     (let l1 = length b1; l2 = length b2; n = memcmp (take (min l1 l2) b1) (take (min l1 l2) b2)
      in if n = 0 then if l1 > l2 then 1 else if l1 < l2 then -1 else n else n)"

definition pone_str_cmp :: "('z pone_rt_scheme) \<Rightarrow> nat \<Rightarrow> ptr \<Rightarrow> ptr \<Rightarrow> int pone" where
  "pone_str_cmp E w v1 v2 s =
     andthen (pone_stringify E w v1 s) (\<lambda>s1 s.
     andthen (pone_stringify E w v2 s) (\<lambda>s2 s.
     andthen (pone_str_bytes (e_depth E) s1 s) (\<lambda>b1 s.
     andthen (pone_str_bytes (e_depth E) s2 s) (\<lambda>b2. Ret (bytes_cmp b1 b2)))))"

definition pone_str_rel :: "('z pone_rt_scheme) \<Rightarrow> (int \<Rightarrow> bool) \<Rightarrow> nat \<Rightarrow> ptr \<Rightarrow> ptr \<Rightarrow> bool pone" where
  "pone_str_rel E f w v1 v2 s = andthen (pone_str_cmp E w v1 v2 s) (\<lambda>n. Ret (f n))"

definition pone_str_eq :: "('z pone_rt_scheme) \<Rightarrow> nat \<Rightarrow> ptr \<Rightarrow> ptr \<Rightarrow> bool pone" where
  "pone_str_eq E = pone_str_rel E (\<lambda>n. n = 0)"
definition pone_str_ne :: "('z pone_rt_scheme) \<Rightarrow> nat \<Rightarrow> ptr \<Rightarrow> ptr \<Rightarrow> bool pone" where
  "pone_str_ne E = pone_str_rel E (\<lambda>n. n \<noteq> 0)"
definition pone_str_le :: "('z pone_rt_scheme) \<Rightarrow> nat \<Rightarrow> ptr \<Rightarrow> ptr \<Rightarrow> bool pone" where
  "pone_str_le E = pone_str_rel E (\<lambda>n. n \<le> 0)"
definition pone_str_lt :: "('z pone_rt_scheme) \<Rightarrow> nat \<Rightarrow> ptr \<Rightarrow> ptr \<Rightarrow> bool pone" where
  "pone_str_lt E = pone_str_rel E (\<lambda>n. n < 0)"
definition pone_str_ge :: "('z pone_rt_scheme) \<Rightarrow> nat \<Rightarrow> ptr \<Rightarrow> ptr \<Rightarrow> bool pone" where
  "pone_str_ge E = pone_str_rel E (\<lambda>n. n \<ge> 0)"
definition pone_str_gt :: "('z pone_rt_scheme) \<Rightarrow> nat \<Rightarrow> ptr \<Rightarrow> ptr \<Rightarrow> bool pone" where
  "pone_str_gt E = pone_str_rel E (\<lambda>n. n > 0)"

definition pone_smart_match :: "('z pone_rt_scheme) \<Rightarrow> nat \<Rightarrow> ptr \<Rightarrow> ptr \<Rightarrow> ptr pone" where
  "pone_smart_match E w v1 v2 s =
     andthen (pone_find_method (e_depth E) w v2 (bs ''ACCEPTS'') s) (\<lambda>m s.
     if m \<noteq> Null then pone_code_call E w (''op.c'', 273, ''pone_smart_match'') m v2 [v1] s
     else andthen (pone_str_eq E w v1 v2 s) (\<lambda>b. Ret (pone_bool b)))"

section \<open>Elements\<close>

definition pone_ary_assign_pos :: "('z pone_rt_scheme) \<Rightarrow> nat \<Rightarrow> ptr \<Rightarrow> ptr \<Rightarrow> ptr \<Rightarrow> unit pone" where
  "pone_ary_assign_pos E w self pos val s =
     (if self = Null \<or> pos = Null \<or> val = Null \<or> type_at s self \<noteq> PONE_ARRAY then Abort
      else andthen (pone_intify E w pos s) (\<lambda>i. pone_ary_assign self (sint i) val))"

definition pone_assign_pos :: "('z pone_rt_scheme) \<Rightarrow> nat \<Rightarrow> ptr \<Rightarrow> ptr \<Rightarrow> ptr \<Rightarrow> ptr pone" where
  "pone_assign_pos E w var pos rhs s =
     (if type_at s var = PONE_ARRAY
      then andthen (pone_ary_assign_pos E w var pos rhs s) (\<lambda>_. Ret rhs)
      else pone_call_method E w (''op.c'', 116, ''pone_assign_pos'') var (bs ''ASSIGN-POS'') [pos, rhs] s)"

definition pone_assign_key :: "('z pone_rt_scheme) \<Rightarrow> nat \<Rightarrow> ptr \<Rightarrow> ptr \<Rightarrow> ptr \<Rightarrow> ptr pone" where
  "pone_assign_key E w var key rhs =
     pone_call_method E w (''op.c'', 128, ''pone_assign_key'') var (bs ''ASSIGN-KEY'') [key, rhs]"

definition pone_at_pos :: "('z pone_rt_scheme) \<Rightarrow> nat \<Rightarrow> ptr \<Rightarrow> ptr \<Rightarrow> ptr pone" where
  "pone_at_pos E w obj pos s =
     (if type_at s obj = PONE_ARRAY
      then andthen (pone_intify E w pos s) (\<lambda>i. pone_ary_at_pos obj (sint i))
      else pone_call_method E w (''op.c'', 447, ''pone_at_pos'') obj (bs ''AT-POS'') [pos] s)"

definition pone_at_key :: "('z pone_rt_scheme) \<Rightarrow> nat \<Rightarrow> ptr \<Rightarrow> ptr \<Rightarrow> ptr pone" where
  "pone_at_key E w obj key s =
     (if type_at s obj = PONE_MAP
      then andthen (pone_stringify E w key s) (\<lambda>k. pone_map_at_key (e_depth E) obj k)
      else pone_call_method E w (''op.c'', 455, ''pone_at_key'') obj (bs ''AT-KEY'') [key] s)"

definition pone_type_name :: "pone_val \<Rightarrow> string option" where
  "pone_type_name v =
     (case pone_type v of
        PONE_FREE \<Rightarrow> None
      | PONE_NIL \<Rightarrow> Some ''PONE_NIL'' | PONE_INT \<Rightarrow> Some ''PONE_INT'' | PONE_NUM \<Rightarrow> Some ''PONE_NUM''
      | PONE_STRING \<Rightarrow> Some ''PONE_STRING'' | PONE_ARRAY \<Rightarrow> Some ''PONE_ARRAY''
      | PONE_BOOL \<Rightarrow> Some ''PONE_BOOL'' | PONE_MAP \<Rightarrow> Some ''PONE_MAP'' | PONE_CODE \<Rightarrow> Some ''PONE_CODE''
      | PONE_OBJ \<Rightarrow> Some ''PONE_OBJ'' | PONE_LEX \<Rightarrow> Some ''PONE_LEX'' | PONE_OPAQUE \<Rightarrow> Some ''PONE_OPAQUE'')"

section \<open>Iteration\<close>

definition pone_iter_init :: "('z pone_rt_scheme) \<Rightarrow> nat \<Rightarrow> ptr \<Rightarrow> ptr pone" where
  "pone_iter_init E w obj s =
     (if \<not> pone_alive (st_heap s obj) then Abort
      else andthen (pone_find_method (e_depth E) w obj (bs ''iterator'') s) (\<lambda>m s.
        if m \<noteq> Null \<and> pone_defined (st_heap s m)
        then pone_code_call E w (''iter.c'', 10, ''pone_iter_init'') m obj [] s
        else pone_throw_str w (bs ''There is no '' @ [39] @ bs ''iterator'' @ [39] @ bs '' method on the object'') s))"

definition pone_iter_next :: "('z pone_rt_scheme) \<Rightarrow> nat \<Rightarrow> ptr \<Rightarrow> ptr pone" where
  "pone_iter_next E w iter s =
     (if \<not> pone_alive (st_heap s iter) then Abort
      else pone_call_method E w (''iter.c'', 20, ''pone_iter_next'') iter (bs ''pull-one'') [] s)"

section \<open>Deep copies\<close>

fun copy_into :: "(ptr \<Rightarrow> ptr pone) \<Rightarrow> ptr \<Rightarrow> ptr \<Rightarrow> nat list \<Rightarrow> unit pone" where
  "copy_into f dst src [] s = Ret () s"
| "copy_into f dst src (i # ixs) s =
     andthen (pone_ary_at_pos src (int i) s) (\<lambda>v s.
     andthen (f v s) (\<lambda>c s.
     andthen (pone_ary_push dst c s) (\<lambda>_. copy_into f dst src ixs)))"

definition pone_ary_copy :: "(ptr \<Rightarrow> ptr pone) \<Rightarrow> nat \<Rightarrow> ptr \<Rightarrow> ptr pone" where
  "pone_ary_copy f w obj s =
     andthen (pone_ary_new w [] s) (\<lambda>r s.
     andthen (pone_ary_size obj s) (\<lambda>n s.
     andthen (copy_into f r obj [0..<n] s) (\<lambda>_. Ret r)))"

fun copy_entries :: "(ptr \<Rightarrow> ptr pone) \<Rightarrow> ('z pone_rt_scheme) \<Rightarrow> nat \<Rightarrow> ptr \<Rightarrow> (ptr \<times> ptr) list \<Rightarrow> unit pone" where
  "copy_entries f E w dst [] s = Ret () s"
| "copy_entries f E w dst ((k, v) # kvs) s =
     andthen (f k s) (\<lambda>k' s.
     andthen (f v s) (\<lambda>v' s.
     andthen (pone_map_assign_key E w dst k' v' s) (\<lambda>_. copy_entries f E w dst kvs)))"

definition pone_map_copy :: "(ptr \<Rightarrow> ptr pone) \<Rightarrow> ('z pone_rt_scheme) \<Rightarrow> nat \<Rightarrow> ptr \<Rightarrow> ptr pone" where
  "pone_map_copy f E w obj s =
     andthen (pone_map_new w s) (\<lambda>r s.
     case val_as (st_heap s obj) of
       AsMap h len \<Rightarrow> andthen (copy_entries f E w r (kh_foreach h) s) (\<lambda>_. Ret r)
     | _ \<Rightarrow> Abort)"

text \<open>The recursion over nested containers uses the C stack.\<close>

primrec pone_val_copy :: "nat \<Rightarrow> ('z pone_rt_scheme) \<Rightarrow> nat \<Rightarrow> ptr \<Rightarrow> ptr pone" where
  "pone_val_copy 0 = (\<lambda>E w obj s. Undef)"
| "pone_val_copy (Suc depth) = (\<lambda>E w obj s.
     case val_as (st_heap s obj) of
       AsFree _ \<Rightarrow> Abort
     | AsNil \<Rightarrow> Ret obj s
     | AsBool _ \<Rightarrow> Ret obj s
     | AsInt i \<Rightarrow> pone_int_new w i s
     | AsNum n \<Rightarrow> pone_num_new w n s
     | AsStr _ _ \<Rightarrow>
         andthen (pone_str_bytes (e_depth E) obj s) (\<lambda>b s.
         if has_flag PONE_FLAGS_STR_UTF8 (st_heap s obj) then pone_str_new_strdup w b (length b) s
         else pone_bytes_new_strdup w b (length b) s)
     | AsAry _ _ _ \<Rightarrow> pone_ary_copy (pone_val_copy depth E w) w obj s
     | AsMap _ _ \<Rightarrow> pone_map_copy (pone_val_copy depth E w) E w obj s
     | AsCode _ _ \<Rightarrow> Abort
     | AsOpaque _ \<Rightarrow> pone_opaque_copy w obj s
     | AsObj _ _ \<Rightarrow> pone_obj_copy w obj s
     | AsLex _ _ _ \<Rightarrow> Abort)"

section \<open>Scope chains\<close>

text \<open>\<open>lex_chain h lx ms\<close>: the scopes from \<open>lx\<close> outwards are live and end, with the tables \<open>ms\<close>.\<close>

fun lex_chain :: "pone_heap \<Rightarrow> ptr \<Rightarrow> ptr str_khash list \<Rightarrow> bool" where
  "lex_chain h lx [] \<longleftrightarrow> lx = Null"
| "lex_chain h lx (m # ms) \<longleftrightarrow>
     lx \<noteq> Null \<and> (\<exists>parent tid. val_as (h lx) = AsLex parent m tid \<and> lex_chain h parent ms)"

fun first_binding :: "ptr str_khash list \<Rightarrow> bytes \<Rightarrow> ptr option" where
  "first_binding [] k = None"
| "first_binding (m # ms) k = (case str_kh_map m k of Some v \<Rightarrow> Some v | None \<Rightarrow> first_binding ms k)"

lemma lex_search_spec:
  assumes "lex_chain h lx ms" "\<forall>m \<in> set ms. str_kh_inv m"
  shows "lex_search h key lx =
    Some (case first_binding ms (cstr key) of Some v \<Rightarrow> Found v | None \<Rightarrow> NotFound)"
  using assms
proof (induction ms arbitrary: lx)
  case Nil
  then show ?case by (simp add: lex_search.simps)
next
  case (Cons m ms)
  then obtain parent tid where p: "val_as (h lx) = AsLex parent m tid" "lex_chain h parent ms" "lx \<noteq> Null"
    by auto
  have alive: "pone_alive (h lx)" using p(1) by (simp add: pone_alive_iff)
  have get: "str_kh_get m key = Some (str_kh_map m (cstr key))"
    using str_table.table.find_look [of m key] Cons.prems(2) by simp
  show ?case using Cons.IH [OF p(2)] Cons.prems(2) p alive get
    by (cases "str_kh_map m (cstr key)") (simp_all add: lex_search.simps [of h key lx])
qed

lemma lex_chain_unique: "lex_chain h lx ms \<Longrightarrow> lex_chain h lx ms' \<Longrightarrow> ms = ms'"
proof (induction ms arbitrary: lx ms')
  case Nil
  then show ?case by (cases ms') auto
next
  case (Cons m ms)
  then show ?case by (cases ms') auto
qed

text \<open>A scope does not occur among its own parents, so changing it leaves them alone.\<close>

lemma lex_chain_outer:
  assumes "lex_chain h p ms" "lex_chain h lx ms'" "length ms < length ms'"
  shows "lex_chain (h(lx := v)) p ms"
  using assms(1,3)
proof (induction ms arbitrary: p)
  case (Cons m ms)
  have "p \<noteq> lx"
  proof
    assume "p = lx"
    then have "ms' = m # ms" using Cons.prems(1) lex_chain_unique [OF assms(2)] by blast
    then show False using Cons.prems(2) by simp
  qed
  then show ?case using Cons by auto
qed simp

section \<open>Comparison of byte strings\<close>

lemma memcmp_range: "memcmp a b \<in> {-1, 0, 1}"
  by (induction a b rule: memcmp.induct) auto

lemma memcmp_zero: "length a = length b \<Longrightarrow> memcmp a b = 0 \<longleftrightarrow> a = b"
  by (induction a b rule: memcmp.induct) auto

lemma memcmp_swap: "memcmp b a = - memcmp a b"
  by (induction a b rule: memcmp.induct) auto

text \<open>\<open>bytes_cmp\<close> is the comparison of the lexicographic order with prefixes first.\<close>

fun bytes_less :: "bytes \<Rightarrow> bytes \<Rightarrow> bool" where
  "bytes_less [] ys \<longleftrightarrow> ys \<noteq> []"
| "bytes_less (x # xs) [] \<longleftrightarrow> False"
| "bytes_less (x # xs) (y # ys) \<longleftrightarrow> x < y \<or> x = y \<and> bytes_less xs ys"

lemma bytes_cmp_Cons:
  "bytes_cmp (a # xs) (b # ys) = (if a < b then -1 else if b < a then 1 else bytes_cmp xs ys)"
  by (simp add: bytes_cmp_def Let_def)

lemma bytes_cmp_Nil: "bytes_cmp [] [] = 0" "bytes_cmp [] (b # ys) = -1" "bytes_cmp (a # xs) [] = 1"
  by (simp_all add: bytes_cmp_def Let_def)

lemma bytes_cmp_less: "bytes_cmp a b < 0 \<longleftrightarrow> bytes_less a b"
proof (induction a b rule: bytes_less.induct)
  case (1 ys)
  then show ?case by (cases ys) (simp_all add: bytes_cmp_Nil)
qed (auto simp: bytes_cmp_Cons bytes_cmp_Nil)

lemma bytes_cmp_zero: "bytes_cmp a b = 0 \<longleftrightarrow> a = b"
proof (induction a b rule: bytes_less.induct)
  case (1 ys)
  then show ?case by (cases ys) (simp_all add: bytes_cmp_Nil)
qed (auto simp: bytes_cmp_Cons bytes_cmp_Nil)

lemma bytes_cmp_swap: "bytes_cmp b a = - bytes_cmp a b"
  by (auto simp: bytes_cmp_def Let_def memcmp_swap [of "take _ b"] min.commute)

lemma bytes_less_trans: "bytes_less a b \<Longrightarrow> bytes_less b c \<Longrightarrow> bytes_less a c"
proof (induction a b arbitrary: c rule: bytes_less.induct)
  case (1 ys)
  then show ?case by (cases ys; cases c) auto
next
  case (3 x xs y ys)
  then show ?case by (cases c) auto
qed auto

section \<open>Integer arithmetic\<close>

lemma c_long_Some: "c_long i = Some c \<Longrightarrow> sint c = i"
proof -
  assume "c_long i = Some c"
  then have i: "- (2 ^ 63) \<le> i" "i < 2 ^ 63" "c = word_of_int i" by (auto simp: c_long_def split: if_splits)
  then have "signed_take_bit 63 i = i" by (intro signed_take_bit_int_eq_self) simp_all
  then show "sint c = i" using i(3) by (simp add: sint_sbintrunc')
qed

lemma c_long_fits: "- (2 ^ 63) \<le> i \<Longrightarrow> i < 2 ^ 63 \<Longrightarrow> \<exists>c. c_long i = Some c \<and> sint c = i"
  using c_long_Some by (auto simp: c_long_def)

lemma sint_long: "- (2 ^ 63) \<le> sint (a :: pone_int_t)" "sint (a :: pone_int_t) < 2 ^ 63"
  using sint_greater_eq [of a] sint_less [of a] by simp_all

lemma sdiv_fits:
  assumes "sint (b :: pone_int_t) \<noteq> 0" "\<not> (sint (a :: pone_int_t) = - (2 ^ 63) \<and> sint b = - 1)"
  shows "- (2 ^ 63) \<le> sint a sdiv sint b" "sint a sdiv sint b < 2 ^ 63"
proof -
  have r: "\<bar>sint a sdiv sint b\<bar> \<le> \<bar>sint a\<bar>" using sdiv_int_range [of "sint a" "sint b"] by auto
  then show "- (2 ^ 63) \<le> sint a sdiv sint b" using sint_long [of a] by linarith
  show "sint a sdiv sint b < 2 ^ 63"
  proof (cases "sint a = - (2 ^ 63)")
    case True
    then have "sint b \<noteq> - 1" using assms(2) by blast
    moreover have "sint a \<noteq> 0" using True by simp
    ultimately have "sint a sdiv sint b \<noteq> - sint a" using int_sdiv_negated_is_minus1 by blast
    moreover have "\<bar>sint a\<bar> = 2 ^ 63" "- sint a = 2 ^ 63" using True by simp_all
    ultimately show ?thesis using r by linarith
  next
    case False
    then show ?thesis using r sint_long [of a] by linarith
  qed
qed

section \<open>Properties\<close>

text \<open>
  C25: reading a variable finds the binding of the innermost scope that has one, else the
  global of that name; when there is neither, an exception is raised.
\<close>

theorem pone_get_lex_innermost:
  assumes "lex_chain (st_heap s) (w_lex (st_world s w)) ms" "\<forall>m \<in> set ms. str_kh_inv m"
    "str_kh_inv (u_globals (st_universe s))"
  shows "pone_get_lex w key s =
    (case first_binding ms (cstr key) of
       Some v \<Rightarrow> Ret v s
     | None \<Rightarrow>
         (case str_kh_map (u_globals (st_universe s)) (cstr key) of
            Some v \<Rightarrow> Ret v s
          | None \<Rightarrow> pone_throw_str w (bs ''Unknown lexical variable: '' @ cstr key) s))"
  using lex_search_spec [OF assms(1,2), of key] str_table.table.find_look [OF assms(3), of key]
  by (simp add: pone_get_lex_def split: option.splits)

theorem pone_get_lex_innermost_witness:
  "pone_get_lex 0 [120] release_demo = pone_throw_str 0 (bs ''Unknown lexical variable: '' @ cstr [120]) release_demo"
proof -
  have "lex_chain (st_heap release_demo) (w_lex (st_world release_demo 0)) [kh_init]"
    by (simp add: release_demo_def)
  moreover have "u_globals (st_universe release_demo) = kh_init"
    by (simp add: release_demo_def blank_universe_def)
  ultimately show ?thesis
    using pone_get_lex_innermost [of release_demo 0 "[kh_init]" "[120]"]
    by (simp add: kh_init_inv kh_init_lookup)
qed



text \<open>
  String comparison is a total order on byte strings: it is 0 exactly on equal
  strings, changes sign when the operands are exchanged, and \<open>less\<close> is the lexicographic order with
  prefixes first, which is transitive.
\<close>

theorem bytes_cmp_order:
  "(bytes_cmp a b = 0 \<longleftrightarrow> a = b) \<and> bytes_cmp b a = - bytes_cmp a b \<and>
   (bytes_cmp a b < 0 \<longleftrightarrow> bytes_less a b) \<and>
   (bytes_cmp a b < 0 \<and> bytes_cmp b c < 0 \<longrightarrow> bytes_cmp a c < 0)"
proof (intro conjI impI)
  show "bytes_cmp a b = 0 \<longleftrightarrow> a = b" by (rule bytes_cmp_zero)
  show "bytes_cmp b a = - bytes_cmp a b" by (rule bytes_cmp_swap)
  show "bytes_cmp a b < 0 \<longleftrightarrow> bytes_less a b" by (rule bytes_cmp_less)
  assume "bytes_cmp a b < 0 \<and> bytes_cmp b c < 0"
  then show "bytes_cmp a c < 0" unfolding bytes_cmp_less using bytes_less_trans by blast
qed

theorem bytes_cmp_order_witness:
  "bytes_cmp [97] [97, 98] < 0 \<and> bytes_cmp [97, 98] [99] < 0 \<and> bytes_cmp [97] [99] < 0"
proof -
  have "bytes_cmp [97] [97, 98] < 0" "bytes_cmp [97, 98] [99] < 0" by (simp_all add: bytes_cmp_def)
  then show ?thesis using bytes_cmp_order [of "[97]" "[97, 98]" "[99]"] by blast
qed



end
