(* ===== verification/Sort_R.thy ===== *)
theory Sort_R
  imports Pone_Prelude "HOL-Library.Multiset"
begin

text \<open>
  The quicksort of \<^verbatim>\<open>src/sort_r.h\<close>: insertion sort below seven elements, otherwise a partition
  around the median of three that carries the pivot from end to end. A block of elements is a
  list, pointers into it are indices; the two recursive calls work on the parts of the block on
  either side of the pivot. The comparison is a parameter; the locale states what a comparison
  must satisfy, and the result is a sorted permutation for every such comparison.
\<close>

section \<open>The algorithm\<close>

definition swap :: "nat \<Rightarrow> nat \<Rightarrow> 'a list \<Rightarrow> 'a list" where
  "swap i j xs = xs[i := xs ! j, j := xs ! i]"

definition sort_r_cmpswap :: "('a \<Rightarrow> 'a \<Rightarrow> int) \<Rightarrow> nat \<Rightarrow> nat \<Rightarrow> 'a list \<Rightarrow> 'a list \<times> bool" where
  "sort_r_cmpswap cmp a b xs =
     (if cmp (xs ! a) (xs ! b) > 0 then (swap a b xs, True) else (xs, False))"

fun ins_back :: "('a \<Rightarrow> 'a \<Rightarrow> int) \<Rightarrow> nat \<Rightarrow> 'a list \<Rightarrow> 'a list" where
  "ins_back cmp 0 xs = xs"
| "ins_back cmp (Suc j) xs =
     (case sort_r_cmpswap cmp j (Suc j) xs of (ys, b) \<Rightarrow> if b then ins_back cmp j ys else ys)"

definition insertion_sort :: "('a \<Rightarrow> 'a \<Rightarrow> int) \<Rightarrow> 'a list \<Rightarrow> 'a list" where
  "insertion_sort cmp xs = fold (ins_back cmp) [1..<length xs] xs"

text \<open>The position of the median of the first, middle and last element.\<close>

definition median3 :: "('a \<Rightarrow> 'a \<Rightarrow> int) \<Rightarrow> 'a list \<Rightarrow> nat" where
  "median3 cmp xs =
     (let l0 = 0; l1 = length xs div 2; l2 = length xs - 1;
          (l0, l1) = (if cmp (xs ! l0) (xs ! l1) > 0 then (l1, l0) else (l0, l1))
      in if cmp (xs ! l1) (xs ! l2) > 0
         then let (l1, l2) = (l2, l1) in if cmp (xs ! l0) (xs ! l1) > 0 then l0 else l1
         else l1)"

function scan_left :: "('a \<Rightarrow> 'a \<Rightarrow> int) \<Rightarrow> nat \<Rightarrow> nat \<Rightarrow> 'a list \<Rightarrow> nat \<times> nat \<times> 'a list" where
  "scan_left cmp pl pr xs =
     (if pl < pr
      then let r = sort_r_cmpswap cmp pl pr xs
           in if snd r then (pl, pr - 1, fst r) else scan_left cmp (Suc pl) pr (fst r)
      else (pl, pr, xs))"
  by pat_completeness auto
termination by (relation "measure (\<lambda>(_, pl, pr, _). pr - pl)") auto

function scan_right :: "('a \<Rightarrow> 'a \<Rightarrow> int) \<Rightarrow> nat \<Rightarrow> nat \<Rightarrow> 'a list \<Rightarrow> nat \<times> nat \<times> 'a list" where
  "scan_right cmp pl pr xs =
     (if pl < pr
      then let r = sort_r_cmpswap cmp pl pr xs
           in if snd r then (Suc pl, pr, fst r) else scan_right cmp pl (pr - 1) (fst r)
      else (pl, pr, xs))"
  by pat_completeness auto
termination by (relation "measure (\<lambda>(_, pl, pr, _). pr - pl)") auto

declare scan_left.simps [simp del] scan_right.simps [simp del]

lemma scan_left_swap:
  "pl < pr \<Longrightarrow> cmp (xs ! pl) (xs ! pr) > 0 \<Longrightarrow> scan_left cmp pl pr xs = (pl, pr - 1, swap pl pr xs)"
  and scan_left_step:
  "pl < pr \<Longrightarrow> \<not> cmp (xs ! pl) (xs ! pr) > 0 \<Longrightarrow> scan_left cmp pl pr xs = scan_left cmp (Suc pl) pr xs"
  and scan_left_stop: "\<not> pl < pr \<Longrightarrow> scan_left cmp pl pr xs = (pl, pr, xs)"
  by (simp_all add: scan_left.simps [of cmp pl pr xs] sort_r_cmpswap_def)

lemma scan_right_swap:
  "pl < pr \<Longrightarrow> cmp (xs ! pl) (xs ! pr) > 0 \<Longrightarrow> scan_right cmp pl pr xs = (Suc pl, pr, swap pl pr xs)"
  and scan_right_step:
  "pl < pr \<Longrightarrow> \<not> cmp (xs ! pl) (xs ! pr) > 0 \<Longrightarrow> scan_right cmp pl pr xs = scan_right cmp pl (pr - 1) xs"
  and scan_right_stop: "\<not> pl < pr \<Longrightarrow> scan_right cmp pl pr xs = (pl, pr, xs)"
  by (simp_all add: scan_right.simps [of cmp pl pr xs] sort_r_cmpswap_def)

lemmas scan_left_cases = scan_left_swap scan_left_step scan_left_stop
lemmas scan_right_cases = scan_right_swap scan_right_step scan_right_stop

lemma scan_left_shrinks:
  "pl < pr \<Longrightarrow> scan_left cmp pl pr xs = (pl', pr', ys) \<Longrightarrow>
     pl \<le> pl' \<and> pl' \<le> pr' \<and> pr' \<le> pr \<and> pr' - pl' < pr - pl"
proof (induction "pr - pl" arbitrary: pl rule: less_induct)
  case less
  show ?case
  proof (cases "cmp (xs ! pl) (xs ! pr) > 0")
    case True
    then show ?thesis using less.prems by (auto simp: scan_left_swap)
  next
    case False
    then have eq: "scan_left cmp (Suc pl) pr xs = (pl', pr', ys)"
      using less.prems by (simp add: scan_left_step)
    show ?thesis
    proof (cases "Suc pl < pr")
      case True
      have lt: "pr - Suc pl < pr - pl" using less.prems(1) by simp
      show ?thesis using less.hyps [OF lt True eq] lt by linarith
    next
      case False
      then show ?thesis using eq less.prems(1) by (auto simp: scan_left_stop)
    qed
  qed
qed

lemma scan_right_shrinks:
  "pl \<le> pr \<Longrightarrow> scan_right cmp pl pr xs = (pl', pr', ys) \<Longrightarrow>
     pl \<le> pl' \<and> pl' \<le> pr' \<and> pr' \<le> pr \<and> pr' - pl' \<le> pr - pl"
proof (induction "pr - pl" arbitrary: pr rule: less_induct)
  case less
  consider "pl < pr" "cmp (xs ! pl) (xs ! pr) > 0" | "pl < pr" "\<not> cmp (xs ! pl) (xs ! pr) > 0" | "\<not> pl < pr"
    by blast
  then show ?case
  proof cases
    case 2
    then have eq: "scan_right cmp pl (pr - 1) xs = (pl', pr', ys)"
      using less.prems by (simp add: scan_right_step)
    have lt: "pr - 1 - pl < pr - pl" "pl \<le> pr - 1" using 2(1) by simp_all
    show ?thesis using less.hyps [OF lt eq] lt by linarith
  qed (use less.prems in \<open>auto simp: scan_right_cases\<close>)
qed

function partition_loop :: "('a \<Rightarrow> 'a \<Rightarrow> int) \<Rightarrow> nat \<Rightarrow> nat \<Rightarrow> 'a list \<Rightarrow> nat \<times> 'a list" where
  "partition_loop cmp pl pr xs =
     (if pl < pr
      then case scan_left cmp pl pr xs of
             (pl1, pr1, ys) \<Rightarrow> (case scan_right cmp pl1 pr1 ys of
                (pl2, pr2, zs) \<Rightarrow> partition_loop cmp pl2 pr2 zs)
      else (pl, xs))"
  by pat_completeness auto
termination
proof (relation "measure (\<lambda>(_, pl, pr, _). pr - pl)")
  fix cmp :: "'a \<Rightarrow> 'a \<Rightarrow> int" and pl pr pl1 pr1 pl2 pr2 :: nat and xs ys zs :: "'a list" and r1 r2
  assume "pl < pr" "(pl1, r1) = scan_left cmp pl pr xs" "(pr1, ys) = r1"
    "(pl2, r2) = scan_right cmp pl1 pr1 ys" "(pr2, zs) = r2"
  then have lt: "pl < pr" and l: "scan_left cmp pl pr xs = (pl1, pr1, ys)"
    and r: "scan_right cmp pl1 pr1 ys = (pl2, pr2, zs)" by simp_all
  have "pl1 \<le> pr1" "pr1 - pl1 < pr - pl" using scan_left_shrinks [OF lt l] by simp_all
  moreover have "pr2 - pl2 \<le> pr1 - pl1" using scan_right_shrinks [OF _ r] calculation(1) by simp
  ultimately show "((cmp, pl2, pr2, zs), cmp, pl, pr, xs) \<in> measure (\<lambda>(_, pl, pr, _). pr - pl)"
    by simp
qed simp

declare partition_loop.simps [simp del]

lemma partition_stop: "\<not> pl < pr \<Longrightarrow> partition_loop cmp pl pr xs = (pl, xs)"
  by (simp add: partition_loop.simps [of cmp pl pr xs])

lemma partition_step:
  "pl < pr \<Longrightarrow> scan_left cmp pl pr xs = (pl1, pr1, ys) \<Longrightarrow> scan_right cmp pl1 pr1 ys = (pl2, pr2, zs) \<Longrightarrow>
     partition_loop cmp pl pr xs = partition_loop cmp pl2 pr2 zs"
  by (simp add: partition_loop.simps [of cmp pl pr xs])

text \<open>One round of the loop, as an induction rule.\<close>

lemma partition_induct [consumes 1, case_names stop step]:
  assumes "pl \<le> pr"
    and stop: "\<And>pl xs. P pl pl xs"
    and step: "\<And>pl pr xs pl1 pr1 ys pl2 pr2 zs.
      pl < pr \<Longrightarrow> scan_left cmp pl pr xs = (pl1, pr1, ys) \<Longrightarrow> scan_right cmp pl1 pr1 ys = (pl2, pr2, zs) \<Longrightarrow>
      pl \<le> pl1 \<Longrightarrow> pl1 \<le> pr1 \<Longrightarrow> pr1 \<le> pr \<Longrightarrow> pl1 \<le> pl2 \<Longrightarrow> pl2 \<le> pr2 \<Longrightarrow> pr2 \<le> pr1 \<Longrightarrow>
      P pl2 pr2 zs \<Longrightarrow> P pl pr xs"
  shows "P pl pr xs"
  using assms(1)
proof (induction "pr - pl" arbitrary: pl pr xs rule: less_induct)
  case (less pl pr xs)
  show ?case
  proof (cases "pl < pr")
    case True
    obtain pl1 pr1 ys where l: "scan_left cmp pl pr xs = (pl1, pr1, ys)" by (metis prod_cases3)
    obtain pl2 pr2 zs where r: "scan_right cmp pl1 pr1 ys = (pl2, pr2, zs)" by (metis prod_cases3)
    have b1: "pl \<le> pl1" "pl1 \<le> pr1" "pr1 \<le> pr" "pr1 - pl1 < pr - pl"
      using scan_left_shrinks [OF True l] by simp_all
    have b2: "pl1 \<le> pl2" "pl2 \<le> pr2" "pr2 \<le> pr1" "pr2 - pl2 \<le> pr1 - pl1"
      using scan_right_shrinks [OF b1(2) r] by simp_all
    have "P pl2 pr2 zs" by (rule less.hyps) (use b1 b2 in simp_all)
    then show ?thesis by (rule step [OF True l r b1(1-3) b2(1-3)])
  next
    case False
    then show ?thesis using less.prems stop by simp
  qed
qed

lemma partition_bounds:
  "pl \<le> pr \<Longrightarrow> partition_loop cmp pl pr xs = (k, ys) \<Longrightarrow> pl \<le> k \<and> k \<le> pr"
proof (induction pl pr xs arbitrary: rule: partition_induct [where cmp = cmp])
  case (stop pl xs)
  then show ?case by (simp add: partition_stop)
next
  case (step pl pr xs pl1 pr1 y pl2 pr2 z)
  have "pl2 \<le> k \<and> k \<le> pr2" using step.IH step.prems partition_step [OF step.hyps(1-3)] by simp
  then show ?case using step.hyps(4-9) by simp
qed

definition pivot_split :: "('a \<Rightarrow> 'a \<Rightarrow> int) \<Rightarrow> 'a list \<Rightarrow> nat \<times> 'a list" where
  "pivot_split cmp xs =
     (let lst = length xs - 1 in partition_loop cmp 0 lst (swap (median3 cmp xs) lst xs))"

text \<open>Reordering keeps the elements.\<close>

lemma length_swap [simp]: "length (swap i j xs) = length xs"
  by (simp add: swap_def)

lemma nth_swap:
  "i < length xs \<Longrightarrow> j < length xs \<Longrightarrow>
     swap i j xs ! k = (if k = j then xs ! i else if k = i then xs ! j else xs ! k)"
  by (auto simp: swap_def nth_list_update)

lemma mset_swap_idx [simp]: "i < length xs \<Longrightarrow> j < length xs \<Longrightarrow> mset (swap i j xs) = mset xs"
  by (simp add: swap_def mset_swap)

lemma mset_scan_left: "pr < length xs \<Longrightarrow> scan_left cmp pl pr xs = (a, b, ys) \<Longrightarrow> mset ys = mset xs"
proof (induction "pr - pl" arbitrary: pl rule: less_induct)
  case less
  consider "pl < pr" "cmp (xs ! pl) (xs ! pr) > 0" | "pl < pr" "\<not> cmp (xs ! pl) (xs ! pr) > 0" | "\<not> pl < pr"
    by blast
  then show ?case
  proof cases
    case 2
    then show ?thesis using less.hyps [of "Suc pl"] less.prems by (simp add: scan_left_step)
  qed (use less.prems in \<open>auto simp: scan_left_swap scan_left_stop\<close>)
qed

lemma mset_scan_right: "pr < length xs \<Longrightarrow> scan_right cmp pl pr xs = (a, b, ys) \<Longrightarrow> mset ys = mset xs"
proof (induction "pr - pl" arbitrary: pr rule: less_induct)
  case less
  consider "pl < pr" "cmp (xs ! pl) (xs ! pr) > 0" | "pl < pr" "\<not> cmp (xs ! pl) (xs ! pr) > 0" | "\<not> pl < pr"
    by blast
  then show ?case
  proof cases
    case 2
    then show ?thesis using less.hyps [of "pr - 1"] less.prems by (simp add: scan_right_step)
  qed (use less.prems in \<open>auto simp: scan_right_swap scan_right_stop\<close>)
qed

lemma mset_partition:
  "pl \<le> pr \<Longrightarrow> pr < length xs \<Longrightarrow> partition_loop cmp pl pr xs = (k, ys) \<Longrightarrow> mset ys = mset xs"
proof (induction pl pr xs rule: partition_induct [where cmp = cmp])
  case (stop pl xs)
  then show ?case by (simp add: partition_stop)
next
  case (step pl pr xs pl1 pr1 y pl2 pr2 z)
  have y: "mset y = mset xs" by (rule mset_scan_left [OF step.prems(1) step.hyps(2)])
  then have ly: "pr1 < length y" using step.prems(1) step.hyps(6) mset_eq_length [OF y] by simp
  have z: "mset z = mset y" by (rule mset_scan_right [OF ly step.hyps(3)])
  then have "pr2 < length z" using ly step.hyps(9) mset_eq_length [OF z] by simp
  then have "mset ys = mset z"
    using step.IH step.prems(2) partition_step [OF step.hyps(1-3)] by simp
  then show ?case using y z by simp
qed

lemma median3_bound: "xs \<noteq> [] \<Longrightarrow> median3 cmp xs < length xs"
  by (auto simp: median3_def Let_def)

lemma pivot_split_bounds:
  assumes "pivot_split cmp xs = (k, ys)" "xs \<noteq> []"
  shows "k < length xs" "mset ys = mset xs" "length ys = length xs"
proof -
  let ?l = "length xs - 1"
  have p: "partition_loop cmp 0 ?l (swap (median3 cmp xs) ?l xs) = (k, ys)"
    using assms(1) by (simp add: pivot_split_def Let_def)
  have l: "?l < length xs" using assms(2) by simp
  have "k \<le> ?l" using partition_bounds [OF _ p] by simp
  then show "k < length xs" using l by linarith
  show m: "mset ys = mset xs"
    using mset_partition [OF _ _ p] l median3_bound [OF assms(2)] by simp
  show "length ys = length xs" using mset_eq_length [OF m] .
qed

function sort_r_simple :: "('a \<Rightarrow> 'a \<Rightarrow> int) \<Rightarrow> 'a list \<Rightarrow> 'a list" where
  "sort_r_simple cmp xs =
     (if length xs < 7 then insertion_sort cmp xs
      else let p = pivot_split cmp xs
           in sort_r_simple cmp (take (fst p) (snd p)) @ snd p ! fst p #
              sort_r_simple cmp (drop (Suc (fst p)) (snd p)))"
  by pat_completeness auto
termination
proof (relation "measure (\<lambda>(_, xs). length xs)", goal_cases)
  case (2 cmp xs p)
  then show ?case using pivot_split_bounds [of cmp xs "fst p" "snd p"] by fastforce
next
  case (3 cmp xs p)
  then show ?case using pivot_split_bounds [of cmp xs "fst p" "snd p"] by fastforce
qed simp

declare sort_r_simple.simps [simp del]

section \<open>Insertion sort\<close>

lemma mset_ins_back: "j < length xs \<Longrightarrow> mset (ins_back cmp j xs) = mset xs"
proof (induction j arbitrary: xs)
  case (Suc j)
  then show ?case using Suc.IH [of "swap j (Suc j) xs"] by (simp add: sort_r_cmpswap_def)
qed simp

lemma mset_insertion_upto:
  "n \<le> length xs \<Longrightarrow> mset (fold (ins_back cmp) [1..<n] xs) = mset xs"
proof (induction n)
  case (Suc n)
  let ?ys = "fold (ins_back cmp) [1..<n] xs"
  have ys: "mset ?ys = mset xs" using Suc by simp
  show ?case
  proof (cases "1 \<le> n")
    case True
    have "n < length ?ys" using Suc.prems mset_eq_length [OF ys] by simp
    then show ?thesis using True ys mset_ins_back [of n ?ys cmp] by simp
  next
    case False
    then show ?thesis by simp
  qed
qed simp

lemma mset_insertion_sort: "mset (insertion_sort cmp xs) = mset xs"
  unfolding insertion_sort_def by (rule mset_insertion_upto) simp

section \<open>Comparisons\<close>

locale comparison =
  fixes cmp :: "'a \<Rightarrow> 'a \<Rightarrow> int"
  assumes cmp_total: "cmp x y > 0 \<Longrightarrow> cmp y x \<le> 0"
    and cmp_trans: "cmp x y \<le> 0 \<Longrightarrow> cmp y z \<le> 0 \<Longrightarrow> cmp x z \<le> 0"
begin

definition le :: "'a \<Rightarrow> 'a \<Rightarrow> bool" where
  "le x y \<longleftrightarrow> cmp x y \<le> 0"

lemma le_refl: "le x x"
  using cmp_total [of x x] by (cases "cmp x x > 0") (simp_all add: le_def)

lemma le_trans: "le x y \<Longrightarrow> le y z \<Longrightarrow> le x z"
  unfolding le_def by (rule cmp_trans)

lemma not_greater: "\<not> cmp x y > 0 \<Longrightarrow> le x y"
  by (simp add: le_def)

lemma greater: "cmp x y > 0 \<Longrightarrow> le y x"
  using cmp_total by (simp add: le_def)

text \<open>Sorted up to index \<open>n\<close>, but for the element at \<open>j\<close>, which may be too far right.\<close>

definition sorted_but :: "nat \<Rightarrow> nat \<Rightarrow> 'a list \<Rightarrow> bool" where
  "sorted_but n j xs \<longleftrightarrow> (\<forall>a b. a < b \<longrightarrow> b \<le> n \<longrightarrow> b \<noteq> j \<longrightarrow> le (xs ! a) (xs ! b))"

definition sorted_to :: "nat \<Rightarrow> 'a list \<Rightarrow> bool" where
  "sorted_to n xs \<longleftrightarrow> (\<forall>a b. a < b \<longrightarrow> b < n \<longrightarrow> le (xs ! a) (xs ! b))"

lemma sorted_but_stop:
  assumes "sorted_but n (Suc j) xs" "le (xs ! j) (xs ! Suc j)"
  shows "sorted_to (Suc n) xs"
  unfolding sorted_to_def
proof (intro allI impI)
  fix a b assume ab: "a < b" "b < Suc n"
  have *: "a < b \<Longrightarrow> b \<le> n \<Longrightarrow> b \<noteq> Suc j \<Longrightarrow> le (xs ! a) (xs ! b)" for a b
    using assms(1) by (simp add: sorted_but_def)
  show "le (xs ! a) (xs ! b)"
  proof (cases "b = Suc j")
    case True
    have "le (xs ! a) (xs ! j)" using * [of a j] ab True le_refl by (cases "a = j") auto
    then show ?thesis using le_trans assms(2) True by blast
  next
    case False
    then show ?thesis using * ab by simp
  qed
qed

lemma sorted_but_swap:
  assumes "sorted_but n (Suc j) xs" "le (xs ! Suc j) (xs ! j)" "Suc j \<le> n" "n < length xs"
  shows "sorted_but n j (swap j (Suc j) xs)"
  unfolding sorted_but_def
proof (intro allI impI)
  fix a b assume ab: "a < b" "b \<le> n" "b \<noteq> j"
  have *: "a < b \<Longrightarrow> b \<le> n \<Longrightarrow> b \<noteq> Suc j \<Longrightarrow> le (xs ! a) (xs ! b)" for a b
    using assms(1) by (simp add: sorted_but_def)
  have j: "j < length xs" "Suc j < length xs" using assms(3,4) by simp_all
  have "le (xs ! a) (xs ! j)" if "b = Suc j" "a \<noteq> j" using * [of a j] ab(1,2) that by simp
  moreover have "le (xs ! Suc j) (xs ! b)" "le (xs ! j) (xs ! b)" if "Suc j < b"
    using * [of _ b] ab(2) that by simp_all
  ultimately show "le (swap j (Suc j) xs ! a) (swap j (Suc j) xs ! b)"
    using * [of a b] ab assms(2) by (auto simp: nth_swap [OF j])
qed

lemma ins_back_sorted:
  "sorted_but n j xs \<Longrightarrow> j \<le> n \<Longrightarrow> n < length xs \<Longrightarrow> sorted_to (Suc n) (ins_back cmp j xs)"
proof (induction j arbitrary: xs)
  case 0
  then show ?case by (simp add: sorted_but_def sorted_to_def)
next
  case (Suc j)
  show ?case
  proof (cases "cmp (xs ! j) (xs ! Suc j) > 0")
    case True
    have "sorted_but n j (swap j (Suc j) xs)"
      by (rule sorted_but_swap [OF Suc.prems(1) greater [OF True] Suc.prems(2,3)])
    then show ?thesis using Suc True by (simp add: sort_r_cmpswap_def)
  next
    case False
    then show ?thesis
      using sorted_but_stop [OF Suc.prems(1) not_greater] by (simp add: sort_r_cmpswap_def)
  qed
qed

lemma insertion_sorted_upto:
  "n \<le> length xs \<Longrightarrow> sorted_to n (fold (ins_back cmp) [1..<n] xs)"
proof (induction n)
  case (Suc n)
  let ?ys = "fold (ins_back cmp) [1..<n] xs"
  have n: "n < length ?ys"
    using Suc.prems mset_eq_length [OF mset_insertion_upto [of n xs cmp]] by simp
  have "sorted_but n n ?ys" using Suc by (auto simp: sorted_but_def sorted_to_def)
  then have "sorted_to (Suc n) (ins_back cmp n ?ys)" by (rule ins_back_sorted) (use n in simp_all)
  then show ?case by (cases "1 \<le> n") (simp_all add: not_le sorted_to_def)
qed (simp add: sorted_to_def)

lemma insertion_sort_sorted: "sorted_wrt le (insertion_sort cmp xs)"
  using insertion_sorted_upto [of "length xs" xs] mset_eq_length [OF mset_insertion_sort [of cmp xs]]
  by (simp add: insertion_sort_def sorted_to_def sorted_wrt_iff_nth_less)

section \<open>The partition\<close>

text \<open>What is left of \<open>pl\<close> is at most the pivot, what is right of \<open>pr\<close> at least the pivot.\<close>

definition parted :: "'a \<Rightarrow> nat \<Rightarrow> nat \<Rightarrow> 'a list \<Rightarrow> bool" where
  "parted v pl pr xs \<longleftrightarrow>
     (\<forall>i < pl. le (xs ! i) v) \<and> (\<forall>i < length xs. pr < i \<longrightarrow> le v (xs ! i))"

lemma scan_left_parted:
  "parted v pl pr xs \<Longrightarrow> xs ! pr = v \<Longrightarrow> pl \<le> pr \<Longrightarrow> pr < length xs \<Longrightarrow>
   scan_left cmp pl pr xs = (pl', pr', ys) \<Longrightarrow> parted v pl' pr' ys \<and> ys ! pl' = v"
proof (induction "pr - pl" arbitrary: pl rule: less_induct)
  case less
  consider "pl < pr" "cmp (xs ! pl) (xs ! pr) > 0" | "pl < pr" "\<not> cmp (xs ! pl) (xs ! pr) > 0" | "\<not> pl < pr"
    by blast
  then show ?case
  proof cases
    case 1
    then show ?thesis using less.prems greater [OF 1(2)]
      by (auto simp: scan_left_swap parted_def nth_swap)
  next
    case 2
    have p: "parted v (Suc pl) pr xs"
      using less.prems(1,2) not_greater [OF 2(2)] by (auto simp: parted_def less_Suc_eq)
    have "scan_left cmp (Suc pl) pr xs = (pl', pr', ys)" using 2 less.prems(5) by (simp add: scan_left_step)
    then show ?thesis by (intro less.hyps [OF _ p less.prems(2) _ less.prems(4)]) (use 2 in simp_all)
  next
    case 3
    then show ?thesis using less.prems by (auto simp: scan_left_stop)
  qed
qed

lemma scan_right_parted:
  "parted v pl pr xs \<Longrightarrow> xs ! pl = v \<Longrightarrow> pl \<le> pr \<Longrightarrow> pr < length xs \<Longrightarrow>
   scan_right cmp pl pr xs = (pl', pr', ys) \<Longrightarrow> parted v pl' pr' ys \<and> ys ! pr' = v"
proof (induction "pr - pl" arbitrary: pr rule: less_induct)
  case less
  consider "pl < pr" "cmp (xs ! pl) (xs ! pr) > 0" | "pl < pr" "\<not> cmp (xs ! pl) (xs ! pr) > 0" | "\<not> pl < pr"
    by blast
  then show ?case
  proof cases
    case 1
    then show ?thesis using less.prems greater [OF 1(2)]
      by (auto simp: scan_right_swap parted_def nth_swap less_Suc_eq)
  next
    case 2
    have "le v (xs ! i)" if "i < length xs" "pr - 1 < i" for i
      using that less.prems(1,2) not_greater [OF 2(2)] by (cases "i = pr") (auto simp: parted_def)
    then have p: "parted v pl (pr - 1) xs" using less.prems(1) by (simp add: parted_def)
    have "scan_right cmp pl (pr - 1) xs = (pl', pr', ys)" using 2 less.prems(5) by (simp add: scan_right_step)
    then show ?thesis by (intro less.hyps [OF _ p less.prems(2)]) (use 2 less.prems(4) in simp_all)
  next
    case 3
    then show ?thesis using less.prems by (auto simp: scan_right_stop)
  qed
qed

lemma partition_parted:
  "pl \<le> pr \<Longrightarrow> parted v pl pr xs \<Longrightarrow> xs ! pr = v \<Longrightarrow> pr < length xs \<Longrightarrow>
   partition_loop cmp pl pr xs = (k, ys) \<Longrightarrow> parted v k k ys \<and> ys ! k = v"
proof (induction pl pr xs rule: partition_induct [where cmp = cmp])
  case (stop pl xs)
  then show ?case by (simp add: partition_stop)
next
  case (step pl pr xs pl1 pr1 y pl2 pr2 z)
  have y: "parted v pl1 pr1 y \<and> y ! pl1 = v"
    using scan_left_parted [OF step.prems(1,2) _ step.prems(3) step.hyps(2)] step.hyps(1) by simp
  have ly: "pr1 < length y"
    using mset_eq_length [OF mset_scan_left [OF step.prems(3) step.hyps(2)]] step.prems(3) step.hyps(6) by simp
  have z: "parted v pl2 pr2 z \<and> z ! pr2 = v"
    using scan_right_parted [OF _ _ step.hyps(5) ly step.hyps(3)] y by simp
  have "pr2 < length z"
    using mset_eq_length [OF mset_scan_right [OF ly step.hyps(3)]] ly step.hyps(9) by simp
  then show ?case using step.IH z step.prems(4) partition_step [OF step.hyps(1-3)] by simp
qed

lemma pivot_split_parted:
  assumes "pivot_split cmp xs = (k, ys)" "xs \<noteq> []"
  shows "\<forall>x \<in> set (take k ys). le x (ys ! k)" "\<forall>x \<in> set (drop (Suc k) ys). le (ys ! k) x"
proof -
  let ?l = "length xs - 1" and ?xs = "swap (median3 cmp xs) (length xs - 1) xs"
  have p: "partition_loop cmp 0 ?l ?xs = (k, ys)"
    using assms(1) by (simp add: pivot_split_def Let_def)
  have "parted (?xs ! ?l) 0 ?l ?xs" by (auto simp: parted_def)
  then have "parted (ys ! k) k k ys"
    using partition_parted [OF _ _ refl _ p] assms(2) by auto
  then show "\<forall>x \<in> set (take k ys). le x (ys ! k)" "\<forall>x \<in> set (drop (Suc k) ys). le (ys ! k) x"
    by (auto simp: parted_def in_set_conv_nth)
qed

lemma sort_r_simple_mset: "mset (sort_r_simple cmp xs) = mset xs"
proof (induction "length xs" arbitrary: xs rule: less_induct)
  case less
  show ?case
  proof (cases "length xs < 7")
    case True
    then show ?thesis by (simp add: sort_r_simple.simps [of cmp xs] mset_insertion_sort)
  next
    case False
    obtain k ys where p: "pivot_split cmp xs = (k, ys)" by force
    have b: "k < length ys" "mset ys = mset xs" "length ys = length xs"
      using pivot_split_bounds [OF p] False by (metis length_0_conv zero_less_numeral)+
    have "mset ys = mset (take k ys @ ys ! k # drop (Suc k) ys)"
      using id_take_nth_drop [OF b(1)] by simp
    then show ?thesis using less.hyps [of "take k ys"] less.hyps [of "drop (Suc k) ys"] False b
      by (simp add: sort_r_simple.simps [of cmp xs] p)
  qed
qed

lemma sort_r_simple_sorted: "sorted_wrt le (sort_r_simple cmp xs)"
proof (induction "length xs" arbitrary: xs rule: less_induct)
  case less
  show ?case
  proof (cases "length xs < 7")
    case True
    then show ?thesis by (simp add: sort_r_simple.simps [of cmp xs] insertion_sort_sorted)
  next
    case False
    obtain k ys where p: "pivot_split cmp xs = (k, ys)" by force
    have ne: "xs \<noteq> []" using False by auto
    have b: "k < length ys" "length ys = length xs" using pivot_split_bounds [OF p ne] by auto
    have set: "set (sort_r_simple cmp zs) = set zs" for zs
      using mset_eq_setD [OF sort_r_simple_mset] .
    note pt = pivot_split_parted [OF p ne]
    have "sorted_wrt le (sort_r_simple cmp (take k ys))" "sorted_wrt le (sort_r_simple cmp (drop (Suc k) ys))"
      by (rule less.hyps; use b in simp)+
    moreover have "le x z" if "x \<in> set (take k ys)" "z \<in> set (drop (Suc k) ys)" for x z
      using pt that le_trans by blast
    ultimately show ?thesis using pt False
      by (simp add: sort_r_simple.simps [of cmp xs] p sorted_wrt_append set)
  qed
qed

end

end
