(* ===== verification/Pone_Methods.thy ===== *)
theory Pone_Methods
  imports Pone_Op Sort_R
begin

text \<open>
  The built-in methods of the basic classes (\<^verbatim>\<open>src/nil.c, bool.c, int.c, num.c, str.c, array.c, map.c,
  pair.c, range.c, class.c, exc.c, errno.c\<close>) and the functions that set the classes up. A method is a
  function of the environment, the world, the invocant and the arguments.
\<close>

section \<open>Library functions\<close>

text \<open>
  The text of an error number, whether \<open>errno\<close> is \<open>ERANGE\<close> when \<open>strtol\<close> is entered, comparisons of a
  \<open>double\<close> with \<open>INT_MAX\<close>, and the sorting routine of the C library.
\<close>

record pone_libc = pone_rt +
  e_strerror :: "int \<Rightarrow> bytes"
  e_erange :: bool
  e_num_gt_int_max :: "pone_num_t \<Rightarrow> bool"
  e_num_nan :: pone_num_t
  e_num_inf :: pone_num_t
  e_sort_r :: "(ptr \<Rightarrow> ptr \<Rightarrow> int pone) \<Rightarrow> ptr list \<Rightarrow> ptr list pone"

text \<open>
  \<open>strtol\<close> reads the buffer until a character that cannot continue the number; a buffer that ends
  before is read beyond its end (\<open>None\<close>). The result is the value, clamped to \<open>long\<close>, and whether it
  was clamped.
\<close>

definition c_isspace :: "byte \<Rightarrow> bool" where
  "c_isspace c \<longleftrightarrow> c = 32 \<or> (9 \<le> c \<and> c \<le> 13)"

definition digit_val :: "byte \<Rightarrow> nat option" where
  "digit_val c =
     (if 48 \<le> c \<and> c \<le> 57 then Some (unat c - 48)
      else if 97 \<le> c \<and> c \<le> 122 then Some (unat c - 87)
      else if 65 \<le> c \<and> c \<le> 90 then Some (unat c - 55)
      else None)"

fun c_digits :: "nat \<Rightarrow> nat \<Rightarrow> bytes \<Rightarrow> nat option" where
  "c_digits base acc [] = None"
| "c_digits base acc (c # cs) =
     (case digit_val c of
        Some d \<Rightarrow> if d < base then c_digits base (base * acc + d) cs else Some acc
      | None \<Rightarrow> Some acc)"

definition is_hex_prefix :: "bytes \<Rightarrow> bool" where
  "is_hex_prefix b \<longleftrightarrow>
     (case b of
        z # x # d # _ \<Rightarrow> z = 48 \<and> (x = 120 \<or> x = 88) \<and> (case digit_val d of Some v \<Rightarrow> v < 16 | None \<Rightarrow> False)
      | _ \<Rightarrow> False)"

definition c_number :: "int \<Rightarrow> bytes \<Rightarrow> nat option" where
  "c_number base b =
     (if (base = 0 \<or> base = 16) \<and> is_hex_prefix b then c_digits 16 0 (drop 2 b)
      else if base = 0 then c_digits (if take 1 b = [48] then 8 else 10) 0 b
      else c_digits (nat base) 0 b)"

definition c_clamp :: "int \<Rightarrow> pone_int_t \<times> bool" where
  "c_clamp v =
     (if v > 2 ^ 63 - 1 then (of_int (2 ^ 63 - 1), True)
      else if v < - (2 ^ 63) then (of_int (- (2 ^ 63)), True)
      else (of_int v, False))"

definition c_strtol :: "bytes \<Rightarrow> int \<Rightarrow> (pone_int_t \<times> bool) option" where
  "c_strtol b base =
     (if base < 0 \<or> base = 1 \<or> 36 < base then Some (0, False)
      else case dropWhile c_isspace b of
             [] \<Rightarrow> None
           | c # cs \<Rightarrow>
               if c = 45 then map_option (\<lambda>v. c_clamp (- int v)) (c_number base cs)
               else if c = 43 then map_option (\<lambda>v. c_clamp (int v)) (c_number base cs)
               else map_option (\<lambda>v. c_clamp (int v)) (c_number base (c # cs)))"

section \<open>Arguments\<close>

definition args_none :: "('z pone_rt_scheme) \<Rightarrow> nat \<Rightarrow> string \<Rightarrow> ptr list \<Rightarrow> unit pone" where
  "args_none E w name args s = andthen (pone_arg E w name '''' args s) (\<lambda>_. Ret ())"

definition args_o :: "('z pone_rt_scheme) \<Rightarrow> nat \<Rightarrow> string \<Rightarrow> ptr list \<Rightarrow> ptr pone" where
  "args_o E w name args s =
     andthen (pone_arg E w name ''o'' args s) (\<lambda>vs s.
     case vs of [PObj v] \<Rightarrow> Ret v s | _ \<Rightarrow> Undef)"

definition args_oo :: "('z pone_rt_scheme) \<Rightarrow> nat \<Rightarrow> string \<Rightarrow> ptr list \<Rightarrow> (ptr \<times> ptr) pone" where
  "args_oo E w name args s =
     andthen (pone_arg E w name ''oo'' args s) (\<lambda>vs s.
     case vs of [PObj v, PObj v'] \<Rightarrow> Ret (v, v') s | _ \<Rightarrow> Undef)"

text \<open>An optional integer: the variable keeps its initial value when no argument was passed.\<close>

definition args_opt_i :: "('z pone_rt_scheme) \<Rightarrow> nat \<Rightarrow> string \<Rightarrow> pone_int_t \<Rightarrow> ptr list \<Rightarrow> pone_int_t pone" where
  "args_opt_i E w name i0 args s =
     andthen (pone_arg E w name '':i'' args s) (\<lambda>vs s.
     case vs of [] \<Rightarrow> Ret i0 s | [PInt i] \<Rightarrow> Ret i s | _ \<Rightarrow> Undef)"

definition args_i :: "('z pone_rt_scheme) \<Rightarrow> nat \<Rightarrow> string \<Rightarrow> ptr list \<Rightarrow> pone_int_t pone" where
  "args_i E w name args s =
     andthen (pone_arg E w name ''i'' args s) (\<lambda>vs s.
     case vs of [PInt i] \<Rightarrow> Ret i s | _ \<Rightarrow> Undef)"

text \<open>Appending a literal.\<close>

definition append_lit :: "('z pone_rt_scheme) \<Rightarrow> nat \<Rightarrow> ptr \<Rightarrow> string \<Rightarrow> unit pone" where
  "append_lit E w v lit = pone_str_append_c (e_depth E) w v (bs lit)"

section \<open>Nil and Bool\<close>

definition meth_nil_gist :: "('z pone_rt_scheme) \<Rightarrow> nat \<Rightarrow> ptr \<Rightarrow> ptr list \<Rightarrow> ptr pone" where
  "meth_nil_gist E w self args s =
     andthen (args_none E w ''Nil#gist'' args s) (\<lambda>_. pone_str_lit w ''nil'')"

text \<open>The warnings on standard error are not modelled.\<close>

definition meth_nil_str :: "('z pone_rt_scheme) \<Rightarrow> nat \<Rightarrow> ptr \<Rightarrow> ptr list \<Rightarrow> ptr pone" where
  "meth_nil_str E w self args s =
     andthen (args_none E w ''Nil#Str'' args s) (\<lambda>_. pone_str_lit w '''')"

definition meth_nil_int :: "('z pone_rt_scheme) \<Rightarrow> nat \<Rightarrow> ptr \<Rightarrow> ptr list \<Rightarrow> ptr pone" where
  "meth_nil_int E w self args s =
     andthen (args_none E w ''Nil#Int'' args s) (\<lambda>_. pone_int_new w 0)"

definition meth_nil_num :: "('z pone_rt_scheme) \<Rightarrow> nat \<Rightarrow> ptr \<Rightarrow> ptr list \<Rightarrow> ptr pone" where
  "meth_nil_num E w self args s =
     andthen (args_none E w ''Nil#Num'' args s) (\<lambda>_. pone_num_new w (e_num_of_int E 0))"

definition meth_bool_int :: "('z pone_rt_scheme) \<Rightarrow> nat \<Rightarrow> ptr \<Rightarrow> ptr list \<Rightarrow> ptr pone" where
  "meth_bool_int E w self args s =
     andthen (args_none E w ''Bool#Int'' args s) (\<lambda>_ s.
     andthen (pone_bool_val self s) (\<lambda>b. pone_int_new w (if b then 1 else 0)))"

definition meth_bool_str :: "('z pone_rt_scheme) \<Rightarrow> nat \<Rightarrow> ptr \<Rightarrow> ptr list \<Rightarrow> ptr pone" where
  "meth_bool_str E w self args s =
     andthen (args_none E w ''Bool#Str'' args s) (\<lambda>_ s.
     andthen (pone_bool_val self s) (\<lambda>b. pone_str_lit w (if b then ''True'' else ''False'')))"

section \<open>Int\<close>

text \<open>The trial divisions, \<open>for (i = 3; i < num / 2; i += 2)\<close>, of a \<open>num\<close> that is at least 3.\<close>

function is_prime_loop :: "int \<Rightarrow> int \<Rightarrow> bool" where
  "is_prime_loop num i =
     (if i < num div 2 then (if num mod i = 0 then False else is_prime_loop num (i + 2)) else True)"
  by pat_completeness auto
termination by (relation "measure (\<lambda>(num, i). nat (num div 2 - i))") auto

declare is_prime_loop.simps [simp del]

definition is_prime_c :: "int \<Rightarrow> bool" where
  "is_prime_c num =
     (if num \<le> 1 then False else if num = 2 then True else if num mod 2 = 0 then False
      else is_prime_loop num 3)"

definition meth_int_is_prime :: "('z pone_rt_scheme) \<Rightarrow> nat \<Rightarrow> ptr \<Rightarrow> ptr list \<Rightarrow> ptr pone" where
  "meth_int_is_prime E w self args s =
     andthen (args_none E w ''Int#is_prime'' args s) (\<lambda>_ s.
     andthen (pone_intify E w self s) (\<lambda>num. Ret (pone_bool (is_prime_c (sint num)))))"

definition meth_int_str :: "('z pone_rt_scheme) \<Rightarrow> nat \<Rightarrow> ptr \<Rightarrow> ptr list \<Rightarrow> ptr pone" where
  "meth_int_str E w self args s =
     andthen (args_none E w ''Int#Str'' args s) (\<lambda>_ s.
     andthen (pone_int_val self s) (\<lambda>i. pone_str_from_int w i))"

definition meth_int_int :: "('z pone_rt_scheme) \<Rightarrow> nat \<Rightarrow> ptr \<Rightarrow> ptr list \<Rightarrow> ptr pone" where
  "meth_int_int E w self args s =
     andthen (args_none E w ''Int#Int'' args s) (\<lambda>_ s.
     andthen (pone_int_val self s) (\<lambda>i. pone_int_new w i))"

definition meth_int_accepts :: "('z pone_rt_scheme) \<Rightarrow> nat \<Rightarrow> ptr \<Rightarrow> ptr list \<Rightarrow> ptr pone" where
  "meth_int_accepts E w self args s =
     andthen (args_o E w ''Int#accepts'' args s) (\<lambda>rhs s.
     andthen (pone_eq E w self rhs s) (\<lambda>b. Ret (pone_bool b)))"

definition meth_int_num :: "('z pone_rt_scheme) \<Rightarrow> nat \<Rightarrow> ptr \<Rightarrow> ptr list \<Rightarrow> ptr pone" where
  "meth_int_num E w self args s =
     andthen (args_none E w ''Int#Num'' args s) (\<lambda>_ s.
     andthen (pone_int_val self s) (\<lambda>i. pone_num_new w (e_num_of_int E i)))"

section \<open>Num\<close>

definition meth_num_floor :: "('z pone_libc_scheme) \<Rightarrow> nat \<Rightarrow> ptr \<Rightarrow> ptr list \<Rightarrow> ptr pone" where
  "meth_num_floor E w self args s =
     andthen (args_none E w ''Num#floor'' args s) (\<lambda>_ s.
     case val_as (st_heap s self) of
       AsNum n \<Rightarrow>
         if e_num_gt_int_max E n then pone_throw_str w (bs ''integer overflow'') s
         else pone_int_new w (scast (e_num_floor E n)) s
     | _ \<Rightarrow> Undef)"

definition meth_num_str :: "('z pone_rt_scheme) \<Rightarrow> nat \<Rightarrow> ptr \<Rightarrow> ptr list \<Rightarrow> ptr pone" where
  "meth_num_str E w self args s =
     andthen (args_none E w ''Num#Str'' args s) (\<lambda>_ s.
     andthen (pone_num_val self s) (\<lambda>n. pone_str_from_num E w n))"

definition meth_num_num :: "('z pone_rt_scheme) \<Rightarrow> nat \<Rightarrow> ptr \<Rightarrow> ptr list \<Rightarrow> ptr pone" where
  "meth_num_num E w self args s =
     andthen (args_none E w ''Num#Num'' args s) (\<lambda>_ s.
     andthen (pone_num_val self s) (\<lambda>n. pone_num_new w n))"

definition meth_num_int :: "('z pone_rt_scheme) \<Rightarrow> nat \<Rightarrow> ptr \<Rightarrow> ptr list \<Rightarrow> ptr pone" where
  "meth_num_int E w self args s =
     andthen (args_none E w ''Num#Int'' args s) (\<lambda>_ s.
     andthen (pone_num_val self s) (\<lambda>n. pone_int_new w (e_int_of_num E n)))"

definition meth_num_accepts :: "('z pone_rt_scheme) \<Rightarrow> nat \<Rightarrow> ptr \<Rightarrow> ptr list \<Rightarrow> ptr pone" where
  "meth_num_accepts E w self args s =
     andthen (args_o E w ''Num#ACCEPTS'' args s) (\<lambda>o' s.
     andthen (pone_num_val self s) (\<lambda>n s.
     andthen (pone_numify E w o' s) (\<lambda>m. Ret (pone_bool (e_num_eq E n m)))))"

section \<open>Str and Bytes\<close>

definition meth_str_str :: "('z pone_rt_scheme) \<Rightarrow> nat \<Rightarrow> ptr \<Rightarrow> ptr list \<Rightarrow> ptr pone" where
  "meth_str_str E w self args s =
     andthen (args_none E w ''Str#Str'' args s) (\<lambda>_. pone_str_copy w self)"

text \<open>The overflow test looks at the value first, and at \<open>errno\<close>, which nobody reset.\<close>

definition meth_str_int :: "('z pone_libc_scheme) \<Rightarrow> nat \<Rightarrow> ptr \<Rightarrow> ptr list \<Rightarrow> ptr pone" where
  "meth_str_int E w self args s =
     andthen (args_opt_i E w ''Str#Int([$base])'' 0 args s) (\<lambda>base s.
     andthen (pone_str_ptr (e_depth E) self s) (\<lambda>b s.
     andthen (from_option (c_strtol b (sint base)) s) (\<lambda>(i, over) s.
     if sint i = 2 ^ 63 - 1 \<and> (over \<or> e_erange E) then pone_throw_str w (bs ''long value over flow'') s
     else pone_int_new w i s)))"

definition meth_str_num :: "('z pone_rt_scheme) \<Rightarrow> nat \<Rightarrow> ptr \<Rightarrow> ptr list \<Rightarrow> ptr pone" where
  "meth_str_num E w self args s =
     andthen (args_none E w ''Str#Num'' args s) (\<lambda>_ s.
     andthen (pone_str_ptr (e_depth E) self s) (\<lambda>b. pone_num_new w (e_strtod E b)))"

definition c_toupper :: "byte \<Rightarrow> byte" where
  "c_toupper c = (if 97 \<le> c \<and> c \<le> 122 then (c - 97) + 65 else c)"

definition c_tolower :: "byte \<Rightarrow> byte" where
  "c_tolower c = (if 65 \<le> c \<and> c \<le> 90 then (c - 65) + 97 else c)"

text \<open>A fresh string whose bytes are then changed in place.\<close>

definition map_bytes :: "(byte \<Rightarrow> byte) \<Rightarrow> ptr \<Rightarrow> unit pone" where
  "map_bytes f p s =
     (case val_as (st_heap s p) of
        AsStr (StrBuf b) len \<Rightarrow>
          if len \<le> length b then Ret () (set_as p (AsStr (StrBuf (map f (take len b) @ drop len b)) len) s)
          else Undef
      | _ \<Rightarrow> Undef)"

definition meth_str_uc :: "('z pone_rt_scheme) \<Rightarrow> nat \<Rightarrow> ptr \<Rightarrow> ptr list \<Rightarrow> ptr pone" where
  "meth_str_uc E w self args s =
     andthen (args_none E w ''Str#Num'' args s) (\<lambda>_ s.
     andthen (pone_str_bytes (e_depth E) self s) (\<lambda>b s.
     andthen (pone_str_new_strdup w b (length b) s) (\<lambda>v s.
     andthen (map_bytes c_toupper v s) (\<lambda>_. Ret v))))"

definition meth_str_lc :: "('z pone_rt_scheme) \<Rightarrow> nat \<Rightarrow> ptr \<Rightarrow> ptr list \<Rightarrow> ptr pone" where
  "meth_str_lc E w self args s =
     andthen (args_none E w ''Str#Num'' args s) (\<lambda>_ s.
     andthen (pone_str_bytes (e_depth E) self s) (\<lambda>b s.
     andthen (pone_str_new_strdup w b (length b) s) (\<lambda>v s.
     andthen (map_bytes c_tolower v s) (\<lambda>_. Ret v))))"

definition meth_str_encode :: "('z pone_rt_scheme) \<Rightarrow> nat \<Rightarrow> ptr \<Rightarrow> ptr list \<Rightarrow> ptr pone" where
  "meth_str_encode E w self args s =
     andthen (args_none E w ''Str#encode'' args s) (\<lambda>_ s.
     andthen (pone_str_bytes (e_depth E) self s) (\<lambda>b. pone_bytes_new_strdup w b (length b)))"

definition meth_str_accepts :: "('z pone_rt_scheme) \<Rightarrow> nat \<Rightarrow> ptr \<Rightarrow> ptr list \<Rightarrow> ptr pone" where
  "meth_str_accepts E w self args s =
     andthen (args_o E w ''Str#ACCEPTS'' args s) (\<lambda>v s.
     andthen (pone_str_eq E w self v s) (\<lambda>b. Ret (pone_bool b)))"

text \<open>
  Characters: a step over the bytes by the length that the encoding gives to the first byte
  (\<open>onigenc_strlen\<close>). A length of 0 would not advance; a last character that is cut off ends the count.
\<close>

fun count_chars :: "nat \<Rightarrow> (byte \<Rightarrow> nat) \<Rightarrow> bytes \<Rightarrow> nat" where
  "count_chars 0 len b = 0"
| "count_chars (Suc n) len [] = 0"
| "count_chars (Suc n) len (c # cs) = Suc (count_chars n len (drop (len c) (c # cs)))"

definition pone_str_chars :: "('z pone_rt_scheme) \<Rightarrow> ptr \<Rightarrow> nat pone" where
  "pone_str_chars E self s =
     andthen (pone_str_bytes (e_depth E) self s) (\<lambda>b. Ret (count_chars (length b) (e_mbc_enc_len E) b))"

definition meth_str_chars :: "('z pone_rt_scheme) \<Rightarrow> nat \<Rightarrow> ptr \<Rightarrow> ptr list \<Rightarrow> ptr pone" where
  "meth_str_chars E w self args s =
     andthen (args_none E w ''Str#chars'' args s) (\<lambda>_ s.
     andthen (pone_str_chars E self s) (\<lambda>n. pone_int_new w (of_nat n)))"

text \<open>The position after \<open>n\<close> characters; past the end the pointer is beyond the string.\<close>

fun skip_chars :: "(byte \<Rightarrow> nat) \<Rightarrow> bytes \<Rightarrow> nat \<Rightarrow> nat \<Rightarrow> nat \<times> nat" where
  "skip_chars len b p 0 = (p, 0)"
| "skip_chars len b p (Suc n) =
     (if p < length b then skip_chars len b (p + len (b ! p)) n else (p, Suc n))"

definition meth_str_at_pos :: "('z pone_rt_scheme) \<Rightarrow> nat \<Rightarrow> ptr \<Rightarrow> ptr list \<Rightarrow> ptr pone" where
  "meth_str_at_pos E w self args s =
     andthen (args_i E w ''Str#AT-POS(Int $n)'' args s) (\<lambda>n s.
     andthen (pone_str_chars E self s) (\<lambda>nchars s.
     andthen (pone_str_bytes (e_depth E) self s) (\<lambda>b s.
     andthen (pone_str_ptr (e_depth E) self s) (\<lambda>buf s.
     let n' = (if sint n < 0 then int nchars + sint n else sint n);
         (p, m) = skip_chars (e_mbc_enc_len E) b 0 (nat n')
     in if p = length b \<or> n' < 0 then Ret pone_nil s
        else if length buf \<le> p then Undef
        else let end' = e_mbc_enc_len E (buf ! p)
             in if p + end' \<le> length buf then pone_str_new_strdup w (drop p buf) end' s else Undef))))"

definition meth_bytes_str :: "('z pone_rt_scheme) \<Rightarrow> nat \<Rightarrow> ptr \<Rightarrow> ptr list \<Rightarrow> ptr pone" where
  "meth_bytes_str E w self args s =
     andthen (args_none E w ''Bytes#Str'' args s) (\<lambda>_. pone_str_copy w self)"

definition meth_bytes_bytes :: "('z pone_rt_scheme) \<Rightarrow> nat \<Rightarrow> ptr \<Rightarrow> ptr list \<Rightarrow> ptr pone" where
  "meth_bytes_bytes E w self args s =
     andthen (args_none E w ''Bytes#bytes'' args s) (\<lambda>_ s.
     andthen (pone_str_len (e_depth E) self s) (\<lambda>n. pone_int_new w (of_nat n)))"

definition meth_bytes_decode :: "('z pone_rt_scheme) \<Rightarrow> nat \<Rightarrow> ptr \<Rightarrow> ptr list \<Rightarrow> ptr pone" where
  "meth_bytes_decode E w self args s =
     andthen (args_none E w ''Bytes#decode'' args s) (\<lambda>_ s.
     andthen (pone_str_bytes (e_depth E) self s) (\<lambda>b. pone_str_new_strdup w b (length b)))"

end
