(* ===== verification/Pone_Classes.thy ===== *)
theory Pone_Classes
  imports Pone_Methods
begin

text \<open>
  The methods of the container classes, of classes themselves, exceptions and error numbers
  (\<^verbatim>\<open>src/array.c, map.c, pair.c, range.c, class.c, exc.c, errno.c\<close>), and the \<open>pone_*_init\<close> functions that
  set the classes up. Two C functions are called \<open>meth_pull_one\<close>; a function pointer to one of them is
  named with its file.
\<close>

section \<open>Array\<close>

definition ary_pull_one :: "('z pone_rt_scheme) \<Rightarrow> nat \<Rightarrow> ptr \<Rightarrow> ptr list \<Rightarrow> ptr pone" where
  "ary_pull_one E w self args s =
     andthen (args_none E w ''Array::Iterator#pull-one'' args s) (\<lambda>_ s.
     if type_at s self \<noteq> PONE_OBJ then Abort
     else andthen (pone_obj_get_ivar self (bs ''$!val'') s) (\<lambda>ary s.
          andthen (pone_obj_get_ivar self (bs ''$!i'') s) (\<lambda>i s.
          andthen (pone_int_val i s) (\<lambda>n s.
          andthen (pone_ary_size ary s) (\<lambda>len s.
          if sint n \<noteq> int len
          then andthen (pone_ary_at_pos ary (sint n) s) (\<lambda>v s.
               andthen (pone_int_incr i s) (\<lambda>_. Ret v))
          else Ret (u_instance_iteration_end (st_universe s)) s)))))"

definition meth_ary_iterator :: "('z pone_rt_scheme) \<Rightarrow> nat \<Rightarrow> ptr \<Rightarrow> ptr list \<Rightarrow> ptr pone" where
  "meth_ary_iterator E w self args s =
     andthen (args_none E w ''Array#iterator'' args s) (\<lambda>_ s.
     andthen (pone_what self s) (\<lambda>klass s.
     andthen (pone_obj_get_ivar klass (bs ''$!iterator-class'') s) (\<lambda>icls s.
     andthen (pone_obj_new w icls s) (\<lambda>iter s.
     andthen (pone_int_new w 0 s) (\<lambda>z s.
     andthen (pone_obj_set_ivar iter (bs ''$!i'') z s) (\<lambda>_ s.
     andthen (pone_obj_set_ivar iter (bs ''$!val'') self s) (\<lambda>_. Ret iter)))))))"

definition meth_ary_size :: "('z pone_rt_scheme) \<Rightarrow> nat \<Rightarrow> ptr \<Rightarrow> ptr list \<Rightarrow> ptr pone" where
  "meth_ary_size E w self args s =
     andthen (args_none E w ''Array#size'' args s) (\<lambda>_ s.
     andthen (pone_ary_size self s) (\<lambda>n. pone_int_new w (of_nat n)))"

definition meth_ary_push :: "('z pone_rt_scheme) \<Rightarrow> nat \<Rightarrow> ptr \<Rightarrow> ptr list \<Rightarrow> ptr pone" where
  "meth_ary_push E w self args s =
     andthen (args_o E w ''Array#push'' args s) (\<lambda>v s.
     andthen (pone_ary_push self v s) (\<lambda>_. Ret pone_nil))"

definition meth_ary_unshift :: "('z pone_rt_scheme) \<Rightarrow> nat \<Rightarrow> ptr \<Rightarrow> ptr list \<Rightarrow> ptr pone" where
  "meth_ary_unshift E w self args s =
     andthen (args_o E w ''Array#unshift'' args s) (\<lambda>v s.
     andthen (pone_ary_unshift self v s) (\<lambda>_. Ret pone_nil))"

definition meth_ary_pop :: "('z pone_rt_scheme) \<Rightarrow> nat \<Rightarrow> ptr \<Rightarrow> ptr list \<Rightarrow> ptr pone" where
  "meth_ary_pop E w self args s =
     andthen (args_none E w ''Array#pop'' args s) (\<lambda>_. pone_ary_pop w self)"

definition meth_ary_shift :: "('z pone_rt_scheme) \<Rightarrow> nat \<Rightarrow> ptr \<Rightarrow> ptr list \<Rightarrow> ptr pone" where
  "meth_ary_shift E w self args s =
     andthen (args_none E w ''Array#shift'' args s) (\<lambda>_. pone_ary_shift w self)"

text \<open>The loop of \<open>join\<close>: \<open>k\<close> elements are left, from index \<open>i\<close>; \<open>join\<close> reads the length once.\<close>

fun join_loop :: "('z pone_rt_scheme) \<Rightarrow> nat \<Rightarrow> ptr \<Rightarrow> ptr \<Rightarrow> ptr \<Rightarrow> nat \<Rightarrow> nat \<Rightarrow> unit pone" where
  "join_loop E w v self sep i 0 s = Ret () s"
| "join_loop E w v self sep i (Suc k) s =
     andthen (pone_ary_at_pos self (int i) s) (\<lambda>x s.
     andthen (pone_str_append E w v x s) (\<lambda>_ s.
     andthen (if k \<noteq> 0 then pone_str_append E w v sep s else Ret () s) (\<lambda>_.
     join_loop E w v self sep (Suc i) k)))"

definition meth_ary_join :: "('z pone_rt_scheme) \<Rightarrow> nat \<Rightarrow> ptr \<Rightarrow> ptr list \<Rightarrow> ptr pone" where
  "meth_ary_join E w self args s =
     andthen (args_o E w ''Array#join'' args s) (\<lambda>sep s.
     andthen (pone_str_new_strdup w [0] 0 s) (\<lambda>v s.
     andthen (pone_ary_size self s) (\<lambda>len s.
     andthen (join_loop E w v self sep 0 len s) (\<lambda>_. Ret v))))"

text \<open>
  \<open>Str\<close> tests the length in every round; an element's \<open>Str\<close> method may change the array, so the loop
  may not end. \<open>n\<close> bounds the rounds; running out is \<open>Undef\<close>.
\<close>

fun ary_str_loop :: "('z pone_rt_scheme) \<Rightarrow> nat \<Rightarrow> ptr \<Rightarrow> ptr \<Rightarrow> nat \<Rightarrow> nat \<Rightarrow> unit pone" where
  "ary_str_loop E w v self i 0 s = Undef"
| "ary_str_loop E w v self i (Suc n) s =
     andthen (pone_ary_size self s) (\<lambda>len s.
     if i < len
     then andthen (pone_ary_at_pos self (int i) s) (\<lambda>x s.
          andthen (pone_str_append E w v x s) (\<lambda>_ s.
          andthen (append_lit E w v '','' s) (\<lambda>_. ary_str_loop E w v self (Suc i) n)))
     else Ret () s)"

definition meth_ary_str :: "nat \<Rightarrow> ('z pone_rt_scheme) \<Rightarrow> nat \<Rightarrow> ptr \<Rightarrow> ptr list \<Rightarrow> ptr pone" where
  "meth_ary_str fuel E w self args s =
     andthen (args_none E w ''Array#Str'' args s) (\<lambda>_ s.
     andthen (pone_str_new_strdup w [0] 0 s) (\<lambda>v s.
     andthen (append_lit E w v ''['' s) (\<lambda>_ s.
     andthen (ary_str_loop E w v self 0 fuel s) (\<lambda>_ s.
     andthen (append_lit E w v '']'' s) (\<lambda>_. Ret v)))))"

definition default_sort_routine :: "('z pone_rt_scheme) \<Rightarrow> nat \<Rightarrow> ptr \<Rightarrow> ptr \<Rightarrow> int pone" where
  "default_sort_routine E w a b = pone_str_cmp E w a b"

text \<open>A shallow copy, sorted by the routine of the C library.\<close>

fun shallow_copy :: "ptr \<Rightarrow> ptr \<Rightarrow> nat list \<Rightarrow> unit pone" where
  "shallow_copy dst src [] s = Ret () s"
| "shallow_copy dst src (i # ixs) s =
     andthen (pone_ary_at_pos src (int i) s) (\<lambda>v s.
     andthen (pone_ary_push dst v s) (\<lambda>_. shallow_copy dst src ixs))"

definition meth_ary_sort :: "('z pone_libc_scheme) \<Rightarrow> nat \<Rightarrow> ptr \<Rightarrow> ptr list \<Rightarrow> ptr pone" where
  "meth_ary_sort E w self args s =
     andthen (args_none E w ''Array#sort'' args s) (\<lambda>_ s.
     andthen (pone_ary_new w [] s) (\<lambda>r s.
     andthen (pone_ary_size self s) (\<lambda>n s.
     andthen (shallow_copy r self [0..<n] s) (\<lambda>_ s.
     case val_as (st_heap s r) of
       AsAry a m len \<Rightarrow>
         andthen (e_sort_r E (default_sort_routine E w) (take len a) s) (\<lambda>vs s.
         Ret r (set_as r (AsAry (vs @ drop len a) m len) s))
     | _ \<Rightarrow> Undef))))"

definition meth_ary_assign_pos :: "('z pone_rt_scheme) \<Rightarrow> nat \<Rightarrow> ptr \<Rightarrow> ptr list \<Rightarrow> ptr pone" where
  "meth_ary_assign_pos E w self args s =
     andthen (args_oo E w ''Array#ASSIGN-POS'' args s) (\<lambda>(pos, v) s.
     andthen (pone_ary_assign_pos E w self pos v s) (\<lambda>_. Ret v))"

section \<open>Map\<close>

text \<open>The loop over the entries; \<open>i\<close> counts down and the eleventh further entry stops it.\<close>

fun gist_loop :: "('z pone_rt_scheme) \<Rightarrow> nat \<Rightarrow> ptr \<Rightarrow> int \<Rightarrow> (ptr \<times> ptr) list \<Rightarrow> int pone" where
  "gist_loop E w r i [] s = Ret i s"
| "gist_loop E w r i ((k, v) # kvs) s =
     (if i < 0 then Ret (i - 1) s
      else andthen (pone_str_append E w r k s) (\<lambda>_ s.
           andthen (append_lit E w r ''=>'' s) (\<lambda>_ s.
           andthen (pone_str_append E w r v s) (\<lambda>_ s.
           andthen (append_lit E w r '', '' s) (\<lambda>_. gist_loop E w r (i - 1) kvs)))))"

definition map_entries :: "ptr \<Rightarrow> (ptr \<times> ptr) list pone" where
  "map_entries p s = (case val_as (st_heap s p) of AsMap h len \<Rightarrow> Ret (kh_foreach h) s | _ \<Rightarrow> Abort)"

definition meth_hash_gist :: "('z pone_rt_scheme) \<Rightarrow> nat \<Rightarrow> ptr \<Rightarrow> ptr list \<Rightarrow> ptr pone" where
  "meth_hash_gist E w self args s =
     andthen (args_none E w ''Map#gist'' args s) (\<lambda>_ s.
     andthen (pone_str_new_strdup w (bs ''{'' @ [0]) 1 s) (\<lambda>r s.
     andthen (map_entries self s) (\<lambda>kvs s.
     andthen (gist_loop E w r 10 kvs s) (\<lambda>i s.
     andthen (if i = 0 then append_lit E w r ''... '' s else Ret () s) (\<lambda>_ s.
     andthen (append_lit E w r '', '' s) (\<lambda>_. Ret r))))))"

definition meth_hash_size :: "('z pone_rt_scheme) \<Rightarrow> nat \<Rightarrow> ptr \<Rightarrow> ptr list \<Rightarrow> ptr pone" where
  "meth_hash_size E w self args s =
     andthen (args_none E w ''Map#size'' args s) (\<lambda>_ s.
     andthen (pone_map_size self s) (\<lambda>n. pone_int_new w (of_nat n)))"

definition meth_hash_keys :: "('z pone_rt_scheme) \<Rightarrow> nat \<Rightarrow> ptr \<Rightarrow> ptr list \<Rightarrow> ptr pone" where
  "meth_hash_keys E w self args s =
     andthen (args_none E w ''Map#keys'' args s) (\<lambda>_. pone_map_keys w self)"

definition meth_hash_values :: "('z pone_rt_scheme) \<Rightarrow> nat \<Rightarrow> ptr \<Rightarrow> ptr list \<Rightarrow> ptr pone" where
  "meth_hash_values E w self args s =
     andthen (args_none E w ''Map#values'' args s) (\<lambda>_. pone_map_values w self)"

definition meth_hash_exists :: "('z pone_rt_scheme) \<Rightarrow> nat \<Rightarrow> ptr \<Rightarrow> ptr list \<Rightarrow> ptr pone" where
  "meth_hash_exists E w self args s =
     andthen (args_o E w ''Map#exists'' args s) (\<lambda>key s.
     andthen (pone_map_exists (e_depth E) self key s) (\<lambda>b. Ret (pone_bool b)))"

definition meth_hash_at_key :: "('z pone_rt_scheme) \<Rightarrow> nat \<Rightarrow> ptr \<Rightarrow> ptr list \<Rightarrow> ptr pone" where
  "meth_hash_at_key E w self args s =
     andthen (args_o E w ''Map#AT-KEY'' args s) (\<lambda>key. pone_map_at_key (e_depth E) self key)"

definition meth_hash_assign_key :: "('z pone_rt_scheme) \<Rightarrow> nat \<Rightarrow> ptr \<Rightarrow> ptr list \<Rightarrow> ptr pone" where
  "meth_hash_assign_key E w self args s =
     andthen (args_oo E w ''Map#ASSIGN-KEY'' args s) (\<lambda>(key, v) s.
     andthen (pone_map_assign_key E w self key v s) (\<lambda>_. Ret v))"

section \<open>Pair\<close>

definition pone_pair_new :: "nat \<Rightarrow> ptr \<Rightarrow> ptr \<Rightarrow> ptr pone" where
  "pone_pair_new w key v s =
     andthen (pone_obj_new w (u_class_pair (st_universe s)) s) (\<lambda>pair s.
     andthen (pone_obj_set_ivar pair (bs ''$!key'') key s) (\<lambda>_ s.
     andthen (pone_obj_set_ivar pair (bs ''$!value'') v s) (\<lambda>_. Ret pair)))"

text \<open>\<open>PONE_DECLARE_GETTER\<close>\<close>

definition getter :: "string \<Rightarrow> ptr \<Rightarrow> ptr list \<Rightarrow> ptr pone" where
  "getter var self args s = (if args \<noteq> [] then Abort else pone_obj_get_ivar self (bs var) s)"

definition meth_pair_key :: "('z pone_rt_scheme) \<Rightarrow> nat \<Rightarrow> ptr \<Rightarrow> ptr list \<Rightarrow> ptr pone" where
  "meth_pair_key E w self args = getter ''$!key'' self args"

definition meth_pair_value :: "('z pone_rt_scheme) \<Rightarrow> nat \<Rightarrow> ptr \<Rightarrow> ptr list \<Rightarrow> ptr pone" where
  "meth_pair_value E w self args = getter ''$!value'' self args"

text \<open>One byte of the arrow is appended.\<close>

definition meth_pair_str :: "('z pone_rt_scheme) \<Rightarrow> nat \<Rightarrow> ptr \<Rightarrow> ptr list \<Rightarrow> ptr pone" where
  "meth_pair_str E w self args s =
     andthen (args_none E w ''Pair#Str'' args s) (\<lambda>_ s.
     andthen (pone_obj_get_ivar self (bs ''$!key'') s) (\<lambda>k s.
     andthen (pone_stringify E w k s) (\<lambda>ks s.
     andthen (pone_str_copy w ks s) (\<lambda>buf s.
     andthen (pone_str_append_c (e_depth E) w buf (take 1 (bs ''=>'')) s) (\<lambda>_ s.
     andthen (pone_obj_get_ivar self (bs ''$!value'') s) (\<lambda>v s.
     andthen (pone_str_append E w buf v s) (\<lambda>_. Ret buf)))))))"

section \<open>Range\<close>

definition pone_range_new :: "nat \<Rightarrow> ptr \<Rightarrow> ptr \<Rightarrow> ptr pone" where
  "pone_range_new w mn mx s =
     (if mn = Null \<or> mx = Null then Abort
      else andthen (pone_obj_new w (u_class_range (st_universe s)) s) (\<lambda>obj s.
           andthen (pone_obj_set_ivar obj (bs ''$!min'') mn s) (\<lambda>_ s.
           andthen (pone_obj_set_ivar obj (bs ''$!max'') mx s) (\<lambda>_. Ret obj))))"

text \<open>\<open>min\<close> and \<open>max\<close> read the variable of the class, not of the range.\<close>

definition meth_range_min :: "('z pone_rt_scheme) \<Rightarrow> nat \<Rightarrow> ptr \<Rightarrow> ptr list \<Rightarrow> ptr pone" where
  "meth_range_min E w self args s =
     andthen (args_none E w ''Range#min'' args s) (\<lambda>_ s.
     pone_obj_get_ivar (u_class_range (st_universe s)) (bs ''$!min'') s)"

definition meth_range_max :: "('z pone_rt_scheme) \<Rightarrow> nat \<Rightarrow> ptr \<Rightarrow> ptr list \<Rightarrow> ptr pone" where
  "meth_range_max E w self args s =
     andthen (args_none E w ''Range#Max'' args s) (\<lambda>_ s.
     pone_obj_get_ivar (u_class_range (st_universe s)) (bs ''$!max'') s)"

definition meth_range_str :: "('z pone_rt_scheme) \<Rightarrow> nat \<Rightarrow> ptr \<Rightarrow> ptr list \<Rightarrow> ptr pone" where
  "meth_range_str E w self args s =
     andthen (args_none E w ''Range#Str'' args s) (\<lambda>_ s.
     andthen (pone_obj_get_ivar self (bs ''$!min'') s) (\<lambda>mn s.
     andthen (pone_obj_get_ivar self (bs ''$!max'') s) (\<lambda>mx s.
     andthen (pone_stringify E w mn s) (\<lambda>str s.
     andthen (append_lit E w str ''..'' s) (\<lambda>_ s.
     andthen (pone_str_append E w str mx s) (\<lambda>_. Ret str))))))"

definition meth_range_iterator :: "('z pone_rt_scheme) \<Rightarrow> nat \<Rightarrow> ptr \<Rightarrow> ptr list \<Rightarrow> ptr pone" where
  "meth_range_iterator E w self args s =
     andthen (args_none E w ''Range#iterator'' args s) (\<lambda>_ s.
     if type_at s self \<noteq> PONE_OBJ then Abort
     else andthen (pone_obj_get_ivar self (bs ''$!min'') s) (\<lambda>mn s.
          andthen (pone_obj_get_ivar self (bs ''$!max'') s) (\<lambda>mx s.
          andthen (pone_what self s) (\<lambda>klass s.
          andthen (pone_obj_get_ivar klass (bs ''$!iterator-class'') s) (\<lambda>icls s.
          andthen (pone_obj_new w icls s) (\<lambda>iter s.
          andthen (pone_intify E w mn s) (\<lambda>i s.
          andthen (pone_int_new w i s) (\<lambda>iv s.
          andthen (pone_obj_set_ivar iter (bs ''$!i'') iv s) (\<lambda>_ s.
          andthen (pone_obj_set_ivar iter (bs ''$!max'') mx s) (\<lambda>_. Ret iter))))))))))"

definition range_pull_one :: "('z pone_rt_scheme) \<Rightarrow> nat \<Rightarrow> ptr \<Rightarrow> ptr list \<Rightarrow> ptr pone" where
  "range_pull_one E w self args s =
     andthen (args_none E w ''Range::Iterator#pull-one'' args s) (\<lambda>_ s.
     if type_at s self \<noteq> PONE_OBJ then Abort
     else andthen (pone_obj_get_ivar self (bs ''$!i'') s) (\<lambda>iv s.
          andthen (pone_obj_get_ivar self (bs ''$!max'') s) (\<lambda>mv s.
          andthen (pone_intify E w iv s) (\<lambda>i s.
          andthen (pone_intify E w mv s) (\<lambda>mx s.
          if sint i > sint mx then Ret (u_instance_iteration_end (st_universe s)) s
          else andthen (pone_intify E w iv s) (\<lambda>j s.
               andthen (pone_int_new w j s) (\<lambda>r s.
               andthen (pone_int_incr iv s) (\<lambda>_. Ret r))))))))"

section \<open>Classes, exceptions, error numbers\<close>

definition meth_name :: "('z pone_rt_scheme) \<Rightarrow> nat \<Rightarrow> ptr \<Rightarrow> ptr list \<Rightarrow> ptr pone" where
  "meth_name E w self args = pone_obj_get_ivar self (bs ''$!name'')"

definition meth_Str :: "('z pone_rt_scheme) \<Rightarrow> nat \<Rightarrow> ptr \<Rightarrow> ptr list \<Rightarrow> ptr pone" where
  "meth_Str E w self args s =
     andthen (pone_str_new_strdup w (bs ''Class<'' @ [0]) 6 s) (\<lambda>v s.
     andthen (pone_obj_get_ivar self (bs ''$!name'') s) (\<lambda>nm s.
     andthen (pone_str_append E w v nm s) (\<lambda>_ s.
     andthen (append_lit E w v ''>'' s) (\<lambda>_. Ret v))))"

definition mu_str :: "('z pone_rt_scheme) \<Rightarrow> nat \<Rightarrow> ptr \<Rightarrow> ptr list \<Rightarrow> ptr pone" where
  "mu_str E w self args s =
     andthen (args_none E w ''#Str'' args s) (\<lambda>_ s.
     andthen (pone_str_new_strdup w [0] 0 s) (\<lambda>v s.
     andthen (pone_what self s) (\<lambda>klass s.
     andthen (pone_obj_get_ivar klass (bs ''$!name'') s) (\<lambda>nm s.
     andthen (pone_str_append E w v nm s) (\<lambda>_ s.
     andthen (append_lit E w v ''<'' s) (\<lambda>_ s.
     andthen (pone_str_new_vprintf w (e_ptr_fmt E self) s) (\<lambda>addr s.
     andthen (pone_str_append E w v addr s) (\<lambda>_ s.
     andthen (append_lit E w v ''>'' s) (\<lambda>_. Ret v)))))))))"

definition fwrite_str :: "('z pone_env_scheme) \<Rightarrow> ptr \<Rightarrow> unit pone" where
  "fwrite_str E p s =
     andthen (pone_str_bytes (e_depth E) p s) (\<lambda>b s. Ret () (s\<lparr>st_out := st_out s @ b\<rparr>))"

text \<open>What \<open>say\<close> does, as a method and as a function.\<close>

definition say_value :: "('z pone_rt_scheme) \<Rightarrow> nat \<Rightarrow> ptr \<Rightarrow> ptr pone" where
  "say_value E w val s =
     andthen (pone_stringify E w val s) (\<lambda>str s.
     andthen (pone_str_copy w str s) (\<lambda>c s.
     andthen (pone_str_append_c (e_depth E) w c [10] s) (\<lambda>_ s.
     andthen (fwrite_str E c s) (\<lambda>_. Ret pone_nil))))"

definition mu_say :: "('z pone_rt_scheme) \<Rightarrow> nat \<Rightarrow> ptr \<Rightarrow> ptr list \<Rightarrow> ptr pone" where
  "mu_say E w self args s = andthen (args_none E w ''#say'' args s) (\<lambda>_. say_value E w self)"

definition meth_accepts :: "('z pone_rt_scheme) \<Rightarrow> nat \<Rightarrow> ptr \<Rightarrow> ptr list \<Rightarrow> ptr pone" where
  "meth_accepts E w self args s =
     andthen (args_o E w ''Class#ACCEPTS'' args s) (\<lambda>val s.
     andthen (pone_what val s) (\<lambda>klass. Ret (pone_bool (klass = self))))"

definition meth_can :: "('z pone_rt_scheme) \<Rightarrow> nat \<Rightarrow> ptr \<Rightarrow> ptr list \<Rightarrow> ptr pone" where
  "meth_can E w self args s =
     andthen (args_o E w ''Class#can'' args s) (\<lambda>name s.
     andthen (pone_obj_get_ivar self (bs ''$!methods'') s) (\<lambda>methods s.
     andthen (pone_stringify E w name s) (\<lambda>key. pone_map_at_key (e_depth E) methods key)))"

definition meth_exc_message :: "('z pone_rt_scheme) \<Rightarrow> nat \<Rightarrow> ptr \<Rightarrow> ptr list \<Rightarrow> ptr pone" where
  "meth_exc_message E w self args s =
     andthen (args_none E w ''#message'' args s) (\<lambda>_ s.
     andthen (pone_what self s) (\<lambda>klass. pone_obj_get_ivar klass (bs ''$!message'')))"

definition exc_adhoc_str :: "('z pone_rt_scheme) \<Rightarrow> nat \<Rightarrow> ptr \<Rightarrow> ptr list \<Rightarrow> ptr pone" where
  "exc_adhoc_str E w self args s =
     andthen (args_none E w ''X::AdHoc#Str'' args s) (\<lambda>_ s.
     andthen (pone_obj_get_ivar self (bs ''$!payload'') s) (\<lambda>p. pone_stringify E w p))"

definition pone_errno_new :: "nat \<Rightarrow> pone_int_t \<Rightarrow> ptr pone" where
  "pone_errno_new w errsv s =
     andthen (pone_obj_new w (u_class_errno (st_universe s)) s) (\<lambda>e s.
     andthen (pone_int_new w errsv s) (\<lambda>i s.
     andthen (pone_obj_set_ivar e (bs ''$!errno'') i s) (\<lambda>_. Ret e)))"

definition pone_errno :: "nat \<Rightarrow> ptr pone" where
  "pone_errno w s = pone_errno_new w (of_int (w_errsv (st_world s w))) s"

definition meth_errno_str :: "('z pone_libc_scheme) \<Rightarrow> nat \<Rightarrow> ptr \<Rightarrow> ptr list \<Rightarrow> ptr pone" where
  "meth_errno_str E w self args s =
     andthen (args_none E w ''Errno#Str'' args s) (\<lambda>_ s.
     andthen (pone_obj_get_ivar self (bs ''$!errno'') s) (\<lambda>v s.
     andthen (pone_intify E w v s) (\<lambda>i.
     let txt = e_strerror E (sint i) in pone_str_new_const w (txt @ [0]) (length txt))))"

definition meth_errno_int :: "('z pone_rt_scheme) \<Rightarrow> nat \<Rightarrow> ptr \<Rightarrow> ptr list \<Rightarrow> ptr pone" where
  "meth_errno_int E w self args s =
     andthen (args_none E w ''Errno#Int'' args s) (\<lambda>_. pone_obj_get_ivar self (bs ''$!errno''))"

section \<open>Setting the classes up\<close>

definition upd_universe :: "(pone_universe \<Rightarrow> pone_universe) \<Rightarrow> pone_state \<Rightarrow> pone_state" where
  "upd_universe f s = s\<lparr>st_universe := f (st_universe s)\<rparr>"

text \<open>A class that is made once and stored in a field of the universe.\<close>

definition make_class ::
  "('z pone_rt_scheme) \<Rightarrow> nat \<Rightarrow> (pone_universe \<Rightarrow> ptr) \<Rightarrow> (ptr \<Rightarrow> pone_universe \<Rightarrow> pone_universe)
     \<Rightarrow> string \<Rightarrow> (string \<times> pone_funcptr_t) list \<Rightarrow> ptr pone" where
  "make_class E w get put name ms s =
     (if get (st_universe s) \<noteq> Null then Abort
      else andthen (pone_class_new E w name s) (\<lambda>klass s.
           andthen (add_methods E w klass ms (upd_universe (put klass) s)) (\<lambda>_. Ret klass)))"

definition pone_nil_init :: "('z pone_rt_scheme) \<Rightarrow> nat \<Rightarrow> unit pone" where
  "pone_nil_init E w s =
     andthen (make_class E w u_class_nil (\<lambda>k. u_class_nil_update (\<lambda>_. k)) ''Nil''
       [(''gist'', ''meth_nil_gist''), (''Str'', ''meth_nil_str''), (''Int'', ''meth_nil_int''),
        (''Num'', ''meth_nil_num'')] s) (\<lambda>k.
     pone_universe_set_global (bs ''Nil'') k)"

definition pone_bool_init :: "('z pone_rt_scheme) \<Rightarrow> nat \<Rightarrow> unit pone" where
  "pone_bool_init E w s =
     andthen (make_class E w u_class_bool (\<lambda>k. u_class_bool_update (\<lambda>_. k)) ''Bool''
       [(''Str'', ''meth_bool_str''), (''Int'', ''meth_bool_int'')] s) (\<lambda>k.
     pone_universe_set_global (bs ''Bool'') k)"

definition pone_int_init :: "('z pone_rt_scheme) \<Rightarrow> nat \<Rightarrow> unit pone" where
  "pone_int_init E w s =
     andthen (make_class E w u_class_int (\<lambda>k. u_class_int_update (\<lambda>_. k)) ''Int''
       [(''is-prime'', ''meth_int_is_prime''), (''Str'', ''meth_int_str''), (''Int'', ''meth_int_int''),
        (''Num'', ''meth_int_num''), (''ACCEPTS'', ''meth_int_accepts'')] s) (\<lambda>k.
     pone_universe_set_global (bs ''Int'') k)"

definition pone_num_init :: "('z pone_libc_scheme) \<Rightarrow> nat \<Rightarrow> unit pone" where
  "pone_num_init E w s =
     andthen (make_class E w u_class_num (\<lambda>k. u_class_num_update (\<lambda>_. k)) ''Num''
       [(''floor'', ''meth_num_floor''), (''Str'', ''meth_num_str''), (''Num'', ''meth_num_num''),
        (''Int'', ''meth_num_int''), (''ACCEPTS'', ''meth_num_accepts'')] s) (\<lambda>k s.
     andthen (pone_num_new w (e_num_nan E) s) (\<lambda>v s.
     andthen (pone_universe_set_global (bs ''NAN'') v s) (\<lambda>_ s.
     andthen (pone_num_new w (e_num_inf E) s) (\<lambda>v s.
     andthen (pone_universe_set_global (bs ''INF'') v s) (\<lambda>_.
     pone_universe_set_global (bs ''Num'') k)))))"

definition pone_str_init :: "('z pone_rt_scheme) \<Rightarrow> nat \<Rightarrow> unit pone" where
  "pone_str_init E w s =
     andthen (make_class E w u_class_str (\<lambda>k. u_class_str_update (\<lambda>_. k)) ''Str''
       [(''Str'', ''meth_str_str''), (''Int'', ''meth_str_int''), (''Num'', ''meth_str_num''),
        (''uc'', ''meth_str_uc''), (''lc'', ''meth_str_lc''), (''chars'', ''meth_str_chars''),
        (''encode'', ''meth_str_encode''), (''AT-POS'', ''meth_str_at_pos''),
        (''ACCEPTS'', ''meth_str_accepts'')] s) (\<lambda>k s.
     andthen (pone_universe_set_global (bs ''Str'') k s) (\<lambda>_ s.
     andthen (make_class E w (\<lambda>_. Null) (\<lambda>k. u_class_bytes_update (\<lambda>_. k)) ''Bytes''
       [(''Str'', ''meth_bytes_str''), (''decode'', ''meth_bytes_decode''),
        (''bytes'', ''meth_bytes_bytes'')] s) (\<lambda>k.
     pone_universe_set_global (bs ''Bytes'') k)))"

definition pone_ary_init :: "('z pone_rt_scheme) \<Rightarrow> nat \<Rightarrow> unit pone" where
  "pone_ary_init E w s =
     (if u_class_ary (st_universe s) \<noteq> Null then Abort
      else andthen (pone_class_new E w ''Array::Iterator'' s) (\<lambda>icls s.
           andthen (add_methods E w icls [(''pull-one'', ''array.c:meth_pull_one'')] s) (\<lambda>_ s.
           andthen (make_class E w u_class_ary (\<lambda>k. u_class_ary_update (\<lambda>_. k)) ''Array''
             [(''iterator'', ''meth_ary_iterator''), (''size'', ''meth_ary_size''),
              (''push'', ''meth_ary_push''), (''pop'', ''meth_ary_pop''),
              (''unshift'', ''meth_ary_unshift''), (''shift'', ''meth_ary_shift''),
              (''join'', ''meth_ary_join''), (''Str'', ''meth_ary_str''), (''sort'', ''meth_ary_sort''),
              (''ASSIGN-POS'', ''meth_ary_assign_pos'')] s) (\<lambda>k.
           pone_obj_set_ivar k (bs ''$!iterator-class'') icls))))"

definition pone_map_init :: "('z pone_rt_scheme) \<Rightarrow> nat \<Rightarrow> unit pone" where
  "pone_map_init E w s =
     andthen (make_class E w u_class_map (\<lambda>k. u_class_map_update (\<lambda>_. k)) ''Map''
       [(''size'', ''meth_hash_size''), (''keys'', ''meth_hash_keys''), (''values'', ''meth_hash_values''),
        (''exists'', ''meth_hash_exists''), (''gist'', ''meth_hash_gist''),
        (''ASSIGN-KEY'', ''meth_hash_assign_key''), (''AT-KEY'', ''meth_hash_at_key'')] s) (\<lambda>k.
     pone_universe_set_global (bs ''Map'') k)"

definition pone_pair_init :: "('z pone_rt_scheme) \<Rightarrow> nat \<Rightarrow> unit pone" where
  "pone_pair_init E w s =
     andthen (make_class E w u_class_pair (\<lambda>k. u_class_pair_update (\<lambda>_. k)) ''Pair''
       [(''key'', ''meth_pair_key''), (''value'', ''meth_pair_value''), (''Str'', ''meth_pair_str'')] s) (\<lambda>k.
     pone_universe_set_global (bs ''Pair'') k)"

definition pone_range_init :: "('z pone_rt_scheme) \<Rightarrow> nat \<Rightarrow> unit pone" where
  "pone_range_init E w s =
     (if u_class_range (st_universe s) \<noteq> Null then Abort
      else andthen (pone_class_new E w ''Range::Iterator'' s) (\<lambda>icls s.
           andthen (add_methods E w icls [(''pull-one'', ''range.c:meth_pull_one'')] s) (\<lambda>_ s.
           andthen (make_class E w u_class_range (\<lambda>k. u_class_range_update (\<lambda>_. k)) ''Range''
             [(''iterator'', ''meth_range_iterator''), (''min'', ''meth_range_min''),
              (''max'', ''meth_range_max''), (''Str'', ''meth_range_str'')] s) (\<lambda>k s.
           andthen (pone_obj_set_ivar k (bs ''$!iterator-class'') icls s) (\<lambda>_.
           pone_universe_set_global (bs ''Range'') k)))))"

definition pone_code_init :: "('z pone_rt_scheme) \<Rightarrow> nat \<Rightarrow> unit pone" where
  "pone_code_init E w s =
     andthen (make_class E w u_class_code (\<lambda>k. u_class_code_update (\<lambda>_. k)) ''Code'' [] s) (\<lambda>k.
     pone_universe_set_global (bs ''Code'') k)"

definition pone_exc_init :: "('z pone_rt_scheme) \<Rightarrow> nat \<Rightarrow> unit pone" where
  "pone_exc_init E w s =
     andthen (pone_class_new E w ''X::AdHoc'' s) (\<lambda>k s.
     andthen (add_methods E w k [(''Str'', ''exc_adhoc_str'')] s) (\<lambda>_ s.
     pone_universe_set_global (bs ''X::AdHoc'') k (upd_universe (u_class_x_adhoc_update (\<lambda>_. k)) s)))"

definition pone_errno_init :: "('z pone_rt_scheme) \<Rightarrow> nat \<Rightarrow> unit pone" where
  "pone_errno_init E w s =
     andthen (make_class E w u_class_errno (\<lambda>k. u_class_errno_update (\<lambda>_. k)) ''Errno''
       [(''Str'', ''meth_errno_str''), (''Int'', ''meth_errno_int'')] s) (\<lambda>_. Ret ())"

end
