(* ===== verification/Pone_Methods_Correct.thy ===== *)
theory Pone_Methods_Correct
  imports Pone_Classes
begin

text \<open>
  Correctness of the built-in methods: primality, conversion between integers and text, sorting,
  argument checking, and iteration over arrays.
\<close>

section \<open>Primality\<close>

definition is_prime :: "int \<Rightarrow> bool" where
  "is_prime n \<longleftrightarrow> 1 < n \<and> (\<forall>d. d dvd n \<longrightarrow> 1 < d \<longrightarrow> d = n)"

lemma is_prime_loop_iff:
  "odd i \<Longrightarrow> is_prime_loop num i \<longleftrightarrow> (\<forall>d. i \<le> d \<longrightarrow> d < num div 2 \<longrightarrow> odd d \<longrightarrow> \<not> d dvd num)"
proof (induction num i rule: is_prime_loop.induct)
  case (1 num i)
  show ?case
  proof (cases "i < num div 2")
    case lt: True
    show ?thesis
    proof (cases "i dvd num")
      case True
      then have "\<not> is_prime_loop num i"
        using lt by (subst is_prime_loop.simps) (simp add: dvd_eq_mod_eq_0)
      then show ?thesis using lt True 1(2) by blast
    next
      case False
      have "odd (i + 2)" using 1(2) by simp
      then have "is_prime_loop num (i + 2) \<longleftrightarrow>
          (\<forall>d. i + 2 \<le> d \<longrightarrow> d < num div 2 \<longrightarrow> odd d \<longrightarrow> \<not> d dvd num)"
        using 1(1) lt False by (simp add: dvd_eq_mod_eq_0)
      moreover have "i \<le> d \<longleftrightarrow> d = i \<or> i + 2 \<le> d" if "odd d" for d
        using that 1(2) by presburger
      moreover have "is_prime_loop num i = is_prime_loop num (i + 2)"
        using lt False by (subst is_prime_loop.simps) (simp add: dvd_eq_mod_eq_0)
      ultimately show ?thesis using False by blast
    qed
  next
    case False
    then have "is_prime_loop num i" by (subst is_prime_loop.simps) simp
    then show ?thesis using False by force
  qed
qed

text \<open>A proper divisor of an odd number is odd, and at most a third of it.\<close>

lemma odd_divisor_small:
  assumes "odd (n :: int)" "d dvd n" "1 < d" "d \<noteq> n" "1 < n"
  shows "odd d \<and> 3 \<le> d \<and> d < n div 2"
proof -
  obtain k where k: "n = d * k" using assms(2) by blast
  have od: "odd d" "odd k" using assms(1) k by auto
  have kpos: "0 < k" using k assms(3,5) by (metis less_trans zero_less_mult_pos zero_less_one)
  then have "3 \<le> k" using od(2) k assms(4) by (cases "k = 1"; cases "k = 2") auto
  moreover have d3: "3 \<le> d" using od(1) assms(3) by (cases "d = 2") auto
  ultimately have "d * 3 \<le> n" using k by (simp add: mult_left_mono)
  then have "2 * d + 2 \<le> n" using d3 by simp
  then show ?thesis using od(1) d3 by simp
qed

lemma is_prime_c_correct: "is_prime_c n \<longleftrightarrow> is_prime n"
proof (cases "n \<le> 2 \<or> even n")
  case True
  have "is_prime 2" unfolding is_prime_def by (auto dest: zdvd_imp_le)
  moreover have "\<not> is_prime n" if "2 < n" "even n" using that by (auto simp: is_prime_def)
  moreover have "\<not> is_prime n" if "n \<le> 1" using that by (simp add: is_prime_def)
  ultimately show ?thesis using True
    by (cases "n \<le> 1"; cases "n = 2") (auto simp: is_prime_c_def even_iff_mod_2_eq_zero)
next
  case False
  then have n: "2 < n" "odd n" by auto
  have "is_prime_c n \<longleftrightarrow> is_prime_loop n 3"
    using n by (simp add: is_prime_c_def even_iff_mod_2_eq_zero)
  also have "\<dots> \<longleftrightarrow> (\<forall>d. 3 \<le> d \<longrightarrow> d < n div 2 \<longrightarrow> odd d \<longrightarrow> \<not> d dvd n)"
    by (rule is_prime_loop_iff) simp
  also have "\<dots> \<longleftrightarrow> is_prime n"
  proof
    assume *: "\<forall>d. 3 \<le> d \<longrightarrow> d < n div 2 \<longrightarrow> odd d \<longrightarrow> \<not> d dvd n"
    have "d = n" if "d dvd n" "1 < d" for d
      using odd_divisor_small [OF n(2) that] * that n(1) by force
    then show "is_prime n" using n(1) by (simp add: is_prime_def)
  next
    assume p: "is_prime n"
    show "\<forall>d. 3 \<le> d \<longrightarrow> d < n div 2 \<longrightarrow> odd d \<longrightarrow> \<not> d dvd n"
    proof (intro allI impI notI)
      fix d assume d: "3 \<le> d" "d < n div 2" "d dvd n"
      then have "d = n" using p unfolding is_prime_def by force
      then show False using d(2) n(1) by simp
    qed
  qed
  finally show ?thesis .
qed

section \<open>Decimal numbers\<close>

lemma dec_digit_byte: "d < 10 \<Longrightarrow> unat (of_nat (48 + d) :: byte) = 48 + d"
  by (simp add: unsigned_of_nat take_bit_nat_eq_self del: of_nat_add of_nat_numeral)

lemma digit_val_dec: "d < 10 \<Longrightarrow> digit_val (of_nat (48 + d)) = Some d"
  using dec_digit_byte [of d]
  by (simp add: digit_val_def word_le_nat_alt del: of_nat_add of_nat_numeral)

lemma c_digits_dec:
  "c_digits 10 acc (dec_of_nat n @ cs) = c_digits 10 (acc * 10 ^ length (dec_of_nat n) + n) cs"
proof (induction n arbitrary: acc cs rule: dec_of_nat.induct)
  case (1 n)
  show ?case
  proof (cases "n < 10")
    case True
    then show ?thesis using digit_val_dec [OF True] by (simp add: dec_of_nat.simps [of n] algebra_simps)
  next
    case False
    have d: "digit_val (of_nat (48 + n mod 10)) = Some (n mod 10)" by (rule digit_val_dec) simp
    have "n = 10 * (n div 10) + n mod 10" by simp
    then show ?thesis using 1 [OF False] False d
      by (simp add: dec_of_nat.simps [of n] algebra_simps)
  qed
qed

lemma dec_of_nat_digits: "c \<in> set (dec_of_nat n) \<Longrightarrow> \<exists>d < 10. c = of_nat (48 + d)"
proof (induction n rule: dec_of_nat.induct)
  case (1 n)
  then show ?case
    by (cases "n < 10") (auto simp: dec_of_nat.simps [of n] intro: exI [of _ "n mod 10"])
qed

lemma dec_of_nat_ne [simp]: "dec_of_nat n \<noteq> []"
  by (subst dec_of_nat.simps) simp

lemma hd_dec_of_nat: "n \<noteq> 0 \<Longrightarrow> \<exists>d. 0 < d \<and> d < 10 \<and> hd (dec_of_nat n) = of_nat (48 + d)"
proof (induction n rule: dec_of_nat.induct)
  case (1 n)
  then show ?case by (cases "n < 10") (auto simp: dec_of_nat.simps [of n])
qed

lemma length_dec_of_nat: "n < 10 ^ Suc k \<Longrightarrow> length (dec_of_nat n) \<le> Suc k"
proof (induction k arbitrary: n)
  case 0
  then show ?case by (simp add: dec_of_nat.simps [of n])
next
  case (Suc k)
  have "n div 10 < 10 ^ Suc k" using Suc.prems by (simp add: less_mult_imp_div_less)
  then show ?case using Suc.IH [of "n div 10"] by (subst dec_of_nat.simps) simp
qed

lemma dec_of_nat_longer: "10 ^ k \<le> n \<Longrightarrow> k < length (dec_of_nat n)"
proof (induction k arbitrary: n)
  case (Suc k)
  have "10 ^ k \<le> n div 10" using Suc.prems by (simp add: div_le_mono less_eq_div_iff_mult_less_eq)
  then have "k < length (dec_of_nat (n div 10))" by (rule Suc.IH)
  moreover have "10 * 1 \<le> 10 * (10 :: nat) ^ k" by (intro mult_left_mono) simp_all
  then have "\<not> n < 10" using Suc.prems unfolding power_Suc by linarith
  ultimately show ?case by (subst dec_of_nat.simps) simp
qed simp

lemma c_number_dec:
  assumes "base = 0 \<or> base = 10"
  shows "c_number base (dec_of_nat n @ [0]) = Some n"
proof -
  obtain c cs where dec: "dec_of_nat n = c # cs" by (meson dec_of_nat_ne neq_Nil_conv)
  have dig: "\<exists>d < 10. unat x = 48 + d" if "x \<in> set (dec_of_nat n)" for x
    using dec_of_nat_digits [OF that] dec_digit_byte by blast
  have "\<not> is_hex_prefix (dec_of_nat n @ [0])"
  proof (cases cs)
    case (Cons x xs)
    then have "\<exists>d < 10. unat x = 48 + d" using dig dec by simp
    then have "x \<noteq> 120 \<and> x \<noteq> 88" by auto
    then show ?thesis using dec Cons by (auto simp: is_hex_prefix_def split: list.splits)
  qed (use dec in \<open>simp add: is_hex_prefix_def\<close>)
  moreover have "c_digits 10 0 (dec_of_nat n @ [0]) = Some n"
    by (simp add: c_digits_dec digit_val_def)
  moreover have "c_digits 8 0 (dec_of_nat n @ [0]) = Some n" if "take 1 (dec_of_nat n @ [0]) = [48]"
  proof -
    have "n = 0"
    proof (rule ccontr)
      assume "n \<noteq> 0"
      then obtain d where d: "0 < d" "d < 10" "c = of_nat (48 + d)" using hd_dec_of_nat [of n] dec by auto
      then have "unat c = 48 + d" using dec_digit_byte by blast
      then show False using that dec d(1) by simp
    qed
    then show ?thesis by (simp add: dec_of_nat.simps [of 0] digit_val_def)
  qed
  ultimately show ?thesis using assms by (auto simp: c_number_def)
qed

lemma c_strtol_dec:
  assumes "base = 0 \<or> base = 10" "- (2 ^ 63) \<le> i" "i < 2 ^ 63"
  shows "c_strtol (dec_of_int i @ [0]) base = Some (of_int i, False)"
proof -
  let ?n = "nat \<bar>i\<bar>"
  obtain c cs where dec: "dec_of_nat ?n = c # cs" by (meson dec_of_nat_ne neq_Nil_conv)
  obtain d where d: "d < 10" "c = of_nat (48 + d)" using dec_of_nat_digits [of c ?n] dec by auto
  have u: "unat c = 48 + d" using d dec_digit_byte by blast
  have c: "\<not> c_isspace c" "c \<noteq> 45" "c \<noteq> 43"
    using u by (auto simp: c_isspace_def word_le_nat_alt)
  have num: "c_number base (c # cs @ [0]) = Some ?n" using c_number_dec [OF assms(1), of ?n] dec by simp
  have b: "\<not> (base < 0 \<or> base = 1 \<or> 36 < base)" using assms(1) by auto
  have cl: "c_clamp i = (of_int i, False)" using assms(2,3) by (simp add: c_clamp_def)
  show ?thesis
  proof (cases "i < 0")
    case True
    then have "dec_of_int i = 45 # c # cs" using dec by (simp add: dec_of_int_def)
    then show ?thesis using b num cl True by (simp add: c_strtol_def c_isspace_def)
  next
    case False
    then have "dec_of_int i = c # cs" using dec by (simp add: dec_of_int_def)
    then show ?thesis using b num cl c False by (simp add: c_strtol_def)
  qed
qed

lemma length_dec_of_int:
  assumes "- (10 ^ 18) < i" "i < 2 ^ 63"
  shows "length (dec_of_int i) \<le> 19"
proof (cases "i < 0")
  case True
  then have "nat (- i) < 10 ^ Suc 17" using assms(1) by simp
  from length_dec_of_nat [OF this] show ?thesis using True by (simp add: dec_of_int_def)
next
  case False
  then have "nat i < 10 ^ Suc 18" using assms(2) by simp
  from length_dec_of_nat [OF this] show ?thesis using False by (simp add: dec_of_int_def)
qed

text \<open>The text of an integer as a string value.\<close>

lemma str_from_int_spec:
  assumes wf: "arena_wf w s" and i: "- (10 ^ 18) < sint i"
  obtains p s' where "pone_str_from_int w i s = Ret p s'" "arena_wf w s'"
    "st_heap s' p = \<lparr>val_flags = PONE_FLAGS_STR_UTF8,
       val_as = AsStr (StrBuf (dec_of_int (sint i) @ [0])) (length (dec_of_int (sint i)))\<rparr>"
proof -
  let ?t = "dec_of_int (sint i)"
  have "sint i < 2 ^ 63" using sint_lt [of i] by simp
  then have len: "length ?t \<le> 19" using length_dec_of_int i by blast
  have dup: "pone_strdup (take 19 ?t @ [0]) (length ?t) = ?t @ [0]" using len by (simp add: pone_strdup_def)
  obtain p s1 where p: "pone_obj_alloc w (AsStr (StrBuf (?t @ [0])) (length ?t)) s = Ret p s1"
    "st_heap s1 = (st_heap s)(p := \<lparr>val_flags = 0, val_as = AsStr (StrBuf (?t @ [0])) (length ?t)\<rparr>)"
    "arena_wf w s1" "\<not> pone_alive (st_heap s p)"
    by (rule obj_allocE [OF wf, of "AsStr (StrBuf (?t @ [0])) (length ?t)"]) simp_all
  let ?s = "or_flags PONE_FLAGS_STR_UTF8 p s1"
  have "arena_wf w ?s"
    using p(3) by (rule arena_wf_heap_cong) (auto simp: or_flags_def p(2) pone_alive_iff split: if_splits)
  moreover have "pone_str_from_int w i s = Ret p ?s"
    using p(1) dup by (simp add: pone_str_from_int_def Let_def pone_str_new_strdup_def pone_bytes_new_strdup_def)
  moreover have "st_heap ?s p = \<lparr>val_flags = PONE_FLAGS_STR_UTF8,
       val_as = AsStr (StrBuf (?t @ [0])) (length ?t)\<rparr>"
    by (simp add: or_flags_def p(2))
  ultimately show ?thesis using that by blast
qed

section \<open>Argument checking\<close>

lemma max_args_Cons: "max_args (c # cs) = (if c = CHR '':'' then max_args cs else Suc (max_args cs))"
  by (simp add: max_args_def)

lemma andthen_cong:
  "m = m' \<Longrightarrow> (\<And>x s. m' = Ret x s \<Longrightarrow> f x s = g x s) \<Longrightarrow> andthen m f = andthen m' g"
  by (cases m') simp_all

lemma arg_loop_extra:
  "used + max_args cs \<le> length args \<Longrightarrow>
     arg_loop E w name spec (args @ extra) opt used acc cs s = arg_loop E w name spec args opt used acc cs s"
proof (induction cs arbitrary: opt used acc s)
  case (Cons c cs)
  have nth: "(args @ extra) ! used = args ! used" "\<not> length args \<le> used" if "c \<noteq> CHR '':''"
    using Cons.prems that by (simp_all add: max_args_Cons nth_append)
  have le: "Suc used + max_args cs \<le> length args" if "c \<noteq> CHR '':''"
    using Cons.prems that by (simp add: max_args_Cons)
  consider "c = CHR ''o''" | "c = CHR ''s''" | "c = CHR ''i''" | "c = CHR '':''"
    | "c \<notin> {CHR ''o'', CHR ''s'', CHR ''i'', CHR '':''}" by blast
  then show ?case
  proof cases
    case 2
    then show ?thesis using nth le Cons.IH by (auto intro!: andthen_cong)
  next
    case 3
    then show ?thesis using nth le Cons.IH by (auto intro!: andthen_cong)
  qed (use Cons nth le in \<open>auto simp: max_args_Cons\<close>)
qed simp

lemma arg_loop_used:
  "arg_loop E w name spec args opt used acc cs s = Ret (vs, u) s' \<Longrightarrow> used + max_args cs \<le> length args \<Longrightarrow>
     u = used + max_args cs"
proof (induction cs arbitrary: opt used acc s)
  case Nil
  then show ?case by (simp add: max_args_def)
next
  case (Cons c cs)
  have nth: "\<not> length args \<le> used" if "c \<noteq> CHR '':''"
    using Cons.prems that by (simp add: max_args_Cons)
  have le: "Suc used + max_args cs \<le> length args" if "c \<noteq> CHR '':''"
    using Cons.prems that by (simp add: max_args_Cons)
  have step: "u = used + max_args (c # cs)"
    if "arg_loop E w name spec args opt' (Suc used) acc' cs s1 = Ret (vs, u) s'" "c \<noteq> CHR '':''" for opt' acc' s1
    using Cons.IH [OF that(1) le [OF that(2)]] that(2) by (simp add: max_args_Cons)
  consider "c = CHR ''o''" | "c = CHR ''s''" | "c = CHR ''i''" | "c = CHR '':''"
    | "c \<notin> {CHR ''o'', CHR ''s'', CHR ''i'', CHR '':''}" by blast
  then show ?case
  proof cases
    case 1
    then show ?thesis using Cons.prems(1) nth step by simp
  next
    case 2
    then show ?thesis using Cons.prems(1) nth step by (auto simp: andthen_Ret_iff)
  next
    case 3
    then show ?thesis using Cons.prems(1) nth step by (auto simp: andthen_Ret_iff)
  next
    case 4
    then show ?thesis using Cons.prems Cons.IH [of True used acc s] by (simp add: max_args_Cons)
  next
    case 5
    then show ?thesis using Cons.prems(1)
      by (auto simp: pone_throw_str_def pone_throw_def andthen_Ret_iff Let_def split: if_splits)
  qed
qed

lemma min_args_le_max: "min_args spec \<le> max_args spec"
  unfolding min_args_def max_args_def by (induction spec) simp_all

section \<open>Sorting\<close>

lemma bytes_cmp_le: "bytes_cmp a b \<le> 0 \<longleftrightarrow> a = b \<or> bytes_less a b"
  using bytes_cmp_less [of a b] bytes_cmp_zero [of a b] by linarith

interpretation byte_order: comparison "\<lambda>p q. bytes_cmp (f p) (f q)" for f :: "'a \<Rightarrow> bytes"
proof
  show "bytes_cmp (f y) (f x) \<le> 0" if "bytes_cmp (f x) (f y) > 0" for x y
    using that bytes_cmp_swap [of "f y" "f x"] by simp
  show "bytes_cmp (f x) (f z) \<le> 0" if "bytes_cmp (f x) (f y) \<le> 0" "bytes_cmp (f y) (f z) \<le> 0" for x y z
    using that bytes_less_trans unfolding bytes_cmp_le by auto
qed

section \<open>Iteration over an array\<close>

text \<open>An iterator of the array \<open>a\<close> that stands at index \<open>n\<close>.\<close>

definition iter_at :: "ptr \<Rightarrow> ptr \<Rightarrow> nat \<Rightarrow> pone_state \<Rightarrow> bool" where
  "iter_at it a n s \<longleftrightarrow>
     (\<exists>klass ivar ip. val_as (st_heap s it) = AsObj klass ivar \<and>
        str_kh_get ivar (bs ''$!val'') = Some (Some a) \<and> str_kh_get ivar (bs ''$!i'') = Some (Some ip) \<and>
        val_as (st_heap s ip) = AsInt (of_nat n) \<and> \<not> pone_is_frozen (st_heap s ip)) \<and> ary_ok a s"

lemma args_none_empty [simp]: "args_none E w name args s = Ret () s"
  by (simp add: args_none_def pone_arg_def min_args_def)

lemma sint_of_nat_64: "n < 2 ^ 63 \<Longrightarrow> sint (of_nat n :: pone_int_t) = int n"
  by (simp add: signed_of_nat signed_take_bit_int_eq_self)

lemma pull_one_step:
  assumes it: "iter_at it a n s" and n: "n < length (ary_items a s)" "length (ary_items a s) < 2 ^ 63"
  shows "\<exists>s'. ary_pull_one E w it [] s = Ret (ary_items a s ! n) s' \<and> iter_at it a (Suc n) s' \<and>
    ary_items a s' = ary_items a s \<and> st_universe s' = st_universe s"
proof -
  obtain klass ivar ip where o: "val_as (st_heap s it) = AsObj klass ivar"
    "str_kh_get ivar (bs ''$!val'') = Some (Some a)" "str_kh_get ivar (bs ''$!i'') = Some (Some ip)"
    "val_as (st_heap s ip) = AsInt (of_nat n)" "\<not> pone_is_frozen (st_heap s ip)" and ok: "ary_ok a s"
    using it by (auto simp: iter_at_def)
  obtain v m len where a: "val_as (st_heap s a) = AsAry v m len" "len \<le> length v" "ary_items a s = take len v"
    using ok by (rule ary_okE) auto
  have len: "length (ary_items a s) = len" using a by simp
  have si: "sint (of_nat n :: pone_int_t) = int n" using n sint_of_nat_64 by simp
  have ne: "ip \<noteq> a" "ip \<noteq> it" using o(1,4) a(1) by auto
  let ?s = "set_as ip (AsInt (of_nat n + 1)) s"
  have at: "pone_ary_at_pos a (int n) s = Ret (ary_items a s ! n) s"
    using a n len by (simp add: pone_ary_at_pos_def pone_ary_size_def)
  have "ary_pull_one E w it [] s = Ret (ary_items a s ! n) ?s"
    using o a(1) at n len si
    by (simp add: ary_pull_one_def pone_obj_get_ivar_def type_at_def pone_type_def pone_int_val_def
        pone_ary_size_def pone_int_incr_def)
  moreover have "ary_items a ?s = ary_items a s" "ary_ok a ?s"
    using ne ok by (simp_all add: ary_items_def ary_ok_def)
  moreover have "iter_at it a (Suc n) ?s"
    using o ne calculation(3) by (simp add: iter_at_def pone_is_frozen_def has_flag_def add.commute)
  ultimately show ?thesis by (intro exI [of _ ?s]) simp
qed

lemma pull_one_end:
  assumes it: "iter_at it a (length (ary_items a s)) s" and n: "length (ary_items a s) < 2 ^ 63"
  shows "ary_pull_one E w it [] s = Ret (u_instance_iteration_end (st_universe s)) s"
proof -
  obtain klass ivar ip where o: "val_as (st_heap s it) = AsObj klass ivar"
    "str_kh_get ivar (bs ''$!val'') = Some (Some a)" "str_kh_get ivar (bs ''$!i'') = Some (Some ip)"
    "val_as (st_heap s ip) = AsInt (of_nat (length (ary_items a s)))" and ok: "ary_ok a s"
    using it by (auto simp: iter_at_def)
  obtain v m len where a: "val_as (st_heap s a) = AsAry v m len" "len \<le> length v" "ary_items a s = take len v"
    using ok by (rule ary_okE) auto
  then show ?thesis using o sint_of_nat_64 [OF n]
    by (simp add: ary_pull_one_def pone_obj_get_ivar_def type_at_def pone_type_def pone_int_val_def
        pone_ary_size_def)
qed

lemma pull_rest:
  "iter_at it a n s \<Longrightarrow> length (ary_items a s) < 2 ^ 63 \<Longrightarrow> n + k = length (ary_items a s) \<Longrightarrow>
   \<exists>s'. collect_n (ary_pull_one E w it []) k s = Ret (drop n (ary_items a s)) s' \<and>
     ary_pull_one E w it [] s' = Ret (u_instance_iteration_end (st_universe s)) s' \<and>
     ary_items a s' = ary_items a s"
proof (induction k arbitrary: n s)
  case 0
  then show ?case using pull_one_end [of it a s E w] by simp
next
  case (Suc k)
  obtain s1 where s1: "ary_pull_one E w it [] s = Ret (ary_items a s ! n) s1" "iter_at it a (Suc n) s1"
    "ary_items a s1 = ary_items a s" "st_universe s1 = st_universe s"
    using pull_one_step [OF Suc.prems(1) _ Suc.prems(2)] Suc.prems(3) by (metis add_Suc_right less_add_Suc1)
  obtain s' where "collect_n (ary_pull_one E w it []) k s1 = Ret (drop (Suc n) (ary_items a s1)) s'"
    "ary_pull_one E w it [] s' = Ret (u_instance_iteration_end (st_universe s1)) s'"
    "ary_items a s' = ary_items a s1"
    using Suc.IH [OF s1(2)] s1(3) Suc.prems(2,3) by auto
  moreover have "drop n (ary_items a s) = ary_items a s ! n # drop (Suc n) (ary_items a s)"
    using Suc.prems(3) by (intro Cons_nth_drop_Suc [symmetric]) simp
  ultimately show ?case using s1 by simp
qed

text \<open>A new object with its variables.\<close>

lemma obj_set_ivar_spec:
  assumes "val_as (st_heap s p) = AsObj k iv" "str_kh_inv iv" "kh_size iv < 2 ^ 30"
  obtains iv' where "pone_obj_set_ivar p name v s = Ret () (set_as p (AsObj k iv') s)" "str_kh_inv iv'"
    "str_kh_map iv' = (str_kh_map iv)(cstr name \<mapsto> v)" "kh_size iv' \<le> Suc (kh_size iv)"
proof -
  obtain iv' r where p: "str_kh_put iv name v = Some (iv', r)"
    using str_table.table.store_look [OF assms(2,3)] by blast
  have "kh_size iv' \<le> Suc (kh_size iv)" using str_table.table.count_store [OF assms(2,3) p] by simp
  moreover have "pone_obj_set_ivar p name v s = Ret () (set_as p (AsObj k iv') s)"
    using assms(1) p by (simp add: pone_obj_set_ivar_def)
  ultimately show ?thesis using str_table.table.storeD(1,2) [OF assms(2,3) p] by (intro that)
qed

lemma iterator_spec:
  assumes wf: "arena_wf w s" and a: "ary_ok a s"
    and cls: "pone_obj_get_ivar (u_class_ary (st_universe s)) (bs ''$!iterator-class'') s = Ret icls s"
    and icls: "icls \<noteq> Null" "type_at s icls = PONE_OBJ"
  obtains it s' where "meth_ary_iterator E w a [] s = Ret it s'" "iter_at it a 0 s'"
    "ary_items a s' = ary_items a s"
proof -
  obtain v m len where va: "val_as (st_heap s a) = AsAry v m len" using a by (rule ary_okE)
  then have alive: "pone_alive (st_heap s a)" by (simp add: pone_alive_iff)
  have what: "pone_what a s = Ret (u_class_ary (st_universe s)) s" using va alive by (simp add: pone_what_def Let_def)
  obtain it s1 where it: "pone_obj_alloc w (AsObj icls kh_init) s = Ret it s1" "\<not> pone_alive (st_heap s it)"
    "st_heap s1 = (st_heap s)(it := \<lparr>val_flags = 0, val_as = AsObj icls kh_init\<rparr>)" "arena_wf w s1"
    by (rule obj_allocE [OF wf, of "AsObj icls kh_init"]) simp_all
  obtain ip s2 where ip: "pone_obj_alloc w (AsInt 0) s1 = Ret ip s2" "\<not> pone_alive (st_heap s1 ip)"
    "st_heap s2 = (st_heap s1)(ip := \<lparr>val_flags = 0, val_as = AsInt 0\<rparr>)"
    by (rule obj_allocE [OF it(4), of "AsInt 0"]) simp_all
  have ita: "it \<noteq> a" using it(2) alive by auto
  have ne: "ip \<noteq> it" "ip \<noteq> a"
    using ip(2) it(3) alive ita by (auto simp: pone_alive_iff)
  have h2: "val_as (st_heap s2 it) = AsObj icls kh_init" using ne ip(3) it(3) by simp
  have sz: "kh_size (kh_init :: ptr str_khash) = 0" by (simp add: kh_init_def)
  obtain iv1 where iv1: "pone_obj_set_ivar it (bs ''$!i'') ip s2 = Ret () (set_as it (AsObj icls iv1) s2)"
    "str_kh_inv iv1" "str_kh_map iv1 = (str_kh_map kh_init)(cstr (bs ''$!i'') \<mapsto> ip)" "kh_size iv1 \<le> Suc 0"
    using sz by (rule_tac obj_set_ivar_spec [OF h2 kh_init_inv, of "bs ''$!i''" ip]) simp_all
  let ?s3 = "set_as it (AsObj icls iv1) s2"
  have h3: "val_as (st_heap ?s3 it) = AsObj icls iv1" by simp
  obtain iv2 where iv2: "pone_obj_set_ivar it (bs ''$!val'') a ?s3 = Ret () (set_as it (AsObj icls iv2) ?s3)"
    "str_kh_inv iv2" "str_kh_map iv2 = (str_kh_map iv1)(cstr (bs ''$!val'') \<mapsto> a)"
    using iv1(4) by (rule_tac obj_set_ivar_spec [OF h3 iv1(2), of "bs ''$!val''" a]) simp_all
  let ?s4 = "set_as it (AsObj icls iv2) ?s3"
  have run: "meth_ary_iterator E w a [] s = Ret it ?s4"
    using what cls icls it(1) ip(1) iv1(1) iv2(1)
    by (simp add: meth_ary_iterator_def pone_obj_new_def pone_int_new_def)
  have names: "cstr (bs ''$!i'') \<noteq> cstr (bs ''$!val'')" by (simp add: cstr_def bs_def)
  have get: "str_kh_get iv2 k = Some (str_kh_map iv2 (cstr k))" for k
    using str_table.table.find_look [OF iv2(2)] .
  have hs: "st_heap ?s4 a = st_heap s a" "st_heap ?s4 ip = \<lparr>val_flags = 0, val_as = AsInt 0\<rparr>"
    "val_as (st_heap ?s4 it) = AsObj icls iv2"
    using ne ita ip(3) it(3) by simp_all
  have "iter_at it a 0 ?s4"
    unfolding iter_at_def using get names iv2(3) iv1(3) a hs
    by (simp add: pone_is_frozen_def has_flag_def ary_ok_def)
  moreover have "ary_items a ?s4 = ary_items a s" using hs(1) by (simp add: ary_items_def)
  ultimately show ?thesis using run that by blast
qed

section \<open>Properties\<close>

text \<open>
  C36: \<open>is-prime\<close> decides primality: the trial divisions by odd numbers below half of the
  number find a divisor of every composite.
\<close>

theorem int_is_prime_correct:
  "meth_int_is_prime E w self args s =
     andthen (pone_intify E w self s) (\<lambda>n. Ret (pone_bool (is_prime (sint n))))"
  by (simp add: meth_int_is_prime_def is_prime_c_correct)

text \<open>
  An environment for the examples, with the arithmetic of the integers in place of that of \<open>double\<close>.
\<close>

definition demo_libc :: pone_libc where
  "demo_libc = \<lparr>e_call = (\<lambda>f w self args s. Ret pone_nil s), e_fin = no_finalizers, e_depth = 2,
     e_num_add = (+), e_num_sub = (-), e_num_mul = (*), e_num_div = (div), e_num_pow = (\<lambda>a b. (a, 0)),
     e_num_eq = (=), e_num_lt = (<), e_num_le = (\<le>), e_num_of_int = id, e_int_of_num = id,
     e_num_floor = ucast, e_num_fmt = (\<lambda>_. []), e_ptr_fmt = (\<lambda>_. []), e_strtod = (\<lambda>_. 0),
     e_mbc_enc_len = (\<lambda>_. 1), e_cstr_of = (\<lambda>w p. Ret []), e_strerror = (\<lambda>_. []), e_erange = False,
     e_num_gt_int_max = (\<lambda>_. False), e_num_nan = 0, e_num_inf = 0, e_sort_r = (\<lambda>f vs. Ret vs)\<rparr>"

text \<open>
  C37: an integer that was turned into a string and back is the same integer, for every value
  above \<open>-10^18\<close>; only \<open>LONG_MAX\<close> is rejected when \<open>errno\<close> was \<open>ERANGE\<close> before.
\<close>

theorem int_str_roundtrip:
  assumes wf: "arena_wf w s" and i: "- (10 ^ 18) < sint i"
    and d: "e_depth E \<noteq> 0" and e: "e_erange E \<Longrightarrow> sint i \<noteq> 2 ^ 63 - 1"
  shows "\<exists>p s1 q s2. pone_str_from_int w i s = Ret p s1 \<and> meth_str_int E w p [] s1 = Ret q s2 \<and>
    pone_int_val q s2 = Ret i s2"
proof -
  obtain p s1 where p: "pone_str_from_int w i s = Ret p s1" "arena_wf w s1"
    "st_heap s1 p = \<lparr>val_flags = PONE_FLAGS_STR_UTF8,
       val_as = AsStr (StrBuf (dec_of_int (sint i) @ [0])) (length (dec_of_int (sint i)))\<rparr>"
    by (rule str_from_int_spec [OF wf i])
  obtain q s2 where q: "pone_obj_alloc w (AsInt i) s1 = Ret q s2"
    "st_heap s2 = (st_heap s1)(q := \<lparr>val_flags = 0, val_as = AsInt i\<rparr>)"
    by (rule obj_allocE [OF p(2), of "AsInt i"]) simp_all
  have long: "c_strtol (dec_of_int (sint i) @ [0]) 0 = Some (i, False)"
    using c_strtol_dec [of 0 "sint i"] sint_long [of i] by simp
  have ptr: "pone_str_ptr (e_depth E) p s1 = Ret (dec_of_int (sint i) @ [0]) s1"
    using p(3) d by (cases "e_depth E") (simp_all add: has_flag_def flag_defs)
  have "meth_str_int E w p [] s1 = Ret q s2"
    using ptr long e q(1)
    by (auto simp: meth_str_int_def args_opt_i_def pone_arg_def min_args_def max_args_def pone_int_new_def)
  then show ?thesis using p(1) q(2) by (auto simp: pone_int_val_def)
qed

theorem int_str_roundtrip_witness:
  "\<exists>p s1 q s2. pone_str_from_int 0 (- 42) blank_state = Ret p s1 \<and>
     meth_str_int demo_libc 0 p [] s1 = Ret q s2 \<and> pone_int_val q s2 = Ret (- 42) s2"
proof (rule int_str_roundtrip)
  show "arena_wf 0 blank_state" by (rule blank_state_wf)
  show "- (10 ^ 18) < sint (- 42 :: pone_int_t)" by simp
qed (simp_all add: demo_libc_def)

text \<open>
  Below \<open>-10^18\<close> the text does not fit the buffer of 20 bytes: the string has 20 bytes,
  the last of which is a NUL in place of the last digit.
\<close>

theorem str_from_int_cut:
  assumes wf: "arena_wf w s" and i: "sint i \<le> - (10 ^ 18)"
  shows "\<exists>p s'. pone_str_from_int w i s = Ret p s' \<and> length (dec_of_int (sint i)) = 20 \<and>
    pone_str_bytes 1 p s' = Ret (take 19 (dec_of_int (sint i)) @ [0]) s'"
proof -
  let ?t = "dec_of_int (sint i)"
  have "nat (- sint i) < 10 ^ Suc 18" "10 ^ 18 \<le> nat (- sint i)" using i sint_long(1) [of i] by simp_all
  then have "length (dec_of_nat (nat (- sint i))) = 19"
    using length_dec_of_nat [of _ 18] dec_of_nat_longer [of 18] by fastforce
  moreover have "sint i < 0" using i by simp
  ultimately have len: "length ?t = 20" by (simp add: dec_of_int_def)
  let ?b = "take 19 ?t @ [0]"
  have dup: "pone_strdup ?b (length ?t) = ?b @ [0]" using len by (simp add: pone_strdup_def)
  obtain p s1 where p: "pone_obj_alloc w (AsStr (StrBuf (?b @ [0])) 20) s = Ret p s1"
    "st_heap s1 = (st_heap s)(p := \<lparr>val_flags = 0, val_as = AsStr (StrBuf (?b @ [0])) 20\<rparr>)"
    by (rule obj_allocE [OF wf, of "AsStr (StrBuf (?b @ [0])) 20"]) simp_all
  have "pone_str_from_int w i s = Ret p (or_flags PONE_FLAGS_STR_UTF8 p s1)"
    using p(1) dup len
    by (simp add: pone_str_from_int_def Let_def pone_str_new_strdup_def pone_bytes_new_strdup_def)
  then show ?thesis using p(2) len
    by (simp add: pone_str_bytes_def or_flags_def has_flag_def flag_defs)
qed

theorem str_from_int_cut_witness:
  "\<exists>p s'. pone_str_from_int 0 (- 1234567890123456789) blank_state = Ret p s' \<and>
     pone_str_bytes 1 p s' = Ret (take 19 (dec_of_int (- 1234567890123456789)) @ [0]) s'"
  using str_from_int_cut [OF blank_state_wf, of "- 1234567890123456789" 0] by auto

text \<open>
  C35: the fallback sorting routine, with the comparison of strings by their bytes, returns
  the elements it was given, in an order in which none is greater than a later one.
\<close>

theorem sort_r_simple_bytes:
  "mset (sort_r_simple (\<lambda>p q. bytes_cmp (f p) (f q)) ps) = mset ps \<and>
   sorted_wrt (\<lambda>p q. bytes_cmp (f p) (f q) \<le> 0) (sort_r_simple (\<lambda>p q. bytes_cmp (f p) (f q)) ps)"
  using byte_order.sort_r_simple_mset [of f ps] byte_order.sort_r_simple_sorted [of f ps]
  by (simp add: byte_order.le_def [abs_def])

text \<open>
  C38: iterating over an array yields its elements in order and then the end mark, and leaves
  the array as it was.
\<close>

theorem ary_iteration:
  assumes "arena_wf w s" "ary_ok a s" "length (ary_items a s) < 2 ^ 63"
    "pone_obj_get_ivar (u_class_ary (st_universe s)) (bs ''$!iterator-class'') s = Ret icls s"
    "icls \<noteq> Null" "type_at s icls = PONE_OBJ"
  shows "\<exists>it s1 s2. meth_ary_iterator E w a [] s = Ret it s1 \<and>
    collect_n (ary_pull_one E w it []) (length (ary_items a s)) s1 = Ret (ary_items a s) s2 \<and>
    ary_pull_one E w it [] s2 = Ret (u_instance_iteration_end (st_universe s1)) s2 \<and>
    ary_items a s2 = ary_items a s"
proof -
  obtain it s1 where it: "meth_ary_iterator E w a [] s = Ret it s1" "iter_at it a 0 s1"
    "ary_items a s1 = ary_items a s"
    by (rule iterator_spec [OF assms(1,2,4-6)])
  then show ?thesis using pull_rest [of it a 0 s1 "length (ary_items a s)" E w] assms(3) by auto
qed

definition iter_demo :: "ptr str_khash \<Rightarrow> pone_state" where
  "iter_demo iv = blank_state\<lparr>st_heap := initial_heap(
       Cell 1 0 0 := \<lparr>val_flags = 0, val_as = AsAry [TrueP, FalseP] 2 2\<rparr>,
       Cell 1 0 1 := \<lparr>val_flags = 0, val_as = AsObj NilP iv\<rparr>),
     st_universe := blank_universe\<lparr>u_class_ary := Cell 1 0 1\<rparr>\<rparr>"

theorem ary_iteration_witness:
  "\<exists>iv it s1 s2. meth_ary_iterator demo_libc 0 (Cell 1 0 0) [] (iter_demo iv) = Ret it s1 \<and>
     collect_n (ary_pull_one demo_libc 0 it []) 2 s1 = Ret [TrueP, FalseP] s2"
proof -
  obtain iv r where iv: "str_kh_put kh_init (bs ''$!iterator-class'') (Cell 1 0 1) = Some (iv, r)"
    using str_table.table.store_look [OF kh_init_inv] by (fastforce simp: kh_init_def)
  have sz: "kh_size (kh_init :: ptr str_khash) < 2 ^ 30" by (simp add: kh_init_def)
  have get: "str_kh_get iv (bs ''$!iterator-class'') = Some (Some (Cell 1 0 1))"
    using str_table.table.find_store [OF kh_init_inv sz iv] by simp
  let ?s = "iter_demo iv"
  have items: "ary_items (Cell 1 0 0) ?s = [TrueP, FalseP]" by (simp add: iter_demo_def ary_items_def)
  have "arena_wf 0 ?s"
    by (rule blank_world_wf) (simp_all add: iter_demo_def blank_state_def initial_heap_def pone_alive_iff)
  moreover have "ary_ok (Cell 1 0 0) ?s" by (simp add: iter_demo_def ary_ok_def)
  moreover have "pone_obj_get_ivar (u_class_ary (st_universe ?s)) (bs ''$!iterator-class'') ?s = Ret (Cell 1 0 1) ?s"
    "type_at ?s (Cell 1 0 1) = PONE_OBJ"
    using get by (simp_all add: iter_demo_def pone_obj_get_ivar_def type_at_def pone_type_def)
  ultimately obtain it s1 s2 where "meth_ary_iterator demo_libc 0 (Cell 1 0 0) [] ?s = Ret it s1"
    "collect_n (ary_pull_one demo_libc 0 it []) (length [TrueP, FalseP]) s1 = Ret [TrueP, FalseP] s2"
    using ary_iteration [of 0 ?s "Cell 1 0 0" "Cell 1 0 1" demo_libc] unfolding items by auto
  moreover have "length [TrueP, FalseP] = 2" by simp
  ultimately show ?thesis by metis
qed

text \<open>
  Arguments beyond those a method declares are ignored: when every declared argument was
  passed, further ones change nothing.
\<close>

theorem pone_arg_extra:
  assumes "length args = max_args spec"
  shows "pone_arg E w name spec (args @ extra) s = pone_arg E w name spec args s"
proof -
  have le: "0 + max_args spec \<le> length args" using assms by simp
  have "andthen (arg_loop E w name spec args False 0 [] spec s) (\<lambda>(vals, used) s.
      if used < min_args spec \<or> max_args spec < used then arg_error w name spec (length (args @ extra)) s
      else Ret vals s) =
    andthen (arg_loop E w name spec args False 0 [] spec s) (\<lambda>(vals, used) s.
      if used < min_args spec \<or> max_args spec < used then arg_error w name spec (length args) s
      else Ret vals s)"
    using min_args_le_max [of spec]
    by (intro andthen_cong [OF refl]) (auto dest!: arg_loop_used [OF _ le])
  then show ?thesis unfolding pone_arg_def arg_loop_extra [OF le] .
qed

end
