(* ===== verification/Channel_Sync.thy ===== *)
theory Channel_Sync
  imports Pone_Prelude
begin

text \<open>
  The synchronisation of a channel (\<^verbatim>\<open>src/channel.c\<close>): threads that send, try to send and receive
  under the channel's mutex and sleep on its two condition variables. Between taking the mutex and
  giving it up, by \<open>pthread_mutex_unlock\<close> or inside \<open>pthread_cond_wait\<close>, a thread runs alone, so each such
  stretch is one step. A thread that was woken, by a signal or for no reason, tests its condition again.
\<close>

section \<open>The channel and its threads\<close>

text \<open>
  \<open>cs_sent\<close> and \<open>cs_got\<close> record what was sent and received so far; they are not part of the program.
\<close>

record 'a chan_sync =
  cs_limit :: int
  cs_num :: int
  cs_queue :: "'a list"
  cs_send_sleep :: "nat set" \<comment> \<open>senders asleep on \<open>recv_cond\<close>\<close>
  cs_send_awake :: "nat set" \<comment> \<open>senders woken from it\<close>
  cs_recv_sleep :: "nat set" \<comment> \<open>receivers asleep on \<open>send_cond\<close>\<close>
  cs_recv_awake :: "nat set"
  cs_sent :: "'a list"
  cs_got :: "'a list"

definition chan_start :: "int \<Rightarrow> 'a chan_sync" where
  "chan_start limit = \<lparr>cs_limit = limit, cs_num = 0, cs_queue = [], cs_send_sleep = {}, cs_send_awake = {},
     cs_recv_sleep = {}, cs_recv_awake = {}, cs_sent = [], cs_got = []\<rparr>"

definition chan_full :: "'a chan_sync \<Rightarrow> bool" where
  "chan_full c \<longleftrightarrow> cs_limit c < cs_num c"

definition chan_put :: "'a \<Rightarrow> 'a chan_sync \<Rightarrow> 'a chan_sync" where
  "chan_put v c = c\<lparr>cs_queue := cs_queue c @ [v], cs_num := cs_num c + 1, cs_sent := cs_sent c @ [v]\<rparr>"

definition chan_take :: "'a chan_sync \<Rightarrow> 'a chan_sync" where
  "chan_take c = c\<lparr>cs_queue := tl (cs_queue c), cs_num := cs_num c - 1,
     cs_got := cs_got c @ [hd (cs_queue c)]\<rparr>"

text \<open>\<open>pthread_cond_signal\<close> wakes one sleeper, if there is one.\<close>

inductive wake_recv :: "'a chan_sync \<Rightarrow> 'a chan_sync \<Rightarrow> bool" where
  "cs_recv_sleep c = {} \<Longrightarrow> wake_recv c c"
| "t \<in> cs_recv_sleep c \<Longrightarrow>
     wake_recv c (c\<lparr>cs_recv_sleep := cs_recv_sleep c - {t}, cs_recv_awake := insert t (cs_recv_awake c)\<rparr>)"

inductive wake_send :: "'a chan_sync \<Rightarrow> 'a chan_sync \<Rightarrow> bool" where
  "cs_send_sleep c = {} \<Longrightarrow> wake_send c c"
| "t \<in> cs_send_sleep c \<Longrightarrow>
     wake_send c (c\<lparr>cs_send_sleep := cs_send_sleep c - {t}, cs_send_awake := insert t (cs_send_awake c)\<rparr>)"

text \<open>A thread enters an operation, or goes on in it after it was woken.\<close>

inductive chan_step :: "'a chan_sync \<Rightarrow> 'a chan_sync \<Rightarrow> bool" where
  send: "t \<notin> cs_send_sleep c \<Longrightarrow> t \<notin> cs_recv_sleep c \<Longrightarrow> t \<notin> cs_recv_awake c \<Longrightarrow> \<not> chan_full c \<Longrightarrow>
     wake_recv (chan_put v (c\<lparr>cs_send_awake := cs_send_awake c - {t}\<rparr>)) c' \<Longrightarrow> chan_step c c'"
| send_wait: "t \<notin> cs_send_sleep c \<Longrightarrow> t \<notin> cs_recv_sleep c \<Longrightarrow> t \<notin> cs_recv_awake c \<Longrightarrow> chan_full c \<Longrightarrow>
     chan_step c (c\<lparr>cs_send_awake := cs_send_awake c - {t}, cs_send_sleep := insert t (cs_send_sleep c)\<rparr>)"
| trysend: "t \<notin> cs_send_sleep c \<Longrightarrow> t \<notin> cs_send_awake c \<Longrightarrow> t \<notin> cs_recv_sleep c \<Longrightarrow> t \<notin> cs_recv_awake c \<Longrightarrow>
     cs_limit c > cs_num c \<Longrightarrow> wake_recv (chan_put v c) c' \<Longrightarrow> chan_step c c'"
| receive: "t \<notin> cs_recv_sleep c \<Longrightarrow> t \<notin> cs_send_sleep c \<Longrightarrow> t \<notin> cs_send_awake c \<Longrightarrow> cs_num c \<noteq> 0 \<Longrightarrow>
     wake_send (chan_take (c\<lparr>cs_recv_awake := cs_recv_awake c - {t}\<rparr>)) c' \<Longrightarrow> chan_step c c'"
| recv_wait: "t \<notin> cs_recv_sleep c \<Longrightarrow> t \<notin> cs_send_sleep c \<Longrightarrow> t \<notin> cs_send_awake c \<Longrightarrow> cs_num c = 0 \<Longrightarrow>
     chan_step c (c\<lparr>cs_recv_awake := cs_recv_awake c - {t}, cs_recv_sleep := insert t (cs_recv_sleep c)\<rparr>)"
| spurious_recv: "t \<in> cs_recv_sleep c \<Longrightarrow>
     chan_step c (c\<lparr>cs_recv_sleep := cs_recv_sleep c - {t}, cs_recv_awake := insert t (cs_recv_awake c)\<rparr>)"
| spurious_send: "t \<in> cs_send_sleep c \<Longrightarrow>
     chan_step c (c\<lparr>cs_send_sleep := cs_send_sleep c - {t}, cs_send_awake := insert t (cs_send_awake c)\<rparr>)"

inductive chan_reach :: "'a chan_sync \<Rightarrow> 'a chan_sync \<Rightarrow> bool" for c0 where
  refl: "chan_reach c0 c0"
| step: "chan_reach c0 c \<Longrightarrow> chan_step c c' \<Longrightarrow> chan_reach c0 c'"

section \<open>Invariants\<close>

text \<open>The contents: nothing is lost, invented or reordered, and the count is right.\<close>

definition chan_data :: "'a chan_sync \<Rightarrow> bool" where
  "chan_data c \<longleftrightarrow> cs_sent c = cs_got c @ cs_queue c \<and> cs_num c = int (length (cs_queue c)) \<and>
     cs_num c \<le> max 0 (cs_limit c + 1)"

text \<open>
  The threads: while somebody sleeps, there are at least as many woken threads of its kind as there
  are values to receive, or places to fill.
\<close>

definition chan_wakeups :: "'a chan_sync \<Rightarrow> bool" where
  "chan_wakeups c \<longleftrightarrow> finite (cs_recv_awake c) \<and> finite (cs_send_awake c) \<and>
     cs_recv_sleep c \<inter> cs_recv_awake c = {} \<and> cs_send_sleep c \<inter> cs_send_awake c = {} \<and>
     (cs_recv_sleep c \<noteq> {} \<longrightarrow> cs_num c \<le> int (card (cs_recv_awake c))) \<and>
     (cs_send_sleep c \<noteq> {} \<longrightarrow> cs_limit c + 1 - cs_num c \<le> int (card (cs_send_awake c)))"

inductive_cases wake_recvE: "wake_recv c c'"
inductive_cases wake_sendE: "wake_send c c'"

lemma wake_recv_data:
  "wake_recv c c' \<Longrightarrow> cs_queue c' = cs_queue c \<and> cs_num c' = cs_num c \<and> cs_limit c' = cs_limit c \<and>
     cs_sent c' = cs_sent c \<and> cs_got c' = cs_got c \<and> cs_send_sleep c' = cs_send_sleep c \<and>
     cs_send_awake c' = cs_send_awake c"
  by (elim wake_recvE) simp_all

lemma wake_send_data:
  "wake_send c c' \<Longrightarrow> cs_queue c' = cs_queue c \<and> cs_num c' = cs_num c \<and> cs_limit c' = cs_limit c \<and>
     cs_sent c' = cs_sent c \<and> cs_got c' = cs_got c \<and> cs_recv_sleep c' = cs_recv_sleep c \<and>
     cs_recv_awake c' = cs_recv_awake c"
  by (elim wake_sendE) simp_all

lemma data_put:
  assumes "chan_data c" "cs_num c \<le> cs_limit c" shows "chan_data (chan_put v c)"
  using assms by (simp add: chan_data_def chan_put_def)

lemma data_take:
  assumes "chan_data c" "cs_num c \<noteq> 0" shows "chan_data (chan_take c)"
  using assms by (cases "cs_queue c") (simp_all add: chan_data_def chan_take_def)

lemma data_cong:
  "cs_queue c' = cs_queue c \<Longrightarrow> cs_num c' = cs_num c \<Longrightarrow> cs_limit c' = cs_limit c \<Longrightarrow>
   cs_sent c' = cs_sent c \<Longrightarrow> cs_got c' = cs_got c \<Longrightarrow> chan_data c' = chan_data c"
  by (simp add: chan_data_def)

lemma chan_data_step: "chan_step c c' \<Longrightarrow> chan_data c \<Longrightarrow> chan_data c'"
proof (induction rule: chan_step.induct)
  case (send t c v c')
  have "chan_data (chan_put v (c\<lparr>cs_send_awake := cs_send_awake c - {t}\<rparr>))"
    by (rule data_put) (use send in \<open>simp_all add: chan_full_def chan_data_def\<close>)
  then show ?case using wake_recv_data [OF send.hyps(5)] by (subst data_cong) simp_all
next
  case (trysend t c v c')
  have "chan_data (chan_put v c)" by (rule data_put) (use trysend in simp_all)
  then show ?case using wake_recv_data [OF trysend.hyps(6)] by (subst data_cong) simp_all
next
  case (receive t c c')
  have "chan_data (chan_take (c\<lparr>cs_recv_awake := cs_recv_awake c - {t}\<rparr>))"
    by (rule data_take) (use receive in \<open>simp_all add: chan_data_def\<close>)
  then show ?case using wake_send_data [OF receive.hyps(5)] by (subst data_cong) simp_all
qed (simp_all add: chan_data_def)

lemma card_awake_drop: "finite A \<Longrightarrow> int (card A) - 1 \<le> int (card (A - {t}))"
  by (cases "t \<in> A") (simp_all add: card_Diff_singleton)

text \<open>One half of the invariant, for the receivers with the values or the senders with the places.\<close>

definition enough_awake :: "nat set \<Rightarrow> nat set \<Rightarrow> int \<Rightarrow> bool" where
  "enough_awake asleep awake n \<longleftrightarrow> finite awake \<and> asleep \<inter> awake = {} \<and> (asleep \<noteq> {} \<longrightarrow> n \<le> int (card awake))"

lemma chan_wakeups_alt:
  "chan_wakeups c \<longleftrightarrow> enough_awake (cs_recv_sleep c) (cs_recv_awake c) (cs_num c) \<and>
     enough_awake (cs_send_sleep c) (cs_send_awake c) (cs_limit c + 1 - cs_num c)"
  by (auto simp: chan_wakeups_def enough_awake_def)

lemma awake_work: "enough_awake S A n \<Longrightarrow> enough_awake S (A - {t}) (n - 1)"
  using card_awake_drop [of A t] by (auto simp: enough_awake_def)

lemma awake_wake: "enough_awake S A n \<Longrightarrow> t \<in> S \<Longrightarrow> enough_awake (S - {t}) (insert t A) (n + 1)"
proof -
  assume a: "enough_awake S A n" "t \<in> S"
  then have "t \<notin> A" "finite A" "n \<le> int (card A)" by (auto simp: enough_awake_def)
  then show ?thesis using a by (auto simp: enough_awake_def)
qed

lemma awake_less: "enough_awake S A n \<Longrightarrow> m \<le> n \<Longrightarrow> enough_awake S A m"
  by (auto simp: enough_awake_def)

lemma awake_none: "enough_awake S A n \<Longrightarrow> enough_awake {} A m"
  by (auto simp: enough_awake_def)

lemma awake_sleep: "enough_awake S A n \<Longrightarrow> n \<le> 0 \<Longrightarrow> enough_awake (insert t S) (A - {t}) n"
  by (auto simp: enough_awake_def)

lemma awake_someone: "enough_awake S A n \<Longrightarrow> S \<noteq> {} \<Longrightarrow> 0 < n \<Longrightarrow> \<exists>t. t \<in> A"
  by (cases "A = {}") (auto simp: enough_awake_def)

lemma wake_recv_awake:
  assumes "wake_recv c c'" "enough_awake (cs_recv_sleep c) (cs_recv_awake c) (n - 1)"
  shows "enough_awake (cs_recv_sleep c') (cs_recv_awake c') n"
  using assms(1)
proof cases
  case 1
  then show ?thesis using awake_none [OF assms(2)] by simp
next
  case (2 t)
  then show ?thesis using awake_wake [OF assms(2)] by simp
qed

lemma wake_send_awake:
  assumes "wake_send c c'" "enough_awake (cs_send_sleep c) (cs_send_awake c) (n - 1)"
  shows "enough_awake (cs_send_sleep c') (cs_send_awake c') n"
  using assms(1)
proof cases
  case 1
  then show ?thesis using awake_none [OF assms(2)] by simp
next
  case (2 t)
  then show ?thesis using awake_wake [OF assms(2)] by simp
qed

lemma wakeups_put:
  assumes "chan_wakeups c" "wake_recv (chan_put v (c\<lparr>cs_send_awake := cs_send_awake c - {t}\<rparr>)) c'"
  shows "chan_wakeups c'"
proof -
  have r: "enough_awake (cs_recv_sleep c) (cs_recv_awake c) (cs_num c)"
    and s: "enough_awake (cs_send_sleep c) (cs_send_awake c) (cs_limit c + 1 - cs_num c)"
    using assms(1) by (simp_all add: chan_wakeups_alt)
  have "enough_awake (cs_recv_sleep c') (cs_recv_awake c') (cs_num c + 1)"
    using assms(2) by (rule wake_recv_awake) (simp add: chan_put_def r)
  moreover have "enough_awake (cs_send_sleep c) (cs_send_awake c - {t}) (cs_limit c + 1 - (cs_num c + 1))"
    using awake_work [OF s, of t] by (simp add: algebra_simps)
  ultimately show ?thesis using wake_recv_data [OF assms(2)] by (simp add: chan_wakeups_alt chan_put_def)
qed

lemma wakeups_take:
  assumes "chan_wakeups c" "wake_send (chan_take (c\<lparr>cs_recv_awake := cs_recv_awake c - {t}\<rparr>)) c'"
  shows "chan_wakeups c'"
proof -
  have r: "enough_awake (cs_recv_sleep c) (cs_recv_awake c) (cs_num c)"
    and s: "enough_awake (cs_send_sleep c) (cs_send_awake c) (cs_limit c + 1 - cs_num c)"
    using assms(1) by (simp_all add: chan_wakeups_alt)
  have "enough_awake (cs_send_sleep c') (cs_send_awake c') (cs_limit c + 1 - (cs_num c - 1))"
    using assms(2) by (rule wake_send_awake) (use s in \<open>simp add: chan_take_def algebra_simps\<close>)
  moreover have "enough_awake (cs_recv_sleep c) (cs_recv_awake c - {t}) (cs_num c - 1)"
    by (rule awake_work [OF r])
  ultimately show ?thesis using wake_send_data [OF assms(2)] by (simp add: chan_wakeups_alt chan_take_def)
qed

lemma chan_wakeups_step: "chan_step c c' \<Longrightarrow> chan_wakeups c \<Longrightarrow> chan_wakeups c'"
proof (induction rule: chan_step.induct)
  case (send t c v c')
  show ?case by (rule wakeups_put [OF send.prems send.hyps(5)])
next
  case (send_wait t c)
  then show ?case by (simp add: chan_wakeups_alt awake_sleep chan_full_def)
next
  case (trysend t c v c')
  then have "c\<lparr>cs_send_awake := cs_send_awake c - {t}\<rparr> = c" by simp
  then show ?case using wakeups_put [of c v t c'] trysend by simp
next
  case (receive t c c')
  show ?case by (rule wakeups_take [OF receive.prems receive.hyps(5)])
next
  case (recv_wait t c)
  then show ?case by (simp add: chan_wakeups_alt awake_sleep)
next
  case (spurious_recv t c)
  then have "enough_awake (cs_recv_sleep c - {t}) (insert t (cs_recv_awake c)) (cs_num c + 1)"
    by (simp add: chan_wakeups_alt awake_wake)
  then show ?case using spurious_recv.prems awake_less [of _ _ "cs_num c + 1" "cs_num c"]
    by (simp add: chan_wakeups_alt)
next
  case (spurious_send t c)
  let ?n = "cs_limit c + 1 - cs_num c"
  have "enough_awake (cs_send_sleep c) (cs_send_awake c) ?n"
    using spurious_send.prems unfolding chan_wakeups_alt by blast
  then have "enough_awake (cs_send_sleep c - {t}) (insert t (cs_send_awake c)) (?n + 1)"
    by (rule awake_wake) (rule spurious_send.hyps)
  then show ?case using spurious_send.prems awake_less [of _ _ "?n + 1" ?n] by (simp add: chan_wakeups_alt)
qed

text \<open>A thread is a sender or a receiver, not both.\<close>

definition chan_roles :: "'a chan_sync \<Rightarrow> bool" where
  "chan_roles c \<longleftrightarrow> (cs_recv_sleep c \<union> cs_recv_awake c) \<inter> (cs_send_sleep c \<union> cs_send_awake c) = {}"

lemma wake_recv_union: "wake_recv c c' \<Longrightarrow> cs_recv_sleep c' \<union> cs_recv_awake c' = cs_recv_sleep c \<union> cs_recv_awake c"
  by (elim wake_recvE) auto

lemma wake_send_union: "wake_send c c' \<Longrightarrow> cs_send_sleep c' \<union> cs_send_awake c' = cs_send_sleep c \<union> cs_send_awake c"
  by (elim wake_sendE) auto

lemma chan_roles_step: "chan_step c c' \<Longrightarrow> chan_roles c \<Longrightarrow> chan_roles c'"
proof (induction rule: chan_step.induct)
  case (send t c v c')
  then show ?case using wake_recv_data [OF send.hyps(5)] wake_recv_union [OF send.hyps(5)]
    by (auto simp: chan_roles_def chan_put_def)
next
  case (trysend t c v c')
  then show ?case using wake_recv_data [OF trysend.hyps(6)] wake_recv_union [OF trysend.hyps(6)]
    by (auto simp: chan_roles_def chan_put_def)
next
  case (receive t c c')
  then show ?case using wake_send_data [OF receive.hyps(5)] wake_send_union [OF receive.hyps(5)]
    by (auto simp: chan_roles_def chan_take_def)
qed (auto simp: chan_roles_def)

lemma chan_reach_inv: "chan_reach (chan_start limit) c \<Longrightarrow> chan_data c \<and> chan_wakeups c \<and> chan_roles c"
proof (induction rule: chan_reach.induct)
  case refl
  then show ?case by (simp add: chan_data_def chan_wakeups_def chan_roles_def chan_start_def)
next
  case (step c c')
  then show ?case using chan_data_step chan_wakeups_step chan_roles_step by blast
qed

lemma wake_recv_total: "\<exists>c'. wake_recv c c'"
  by (cases "cs_recv_sleep c = {}") (auto intro: wake_recv.intros)

lemma wake_send_total: "\<exists>c'. wake_send c c'"
  by (cases "cs_send_sleep c = {}") (auto intro: wake_send.intros)

section \<open>Properties\<close>

text \<open>
  C10: a channel is a first-in first-out queue. In every state that threads can reach, what was
  sent is what was received followed by what is in the buffer, in that order, and the count is the
  number of values in the buffer. The buffer never holds more than one value above the limit.
\<close>

theorem chan_fifo:
  assumes "chan_reach (chan_start limit) c"
  shows "cs_sent c = cs_got c @ cs_queue c \<and> cs_num c = int (length (cs_queue c)) \<and>
    cs_num c \<le> max 0 (cs_limit c + 1)"
  using chan_reach_inv [OF assms] by (simp add: chan_data_def)

definition chan_demo :: "nat chan_sync" where
  "chan_demo = (chan_put 8 (chan_put 7 (chan_start 1)))"

lemma chan_demo_reach: "chan_reach (chan_start 1) chan_demo"
proof -
  have start: "(chan_start 1 :: nat chan_sync)\<lparr>cs_send_awake := cs_send_awake (chan_start 1) - {0}\<rparr> = chan_start 1"
    by (simp add: chan_start_def)
  have "chan_step (chan_start 1) (chan_put 7 (chan_start 1 :: nat chan_sync))"
    by (rule chan_step.send [of 0 _ 7])
      (simp_all add: start, simp_all add: chan_start_def chan_full_def chan_put_def wake_recv.intros(1))
  moreover have "chan_step (chan_put 7 (chan_start 1)) chan_demo"
    by (rule chan_step.send [of 0 _ 8])
      (simp_all add: chan_start_def chan_full_def chan_put_def chan_demo_def wake_recv.intros(1))
  ultimately show ?thesis by (meson chan_reach.intros)
qed

theorem chan_fifo_witness:
  "chan_reach (chan_start 1) chan_demo \<and> cs_queue chan_demo = [7, 8] \<and>
   cs_sent chan_demo = cs_got chan_demo @ cs_queue chan_demo \<and> cs_num chan_demo = 2"
  using chan_fifo [OF chan_demo_reach] chan_demo_reach
  by (simp add: chan_demo_def chan_put_def chan_start_def)

text \<open>
  The bound is reached. A channel with a limit of 1 takes two values without blocking,
  although \<open>trysend\<close> refuses the second one.
\<close>

theorem chan_limit_exceeded:
  "\<exists>c. chan_reach (chan_start 1) (c :: nat chan_sync) \<and> cs_limit c = 1 \<and> length (cs_queue c) = 2"
  using chan_demo_reach
  by (intro exI [of _ chan_demo]) (simp add: chan_demo_def chan_put_def chan_start_def)

text \<open>
  C11: no wake-up is lost. While a receiver sleeps and the buffer is not empty, some receiver
  is awake and its next step takes a value; while a sender sleeps and there is room, some sender is
  awake and its next step fills it.
\<close>

theorem chan_no_lost_wakeup:
  assumes "chan_reach (chan_start limit) c"
  shows "(cs_recv_sleep c \<noteq> {} \<and> cs_queue c \<noteq> [] \<longrightarrow>
      (\<exists>t \<in> cs_recv_awake c. \<exists>c'. chan_step c c' \<and> cs_recv_awake c' = cs_recv_awake c - {t} \<and>
         cs_got c' = cs_got c @ [hd (cs_queue c)])) \<and>
    (cs_send_sleep c \<noteq> {} \<and> \<not> chan_full c \<longrightarrow>
      (\<exists>t \<in> cs_send_awake c. \<exists>c'. chan_step c c' \<and> cs_send_awake c' = cs_send_awake c - {t} \<and>
         cs_sent c' = cs_sent c @ [v]))"
proof (intro conjI impI)
  have inv: "chan_data c" "chan_wakeups c" "chan_roles c" using chan_reach_inv [OF assms] by simp_all
  have r: "enough_awake (cs_recv_sleep c) (cs_recv_awake c) (cs_num c)"
    and s: "enough_awake (cs_send_sleep c) (cs_send_awake c) (cs_limit c + 1 - cs_num c)"
    using inv(2) unfolding chan_wakeups_alt by blast+
  show "\<exists>t \<in> cs_recv_awake c. \<exists>c'. chan_step c c' \<and> cs_recv_awake c' = cs_recv_awake c - {t} \<and>
         cs_got c' = cs_got c @ [hd (cs_queue c)]" if "cs_recv_sleep c \<noteq> {} \<and> cs_queue c \<noteq> []"
  proof -
    have n: "0 < cs_num c" using that inv(1) by (simp add: chan_data_def)
    with that obtain t where t: "t \<in> cs_recv_awake c" using awake_someone [OF r] by blast
    then have free: "t \<notin> cs_recv_sleep c" "t \<notin> cs_send_sleep c" "t \<notin> cs_send_awake c"
      using r inv(3) by (auto simp: enough_awake_def chan_roles_def)
    obtain c' where w: "wake_send (chan_take (c\<lparr>cs_recv_awake := cs_recv_awake c - {t}\<rparr>)) c'"
      using wake_send_total by blast
    have "chan_step c c'" using n w by (intro chan_step.receive [OF free]) simp_all
    then show ?thesis using t wake_send_data [OF w] by (auto simp: chan_take_def)
  qed
  show "\<exists>t \<in> cs_send_awake c. \<exists>c'. chan_step c c' \<and> cs_send_awake c' = cs_send_awake c - {t} \<and>
         cs_sent c' = cs_sent c @ [v]" if "cs_send_sleep c \<noteq> {} \<and> \<not> chan_full c"
  proof -
    have "0 < cs_limit c + 1 - cs_num c" using that by (simp add: chan_full_def)
    with that obtain t where t: "t \<in> cs_send_awake c" using awake_someone [OF s] by blast
    then have free: "t \<notin> cs_send_sleep c" "t \<notin> cs_recv_sleep c" "t \<notin> cs_recv_awake c"
      using s inv(3) by (auto simp: enough_awake_def chan_roles_def)
    obtain c' where w: "wake_recv (chan_put v (c\<lparr>cs_send_awake := cs_send_awake c - {t}\<rparr>)) c'"
      using wake_recv_total by blast
    have "chan_step c c'" using that w by (intro chan_step.send [OF free]) simp_all
    then show ?thesis using t wake_recv_data [OF w] by (auto simp: chan_put_def)
  qed
qed

theorem chan_no_lost_wakeup_witness:
  "\<exists>c :: nat chan_sync. chan_reach (chan_start 0) c \<and> cs_recv_sleep c = {1} \<and> cs_queue c = [7] \<and>
     (\<exists>c'. chan_step c c' \<and> cs_got c' = [7])"
proof -
  have only_one: "{Suc 0, 2} - {2} = {Suc 0}" by auto
  define c1 where "c1 = (chan_start 0 :: nat chan_sync)\<lparr>cs_recv_sleep := {1}\<rparr>"
  define c2 where "c2 = c1\<lparr>cs_recv_sleep := {1, 2}\<rparr>"
  define c3 where "c3 = (chan_put 7 c1)\<lparr>cs_recv_awake := {2}\<rparr>"
  have "chan_step (chan_start 0) c1"
    using chan_step.recv_wait [of 1 "chan_start 0 :: nat chan_sync"] by (simp add: c1_def chan_start_def)
  moreover have "chan_step c1 c2"
    using chan_step.recv_wait [of 2 c1] by (simp add: c1_def c2_def chan_start_def insert_commute)
  moreover have "chan_step c2 c3"
  proof (rule chan_step.send [of 0 _ 7])
    show "wake_recv (chan_put 7 (c2\<lparr>cs_send_awake := cs_send_awake c2 - {0}\<rparr>)) c3"
      using wake_recv.intros(2) [of 2 "chan_put 7 (c2\<lparr>cs_send_awake := cs_send_awake c2 - {0}\<rparr>)"]
        only_one
      by (simp add: c1_def c2_def c3_def chan_start_def chan_put_def)
  qed (simp_all add: c1_def c2_def chan_start_def chan_full_def)
  ultimately have "chan_reach (chan_start 0) c3" by (meson chan_reach.intros)
  moreover have c3: "cs_recv_sleep c3 = {1}" "cs_queue c3 = [7]" "cs_got c3 = []"
    by (simp_all add: c3_def c1_def chan_put_def chan_start_def)
  ultimately have "\<exists>c'. chan_step c3 c' \<and> cs_got c' = [7]" using chan_no_lost_wakeup [of 0 c3 undefined] by auto
  then show ?thesis using c3 \<open>chan_reach (chan_start 0) c3\<close> by blast
qed

end
