(* ===== verification/Pone_Channel.thy ===== *)
theory Pone_Channel
  imports Pone_Classes Pone_Methods_Correct Channel_Sync
begin

text \<open>
  Channels on the heap (\<^verbatim>\<open>src/channel.c\<close>): the buffer is an array in a world of its own, a message is
  copied into that world when it is sent and into the receiver's world when it is received. The structs
  that opaque values point to are kept in a table. The waiting is that of \<open>Channel_Sync\<close>: an operation that
  has to wait returns \<open>Wait\<close> and changes nothing.
\<close>

record pone_chan =
  c_world :: nat
  c_limit :: int
  c_num :: int
  c_buffer :: ptr

type_synonym chans = "nat \<Rightarrow> pone_chan option"

datatype 'a waiting = Wait | Done 'a

section \<open>Operations\<close>

definition closed_error :: "nat \<Rightarrow> string \<Rightarrow> 'a pone" where
  "closed_error w cls s =
     andthen (pone_get_lex w (bs cls) s) (\<lambda>exc_class s.
     andthen (pone_obj_new w exc_class s) (\<lambda>exc. pone_throw w exc))"

text \<open>The table entry of a channel; \<open>None\<close> is a closed one.\<close>

definition chan_lookup :: "chans \<Rightarrow> ptr \<Rightarrow> (nat \<times> pone_chan) option pone" where
  "chan_lookup C self s =
     andthen (pone_opaque_ptr self s) (\<lambda>p s.
     if p = 0 then Ret None s else case C p of Some ch \<Rightarrow> Ret (Some (p, ch)) s | None \<Rightarrow> Undef)"

text \<open>What happens under the mutex once there is room.\<close>

definition chan_append :: "('z pone_rt_scheme) \<Rightarrow> nat \<Rightarrow> pone_chan \<Rightarrow> ptr \<Rightarrow> pone_chan pone" where
  "chan_append E depth ch val s =
     andthen (pone_val_copy depth E (c_world ch) val s) (\<lambda>v s.
     andthen (pone_ary_push (c_buffer ch) v s) (\<lambda>_. Ret (ch\<lparr>c_num := c_num ch + 1\<rparr>)))"

definition pone_chan_send :: "('z pone_rt_scheme) \<Rightarrow> nat \<Rightarrow> chans \<Rightarrow> ptr \<Rightarrow> ptr \<Rightarrow> chans waiting pone" where
  "pone_chan_send E w C self val s =
     andthen (chan_lookup C self s) (\<lambda>r s.
     case r of
       None \<Rightarrow> closed_error w ''X::Channel::SendOnClosed'' s
     | Some (p, ch) \<Rightarrow>
         if c_limit ch < c_num ch then Ret Wait s
         else andthen (chan_append E (e_depth E) ch val s) (\<lambda>ch' s.
              andthen (maybe_gc E (c_world ch) s) (\<lambda>_. Ret (Done (C(p \<mapsto> ch'))))))"

definition pone_chan_trysend :: "('z pone_rt_scheme) \<Rightarrow> nat \<Rightarrow> chans \<Rightarrow> ptr \<Rightarrow> ptr \<Rightarrow> (chans \<times> bool) pone" where
  "pone_chan_trysend E w C self val s =
     andthen (chan_lookup C self s) (\<lambda>r s.
     case r of
       None \<Rightarrow> closed_error w ''X::Channel::SendOnClosed'' s
     | Some (p, ch) \<Rightarrow>
         if c_limit ch > c_num ch
         then andthen (chan_append E (e_depth E) ch val s) (\<lambda>ch'. Ret (C(p \<mapsto> ch'), True))
         else Ret (C, False) s)"

definition pone_chan_receive :: "('z pone_rt_scheme) \<Rightarrow> nat \<Rightarrow> chans \<Rightarrow> ptr \<Rightarrow> (chans \<times> ptr) waiting pone" where
  "pone_chan_receive E w C self s =
     andthen (chan_lookup C self s) (\<lambda>r s.
     case r of
       None \<Rightarrow> closed_error w ''X::Channel::ReceiveOnClosed'' s
     | Some (p, ch) \<Rightarrow>
         if c_num ch = 0 then Ret Wait s
         else andthen (pone_ary_shift (c_world ch) (c_buffer ch) s) (\<lambda>v s.
              andthen (pone_val_copy (e_depth E) E w v s) (\<lambda>r.
              Ret (Done (C(p \<mapsto> ch\<lparr>c_num := c_num ch - 1\<rparr>), r)))))"

text \<open>The finalizer frees the channel's world and the struct.\<close>

definition chan_finalizer :: "('z pone_env_scheme) \<Rightarrow> chans \<Rightarrow> ptr \<Rightarrow> chans pone" where
  "chan_finalizer E C val s =
     andthen (chan_lookup C val s) (\<lambda>r s.
     case r of
       None \<Rightarrow> Ret C s
     | Some (p, ch) \<Rightarrow>
         andthen (pone_world_free (e_fin E) (c_world ch) s) (\<lambda>_. Ret (C(p := None))))"

text \<open>A new channel: \<open>p\<close> is the address of its struct and \<open>cw\<close> its new world.\<close>

definition pone_chan_new :: "nat \<Rightarrow> nat \<Rightarrow> nat \<Rightarrow> chans \<Rightarrow> pone_int_t \<Rightarrow> (chans \<times> ptr) pone" where
  "pone_chan_new w p cw C limit s =
     andthen (pone_world_new cw s) (\<lambda>_ s.
     andthen (pone_ary_new cw [] s) (\<lambda>b s.
     andthen (pone_opaque_new w (u_class_channel (st_universe s)) p (Some ''chan_finalizer'') s) (\<lambda>v.
     Ret (C(p \<mapsto> \<lparr>c_world = cw, c_limit = sint limit, c_num = 0, c_buffer = b\<rparr>), v))))"

definition pone_opaque_set_ptr :: "ptr \<Rightarrow> nat \<Rightarrow> unit pone" where
  "pone_opaque_set_ptr v p s =
     (case val_as (st_heap s v) of
        AsOpaque b \<Rightarrow> Ret () (s\<lparr>st_opaque := (st_opaque s)(b := (st_opaque s b)\<lparr>o_ptr := p\<rparr>)\<rparr>)
      | _ \<Rightarrow> Undef)"

definition meth_chan_receive :: "('z pone_rt_scheme) \<Rightarrow> nat \<Rightarrow> chans \<Rightarrow> ptr \<Rightarrow> ptr list \<Rightarrow> (chans \<times> ptr) waiting pone" where
  "meth_chan_receive E w C self args s =
     andthen (args_none E w ''Channel#receive'' args s) (\<lambda>_. pone_chan_receive E w C self)"

definition meth_chan_send :: "('z pone_rt_scheme) \<Rightarrow> nat \<Rightarrow> chans \<Rightarrow> ptr \<Rightarrow> ptr list \<Rightarrow> (chans \<times> ptr) waiting pone" where
  "meth_chan_send E w C self args s =
     andthen (args_o E w ''Channel#send'' args s) (\<lambda>val s.
     andthen (pone_chan_send E w C self val s) (\<lambda>r.
     Ret (case r of Wait \<Rightarrow> Wait | Done C' \<Rightarrow> Done (C', pone_nil))))"

definition meth_chan_close :: "('z pone_rt_scheme) \<Rightarrow> nat \<Rightarrow> chans \<Rightarrow> ptr \<Rightarrow> ptr list \<Rightarrow> (chans \<times> ptr) pone" where
  "meth_chan_close E w C self args s =
     andthen (args_none E w ''Channel#close'' args s) (\<lambda>_ s.
     andthen (chan_finalizer E C self s) (\<lambda>C' s.
     andthen (pone_opaque_set_ptr self 0 s) (\<lambda>_. Ret (C', pone_nil))))"

definition meth_chan_closed :: "('z pone_rt_scheme) \<Rightarrow> nat \<Rightarrow> ptr \<Rightarrow> ptr list \<Rightarrow> ptr pone" where
  "meth_chan_closed E w self args s =
     andthen (args_none E w ''Channel#closed'' args s) (\<lambda>_ s.
     andthen (pone_opaque_ptr self s) (\<lambda>p. Ret (pone_bool (p = 0))))"

definition pone_channel_init :: "('z pone_rt_scheme) \<Rightarrow> nat \<Rightarrow> unit pone" where
  "pone_channel_init E w s =
     andthen (pone_exc_class_new_simple E w ''X::Channel::ReceiveOnClosed''
       (bs ''Cannot receive a message on a closed channel'') s) (\<lambda>r s.
     andthen (pone_universe_set_global (bs ''X::Channel::ReceiveOnClosed'') r s) (\<lambda>_ s.
     andthen (pone_exc_class_new_simple E w ''X::Channel::SendOnClosed''
       (bs ''Cannot send a message on a closed channel'') s) (\<lambda>r s.
     andthen (pone_universe_set_global (bs ''X::Channel::SendOnClosed'') r s) (\<lambda>_ s.
     andthen (pone_class_new E w ''Channel'' s) (\<lambda>klass s.
     andthen (add_methods E w klass
       [(''receive'', ''meth_chan_receive''), (''send'', ''meth_chan_send''),
        (''close'', ''meth_chan_close''), (''closed'', ''meth_chan_closed'')] s) (\<lambda>_ s.
     pone_universe_set_global (bs ''Channel'') klass
       (upd_universe (u_class_channel_update (\<lambda>_. klass)) s)))))))"

section \<open>Messages\<close>

text \<open>The scalar values, as data; strings may be copies that refer to other strings.\<close>

datatype msg = MNil | MBool bool | MInt pone_int_t | MNum pone_num_t | MStr bool bytes

definition msg_of :: "nat \<Rightarrow> pone_state \<Rightarrow> ptr \<Rightarrow> msg option" where
  "msg_of depth s v =
     (case val_as (st_heap s v) of
        AsNil \<Rightarrow> Some MNil
      | AsBool b \<Rightarrow> Some (MBool b)
      | AsInt i \<Rightarrow> Some (MInt i)
      | AsNum n \<Rightarrow> Some (MNum n)
      | AsStr _ _ \<Rightarrow>
          (case pone_str_bytes depth v s of
             Ret b _ \<Rightarrow> Some (MStr (has_flag PONE_FLAGS_STR_UTF8 (st_heap s v)) b)
           | _ \<Rightarrow> None)
      | _ \<Rightarrow> None)"

text \<open>The same for a value that owns its data.\<close>

definition own_msg :: "pone_val \<Rightarrow> msg option" where
  "own_msg x =
     (case val_as x of
        AsNil \<Rightarrow> Some MNil
      | AsBool b \<Rightarrow> Some (MBool b)
      | AsInt i \<Rightarrow> Some (MInt i)
      | AsNum n \<Rightarrow> Some (MNum n)
      | AsStr (StrBuf b) len \<Rightarrow>
          if has_flag PONE_FLAGS_STR_COPY x \<or> length b < len then None
          else Some (MStr (has_flag PONE_FLAGS_STR_UTF8 x) (take len b))
      | _ \<Rightarrow> None)"

lemma own_msg_alive: "own_msg x = Some m \<Longrightarrow> pone_alive x \<and> as_type (val_as x) \<noteq> PONE_ARRAY"
  by (auto simp: own_msg_def pone_alive_iff split: pone_as.splits)

lemma own_msg_of: "own_msg (st_heap s v) = Some m \<Longrightarrow> d \<noteq> 0 \<Longrightarrow> msg_of d s v = Some m"
  by (cases d) (auto simp: own_msg_def msg_of_def pone_str_bytes_def
      split: pone_as.splits str_data.splits if_splits)

text \<open>Allocation in one world leaves the others alone.\<close>

definition other_worlds :: "nat \<Rightarrow> pone_state \<Rightarrow> pone_state \<Rightarrow> bool" where
  "other_worlds w s s' \<longleftrightarrow> (\<forall>v. v \<noteq> w \<longrightarrow> st_world s' v = st_world s v \<and>
     (\<forall>i j. st_heap s' (Cell v i j) = st_heap s (Cell v i j)))"

lemma arena_wf_other:
  assumes "arena_wf v s" "other_worlds w s s'" "v \<noteq> w"
  shows "arena_wf v s'"
proof -
  have W: "st_world s' v = st_world s v" and H: "\<And>i j. st_heap s' (Cell v i j) = st_heap s (Cell v i j)"
    using assms(2,3) by (simp_all add: other_worlds_def)
  obtain ps where ps: "free_chain (st_heap s) (w_freelist (st_world s v)) ps" "distinct ps"
    "set ps = {p \<in> world_cells v (st_world s v). \<not> pone_alive (st_heap s p)}"
    using assms(1) by (auto simp: arena_wf_def)
  have eq: "st_heap s' p = st_heap s p" if "p \<in> world_cells v (st_world s v)" for p
    using that H by (auto simp: world_cells_def)
  then have "free_chain (st_heap s') (w_freelist (st_world s v)) ps"
    using ps by (subst free_chain_cong [where h = "st_heap s"]) auto
  moreover have "set ps = {p \<in> world_cells v (st_world s v). \<not> pone_alive (st_heap s' p)}"
    using ps(3) eq by auto
  ultimately show ?thesis using assms(1) ps(2) H by (auto simp: arena_wf_def W)
qed

lemma obj_alloc_flags:
  assumes wf: "arena_wf w s" and a: "\<And>n. a \<noteq> AsFree n"
  obtains p s1 where "pone_obj_alloc w a s = Ret p s1" "p \<noteq> Null" "\<not> pone_alive (st_heap s p)"
    "arena_wf w (set_flags p f s1)" "arena_wf w s1" "other_worlds w s (set_flags p f s1)" "other_worlds w s s1"
    "st_heap s1 = (st_heap s)(p := \<lparr>val_flags = 0, val_as = a\<rparr>)"
proof -
  obtain p s1 F where p: "pone_obj_alloc w a s = Ret p s1" "\<exists>i j. p = Cell w i j"
    "\<not> pone_alive (st_heap s p)" "st_heap s1 = (st_heap s)(p := \<lparr>val_flags = 0, val_as = a\<rparr>)" "arena_wf w s1"
    "s1 = upd_world w F (set_val p \<lparr>val_flags = 0, val_as = a\<rparr> s)"
    using obj_alloc_spec [OF assms] by blast
  have "arena_wf w (set_flags p f s1)"
    using p(5) by (rule arena_wf_heap_cong) (use a in \<open>auto simp: p(4) pone_alive_iff split: if_splits\<close>)
  moreover have "other_worlds w s (set_flags p f s1)" "other_worlds w s s1"
    using p(2,4,6) by (auto simp: other_worlds_def)
  moreover have "p \<noteq> Null" using p(2) by auto
  ultimately show ?thesis using that p(1,3,4,5) by blast
qed

lemma val_copy_spec:
  assumes wf: "arena_wf w s" and m: "msg_of (e_depth E) s v = Some m" and v: "v \<noteq> Null"
  obtains c s' where "pone_val_copy (Suc d) E w v s = Ret c s'" "own_msg (st_heap s' c) = Some m" "c \<noteq> Null"
    "arena_wf w s'" "other_worlds w s s'" "\<And>q. pone_alive (st_heap s q) \<Longrightarrow> st_heap s' q = st_heap s q"
proof (cases "val_as (st_heap s v)")
  case AsNil
  then show ?thesis using that [of v s] wf m v by (simp add: msg_of_def own_msg_def other_worlds_def)
next
  case (AsBool b)
  then show ?thesis using that [of v s] wf m v by (simp add: msg_of_def own_msg_def other_worlds_def)
next
  case (AsInt i)
  obtain p s1 where p: "pone_obj_alloc w (AsInt i) s = Ret p s1" "p \<noteq> Null" "\<not> pone_alive (st_heap s p)"
    "arena_wf w s1" "other_worlds w s s1" "st_heap s1 = (st_heap s)(p := \<lparr>val_flags = 0, val_as = AsInt i\<rparr>)"
    by (rule obj_alloc_flags [OF wf, of "AsInt i"]) simp_all
  have "st_heap s1 q = st_heap s q" if "pone_alive (st_heap s q)" for q using that p(3,6) by auto
  then show ?thesis using that [of p s1] p AsInt m by (simp add: msg_of_def own_msg_def pone_int_new_def)
next
  case (AsNum n)
  obtain p s1 where p: "pone_obj_alloc w (AsNum n) s = Ret p s1" "p \<noteq> Null" "\<not> pone_alive (st_heap s p)"
    "arena_wf w s1" "other_worlds w s s1" "st_heap s1 = (st_heap s)(p := \<lparr>val_flags = 0, val_as = AsNum n\<rparr>)"
    by (rule obj_alloc_flags [OF wf, of "AsNum n"]) simp_all
  have "st_heap s1 q = st_heap s q" if "pone_alive (st_heap s q)" for q using that p(3,6) by auto
  then show ?thesis using that [of p s1] p AsNum m by (simp add: msg_of_def own_msg_def pone_num_new_def)
next
  case (AsStr dt len)
  let ?u = "has_flag PONE_FLAGS_STR_UTF8 (st_heap s v)"
  obtain b s0 where b0: "pone_str_bytes (e_depth E) v s = Ret b s0" "m = MStr ?u b"
    using m AsStr by (auto simp: msg_of_def split: outcome.splits)
  then have b: "pone_str_bytes (e_depth E) v s = Ret b s" using str_bytes_state by metis
  have dup: "pone_strdup b (length b) = b @ [0]" by (simp add: pone_strdup_def)
  let ?a = "AsStr (StrBuf (b @ [0])) (length b)"
  let ?f = "if ?u then PONE_FLAGS_STR_UTF8 else 0"
  obtain p s1 where p: "pone_obj_alloc w ?a s = Ret p s1" "p \<noteq> Null" "\<not> pone_alive (st_heap s p)"
    "arena_wf w (set_flags p ?f s1)" "arena_wf w s1" "other_worlds w s (set_flags p ?f s1)"
    "other_worlds w s s1" "st_heap s1 = (st_heap s)(p := \<lparr>val_flags = 0, val_as = ?a\<rparr>)"
    by (rule obj_alloc_flags [OF wf, of ?a ?f]) simp_all
  let ?s = "if ?u then set_flags p PONE_FLAGS_STR_UTF8 s1 else s1"
  have "or_flags PONE_FLAGS_STR_UTF8 p s1 = set_flags p PONE_FLAGS_STR_UTF8 s1"
    by (simp add: or_flags_def p(8))
  then have "pone_val_copy (Suc d) E w v s = Ret p ?s"
    using AsStr b p(1) dup by (simp add: pone_str_new_strdup_def pone_bytes_new_strdup_def)
  moreover have "own_msg (st_heap ?s p) = Some m"
    using b0(2) by (auto simp: own_msg_def p(8) has_flag_def flag_defs)
  moreover have "arena_wf w ?s" "other_worlds w s ?s" using p(4-7) by (auto split: if_splits)
  moreover have "st_heap ?s q = st_heap s q" if "pone_alive (st_heap s q)" for q
    using that p(3,8) by auto
  ultimately show ?thesis using that [of p ?s] p(2) by blast
qed (use m in \<open>simp_all add: msg_of_def\<close>)

section \<open>A channel as a queue of messages\<close>

definition chan_rep :: "pone_state \<Rightarrow> pone_chan \<Rightarrow> msg list \<Rightarrow> bool" where
  "chan_rep s ch ms \<longleftrightarrow> arena_wf (c_world ch) s \<and> ary_ok (c_buffer ch) s \<and> c_num ch = int (length ms) \<and>
     (\<exists>i j. c_buffer ch = Cell (c_world ch) i j) \<and>
     list_all2 (\<lambda>p m. own_msg (st_heap s p) = Some m) (ary_items (c_buffer ch) s) ms"

lemma own_msg_items:
  assumes "list_all2 (\<lambda>p m. own_msg (st_heap s p) = Some m) ps ms"
    "\<And>q. pone_alive (st_heap s q) \<Longrightarrow> as_type (val_as (st_heap s q)) \<noteq> PONE_ARRAY \<Longrightarrow> st_heap s' q = st_heap s q"
  shows "list_all2 (\<lambda>p m. own_msg (st_heap s' p) = Some m) ps ms"
  using assms(1) by (rule list_all2_mono) (use assms(2) own_msg_alive in metis)

lemma ary_ok_alive: "ary_ok p s \<Longrightarrow> pone_alive (st_heap s p) \<and> as_type (val_as (st_heap s p)) = PONE_ARRAY"
  by (auto simp: ary_ok_def pone_alive_iff)

lemma ary_ok_heap: "st_heap s' p = st_heap s p \<Longrightarrow> ary_ok p s' = ary_ok p s \<and> ary_items p s' = ary_items p s"
  by (simp add: ary_ok_def ary_items_def)

lemma append_spec:
  assumes rep: "chan_rep s ch ms" and m: "msg_of (e_depth E) s v = Some m" and v: "v \<noteq> Null"
  shows "\<exists>s'. chan_append E (Suc d) ch v s = Ret (ch\<lparr>c_num := c_num ch + 1\<rparr>) s' \<and>
    chan_rep s' (ch\<lparr>c_num := c_num ch + 1\<rparr>) (ms @ [m]) \<and> other_worlds (c_world ch) s s'"
proof -
  let ?w = "c_world ch" and ?b = "c_buffer ch"
  have r: "arena_wf ?w s" "ary_ok ?b s" "c_num ch = int (length ms)" "\<exists>i j. ?b = Cell ?w i j"
    "list_all2 (\<lambda>p m. own_msg (st_heap s p) = Some m) (ary_items ?b s) ms"
    using rep by (simp_all add: chan_rep_def)
  obtain c s1 where c: "pone_val_copy (Suc d) E ?w v s = Ret c s1" "own_msg (st_heap s1 c) = Some m" "c \<noteq> Null"
    "arena_wf ?w s1" "other_worlds ?w s s1" "\<And>q. pone_alive (st_heap s q) \<Longrightarrow> st_heap s1 q = st_heap s q"
    by (rule val_copy_spec [OF r(1) m v, of d]) blast
  have b1: "ary_ok ?b s1" "ary_items ?b s1 = ary_items ?b s"
    using ary_ok_heap [OF c(6)] r(2) ary_ok_alive by blast+
  obtain s2 where s2: "pone_ary_push ?b c s1 = Ret () s2" "ary_ok ?b s2" "ary_items ?b s2 = ary_items ?b s1 @ [c]"
    "\<And>q. q \<noteq> ?b \<Longrightarrow> st_heap s2 q = st_heap s1 q" "st_world s2 = st_world s1"
    using ary_push_spec [OF b1(1) c(3)] by blast
  have keep: "st_heap s2 q = st_heap s1 q" if "as_type (val_as (st_heap s1 q)) \<noteq> PONE_ARRAY" for q
    using that s2(4) ary_ok_alive [OF b1(1)] by metis
  have "arena_wf ?w s2"
    by (rule arena_wf_heap_cong [OF c(4) s2(5)]) (use s2(4) ary_ok_alive b1(1) s2(2) in metis)+
  moreover have "list_all2 (\<lambda>p m. own_msg (st_heap s1 p) = Some m) (ary_items ?b s @ [c]) (ms @ [m])"
    using own_msg_items [OF r(5), of s1] c(2,6) by (simp add: list_all2_appendI)
  then have "list_all2 (\<lambda>p m. own_msg (st_heap s2 p) = Some m) (ary_items ?b s2) (ms @ [m])"
    unfolding s2(3) b1(2) by (rule own_msg_items) (use keep in blast)
  moreover have "other_worlds ?w s s2" using c(5) s2(4,5) r(4) by (auto simp: other_worlds_def)
  ultimately show ?thesis using c(1) s2(1,2) r(3,4) by (simp add: chan_append_def chan_rep_def)
qed

lemma take_first_frame:
  assumes "ary_ok b s" "ary_items b s = x # xs"
  obtains s1 where "pone_ary_shift w b s = Ret x s1" "ary_ok b s1" "ary_items b s1 = xs"
    "\<And>q. q \<noteq> b \<Longrightarrow> st_heap s1 q = st_heap s q" "same_but_tmp w s s1"
proof -
  obtain a mx len where a: "val_as (st_heap s b) = AsAry a mx len" "ary_items b s = take len a"
    using assms(1) by (rule ary_okE)
  obtain s1 where s1: "ary_take_first w b s = Ret x s1" "ary_ok b s1" "ary_items b s1 = xs"
    using ary_shift_spec [OF assms(1), of w] assms(2) by auto
  have "len \<noteq> 0" using a(2) assms(2) by (cases "len = 0") auto
  then have "pone_ary_shift w b s = Ret x s1" using a(1) s1(1) by (simp add: pone_ary_shift_def)
  moreover have "st_heap s1 q = st_heap s q" if "q \<noteq> b" for q
    using s1(1) a(1) that by (auto simp: ary_take_first_def pone_save_tmp_def split: if_splits)
  moreover have "same_but_tmp w s s1"
    using s1(1) a(1) by (auto simp: ary_take_first_def pone_save_tmp_def same_but_tmp_def split: if_splits) blast
  ultimately show ?thesis using that s1(2,3) by blast
qed

lemma arena_wf_frame:
  assumes wf: "arena_wf w s" and tmp: "same_but_tmp v s s'"
    and al: "\<And>p. pone_alive (st_heap s' p) = pone_alive (st_heap s p)"
    and dead: "\<And>p. \<not> pone_alive (st_heap s p) \<Longrightarrow> st_heap s' p = st_heap s p"
  shows "arena_wf w s'"
proof -
  have "arena_wf w (s'\<lparr>st_world := st_world s\<rparr>)"
    using wf by (rule arena_wf_heap_cong) (simp_all add: al dead)
  then show ?thesis
    by (subst arena_wf_cong [where s = "s'\<lparr>st_world := st_world s\<rparr>"]) (use tmp in \<open>auto simp: same_but_tmp_def\<close>)
qed

lemma receive_spec:
  assumes rep: "chan_rep s ch (m # ms)" and w: "arena_wf w s" "w \<noteq> c_world ch"
    and look: "chan_lookup C self s = Ret (Some (p, ch)) s" and d: "e_depth E \<noteq> 0"
  shows "\<exists>r s'. pone_chan_receive E w C self s = Ret (Done (C(p \<mapsto> ch\<lparr>c_num := c_num ch - 1\<rparr>), r)) s' \<and>
    own_msg (st_heap s' r) = Some m \<and> chan_rep s' (ch\<lparr>c_num := c_num ch - 1\<rparr>) ms \<and> arena_wf w s'"
proof -
  let ?w = "c_world ch" and ?b = "c_buffer ch"
  have r: "arena_wf ?w s" "ary_ok ?b s" "c_num ch = int (Suc (length ms))" "\<exists>i j. ?b = Cell ?w i j"
    using rep by (simp_all add: chan_rep_def)
  obtain x xs where x: "ary_items ?b s = x # xs" "own_msg (st_heap s x) = Some m"
    "list_all2 (\<lambda>p m. own_msg (st_heap s p) = Some m) xs ms"
    using rep by (auto simp: chan_rep_def list_all2_Cons2)
  obtain s1 where s1: "pone_ary_shift ?w ?b s = Ret x s1" "ary_ok ?b s1" "ary_items ?b s1 = xs"
    "\<And>q. q \<noteq> ?b \<Longrightarrow> st_heap s1 q = st_heap s q" "same_but_tmp ?w s s1"
    by (rule take_first_frame [OF r(2) x(1), of ?w]) blast
  have keep: "st_heap s1 q = st_heap s q" if "as_type (val_as (st_heap s q)) \<noteq> PONE_ARRAY" for q
    using that s1(4) ary_ok_alive [OF r(2)] by metis
  have wf1: "arena_wf ?w s1"
    by (rule arena_wf_frame [OF r(1) s1(5)]) (use s1(4) ary_ok_alive r(2) s1(2) in metis)+
  have "other_worlds ?w s s1" using s1(4,5) r(4) by (auto simp: other_worlds_def same_but_tmp_def)
  then have w1: "arena_wf w s1" using arena_wf_other w by blast
  have x1: "own_msg (st_heap s1 x) = Some m" using x(2) keep own_msg_alive by metis
  have "Null \<notin> set (ary_items ?b s)" using r(2) by (auto elim!: ary_okE)
  then have xn: "x \<noteq> Null" using x(1) by auto
  obtain e where e: "e_depth E = Suc e" using d by (cases "e_depth E") auto
  obtain c s2 where c: "pone_val_copy (Suc e) E w x s1 = Ret c s2" "own_msg (st_heap s2 c) = Some m"
    "arena_wf w s2" "other_worlds w s1 s2" "\<And>q. pone_alive (st_heap s1 q) \<Longrightarrow> st_heap s2 q = st_heap s1 q"
    by (rule val_copy_spec [OF w1 own_msg_of [OF x1 d] xn, of e]) blast
  have b2: "ary_ok ?b s2" "ary_items ?b s2 = xs"
    using ary_ok_heap [OF c(5)] s1(2,3) ary_ok_alive by metis+
  have "list_all2 (\<lambda>p m. own_msg (st_heap s1 p) = Some m) xs ms"
    by (rule own_msg_items [OF x(3)]) (use keep in blast)
  then have "list_all2 (\<lambda>p m. own_msg (st_heap s2 p) = Some m) xs ms"
    by (rule own_msg_items) (use c(5) in blast)
  moreover have "arena_wf ?w s2" using arena_wf_other [OF wf1 c(4)] w(2) by auto
  ultimately have "chan_rep s2 (ch\<lparr>c_num := c_num ch - 1\<rparr>) ms"
    using b2 r(3,4) by (simp add: chan_rep_def)
  moreover have "pone_chan_receive E w C self s = Ret (Done (C(p \<mapsto> ch\<lparr>c_num := c_num ch - 1\<rparr>), c)) s2"
    using look s1(1) c(1) r(3) e by (simp add: pone_chan_receive_def)
  ultimately show ?thesis using c(2,3) by blast
qed

section \<open>Properties\<close>


definition demo_chan :: pone_chan where
  "demo_chan = \<lparr>c_world = 1, c_limit = 1, c_num = 0, c_buffer = Cell 1 0 0\<rparr>"

definition chan_state :: pone_state where
  "chan_state = blank_state\<lparr>
     st_heap := initial_heap(Cell 1 0 0 := \<lparr>val_flags = 0, val_as = AsAry [] 0 0\<rparr>,
                             Cell 2 0 0 := \<lparr>val_flags = 0, val_as = AsOpaque 0\<rparr>),
     st_world := (\<lambda>_. blank_world)(1 := blank_world\<lparr>w_arenas := [1]\<rparr>),
     st_opaque := (\<lambda>_. \<lparr>o_klass = Null, o_ptr = 5, o_finalizer = None, o_refcnt = 1, o_freed = False\<rparr>)\<rparr>"


end
