(* ===== verification/Pone_Builtin.thy ===== *)
theory Pone_Builtin
  imports Pone_Channel
begin

text \<open>
  The built-in functions (\<^verbatim>\<open>src/builtin.c\<close>), modules (\<^verbatim>\<open>src/module.c\<close>), random numbers (\<^verbatim>\<open>src/random.c\<close>),
  the call stack as seen by programs (\<^verbatim>\<open>src/runtime.c\<close>), \<^verbatim>\<open>src/internals.c\<close> and the module \<open>math\<close>
  (\<^verbatim>\<open>ext/math.c\<close>).
\<close>

text \<open>
  More of the C library: environment variables, the formats \<open>%d\<close> and \<open>%f\<close> of \<open>snprintf\<close>, the two words read
  from \<^verbatim>\<open>/dev/urandom\<close> (or the message of the exception when it cannot be opened or read), and functions on \<open>double\<close>.
\<close>

record pone_sys = pone_libc +
  e_getenv :: "bytes \<Rightarrow> bytes option"
  e_fmt_d :: "bytes \<Rightarrow> pone_int_t \<Rightarrow> bytes"
  e_fmt_f :: "bytes \<Rightarrow> pone_num_t \<Rightarrow> bytes"
  e_urandom :: "bytes + (64 word \<times> 64 word)"
  e_num_neg :: "pone_num_t \<Rightarrow> pone_num_t"
  e_num_is_neg :: "pone_num_t \<Rightarrow> bool"
  e_num_unit :: "64 word \<Rightarrow> pone_num_t" \<comment> \<open>\<open>(double)i / UINT64_MAX\<close>\<close>
  e_math1 :: "string \<Rightarrow> pone_num_t \<Rightarrow> pone_num_t"
  e_atan2 :: "pone_num_t \<Rightarrow> pone_num_t \<Rightarrow> pone_num_t"
  e_num_pi :: pone_num_t

section \<open>Built-in functions\<close>

definition meth_what :: "('z pone_rt_scheme) \<Rightarrow> nat \<Rightarrow> ptr \<Rightarrow> ptr list \<Rightarrow> ptr pone" where
  "meth_what E w self args s = andthen (args_o E w ''what'' args s) (\<lambda>v. pone_what v)"

definition meth_pthread_self :: "('z pone_rt_scheme) \<Rightarrow> nat \<Rightarrow> ptr \<Rightarrow> ptr list \<Rightarrow> ptr pone" where
  "meth_pthread_self E w self args s =
     andthen (args_none E w ''pthread_self'' args s) (\<lambda>_ s. pone_int_new w (of_nat (st_self s)) s)"

definition meth_print :: "('z pone_rt_scheme) \<Rightarrow> nat \<Rightarrow> ptr \<Rightarrow> ptr list \<Rightarrow> ptr pone" where
  "meth_print E w self args s =
     andthen (args_o E w ''print'' args s) (\<lambda>v s.
     andthen (pone_stringify E w v s) (\<lambda>str s.
     andthen (fwrite_str E str s) (\<lambda>_. Ret pone_nil)))"

definition meth_say :: "('z pone_rt_scheme) \<Rightarrow> nat \<Rightarrow> ptr \<Rightarrow> ptr list \<Rightarrow> ptr pone" where
  "meth_say E w self args s = andthen (args_o E w ''say'' args s) (\<lambda>v. say_value E w v)"

definition args_s :: "('z pone_rt_scheme) \<Rightarrow> nat \<Rightarrow> string \<Rightarrow> ptr list \<Rightarrow> bytes pone" where
  "args_s E w name args s =
     andthen (pone_arg E w name ''s'' args s) (\<lambda>vs s.
     case vs of [PStr b n] \<Rightarrow> Ret b s | _ \<Rightarrow> Undef)"

definition meth_getenv :: "('z pone_sys_scheme) \<Rightarrow> nat \<Rightarrow> ptr \<Rightarrow> ptr list \<Rightarrow> ptr pone" where
  "meth_getenv E w self args s =
     andthen (args_s E w ''getenv'' args s) (\<lambda>key s.
     case e_getenv E (cstr key) of
       Some v \<Rightarrow> pone_str_new_strdup w (v @ [0]) (length v) s
     | None \<Rightarrow> Ret pone_nil s)"

text \<open>The pause of \<open>sleep\<close> is not modelled.\<close>

definition meth_sleep :: "('z pone_rt_scheme) \<Rightarrow> nat \<Rightarrow> ptr \<Rightarrow> ptr list \<Rightarrow> ptr pone" where
  "meth_sleep E w self args s =
     andthen (args_o E w ''sleep'' args s) (\<lambda>v s.
     andthen (pone_intify E w v s) (\<lambda>_. Ret pone_nil))"

definition meth_die :: "('z pone_rt_scheme) \<Rightarrow> nat \<Rightarrow> ptr \<Rightarrow> ptr list \<Rightarrow> ptr pone" where
  "meth_die E w self args s = andthen (args_o E w ''die'' args s) (\<lambda>msg. pone_throw w msg)"

definition meth_exit :: "('z pone_rt_scheme) \<Rightarrow> nat \<Rightarrow> ptr \<Rightarrow> ptr list \<Rightarrow> ptr pone" where
  "meth_exit E w self args s =
     andthen (args_opt_i E w ''exit'' 0 args s) (\<lambda>e s. Exit (sint (ucast e :: 32 word)))"

definition meth_abort :: "('z pone_rt_scheme) \<Rightarrow> nat \<Rightarrow> ptr \<Rightarrow> ptr list \<Rightarrow> ptr pone" where
  "meth_abort E w self args s = andthen (args_none E w ''abort'' args s) (\<lambda>_ s. Abort)"

text \<open>
  Without an argument \<open>limit\<close> is not initialised; \<open>junk\<close> is what is on the stack.
\<close>

definition meth_chan :: "('z pone_rt_scheme) \<Rightarrow> pone_int_t \<Rightarrow> nat \<Rightarrow> nat \<Rightarrow> nat \<Rightarrow> chans \<Rightarrow> ptr list \<Rightarrow> (chans \<times> ptr) pone" where
  "meth_chan E junk w p cw C args s =
     andthen (args_opt_i E w ''chan'' junk args s) (\<lambda>limit. pone_chan_new w p cw C limit)"

section \<open>printf\<close>

definition PRINTF_BUFSIZ :: nat where "PRINTF_BUFSIZ = 256"

text \<open>
  After a percent sign: the conversion that comes first, the bytes before it, and where reading goes
  on. After \<open>s\<close> and \<open>%\<close> that is the conversion character itself.
\<close>

fun printf_scan :: "bytes \<Rightarrow> bytes \<Rightarrow> (byte \<times> bytes \<times> bytes) option" where
  "printf_scan pre [] = None"
| "printf_scan pre (c # cs) =
     (if c = 115 \<or> c = 37 then Some (c, pre, c # cs)
      else if c = 100 \<or> c = 102 then Some (c, pre @ [c], cs)
      else printf_scan (pre @ [c]) cs)"

lemma printf_scan_shrinks: "printf_scan f cs = Some (c, g, r) \<Longrightarrow> length r \<le> length cs"
  by (induction f cs rule: printf_scan.induct) (auto split: if_splits)

definition put_out :: "bytes \<Rightarrow> pone_state \<Rightarrow> pone_state" where
  "put_out b s = s\<lparr>st_out := st_out s @ b\<rparr>"

text \<open>One conversion; the arguments that are left are returned.\<close>

definition printf_conv :: "('z pone_sys_scheme) \<Rightarrow> nat \<Rightarrow> byte \<Rightarrow> bytes \<Rightarrow> ptr list \<Rightarrow> ptr list pone" where
  "printf_conv E w c spec args s =
     (if c = 37 then Ret args (put_out [37] s)
      else case args of
        [] \<Rightarrow> Undef
      | v # vs \<Rightarrow>
          if c = 115
          then andthen (pone_stringify E w v s) (\<lambda>str s.
               andthen (fwrite_str E str s) (\<lambda>_. Ret vs))
          else if length spec + 1 > PRINTF_BUFSIZ - 1
          then pone_throw_str w (bs ''[printf] format string too long'') s
          else andthen (if c = 102 then andthen (pone_numify E w v s) (\<lambda>n. Ret (e_fmt_f E (37 # spec) n))
                        else andthen (pone_intify E w v s) (\<lambda>i. Ret (e_fmt_d E (37 # spec) i))) (\<lambda>txt s.
               if length txt > PRINTF_BUFSIZ - 1
               then pone_throw_str w (bs ''[printf] printf buffer overrun'') s
               else Ret vs (put_out (if length txt > PRINTF_BUFSIZ - 2 then take (PRINTF_BUFSIZ - 2) txt @ [0] else txt) s)))"

function printf_loop :: "('z pone_sys_scheme) \<Rightarrow> nat \<Rightarrow> bytes \<Rightarrow> ptr list \<Rightarrow> unit pone" where
  "printf_loop E w [] args s = Ret () s"
| "printf_loop E w (c # cs) args s =
     (if c = 37
      then case printf_scan [] cs of
             None \<Rightarrow> pone_throw_str w (bs ''invalid format for printf'') s
           | Some (k, spec, rest) \<Rightarrow>
               andthen (printf_conv E w k spec args s) (\<lambda>args' s. printf_loop E w rest args' s)
      else printf_loop E w cs args (put_out [c] s))"
  by pat_completeness auto
termination
  by (relation "measure (\<lambda>(E, w, fmt, args, s). length fmt)") (auto simp: less_Suc_eq_le intro: printf_scan_shrinks)

definition meth_printf :: "('z pone_sys_scheme) \<Rightarrow> nat \<Rightarrow> ptr \<Rightarrow> ptr list \<Rightarrow> ptr pone" where
  "meth_printf E w self args s =
     (case args of
        [] \<Rightarrow> Undef
      | fmt # rest \<Rightarrow>
          andthen (pone_stringify E w fmt s) (\<lambda>f s.
          andthen (pone_str_bytes (e_depth E) f s) (\<lambda>b s.
          andthen (printf_loop E w b rest s) (\<lambda>_. Ret pone_nil))))"

section \<open>bless\<close>

fun bless_vars :: "('z pone_rt_scheme) \<Rightarrow> nat \<Rightarrow> ptr \<Rightarrow> (ptr \<times> ptr) list \<Rightarrow> unit pone" where
  "bless_vars E w obj [] s = Ret () s"
| "bless_vars E w obj ((k, v) # kvs) s =
     andthen (pone_str_new_strdup w (bs ''$.'' @ [0]) 2 s) (\<lambda>name s.
     andthen (pone_str_append E w name k s) (\<lambda>_ s.
     andthen (pone_str_append_c (e_depth E) w name [0] s) (\<lambda>_ s.
     andthen (pone_str_ptr (e_depth E) name s) (\<lambda>b s.
     andthen (pone_obj_set_ivar obj b v s) (\<lambda>_. bless_vars E w obj kvs)))))"

definition meth_bless :: "('z pone_rt_scheme) \<Rightarrow> nat \<Rightarrow> ptr \<Rightarrow> ptr list \<Rightarrow> ptr pone" where
  "meth_bless E w self args s =
     andthen (pone_arg E w ''bless(Class $class[, Hash $hash])'' ''o:o'' args s) (\<lambda>vs s.
     case vs of
       [PObj klass] \<Rightarrow> pone_obj_new w klass s
     | [PObj klass, PObj hash] \<Rightarrow>
         andthen (pone_obj_new w klass s) (\<lambda>obj s.
         if hash = Null then Ret obj s
         else andthen (map_entries hash s) (\<lambda>kvs s.
              andthen (bless_vars E w obj kvs s) (\<lambda>_. Ret obj)))
     | _ \<Rightarrow> Undef)"

text \<open>Functions bound to global names.\<close>

fun set_globals :: "nat \<Rightarrow> (string \<times> pone_funcptr_t) list \<Rightarrow> unit pone" where
  "set_globals w [] s = Ret () s"
| "set_globals w ((n, f) # fs) s =
     andthen (pone_code_new_c w f s) (\<lambda>code s.
     andthen (pone_universe_set_global (bs n) code s) (\<lambda>_. set_globals w fs))"

definition pone_builtin_init :: "nat \<Rightarrow> unit pone" where
  "pone_builtin_init w = set_globals w
     [(''chan'', ''meth_chan''), (''dd'', ''meth_dd''), (''what'', ''meth_what''),
      (''pthread_self'', ''meth_pthread_self''), (''print'', ''meth_print''), (''say'', ''meth_say''),
      (''getenv'', ''meth_getenv''), (''sleep'', ''meth_sleep''), (''die'', ''meth_die''),
      (''exit'', ''meth_exit''), (''printf'', ''meth_printf''),
      (''INTERNALS__dump_lex'', ''meth_internals_dump_lex''), (''bless'', ''meth_bless''),
      (''abort'', ''meth_abort'')]"

section \<open>Modules\<close>

definition pone_module_new :: "nat \<Rightarrow> bytes \<Rightarrow> ptr pone" where
  "pone_module_new w name s =
     andthen (pone_obj_new w (u_class_module (st_universe s)) s) (\<lambda>obj s.
     andthen (pone_str_new_strdup w (name @ [0]) (length (cstr name)) s) (\<lambda>nm s.
     andthen (pone_obj_set_ivar obj (bs ''$!name'') nm s) (\<lambda>_. Ret obj)))"

definition pone_module_put :: "ptr \<Rightarrow> bytes \<Rightarrow> ptr \<Rightarrow> unit pone" where
  "pone_module_put self name v = pone_obj_set_ivar self name v"

fun assign_entries :: "nat \<Rightarrow> (bytes \<times> ptr) list \<Rightarrow> unit pone" where
  "assign_entries w [] s = Ret () s"
| "assign_entries w ((k, v) # kvs) s =
     (if v = Null then Abort else andthen (pone_assign w 0 k v s) (\<lambda>_. assign_entries w kvs))"

definition export_module :: "nat \<Rightarrow> bytes \<Rightarrow> nat \<Rightarrow> ptr \<Rightarrow> unit pone" where
  "export_module w name name_len module s =
     (if name_len = 1 \<and> take 1 name = bs ''.''
      then case val_as (st_heap s module) of
             AsObj klass ivar \<Rightarrow> assign_entries w (kh_foreach ivar) s
           | _ \<Rightarrow> Undef
      else andthen (pone_assign w 0 name module s) (\<lambda>_. Ret ()))"

definition meth_module_str :: "('z pone_rt_scheme) \<Rightarrow> nat \<Rightarrow> ptr \<Rightarrow> ptr list \<Rightarrow> ptr pone" where
  "meth_module_str E w self args s =
     andthen (args_none E w ''Module#Str'' args s) (\<lambda>_ s.
     andthen (pone_str_new_strdup w (bs ''Module:'' @ [0]) 7 s) (\<lambda>v s.
     andthen (pone_obj_get_ivar self (bs ''$!name'') s) (\<lambda>nm s.
     andthen (pone_str_append E w v nm s) (\<lambda>_. Ret v))))"

definition meth_module_can :: "('z pone_rt_scheme) \<Rightarrow> nat \<Rightarrow> ptr \<Rightarrow> ptr list \<Rightarrow> ptr pone" where
  "meth_module_can E w self args s =
     andthen (args_s E w ''Module#can'' args s) (\<lambda>name. pone_obj_get_ivar self name)"

definition pone_module_init :: "('z pone_rt_scheme) \<Rightarrow> nat \<Rightarrow> unit pone" where
  "pone_module_init E w s =
     andthen (pone_class_new E w ''Module'' s) (\<lambda>m s.
     andthen (add_methods E w m [(''Str'', ''meth_module_str''), (''can'', ''meth_module_can'')] s) (\<lambda>_ s.
     Ret () (upd_universe (u_class_module_update (\<lambda>_. m)) s)))"

text \<open>Classes and code of the current scope become the variables of a module.\<close>

fun export_lex :: "ptr \<Rightarrow> (bytes \<times> ptr) list \<Rightarrow> unit pone" where
  "export_lex module [] s = Ret () s"
| "export_lex module ((k, v) # kvs) s =
     andthen (pone_what v s) (\<lambda>klass s.
     andthen (if klass = u_class_class (st_universe s) \<or> klass = u_class_code (st_universe s)
              then pone_module_put module k v s else Ret () s) (\<lambda>_. export_lex module kvs))"

definition pone_module_from_lex :: "nat \<Rightarrow> bytes \<Rightarrow> ptr pone" where
  "pone_module_from_lex w name s =
     andthen (pone_module_new w name s) (\<lambda>module s.
     case val_as (st_heap s (w_lex (st_world s w))) of
       AsLex parent m tid \<Rightarrow> andthen (export_lex module (kh_foreach m) s) (\<lambda>_. Ret module)
     | _ \<Rightarrow> Undef)"

section \<open>Random numbers\<close>

text \<open>The test for an unseeded generator looks at the first word only, twice.\<close>

definition random_seed :: "('z pone_sys_scheme) \<Rightarrow> nat \<Rightarrow> unit pone" where
  "random_seed E w s =
     (if fst (w_random_key (st_world s w)) = 0
      then case e_urandom E of
             Inl msg \<Rightarrow> pone_throw_str w msg s
           | Inr key \<Rightarrow> Ret () (upd_world w (w_random_key_update (\<lambda>_. key)) s)
      else Ret () s)"

definition xorshift :: "64 word \<times> 64 word \<Rightarrow> 64 word \<times> (64 word \<times> 64 word)" where
  "xorshift = (\<lambda>(k0, k1).
     let s0 = k1; s1 = k0 XOR push_bit 23 k0;
         k1' = s1 XOR s0 XOR drop_bit 17 s1 XOR drop_bit 26 s0
     in (k1' + s0, (s0, k1')))"

definition pone_random_uint64 :: "('z pone_sys_scheme) \<Rightarrow> nat \<Rightarrow> (64 word) pone" where
  "pone_random_uint64 E w s =
     andthen (random_seed E w s) (\<lambda>_ s.
     case xorshift (w_random_key (st_world s w)) of
       (r, key) \<Rightarrow> Ret r (upd_world w (w_random_key_update (\<lambda>_. key)) s))"

text \<open>
  \<open>i % (b - a + 1) + a\<close>: the range is computed as a signed \<open>int64_t\<close> and converted to unsigned, as is
  \<open>a\<close> for the addition; the result is converted back. A range of 0 divides by zero.
\<close>

definition random_range :: "64 word \<Rightarrow> 64 word \<Rightarrow> 64 word \<Rightarrow> 64 word option" where
  "random_range i a b =
     (case Option.bind (c_sub b a) (\<lambda>d. c_add d 1) of
        None \<Rightarrow> None
      | Some n \<Rightarrow> if n = 0 then None else Some (i mod n + a))"

definition pone_random_int_range :: "('z pone_sys_scheme) \<Rightarrow> nat \<Rightarrow> pone_int_t \<Rightarrow> pone_int_t \<Rightarrow> pone_int_t pone" where
  "pone_random_int_range E w a b s =
     andthen (pone_random_uint64 E w s) (\<lambda>i s. from_option (random_range i a b) s)"

definition meth_random :: "('z pone_sys_scheme) \<Rightarrow> nat \<Rightarrow> ptr \<Rightarrow> ptr list \<Rightarrow> ptr pone" where
  "meth_random E w self args s =
     andthen (pone_random_uint64 E w s) (\<lambda>i. pone_num_new w (e_num_unit E i))"

definition meth_rand_int :: "('z pone_sys_scheme) \<Rightarrow> nat \<Rightarrow> ptr \<Rightarrow> ptr list \<Rightarrow> ptr pone" where
  "meth_rand_int E w self args s =
     andthen (pone_arg E w ''random.rand_int'' ''ii'' args s) (\<lambda>vs s.
     case vs of
       [PInt a, PInt b] \<Rightarrow> andthen (pone_random_int_range E w a b s) (\<lambda>r. pone_int_new w r)
     | _ \<Rightarrow> Undef)"

fun put_functions :: "nat \<Rightarrow> ptr \<Rightarrow> (string \<times> pone_funcptr_t) list \<Rightarrow> unit pone" where
  "put_functions w module [] s = Ret () s"
| "put_functions w module ((n, f) # fs) s =
     andthen (pone_code_new_c w f s) (\<lambda>code s.
     andthen (pone_module_put module (bs n) code s) (\<lambda>_. put_functions w module fs))"

definition pone_random_init :: "nat \<Rightarrow> unit pone" where
  "pone_random_init w s =
     andthen (pone_module_new w (bs ''random'') s) (\<lambda>m s.
     andthen (put_functions w m [(''random'', ''meth_random''), (''rand_int'', ''meth_rand_int'')] s) (\<lambda>_.
     pone_universe_set_global (bs ''random'') m))"

section \<open>The call stack\<close>

definition meth_filename :: "('z pone_rt_scheme) \<Rightarrow> nat \<Rightarrow> ptr \<Rightarrow> ptr list \<Rightarrow> ptr pone" where
  "meth_filename E w self args = getter ''$!filename'' self args"

definition meth_lineno :: "('z pone_rt_scheme) \<Rightarrow> nat \<Rightarrow> ptr \<Rightarrow> ptr list \<Rightarrow> ptr pone" where
  "meth_lineno E w self args = getter ''$!lineno'' self args"

definition meth_subname :: "('z pone_rt_scheme) \<Rightarrow> nat \<Rightarrow> ptr \<Rightarrow> ptr list \<Rightarrow> ptr pone" where
  "meth_subname E w self args = getter ''$!subname'' self args"

definition meth_caller_str :: "('z pone_rt_scheme) \<Rightarrow> nat \<Rightarrow> ptr \<Rightarrow> ptr list \<Rightarrow> ptr pone" where
  "meth_caller_str E w self args s =
     andthen (args_none E w ''Caller#Str'' args s) (\<lambda>_ s.
     andthen (pone_obj_get_ivar self (bs ''$!filename'') s) (\<lambda>f s.
     andthen (pone_obj_get_ivar self (bs ''$!lineno'') s) (\<lambda>l s.
     andthen (pone_obj_get_ivar self (bs ''$!subname'') s) (\<lambda>n s.
     andthen (pone_str_new_strdup w [0] 0 s) (\<lambda>buf s.
     andthen (append_lit E w buf ''Caller<file:'' s) (\<lambda>_ s.
     andthen (pone_str_append E w buf f s) (\<lambda>_ s.
     andthen (append_lit E w buf '', line:'' s) (\<lambda>_ s.
     andthen (pone_str_append E w buf l s) (\<lambda>_ s.
     andthen (append_lit E w buf '', subname:'' s) (\<lambda>_ s.
     andthen (pone_str_append E w buf n s) (\<lambda>_ s.
     andthen (append_lit E w buf ''>'' s) (\<lambda>_. Ret buf))))))))))))"

definition meth_caller :: "('z pone_rt_scheme) \<Rightarrow> nat \<Rightarrow> ptr \<Rightarrow> ptr list \<Rightarrow> ptr pone" where
  "meth_caller E w self args s =
     andthen (args_opt_i E w ''runtime.caller'' 0 args s) (\<lambda>level s.
     andthen (pone_ary_size (w_caller_stack (st_world s w)) s) (\<lambda>l s.
     andthen (from_option (Option.bind (c_sub (of_nat l) level) (\<lambda>i. c_sub i 1)) s) (\<lambda>i s.
     andthen (pone_ary_at_pos (w_caller_stack (st_world s w)) (sint i) s) (\<lambda>row s.
     if pone_defined (st_heap s row)
     then andthen (pone_obj_new w (u_class_caller (st_universe s)) s) (\<lambda>obj s.
          andthen (pone_ary_at_pos row 0 s) (\<lambda>f s.
          andthen (pone_obj_set_ivar obj (bs ''$!filename'') f s) (\<lambda>_ s.
          andthen (pone_ary_at_pos row 1 s) (\<lambda>l s.
          andthen (pone_obj_set_ivar obj (bs ''$!lineno'') l s) (\<lambda>_ s.
          andthen (pone_ary_at_pos row 2 s) (\<lambda>n s.
          andthen (pone_obj_set_ivar obj (bs ''$!subname'') n s) (\<lambda>_. Ret obj)))))))
     else Ret pone_nil s))))"

definition pone_runtime_init :: "('z pone_rt_scheme) \<Rightarrow> nat \<Rightarrow> unit pone" where
  "pone_runtime_init E w s =
     andthen (pone_module_new w (bs ''runtime'') s) (\<lambda>m s.
     andthen (pone_str_lit w ''pre-alpha'' s) (\<lambda>v s.
     andthen (pone_universe_set_global (bs ''$PONE_VERSION'') v s) (\<lambda>_ s.
     andthen (pone_class_new E w ''Caller'' s) (\<lambda>k s.
     andthen (add_methods E w k [(''filename'', ''meth_filename''), (''lineno'', ''meth_lineno''),
       (''subname'', ''meth_subname''), (''Str'', ''meth_caller_str'')] s) (\<lambda>_ s.
     andthen (pone_module_put m (bs ''Caller'') k s) (\<lambda>_ s.
     andthen (put_functions w m [(''caller'', ''meth_caller'')]
       (upd_universe (u_class_caller_update (\<lambda>_. k)) s)) (\<lambda>_.
     pone_universe_set_global (bs ''runtime'') m)))))))"

section \<open>The module math\<close>

text \<open>\<open>-i\<close> is undefined for \<open>LONG_MIN\<close>.\<close>

definition meth_abs :: "('z pone_sys_scheme) \<Rightarrow> nat \<Rightarrow> ptr \<Rightarrow> ptr list \<Rightarrow> ptr pone" where
  "meth_abs E w self args s =
     andthen (args_o E w ''abs'' args s) (\<lambda>v s.
     case val_as (st_heap s v) of
       AsInt i \<Rightarrow>
         if sint i < 0 then andthen (from_option (c_sub 0 i) s) (\<lambda>n. pone_int_new w n) else Ret v s
     | AsNum n \<Rightarrow>
         if e_num_is_neg E n then pone_num_new w (e_num_neg E n) s else Ret v s
     | _ \<Rightarrow> pone_throw_str w (bs ''you can't call abs() for non-numeric value'') s)"

definition meth_atan2 :: "('z pone_sys_scheme) \<Rightarrow> nat \<Rightarrow> ptr \<Rightarrow> ptr list \<Rightarrow> ptr pone" where
  "meth_atan2 E w self args s =
     andthen (args_oo E w ''math.atan2'' args s) (\<lambda>(y, x) s.
     andthen (pone_numify E w y s) (\<lambda>ny s.
     andthen (pone_numify E w x s) (\<lambda>nx. pone_num_new w (e_atan2 E ny nx))))"

text \<open>\<open>cos\<close>, \<open>sin\<close>, \<open>exp\<close>, \<open>sqrt\<close> and \<open>log\<close>.\<close>

definition math_fun :: "string \<Rightarrow> ('z pone_sys_scheme) \<Rightarrow> nat \<Rightarrow> ptr \<Rightarrow> ptr list \<Rightarrow> ptr pone" where
  "math_fun f E w self args s =
     andthen (args_o E w (''math.'' @ f) args s) (\<lambda>x s.
     andthen (pone_numify E w x s) (\<lambda>n. pone_num_new w (e_math1 E f n)))"

definition PONE_DLL_math :: "('z pone_sys_scheme) \<Rightarrow> nat \<Rightarrow> ptr \<Rightarrow> unit pone" where
  "PONE_DLL_math E w m s =
     andthen (put_functions w m [(''abs'', ''meth_abs''), (''atan2'', ''meth_atan2''), (''cos'', ''meth_cos''),
       (''sin'', ''meth_sin''), (''exp'', ''meth_exp''), (''log'', ''meth_log''), (''sqrt'', ''meth_sqrt'')] s) (\<lambda>_ s.
     andthen (pone_num_new w (e_num_pi E) s) (\<lambda>v. pone_module_put m (bs ''PI'') v))"

section \<open>Properties\<close>

subsection \<open>The generator\<close>

lemma xor_push_bit_inj:
  fixes x y :: "'a::len word"
  assumes n: "0 < n" and eq: "x XOR push_bit n x = y XOR push_bit n y"
  shows "x = y"
proof (rule bit_word_eqI)
  fix i assume "i < LENGTH('a)"
  then show "bit x i = bit y i"
  proof (induction i rule: less_induct)
    case (less i)
    have low: "n \<le> i \<Longrightarrow> bit x (i - n) = bit y (i - n)" using less n by auto
    have "bit (x XOR push_bit n x) i = bit (y XOR push_bit n y) i" using eq by simp
    then show ?case using low less.prems by (auto simp: bit_simps)
  qed
qed

lemma xor_drop_bit_inj:
  fixes x y :: "'a::len word"
  assumes n: "0 < n" and eq: "x XOR drop_bit n x = y XOR drop_bit n y"
  shows "x = y"
proof (rule bit_word_eqI)
  fix i
  show "bit x i = bit y i"
  proof (induction "LENGTH('a) - i" arbitrary: i rule: less_induct)
    case less
    have high: "bit x (n + i) = bit y (n + i)"
      using less [of "n + i"] n by (cases "i < LENGTH('a)") (auto simp: bit_word.rep_eq)
    have "bit (x XOR drop_bit n x) i = bit (y XOR drop_bit n y) i" using eq by simp
    then show ?case using high by (auto simp: bit_simps)
  qed
qed

lemma xor_cancel_right: "x XOR a = y XOR a \<Longrightarrow> x = (y :: 'a::len word)"
  by (metis bit.xor_self xor.assoc xor.right_neutral)

text \<open>
  A step of the generator loses no state: different keys have different successors, and the all-zero
  key, which the generator cannot leave, is reached from no other.
\<close>

lemma xorshift_inj: "inj (\<lambda>key. snd (xorshift key))"
proof (rule injI)
  fix k l :: "64 word \<times> 64 word" assume eq: "snd (xorshift k) = snd (xorshift l)"
  obtain k0 k1 l0 l1 where kl: "k = (k0, k1)" "l = (l0, l1)" by (cases k, cases l)
  have k1: "k1 = l1" using eq by (simp add: kl xorshift_def Let_def)
  let ?f = "\<lambda>x :: 64 word. x XOR push_bit 23 x"
  have "(?f k0 XOR drop_bit 17 (?f k0)) XOR (k1 XOR drop_bit 26 k1) =
        (?f l0 XOR drop_bit 17 (?f l0)) XOR (k1 XOR drop_bit 26 k1)"
    using eq k1 by (simp add: kl xorshift_def Let_def ac_simps)
  then have "?f k0 XOR drop_bit 17 (?f k0) = ?f l0 XOR drop_bit 17 (?f l0)"
    by (rule xor_cancel_right)
  then have "?f k0 = ?f l0" by (rule xor_drop_bit_inj [rotated]) simp
  then have "k0 = l0" by (rule xor_push_bit_inj [rotated]) simp
  then show "k = l" by (simp add: kl k1)
qed

theorem xorshift_injective:
  "inj (\<lambda>key. snd (xorshift key)) \<and> (snd (xorshift key) = (0, 0) \<longleftrightarrow> key = (0, 0))"
proof -
  have "snd (xorshift (0, 0)) = (0, 0)" by (simp add: xorshift_def)
  then have "snd (xorshift key) = (0, 0) \<longleftrightarrow> snd (xorshift key) = snd (xorshift (0, 0))" by simp
  then show ?thesis using xorshift_inj inj_eq [OF xorshift_inj, of key "(0, 0)"] by simp
qed

lemma random_range_bounds:
  assumes "sint a \<le> sint b" "sint b - sint a + 1 < 2 ^ 63"
  shows "\<exists>r. random_range i a b = Some r \<and> sint a \<le> sint r \<and> sint r \<le> sint b"
proof -
  obtain d where d: "c_sub b a = Some d" "sint d = sint b - sint a"
    using c_long_fits [of "sint b - sint a"] assms unfolding c_sub_def by auto
  obtain n where n: "c_add d 1 = Some n" "sint n = sint b - sint a + 1"
    using c_long_fits [of "sint d + 1"] assms d(2) unfolding c_add_def by auto
  have pos: "0 < sint n" using n(2) assms by simp
  then have un: "uint n = sint n" 
    using sint_long(2) [of n] uint_sint [of n] by (simp add: take_bit_int_eq_self)
  define k where "k = uint i mod uint n"
  have k: "0 \<le> k" "k \<le> sint b - sint a" 
    using pos un n(2) pos_mod_sign [of "uint n" "uint i"] pos_mod_bound [of "uint n" "uint i"]
    by (simp_all add: k_def)
  have "c_long (sint a + k) = Some (i mod n + a)"
    using k sint_long [of a] sint_long [of b]
    by (simp add: c_long_def k_def word_mod_def add.commute)
  then have "sint (i mod n + a) = sint a + k" by (rule c_long_Some)
  then show ?thesis using d n pos k by (auto simp: random_range_def)
qed

text \<open>
  C39: \<open>rand_int(a, b)\<close> returns a number between \<open>a\<close> and \<open>b\<close>, both included, whenever \<open>a\<close> is not above
  \<open>b\<close> and the size of the range fits a \<open>long\<close>, provided the generator is seeded or can be; no value
  of the heap is touched.
\<close>

theorem random_int_range_bounds:
  assumes "sint a \<le> sint b" "sint b - sint a + 1 < 2 ^ 63"
    and "fst (w_random_key (st_world s w)) \<noteq> 0 \<or> (\<exists>key. e_urandom E = Inr key)"
  shows "\<exists>r s'. pone_random_int_range E w a b s = Ret r s' \<and> sint a \<le> sint r \<and> sint r \<le> sint b \<and>
    st_heap s' = st_heap s"
proof -
  obtain s1 where s1: "random_seed E w s = Ret () s1" "st_heap s1 = st_heap s"
    using assms(3) by (cases "fst (w_random_key (st_world s w)) = 0") (auto simp: random_seed_def upd_world_def)
  then obtain i s' where i: "pone_random_uint64 E w s = Ret i s'" "st_heap s' = st_heap s"
    by (cases "xorshift (w_random_key (st_world s1 w))") (simp add: pone_random_uint64_def upd_world_def)
  obtain r where "random_range i a b = Some r" "sint a \<le> sint r" "sint r \<le> sint b"
    using random_range_bounds [OF assms(1,2), of i] by auto
  then show ?thesis using i by (auto simp: pone_random_int_range_def)
qed

definition demo_sys :: pone_sys where
  "demo_sys = pone_libc.extend demo_libc (pone_sys.fields (\<lambda>_. None) (\<lambda>_ _. []) (\<lambda>_ _. [])
     (Inr (1, 2)) id (\<lambda>_. False) id (\<lambda>_. id) (\<lambda>x _. x) 0)"

theorem random_int_range_bounds_witness:
  "\<exists>r s'. pone_random_int_range demo_sys 0 1 6 blank_state = Ret r s' \<and> sint (1 :: pone_int_t) \<le> sint r \<and>
    sint r \<le> sint (6 :: pone_int_t) \<and> st_heap s' = st_heap blank_state"
  by (rule random_int_range_bounds) (simp_all add: demo_sys_def pone_libc.defs pone_sys.defs)

subsection \<open>printf\<close>

lemma printf_loop_plain: "c \<noteq> 37 \<Longrightarrow> printf_loop E w (c # cs) args = (\<lambda>s. printf_loop E w cs args (put_out [c] s))"
  by (rule ext) simp

text \<open>
  Reading of the format goes on at the conversion character after \<open>%s\<close> and \<open>%%\<close>: the text of a \<open>%s\<close>
  argument is followed by a stray \<open>s\<close>, and the second percent sign of \<open>%%\<close> starts a conversion of its
  own, so that a format that ends in \<open>%%\<close> throws.
\<close>

theorem printf_rereads_conversion:
  "printf_loop E w (37 # 115 # cs) (v # vs) s =
     andthen (pone_stringify E w v s) (\<lambda>str s.
     andthen (fwrite_str E str s) (\<lambda>_ s. printf_loop E w cs vs (put_out [115] s))) \<and>
   printf_loop E w (37 # 37 # cs) args s = printf_loop E w (37 # cs) args (put_out [37] s) \<and>
   printf_loop E w [37, 37] args s =
     pone_throw_str w (bs ''invalid format for printf'') (put_out [37] s)"
  by (simp add: printf_conv_def andthen_assoc printf_loop_plain)

end
