(* ===== verification/Pone_Threads.thy ===== *)
theory Pone_Threads
  imports Pone_Builtin
begin

text \<open>
  Threads: how the closure of a new thread is made (\<^verbatim>\<open>src/thread.c\<close>), the list of worker worlds and the end
  of a program (\<^verbatim>\<open>src/universe.c\<close>), and signals that are sent to channels (\<^verbatim>\<open>src/signal.c\<close>). The calls
  of \<open>pthread\<close> are not modelled; what they decide is a parameter.
\<close>

section \<open>The closure of a new thread\<close>

text \<open>
  Every variable of a scope goes into the table of the new scope, under a copy of its name that belongs
  to the new world. The value itself is shared.
\<close>

fun dup_entries :: "nat \<Rightarrow> ptr \<Rightarrow> (bytes \<times> ptr) list \<Rightarrow> unit pone" where
  "dup_entries w dst [] s = Ret () s"
| "dup_entries w dst ((k, v) # kvs) s =
     andthen (pone_str_new_strdup w (cstr k @ [0]) (length (cstr k)) s) (\<lambda>key s.
     andthen (pone_str_ptr 1 key s) (\<lambda>b s.
     case val_as (st_heap s dst) of
       AsLex parent m tid \<Rightarrow>
         andthen (from_option (str_kh_put m b v) s) (\<lambda>(m', ret) s.
         dup_entries w dst kvs (set_as dst (AsLex parent m' tid) s))
     | _ \<Rightarrow> Undef))"

text \<open>The loop over the scopes, outwards; \<open>fuel\<close> bounds their number.\<close>

fun dup_scopes :: "nat \<Rightarrow> nat \<Rightarrow> ptr \<Rightarrow> ptr \<Rightarrow> unit pone" where
  "dup_scopes fuel w dst lx s =
     (if lx = Null then Ret () s
      else case fuel of
             0 \<Rightarrow> Undef
           | Suc f \<Rightarrow>
               (case val_as (st_heap s lx) of
                  AsLex _ m _ \<Rightarrow>
                    andthen (dup_entries w dst (kh_foreach m) s) (\<lambda>_ s.
                    case val_as (st_heap s lx) of
                      AsLex parent _ _ \<Rightarrow> dup_scopes f w dst parent s
                    | _ \<Rightarrow> Undef)
                | _ \<Rightarrow> Undef))"

declare dup_scopes.simps [simp del]

definition dup_lex_values :: "nat \<Rightarrow> nat \<Rightarrow> ptr \<Rightarrow> ptr pone" where
  "dup_lex_values fuel w code s =
     andthen (pone_lex_new w Null s) (\<lambda>dst s.
     case val_as (st_heap s code) of
       AsCode f lx \<Rightarrow> andthen (dup_scopes fuel w dst lx s) (\<lambda>_. Ret dst)
     | _ \<Rightarrow> Undef)"

definition copy_code :: "nat \<Rightarrow> nat \<Rightarrow> ptr \<Rightarrow> ptr pone" where
  "copy_code fuel w code s =
     (case val_as (st_heap s code) of
        AsCode f _ \<Rightarrow>
          andthen (pone_code_new_c w f s) (\<lambda>dst s.
          andthen (dup_lex_values fuel w code s) (\<lambda>lx s.
          Ret dst (set_as dst (AsCode f lx) s)))
      | _ \<Rightarrow> Undef)"

section \<open>Workers\<close>

text \<open>
  A worker without code takes the job when its mutex is free (\<open>idle\<close> says for which worlds
  \<open>pthread_mutex_trylock\<close> succeeds); otherwise a new world \<open>nw\<close> is put in front of the list and runs it.
\<close>

definition give_code :: "nat \<Rightarrow> nat \<Rightarrow> ptr \<Rightarrow> unit pone" where
  "give_code fuel w code s =
     andthen (copy_code fuel w code s) (\<lambda>c s. Ret () (upd_world w (w_code_update (\<lambda>_. c)) s))"

definition free_worker :: "(nat \<Rightarrow> bool) \<Rightarrow> pone_state \<Rightarrow> nat option" where
  "free_worker idle s = List.find (\<lambda>w. w_code (st_world s w) = Null \<and> idle w) (u_worker_worlds (st_universe s))"

definition pone_thread_start :: "nat \<Rightarrow> (nat \<Rightarrow> bool) \<Rightarrow> nat \<Rightarrow> ptr \<Rightarrow> unit pone" where
  "pone_thread_start fuel idle nw code s =
     (if type_at s code \<noteq> PONE_CODE then Abort
      else case free_worker idle s of
             Some w \<Rightarrow> give_code fuel w code s
           | None \<Rightarrow>
               andthen (pone_world_new nw s) (\<lambda>_ s.
               andthen (give_code fuel nw code s) (\<lambda>_ s.
               Ret () (upd_universe (u_worker_worlds_update (\<lambda>ws. nw # ws)) s))))"

definition meth_thread_start :: "nat \<Rightarrow> (nat \<Rightarrow> bool) \<Rightarrow> nat \<Rightarrow> ptr list \<Rightarrow> ptr pone" where
  "meth_thread_start fuel idle nw args s =
     (case args of
        [code] \<Rightarrow> andthen (pone_thread_start fuel idle nw code s) (\<lambda>_. Ret pone_nil)
      | _ \<Rightarrow> Abort)"

definition pone_thread_init :: "nat \<Rightarrow> unit pone" where
  "pone_thread_init w = set_globals w [(''async'', ''meth_thread_start'')]"

definition pone_count_alive_threads :: "pone_state \<Rightarrow> nat" where
  "pone_count_alive_threads s = length (filter (\<lambda>w. w_code (st_world s w) \<noteq> Null) (u_worker_worlds (st_universe s)))"

text \<open>One turn of the waiting loop: it goes on waiting, or returns.\<close>

definition pone_universe_wait_threads :: "unit waiting pone" where
  "pone_universe_wait_threads s =
     Ret (if u_worker_worlds (st_universe s) \<noteq> [] \<and> pone_count_alive_threads s = 0 then Done () else Wait) s"

text \<open>What a worker does with its job, between two waits: the caller's frame is the place of the call.\<close>

definition thread_job :: "('z pone_rt_scheme) \<Rightarrow> nat \<Rightarrow> unit pone" where
  "thread_job E w s =
     andthen (pone_push_scope w s) (\<lambda>_ s.
     case val_as (st_heap s (w_code (st_world s w))) of
       AsCode f lx \<Rightarrow>
         (case val_as (st_heap s lx) of
            AsLex parent m _ \<Rightarrow>
              andthen (pone_code_call E w (''thread.c'', 40, ''thread_start'') (w_code (st_world s w)) pone_nil []
                        (set_as lx (AsLex parent m (st_self s)) s)) (\<lambda>_.
              pone_world_release (e_fin E) (e_depth E) w)
          | _ \<Rightarrow> Undef)
     | _ \<Rightarrow> Undef)"

text \<open>
  An exception that nothing catches ends the process, after its text and the frames of the caller stack are
  printed, the innermost first. What is printed is not part of the outcome; reading the frames may fail.
\<close>

fun dump_callers :: "('z pone_rt_scheme) \<Rightarrow> nat \<Rightarrow> ptr \<Rightarrow> nat \<Rightarrow> unit pone" where
  "dump_callers E w st 0 s = Ret () s"
| "dump_callers E w st (Suc i) s =
     andthen (pone_ary_at_pos st (int i) s) (\<lambda>row s.
     andthen (pone_ary_at_pos row 0 s) (\<lambda>f s.
     andthen (pone_str_c_str E w f s) (\<lambda>_ s.
     andthen (pone_ary_at_pos row 1 s) (\<lambda>l s.
     andthen (pone_int_val l s) (\<lambda>_ s.
     andthen (pone_ary_at_pos row 2 s) (\<lambda>n s.
     andthen (pone_str_c_str E w n s) (\<lambda>_.
     dump_callers E w st i)))))))"

definition pone_universe_default_err_handler :: "('z pone_rt_scheme) \<Rightarrow> nat \<Rightarrow> unit pone" where
  "pone_universe_default_err_handler E w s =
     (if w_errvar (st_world s w) = Null then Abort
      else andthen (pone_stringify E w (w_errvar (st_world s w)) s) (\<lambda>_ s.
           andthen (pone_ary_size (w_caller_stack (st_world s w)) s) (\<lambda>n s.
           andthen (dump_callers E w (w_caller_stack (st_world s w)) n s) (\<lambda>_ s. Exit 1))))"

section \<open>Signals\<close>

definition PONE_SIGNAL_HANDLERS_SIZE :: nat where "PONE_SIGNAL_HANDLERS_SIZE = 32"

text \<open>\<open>sw\<close> is the world of the signal thread.\<close>

definition meth_signal_notify :: "('z pone_rt_scheme) \<Rightarrow> nat \<Rightarrow> nat \<Rightarrow> ptr list \<Rightarrow> ptr pone" where
  "meth_signal_notify E sw w args s =
     andthen (pone_arg E w ''signal.notify'' ''oi'' args s) (\<lambda>vs s.
     case vs of
       [PObj chan, PInt sig] \<Rightarrow>
         if sint sig \<ge> int PONE_SIGNAL_HANDLERS_SIZE
         then pone_throw_str w (bs ''Invalid signal code: '' @ dec_of_int (sint sig)) s
         else if sint sig < 0 then Undef
         else andthen (pone_val_copy (e_depth E) E sw chan s) (\<lambda>c s.
              Ret pone_nil (upd_universe (u_signal_channels_update
                (\<lambda>cs. cs[nat (sint sig) := cs ! nat (sint sig) @ [c]])) s))
     | _ \<Rightarrow> Undef)"

text \<open>The signal is offered to every channel; one that is full does not get it.\<close>

fun send_signal :: "('z pone_rt_scheme) \<Rightarrow> nat \<Rightarrow> ptr \<Rightarrow> ptr list \<Rightarrow> chans \<Rightarrow> chans pone" where
  "send_signal E w v [] C s = Ret C s"
| "send_signal E w v (ch # chs) C s =
     andthen (pone_chan_trysend E w C ch v s) (\<lambda>(C', sent). send_signal E w v chs C')"

text \<open>
  A signal without a channel is sent again with its default action; \<open>fatal\<close> says for which signals that
  ends the process. \<open>sigwait\<close> may return a signal beyond the array of channels.
\<close>

definition handle_signal :: "(nat \<Rightarrow> bool) \<Rightarrow> ('z pone_rt_scheme) \<Rightarrow> nat \<Rightarrow> nat \<Rightarrow> chans \<Rightarrow> chans pone" where
  "handle_signal fatal E w sig C s =
     (if sig \<ge> PONE_SIGNAL_HANDLERS_SIZE then Undef
      else if u_signal_channels (st_universe s) ! sig = [] \<and> fatal sig then Exit (128 + int sig)
      else andthen (pone_push_scope w s) (\<lambda>_ s.
           andthen (pone_int_new w (of_nat sig) s) (\<lambda>v s.
           andthen (send_signal E w v (u_signal_channels (st_universe s) ! sig) C s) (\<lambda>C s.
           andthen (pone_pop_scope w s) (\<lambda>_. Ret C)))))"

text \<open>The module \<open>signal\<close>; \<open>signums\<close> are the names of the signals of the platform with their numbers.\<close>

fun put_ints :: "nat \<Rightarrow> ptr \<Rightarrow> (string \<times> pone_int_t) list \<Rightarrow> unit pone" where
  "put_ints w module [] s = Ret () s"
| "put_ints w module ((n, i) # nis) s =
     andthen (pone_int_new w i s) (\<lambda>v s.
     andthen (pone_module_put module (bs n) v s) (\<lambda>_. put_ints w module nis))"

definition pone_signal_init :: "(string \<times> pone_int_t) list \<Rightarrow> nat \<Rightarrow> unit pone" where
  "pone_signal_init signums w s =
     andthen (pone_module_new w (bs ''signal'') s) (\<lambda>m s.
     andthen (put_functions w m [(''notify'', ''meth_signal_notify''), (''kill'', ''meth_signal_kill'')] s) (\<lambda>_ s.
     andthen (put_ints w m signums s) (\<lambda>_.
     pone_universe_set_global (bs ''signal'') m)))"

section \<open>Properties\<close>

text \<open>The binding of the outermost scope that has one.\<close>

fun last_binding :: "ptr str_khash list \<Rightarrow> bytes \<Rightarrow> ptr option" where
  "last_binding [] k = None"
| "last_binding (m # ms) k = (case last_binding ms k of Some v \<Rightarrow> Some v | None \<Rightarrow> str_kh_map m k)"

lemma cstr_cstr [simp]: "cstr (cstr k @ [0]) = cstr k"
  by (induction k) (auto simp: cstr_def)

text \<open>Storing all entries of a table puts its map over the old one.\<close>

abbreviation stores :: "(bytes \<times> ptr) list \<Rightarrow> ptr table_op list" where
  "stores kvs \<equiv> map (\<lambda>(k, v). Store (cstr k @ [0]) v) kvs"

lemma spec_stores:
  "spec_table (stores kvs) m = m ++ map_of (rev (map (\<lambda>(k, v). (cstr k, v)) kvs))"
  by (induction kvs arbitrary: m) (auto simp: map_add_def fun_eq_iff split: option.splits)

lemma stores_foreach:
  assumes "str_kh_inv t"
  shows "spec_table (stores (kh_foreach t)) m = m ++ str_kh_map t"
proof -
  have "distinct (map fst (map (\<lambda>(k, v). (cstr k, v)) (kh_foreach t)))"
    by (rule distinct_foreach [OF kh_inv_inj [OF assms]])
  then have "map_of (rev (map (\<lambda>(k, v). (cstr k, v)) (kh_foreach t))) = map_of (map (\<lambda>(k, v). (cstr k, v)) (kh_foreach t))"
    by (subst map_of_inject_set) (simp_all flip: rev_map)
  then show ?thesis by (simp add: spec_stores kh_lookup_def)
qed

text \<open>What is alive, apart from \<open>dst\<close>, is not changed.\<close>

definition spares :: "ptr \<Rightarrow> pone_state \<Rightarrow> pone_state \<Rightarrow> bool" where
  "spares dst s s' \<longleftrightarrow> st_self s' = st_self s \<and>
     (\<forall>p. p \<noteq> dst \<and> pone_alive (st_heap s p) \<longrightarrow> st_heap s' p = st_heap s p)"

lemma spares_trans: "spares dst s1 s2 \<Longrightarrow> spares dst s2 s3 \<Longrightarrow> spares dst s1 s3"
  by (auto simp: spares_def)

lemma arena_wf_set_lex:
  "arena_wf w s \<Longrightarrow> pone_alive (st_heap s p) \<Longrightarrow> arena_wf w (set_as p (AsLex parent m tid) s)"
  by (erule arena_wf_heap_cong) (auto simp: pone_alive_iff split: if_splits)

text \<open>Making the copy of a name.\<close>

lemma dup_key:
  assumes wf: "arena_wf w s" and dst: "pone_alive (st_heap s dst)"
  obtains p s' where "pone_str_new_strdup w (cstr k @ [0]) (length (cstr k)) s = Ret p s'"
    "pone_str_ptr 1 p s' = Ret (cstr k @ [0]) s'" "arena_wf w s'" "spares dst s s'" "st_heap s' dst = st_heap s dst"
proof -
  have dup: "pone_strdup (cstr k @ [0]) (length (cstr k)) = cstr k @ [0]" by (simp add: pone_strdup_def)
  obtain p s1 where p: "pone_obj_alloc w (AsStr (StrBuf (cstr k @ [0])) (length (cstr k))) s = Ret p s1"
    "\<not> pone_alive (st_heap s p)" "st_heap s1 = (st_heap s)(p := \<lparr>val_flags = 0, val_as = AsStr (StrBuf (cstr k @ [0])) (length (cstr k))\<rparr>)"
    "arena_wf w s1" "st_self s1 = st_self s"
    by (rule obj_allocE [OF wf, of "AsStr (StrBuf (cstr k @ [0])) (length (cstr k))"]) simp_all
  let ?s = "or_flags PONE_FLAGS_STR_UTF8 p s1"
  have "arena_wf w ?s"
    using p(4) by (rule arena_wf_heap_cong) (auto simp: or_flags_def p(3) pone_alive_iff split: if_splits)
  moreover have "pone_str_ptr 1 p ?s = Ret (cstr k @ [0]) ?s"
    by (simp add: or_flags_def p(3) has_flag_def flag_defs)
  moreover have "spares dst s ?s" "st_heap ?s dst = st_heap s dst"
    using p(2,3,5) dst by (auto simp: spares_def or_flags_def)
  moreover have "pone_str_new_strdup w (cstr k @ [0]) (length (cstr k)) s = Ret p ?s"
    using p(1) dup by (simp add: pone_str_new_strdup_def pone_bytes_new_strdup_def)
  ultimately show thesis using that by blast
qed

lemma dup_entries_spec:
  assumes "arena_wf w s" "val_as (st_heap s dst) = AsLex parent m tid" "run_table (stores kvs) m = Some m'"
  shows "\<exists>s'. dup_entries w dst kvs s = Ret () s' \<and> arena_wf w s' \<and> spares dst s s' \<and>
    val_as (st_heap s' dst) = AsLex parent m' tid"
  using assms
proof (induction kvs arbitrary: s m)
  case Nil
  then show ?case by (simp add: spares_def)
next
  case (Cons kv kvs)
  obtain k v where kv: "kv = (k, v)" by (cases kv)
  have alive: "pone_alive (st_heap s dst)" using Cons(3) by (simp add: pone_alive_iff)
  obtain p s1 where s1: "pone_str_new_strdup w (cstr k @ [0]) (length (cstr k)) s = Ret p s1"
    "pone_str_ptr 1 p s1 = Ret (cstr k @ [0]) s1" "arena_wf w s1" "spares dst s s1" "st_heap s1 dst = st_heap s dst"
    by (rule dup_key [OF Cons(2) alive])
  obtain m1 r where m1: "str_kh_put m (cstr k @ [0]) v = Some (m1, r)" "run_table (stores kvs) m1 = Some m'"
    using Cons(4) by (auto simp: kv bind_eq_Some_conv)
  let ?s = "set_as dst (AsLex parent m1 tid) s1"
  have "arena_wf w ?s" using s1(3,5) alive by (intro arena_wf_set_lex) simp_all
  then obtain s' where s': "dup_entries w dst kvs ?s = Ret () s'" "arena_wf w s'" "spares dst ?s s'"
    "val_as (st_heap s' dst) = AsLex parent m' tid"
    using Cons(1) [OF _ _ m1(2), of ?s] by auto
  have "spares dst s1 ?s" by (auto simp: spares_def)
  then have "spares dst s s'" using s1(4) s'(3) spares_trans by blast
  then show ?case using s1(1,2,5) s' m1(1) Cons(3) by (auto simp: kv)
qed


lemma run_stores_size:
  assumes "str_kh_inv t" "kh_size t + length kvs \<le> 2 ^ 30" "run_table (stores kvs) t = Some t'"
  shows "kh_size t' \<le> kh_size t + length kvs"
  using assms
proof (induction kvs arbitrary: t)
  case (Cons kv kvs)
  obtain k v where kv: "kv = (k, v)" by (cases kv)
  have lt: "kh_size t < 2 ^ 30" using Cons.prems(2) by simp
  obtain t1 r where s: "str_kh_put t (cstr k @ [0]) v = Some (t1, r)" "run_table (stores kvs) t1 = Some t'"
    using Cons.prems(3) by (auto simp: kv bind_eq_Some_conv)
  have "kh_size t1 \<le> Suc (kh_size t)"
    using str_table.table.count_store [OF Cons.prems(1) lt s(1)] by simp
  moreover have "str_kh_inv t1" using str_table.table.storeD [OF Cons.prems(1) lt s(1)] by blast
  ultimately show ?case using Cons.IH [OF _ _ s(2)] Cons.prems(2) by fastforce
qed simp

text \<open>The scopes of a closure, none of which is \<open>dst\<close>.\<close>

definition scopes_besides :: "ptr \<Rightarrow> pone_state \<Rightarrow> ptr \<Rightarrow> ptr str_khash list \<Rightarrow> bool" where
  "scopes_besides dst s lx ms \<longleftrightarrow> lex_chain ((st_heap s)(dst := \<lparr>val_flags = 0, val_as = AsFree Null\<rparr>)) lx ms"

lemma scopes_besides_Cons:
  "scopes_besides dst s lx (m # ms) \<longleftrightarrow> lx \<noteq> Null \<and> lx \<noteq> dst \<and>
     (\<exists>parent tid. val_as (st_heap s lx) = AsLex parent m tid \<and> scopes_besides dst s parent ms)"
  by (auto simp: scopes_besides_def)

lemma scopes_spared: "scopes_besides dst s lx ms \<Longrightarrow> spares dst s s' \<Longrightarrow> scopes_besides dst s' lx ms"
proof (induction ms arbitrary: lx)
  case (Cons m ms)
  then show ?case by (fastforce simp: scopes_besides_Cons spares_def pone_alive_iff)
qed (simp add: scopes_besides_def)

lemma last_binding_add: "last_binding (m # ms) = str_kh_map m ++ last_binding ms"
  by (auto simp: fun_eq_iff map_add_def)

lemma dup_scopes_spec:
  assumes "arena_wf w s" "val_as (st_heap s dst) = AsLex Null m tid" "str_kh_inv m" "scopes_besides dst s lx ms"
    "\<forall>t \<in> set ms. str_kh_inv t" "kh_size m + sum_list (map (\<lambda>t. length (kh_foreach t)) ms) \<le> 2 ^ 30" "length ms \<le> fuel"
  shows "\<exists>m' s'. dup_scopes fuel w dst lx s = Ret () s' \<and> arena_wf w s' \<and> spares dst s s' \<and>
    val_as (st_heap s' dst) = AsLex Null m' tid \<and> str_kh_map m' = str_kh_map m ++ last_binding ms"
  using assms
proof (induction ms arbitrary: s m lx fuel)
  case Nil
  then have "lx = Null" by (simp add: scopes_besides_def)
  then show ?case using Nil by (subst dup_scopes.simps) (auto simp: spares_def map_add_def fun_eq_iff)
next
  case (Cons t ms)
  obtain f where f: "fuel = Suc f" "length ms \<le> f" using Cons.prems(7) by (cases fuel) auto
  obtain parent tid' where lx: "lx \<noteq> Null" "lx \<noteq> dst" "val_as (st_heap s lx) = AsLex parent t tid'" "scopes_besides dst s parent ms"
    using Cons.prems(4) by (auto simp: scopes_besides_Cons)
  have small: "kh_size m + length (kh_foreach t) \<le> 2 ^ 30" using Cons.prems(6) by simp
  obtain m1 where m1: "run_table (stores (kh_foreach t)) m = Some m1" "str_kh_inv m1"
    "str_kh_map m1 = spec_table (stores (kh_foreach t)) (str_kh_map m)"
    using run_table_spec [OF Cons.prems(3), of "stores (kh_foreach t)"] small by auto
  have map1: "str_kh_map m1 = str_kh_map m ++ str_kh_map t"
    using m1(3) stores_foreach [of t] Cons.prems(5) by simp
  have size1: "kh_size m1 + sum_list (map (\<lambda>t. length (kh_foreach t)) ms) \<le> 2 ^ 30"
    using run_stores_size [OF Cons.prems(3) small m1(1)] Cons.prems(6) by simp
  obtain s1 where s1: "dup_entries w dst (kh_foreach t) s = Ret () s1" "arena_wf w s1" "spares dst s s1"
    "val_as (st_heap s1 dst) = AsLex Null m1 tid"
    using dup_entries_spec [OF Cons.prems(1,2) m1(1)] by blast
  have same: "st_heap s1 lx = st_heap s lx" using s1(3) lx(2,3) by (simp add: spares_def pone_alive_iff)
  obtain m' s' where s': "dup_scopes f w dst parent s1 = Ret () s'" "arena_wf w s'" "spares dst s1 s'"
    "val_as (st_heap s' dst) = AsLex Null m' tid" "str_kh_map m' = str_kh_map m1 ++ last_binding ms"
    using Cons.IH [OF s1(2,4) m1(2) scopes_spared [OF lx(4) s1(3)] _ size1 f(2)] Cons.prems(5) by auto
  have "dup_scopes fuel w dst lx s = Ret () s'"
    using lx(1,3) same s1(1) s'(1) by (subst dup_scopes.simps) (simp add: f(1))
  moreover have "str_kh_map m' = str_kh_map m ++ last_binding (t # ms)"
    by (simp add: s'(5) map1 last_binding_add del: last_binding.simps)
  ultimately show ?case using s'(2,4) spares_trans [OF s1(3) s'(3)] by blast
qed

text \<open>
  C33: the closure of a new thread gets one scope with all variables of the scopes it was made in, but a
  variable that is declared in several of them has the value of the outermost one there, whereas the code
  itself reads the innermost one. The scopes themselves are not changed.
\<close>

theorem dup_lex_values_outermost:
  assumes "arena_wf w s" "val_as (st_heap s code) = AsCode f lx" "lex_chain (st_heap s) lx ms"
    "\<forall>t \<in> set ms. str_kh_inv t" "sum_list (map (\<lambda>t. length (kh_foreach t)) ms) \<le> 2 ^ 30" "length ms \<le> fuel"
  shows "\<exists>dst m' s'. dup_lex_values fuel w code s = Ret dst s' \<and>
    val_as (st_heap s' dst) = AsLex Null m' (st_self s) \<and> str_kh_map m' = last_binding ms \<and> lex_chain (st_heap s') lx ms"
proof -
  obtain dst s1 where d: "pone_obj_alloc w (AsLex Null kh_init (st_self s)) s = Ret dst s1" "\<not> pone_alive (st_heap s dst)"
    "st_heap s1 = (st_heap s)(dst := \<lparr>val_flags = 0, val_as = AsLex Null kh_init (st_self s)\<rparr>)" "arena_wf w s1"
    by (rule obj_allocE [OF assms(1), of "AsLex Null kh_init (st_self s)"]) simp_all
  have code: "val_as (st_heap s1 code) = AsCode f lx"
    using assms(2) d(2,3) by (auto simp: pone_alive_iff)
  have "lex_chain ((st_heap s)(dst := v)) p ts" if "lex_chain (st_heap s) p ts" for v p ts
    using that d(2) by (induction ts arbitrary: p) (auto simp: pone_alive_iff)
  then have sc: "scopes_besides dst s1 lx ms" using assms(3) by (simp add: scopes_besides_def d(3))
  have init: "str_kh_inv (kh_init :: ptr str_khash)" "kh_size (kh_init :: ptr str_khash) = 0"
    "str_kh_map (kh_init :: ptr str_khash) = Map.empty"
    by (rule kh_init_inv, simp add: kh_init_def, simp add: kh_init_lookup)
  obtain m' s' where s': "dup_scopes fuel w dst lx s1 = Ret () s'" "spares dst s1 s'"
    "val_as (st_heap s' dst) = AsLex Null m' (st_self s)" "str_kh_map m' = last_binding ms"
    using dup_scopes_spec [OF d(4) _ init(1) sc assms(4) _ assms(6), of "st_self s"] assms(5) init d(3) by auto
  have "scopes_besides dst s' lx ms" by (rule scopes_spared [OF sc s'(2)])
  then have "lex_chain (st_heap s') lx ms"
  proof (induction ms arbitrary: lx)
    case (Cons t ts)
    then show ?case by (auto simp: scopes_besides_Cons)
  qed (simp add: scopes_besides_def)
  then show ?thesis using d(1) code s' by (auto simp: dup_lex_values_def pone_lex_new_def)
qed

text \<open>A function made in a scope with \<open>x\<close> inside one with another \<open>x\<close>; its thread sees the outer one.\<close>

definition closure_demo :: "ptr str_khash \<Rightarrow> ptr str_khash \<Rightarrow> pone_state" where
  "closure_demo m1 m2 = blank_state
     \<lparr>st_heap := initial_heap
        (Cell 1 0 0 := \<lparr>val_flags = 0, val_as = AsLex Null m2 0\<rparr>,
         Cell 1 0 1 := \<lparr>val_flags = 0, val_as = AsLex (Cell 1 0 0) m1 0\<rparr>,
         Cell 1 0 2 := \<lparr>val_flags = 0, val_as = AsCode ''f'' (Cell 1 0 1)\<rparr>)\<rparr>"

lemma one_variable:
  "\<exists>m. str_kh_inv m \<and> str_kh_map m = [[120] \<mapsto> (v :: ptr)] \<and> length (kh_foreach m) = 1"
proof -
  have i: "str_kh_inv (kh_init :: ptr str_khash)" by (rule kh_init_inv)
  have z: "kh_size (kh_init :: ptr str_khash) < 2 ^ 30" by (simp add: kh_init_def)
  obtain m r where m: "str_kh_put kh_init [120] v = Some (m, r)" "str_kh_inv m"
    "str_kh_map m = (str_kh_map kh_init)(cstr [120] \<mapsto> v)"
    using str_table.table.store_look [OF i z] by blast
  then have map: "str_kh_map m = [[120] \<mapsto> v]" by (simp add: kh_init_lookup cstr_def)
  let ?l = "map (\<lambda>(k, v). (cstr k, v)) (kh_foreach m)"
  have "distinct (map fst ?l)" by (rule distinct_foreach [OF kh_inv_inj [OF m(2)]])
  then have "length (kh_foreach m) = card (fst ` set ?l)" by (metis distinct_card length_map list.set_map)
  also have "\<dots> = card (dom (str_kh_map m))" by (simp add: kh_lookup_def dom_map_of_conv_image_fst)
  finally have "length (kh_foreach m) = 1" by (simp add: map)
  then show ?thesis using m(2) map by blast
qed

theorem dup_lex_values_outermost_witness:
  "\<exists>m1 m2 dst m' s'. str_kh_map m1 = [[120] \<mapsto> TrueP] \<and> str_kh_map m2 = [[120] \<mapsto> FalseP] \<and>
     dup_lex_values 2 0 (Cell 1 0 2) (closure_demo m1 m2) = Ret dst s' \<and>
     val_as (st_heap s' dst) = AsLex Null m' 0 \<and> str_kh_map m' [120] = Some FalseP"
proof -
  obtain m1 where m1: "str_kh_inv m1" "str_kh_map m1 = [[120] \<mapsto> TrueP]" "length (kh_foreach m1) = 1"
    using one_variable [of TrueP] by blast
  obtain m2 where m2: "str_kh_inv m2" "str_kh_map m2 = [[120] \<mapsto> FalseP]" "length (kh_foreach m2) = 1"
    using one_variable [of FalseP] by blast
  have wf: "arena_wf 0 (closure_demo m1 m2)"
    by (rule blank_world_wf) (simp_all add: closure_demo_def blank_state_def initial_heap_def)
  have "st_self (closure_demo m1 m2) = 0" by (simp add: closure_demo_def blank_state_def)
  then show ?thesis
    using dup_lex_values_outermost [OF wf, of "Cell 1 0 2" "''f''" "Cell 1 0 1" "[m1, m2]" 2] m1 m2
    by (fastforce simp: closure_demo_def)
qed

end
