(* ===== verification/Pone_Json.thy ===== *)
theory Pone_Json
  imports Pone_Builtin
begin

text \<open>
  The module json (\<^verbatim>\<open>ext/json.c\<close>): the text of a value, written into a growing string. The decoding of
  UTF-8 belongs to the library Oniguruma: \<open>e_mbc_enc_len\<close> is the length of a character by its first byte, and
  \<open>utf8_code\<close>, an argument, is the code of the character at the start of the bytes.
\<close>

section \<open>Writing\<close>

definition json_alnum :: "32 word \<Rightarrow> bool" where
  "json_alnum c \<longleftrightarrow> (97 \<le> c \<and> c \<le> 122) \<or> (65 \<le> c \<and> c \<le> 90) \<or> (48 \<le> c \<and> c \<le> 57)"

text \<open>\<open>"%04d"\<close>: four digits at least, a sign counting as one.\<close>

definition fmt_04d :: "32 word \<Rightarrow> bytes" where
  "fmt_04d c =
     (let digits = dec_of_nat (nat \<bar>sint c\<bar>); sign = (if sint c < 0 then [45] else [])
      in sign @ replicate (4 - length sign - length digits) 48 @ digits)"

text \<open>The loop over the characters of a string. A last character that is cut off leads beyond the end.\<close>

fun json_chars :: "(bytes \<Rightarrow> 32 word) \<Rightarrow> ('z pone_rt_scheme) \<Rightarrow> nat \<Rightarrow> ptr \<Rightarrow> bytes \<Rightarrow> unit pone" where
  "json_chars utf8_code E w buffer [] s = Ret () s"
| "json_chars utf8_code E w buffer (c # cs) s =
     andthen
       (if json_alnum (utf8_code (c # cs)) then pone_str_append_c (e_depth E) w buffer [c] s
        else andthen (pone_str_new_vprintf w ([92, 117] @ fmt_04d (utf8_code (c # cs))) s) (\<lambda>v.
             pone_str_append E w buffer v))
       (\<lambda>_ s. let n = e_mbc_enc_len E c in
         if n = 0 \<or> n > length (c # cs) then Undef
         else json_chars utf8_code E w buffer (drop (n - 1) cs) s)"

definition json_string :: "(bytes \<Rightarrow> 32 word) \<Rightarrow> ('z pone_rt_scheme) \<Rightarrow> nat \<Rightarrow> ptr \<Rightarrow> ptr \<Rightarrow> unit pone" where
  "json_string utf8_code E w buffer val s =
     (if \<not> has_flag PONE_FLAGS_STR_UTF8 (st_heap s val)
      then pone_throw_str w (bs ''You can't make json by bytes'') s
      else andthen (append_lit E w buffer [CHR 0x22] s) (\<lambda>_ s.
           andthen (pone_str_bytes (e_depth E) val s) (\<lambda>b s.
           andthen (json_chars utf8_code E w buffer b s) (\<lambda>_.
           append_lit E w buffer [CHR 0x22]))))"

text \<open>
  The loops over the elements of an array from index \<open>i\<close> and over the entries of a map; \<open>str\<close> writes one
  value.
\<close>

fun json_items :: "('z pone_rt_scheme) \<Rightarrow> nat \<Rightarrow> ptr \<Rightarrow> (ptr \<Rightarrow> unit pone) \<Rightarrow> ptr \<Rightarrow> nat \<Rightarrow> nat \<Rightarrow> unit pone" where
  "json_items E w buffer str val i 0 s = Ret () s"
| "json_items E w buffer str val i (Suc n) s =
     andthen (if i = 0 then Ret () s else append_lit E w buffer '','' s) (\<lambda>_ s.
     andthen (pone_ary_at_pos val (int i) s) (\<lambda>v s.
     andthen (str v s) (\<lambda>_.
     json_items E w buffer str val (Suc i) n)))"

fun json_entries :: "('z pone_rt_scheme) \<Rightarrow> nat \<Rightarrow> ptr \<Rightarrow> (ptr \<Rightarrow> unit pone) \<Rightarrow> (ptr \<times> ptr) list \<Rightarrow> unit pone" where
  "json_entries E w buffer str [] s = Ret () s"
| "json_entries E w buffer str ((k, v) # kvs) s =
     andthen (str k s) (\<lambda>_ s.
     andthen (append_lit E w buffer '':'' s) (\<lambda>_ s.
     andthen (str v s) (\<lambda>_ s.
     andthen (append_lit E w buffer '','' s) (\<lambda>_.
     json_entries E w buffer str kvs))))"

text \<open>\<open>buffer->as.str.len--\<close>.\<close>

definition cut_comma :: "ptr \<Rightarrow> unit pone" where
  "cut_comma buffer s =
     (case val_as (st_heap s buffer) of
        AsStr d (Suc n) \<Rightarrow> Ret () (set_as buffer (AsStr d n) s)
      | _ \<Rightarrow> Undef)"

text \<open>\<open>depth\<close> bounds the nesting: a value that contains itself overflows the C stack.\<close>

fun stringify :: "nat \<Rightarrow> (bytes \<Rightarrow> 32 word) \<Rightarrow> ('z pone_rt_scheme) \<Rightarrow> nat \<Rightarrow> ptr \<Rightarrow> ptr \<Rightarrow> unit pone" where
  "stringify 0 utf8_code E w buffer val s = Undef"
| "stringify (Suc depth) utf8_code E w buffer val s =
     (case type_at s val of
        PONE_NIL \<Rightarrow> append_lit E w buffer ''null'' s
      | PONE_INT \<Rightarrow> pone_str_append E w buffer val s
      | PONE_NUM \<Rightarrow> pone_str_append E w buffer val s
      | PONE_STRING \<Rightarrow> json_string utf8_code E w buffer val s
      | PONE_ARRAY \<Rightarrow>
          andthen (append_lit E w buffer ''['' s) (\<lambda>_ s.
          andthen (pone_ary_size val s) (\<lambda>l s.
          andthen (json_items E w buffer (stringify depth utf8_code E w buffer) val 0 l s) (\<lambda>_.
          append_lit E w buffer '']'')))
      | PONE_BOOL \<Rightarrow>
          andthen (pone_so (e_depth E) val s) (\<lambda>b.
          append_lit E w buffer (if b then ''true'' else ''false''))
      | PONE_MAP \<Rightarrow>
          andthen (append_lit E w buffer ''{'' s) (\<lambda>_ s.
          andthen (map_entries val s) (\<lambda>kvs s.
          andthen (json_entries E w buffer (stringify depth utf8_code E w buffer) kvs s) (\<lambda>_ s.
          andthen (case val_as (st_heap s val) of
                     AsMap _ len \<Rightarrow> if len > 0 then cut_comma buffer s else Ret () s
                   | _ \<Rightarrow> Undef) (\<lambda>_.
          append_lit E w buffer ''}''))))
      | PONE_CODE \<Rightarrow> pone_throw_str w (bs ''You can't serialize code object'') s
      | PONE_OBJ \<Rightarrow> pone_throw_str w (bs ''You can't serialize object'') s
      | PONE_LEX \<Rightarrow> pone_throw_str w (bs ''You can't serialize lex object'') s
      | PONE_OPAQUE \<Rightarrow> pone_throw_str w (bs ''You can't serialize opaque object'') s
      | _ \<Rightarrow> Ret () s)"

definition meth_stringify ::
  "nat \<Rightarrow> (bytes \<Rightarrow> 32 word) \<Rightarrow> ('z pone_rt_scheme) \<Rightarrow> nat \<Rightarrow> ptr \<Rightarrow> ptr list \<Rightarrow> ptr pone" where
  "meth_stringify depth utf8_code E w self args s =
     andthen (args_o E w ''json.stringify'' args s) (\<lambda>val s.
     andthen (pone_str_new_strdup w [0] 0 s) (\<lambda>buffer s.
     andthen (stringify depth utf8_code E w buffer val s) (\<lambda>_. Ret buffer)))"

definition PONE_DLL_json :: "nat \<Rightarrow> ptr \<Rightarrow> unit pone" where
  "PONE_DLL_json w module = put_functions w module [(''stringify'', ''meth_stringify'')]"

section \<open>Properties\<close>

text \<open>JSON values of which every string is made of letters and digits, and their text.\<close>

datatype json = JNull | JBool bool | JStr bytes | JArr "json list" | JObj "(bytes \<times> json) list"

fun commas :: "bytes list \<Rightarrow> bytes" where
  "commas [] = []"
| "commas [b] = b"
| "commas (b # c # cs) = b @ 44 # commas (c # cs)"

definition quoted :: "bytes \<Rightarrow> bytes" where "quoted b = 34 # b @ [34]"

fun json_text :: "json \<Rightarrow> bytes" where
  "json_text JNull = bs ''null''"
| "json_text (JBool b) = bs (if b then ''true'' else ''false'')"
| "json_text (JStr b) = quoted b"
| "json_text (JArr js) = 91 # commas (map json_text js) @ [93]"
| "json_text (JObj kvs) = 123 # commas (map (\<lambda>(k, j). quoted k @ 58 # json_text j) kvs) @ [125]"

definition string_at :: "nat \<Rightarrow> pone_state \<Rightarrow> ptr \<Rightarrow> bytes \<Rightarrow> bool" where
  "string_at d s p b \<longleftrightarrow> type_at s p = PONE_STRING \<and> has_flag PONE_FLAGS_STR_UTF8 (st_heap s p) \<and>
     pone_str_bytes d p s = Ret b s \<and> (\<forall>c \<in> set b. json_alnum (ucast c))"

text \<open>The value at \<open>p\<close> is \<open>j\<close>, nested less than \<open>n\<close> deep. The size a map reports is zero only when it is empty.\<close>

fun json_at :: "nat \<Rightarrow> nat \<Rightarrow> pone_state \<Rightarrow> ptr \<Rightarrow> json \<Rightarrow> bool" where
  "json_at 0 d s p j \<longleftrightarrow> False"
| "json_at (Suc n) d s p j \<longleftrightarrow>
     (case j of
        JNull \<Rightarrow> val_as (st_heap s p) = AsNil
      | JBool b \<Rightarrow> val_as (st_heap s p) = AsBool b
      | JStr b \<Rightarrow> string_at d s p b
      | JArr js \<Rightarrow> (\<exists>a mx. val_as (st_heap s p) = AsAry a mx (length js) \<and> length js \<le> length a \<and>
          list_all2 (\<lambda>p j. json_at n d s p j) (take (length js) a) js)
      | JObj kvs \<Rightarrow> (\<exists>h len. val_as (st_heap s p) = AsMap h len \<and> (0 < len \<longleftrightarrow> kvs \<noteq> []) \<and>
          list_all2 (\<lambda>(k, v) (b, j). n \<noteq> 0 \<and> string_at d s k b \<and> json_at n d s v j) (kh_foreach h) kvs))"

subsection \<open>What a step writes\<close>

text \<open>The buffer holds \<open>out\<close>, and everything else is as in \<open>s0\<close>.\<close>

definition holding :: "pone_state \<Rightarrow> ptr \<Rightarrow> bytes \<Rightarrow> pone_state \<Rightarrow> bool" where
  "holding s0 buf out s \<longleftrightarrow> (\<exists>fl x. st_heap s = (st_heap s0)(buf := \<lparr>val_flags = fl, val_as = AsStr (StrBuf (out @ x)) (length out)\<rparr>) \<and>
     fl AND PONE_FLAGS_STR_COPY = 0 \<and> fl AND PONE_FLAGS_STR_CONST = 0)"

definition emits :: "pone_state \<Rightarrow> ptr \<Rightarrow> unit pone \<Rightarrow> bytes \<Rightarrow> bool" where
  "emits s0 buf m t \<longleftrightarrow> (\<forall>out s. holding s0 buf out s \<longrightarrow> (\<exists>s'. m s = Ret () s' \<and> holding s0 buf (out @ t) s'))"

text \<open>Appending to the buffer changes the buffer only.\<close>

lemma append_c_holding:
  assumes "holding s0 buf out s"
  shows "\<exists>s'. pone_str_append_c d w buf b s = Ret () s' \<and> holding s0 buf (out @ b) s' \<and>
    (\<exists>h. s' = s\<lparr>st_heap := h\<rparr>)"
proof -
  obtain fl x where h: "st_heap s = (st_heap s0)(buf := \<lparr>val_flags = fl, val_as = AsStr (StrBuf (out @ x)) (length out)\<rparr>)"
    "fl AND PONE_FLAGS_STR_COPY = 0" "fl AND PONE_FLAGS_STR_CONST = 0"
    using assms by (auto simp: holding_def)
  have m: "mutable d w buf s = Ret () s" using h by (simp add: mutable_def has_flag_def)
  let ?s = "set_as buf (AsStr (StrBuf (out @ b)) (length (out @ b))) s"
  show ?thesis
  proof (cases "out @ b = []")
    case True
    then have "pone_str_append_c d w buf b s = Ret () s"
      using h(1) m by (simp add: pone_str_append_c_def pone_str_extend_def)
    moreover have "s = s\<lparr>st_heap := st_heap s\<rparr>" by simp
    ultimately show ?thesis using assms True by (metis append_is_Nil_conv)
  next
    case False
    then have "pone_str_append_c d w buf b s = Ret () ?s"
      using h(1) m by (auto simp: pone_str_append_c_def pone_str_extend_def)
    moreover have "holding s0 buf (out @ b) ?s"
      unfolding holding_def by (rule exI [of _ fl], rule exI [of _ "[]"]) (simp add: h)
    ultimately show ?thesis by (auto simp: set_as_def set_val_def)
  qed
qed

text \<open>A new buffer, of a string or of bytes.\<close>

lemma new_bytes_buffer:
  assumes "arena_wf w s"
  shows "\<exists>buf s'. pone_bytes_new_strdup w [0] 0 s = Ret buf s' \<and> \<not> pone_alive (st_heap s buf) \<and> holding s buf [] s' \<and>
    arena_wf w s' \<and> st_os s' = st_os s \<and> st_opaque s' = st_opaque s \<and> st_universe s' = st_universe s"
proof -
  obtain buf s' F where b: "pone_obj_alloc w (AsStr (StrBuf [0]) 0) s = Ret buf s'" "\<not> pone_alive (st_heap s buf)"
    "s' = upd_world w F (set_val buf \<lparr>val_flags = 0, val_as = AsStr (StrBuf [0]) 0\<rparr> s)" "arena_wf w s'"
    using obj_alloc_spec [OF assms, of "AsStr (StrBuf [0]) 0"] by blast
  have "pone_bytes_new_strdup w [0] 0 s = Ret buf s'"
    using b(1) by (simp add: pone_bytes_new_strdup_def pone_strdup_def)
  moreover have "holding s buf [] s'"
    unfolding holding_def by (rule exI [of _ 0], rule exI [of _ "[0]"]) (simp add: b(3))
  moreover have "st_os s' = st_os s" "st_opaque s' = st_opaque s" "st_universe s' = st_universe s"
    by (simp_all add: b(3) upd_world_def set_val_def)
  ultimately show ?thesis using b(2,4) by blast
qed

lemma new_str_buffer:
  assumes "arena_wf w s"
  shows "\<exists>buf s'. pone_str_new_strdup w [0] 0 s = Ret buf s' \<and> \<not> pone_alive (st_heap s buf) \<and> holding s buf [] s' \<and>
    arena_wf w s' \<and> st_os s' = st_os s \<and> st_opaque s' = st_opaque s \<and> st_universe s' = st_universe s"
proof -
  obtain buf s1 where b: "pone_bytes_new_strdup w [0] 0 s = Ret buf s1" "\<not> pone_alive (st_heap s buf)" "holding s buf [] s1"
    "st_os s1 = st_os s" "st_opaque s1 = st_opaque s" "st_universe s1 = st_universe s" "arena_wf w s1"
    using new_bytes_buffer [OF assms] by blast
  let ?s = "or_flags PONE_FLAGS_STR_UTF8 buf s1"
  obtain fl x where h: "st_heap s1 = (st_heap s)(buf := \<lparr>val_flags = fl, val_as = AsStr (StrBuf ([] @ x)) (length ([] :: bytes))\<rparr>)"
    "fl AND PONE_FLAGS_STR_COPY = 0" "fl AND PONE_FLAGS_STR_CONST = 0"
    using b(3) unfolding holding_def by blast
  have "(fl OR PONE_FLAGS_STR_UTF8) AND PONE_FLAGS_STR_COPY = 0" "(fl OR PONE_FLAGS_STR_UTF8) AND PONE_FLAGS_STR_CONST = 0"
    using h(2,3) by (simp_all add: bit.conj_disj_distrib2 flag_defs)
  then have "holding s buf [] ?s"
    unfolding holding_def
    by (intro exI [of _ "fl OR PONE_FLAGS_STR_UTF8"] exI [of _ x]) (simp add: or_flags_def h(1))
  moreover have "arena_wf w ?s"
    using b(7) by (rule arena_wf_heap_cong) (auto simp: or_flags_def h(1) pone_alive_iff)
  moreover have "st_os ?s = st_os s" "st_opaque ?s = st_opaque s" "st_universe ?s = st_universe s"
    using b(4-6) by (simp_all add: or_flags_def set_flags_def set_val_def)
  ultimately show ?thesis using b(1,2) by (auto simp: pone_str_new_strdup_def)
qed

lemma holding_bytes: "holding s0 buf out s \<Longrightarrow> pone_str_bytes (Suc d) buf s = Ret out s"
  by (auto simp: holding_def pone_str_bytes_def has_flag_def)

lemma emits_append_c: "emits s0 buf (pone_str_append_c d w buf b) b"
  unfolding emits_def using append_c_holding by blast

lemma emitsD: "emits s0 buf m t \<Longrightarrow> holding s0 buf out s \<Longrightarrow> \<exists>s'. m s = Ret () s' \<and> holding s0 buf (out @ t) s'"
  by (simp add: emits_def)

lemma emits_lit: "emits s0 buf (append_lit E w buf t) (bs t)"
  by (simp add: append_lit_def emits_append_c)

lemma emits_Ret: "emits s0 buf (Ret ()) []"
  by (simp add: emits_def)

lemma emits_andthen:
  "emits s0 buf m t1 \<Longrightarrow> emits s0 buf m' t2 \<Longrightarrow> emits s0 buf (\<lambda>s. andthen (m s) (\<lambda>_. m')) (t1 @ t2)"
  unfolding emits_def by (metis andthen.simps(1) append_assoc)

lemma emits_cong: "emits s0 buf m t \<Longrightarrow> (\<And>out s. holding s0 buf out s \<Longrightarrow> m' s = m s) \<Longrightarrow> emits s0 buf m' t"
  unfolding emits_def by metis

lemma emits_chars:
  assumes "\<And>c cs. json_alnum (ucast c) \<Longrightarrow> utf8_code (c # cs) = ucast c \<and> e_mbc_enc_len E c = 1"
    and "\<forall>c \<in> set b. json_alnum (ucast c)"
  shows "emits s0 buf (json_chars utf8_code E w buf b) b"
  using assms(2)
proof (induction b)
  case Nil
  have "json_chars utf8_code E w buf [] = Ret ()" by (rule ext) simp
  then show ?case by (simp add: emits_Ret)
next
  case (Cons c cs)
  have "json_chars utf8_code E w buf (c # cs) =
      (\<lambda>s. andthen (pone_str_append_c (e_depth E) w buf [c] s) (\<lambda>_. json_chars utf8_code E w buf cs))"
    using Cons.prems assms(1) [of c cs] by (intro ext) simp
  then show ?case
    using emits_andthen [OF emits_append_c [where b = "[c]"] Cons.IH] Cons.prems by simp
qed

text \<open>A string of \<open>s0\<close>, which the buffer is not, reads the same while the buffer is written.\<close>

lemma holding_other:
  assumes "holding s0 buf out s" "\<not> pone_alive (st_heap s0 buf)" "pone_alive (st_heap s0 p)"
  shows "st_heap s p = st_heap s0 p"
  using assms by (auto simp: holding_def)

lemma holding_string:
  assumes "holding s0 buf out s" "\<not> pone_alive (st_heap s0 buf)" "string_at d s0 p b"
  shows "string_at d s p b"
proof -
  have same: "st_heap s q = st_heap s0 q" if "pone_type (st_heap s0 q) = PONE_STRING" for q
    using holding_other [OF assms(1,2)] that by (simp add: pone_alive_def)
  then show ?thesis
    using assms(3) str_frame [OF same] by (simp add: string_at_def type_at_def)
qed

lemma emits_string:
  assumes utf8: "\<And>c cs. json_alnum (ucast c) \<Longrightarrow> utf8_code (c # cs) = ucast c \<and> e_mbc_enc_len E c = 1"
    and "\<not> pone_alive (st_heap s0 buf)" "string_at (e_depth E) s0 p b"
  shows "emits s0 buf (json_string utf8_code E w buf p) (quoted b)"
proof -
  let ?m = "\<lambda>s. andthen (append_lit E w buf [CHR 0x22] s) (\<lambda>_ s.
    andthen (json_chars utf8_code E w buf b s) (\<lambda>_. append_lit E w buf [CHR 0x22]))"
  have "\<forall>c \<in> set b. json_alnum (ucast c)" using assms(3) by (simp add: string_at_def)
  then have "emits s0 buf ?m (bs [CHR 0x22] @ b @ bs [CHR 0x22])"
    using utf8 by (intro emits_andthen emits_lit emits_chars)
  then have "emits s0 buf ?m (quoted b)" by (simp add: quoted_def bs_def)
  then show ?thesis
  proof (rule emits_cong)
    fix out s
    assume h: "holding s0 buf out s"
    obtain s1 where s1: "append_lit E w buf [CHR 0x22] s = Ret () s1" "holding s0 buf (out @ bs [CHR 0x22]) s1"
      using emitsD [OF emits_lit h] by blast
    show "json_string utf8_code E w buf p s = ?m s"
      using holding_string [OF h assms(2,3)] holding_string [OF s1(2) assms(2,3)] s1(1)
      by (simp add: json_string_def string_at_def)
  qed
qed

subsection \<open>Arrays and maps\<close>

lemma emits_items:
  assumes "\<not> pone_alive (st_heap s0 buf)" "val_as (st_heap s0 p) = AsAry a mx (i + length js)" "i + length js \<le> length a"
    and "\<forall>k < length js. emits s0 buf (str (a ! (i + k))) (json_text (js ! k))"
  shows "emits s0 buf (json_items E w buf str p i (length js))
    ((if i = 0 \<or> js = [] then [] else [44]) @ commas (map json_text js))"
  using assms(2-)
proof (induction js arbitrary: i)
  case Nil
  have "json_items E w buf str p i 0 = Ret ()" by (rule ext) simp
  then show ?case by (simp add: emits_Ret)
next
  case (Cons j js)
  let ?m = "\<lambda>s. andthen (if i = 0 then Ret () s else append_lit E w buf '','' s) (\<lambda>_ s.
    andthen (str (a ! i) s) (\<lambda>_. json_items E w buf str p (Suc i) (length js)))"
  have sep: "emits s0 buf (\<lambda>s. if i = 0 then Ret () s else append_lit E w buf '','' s) (if i = 0 then [] else bs '','')"
    using emits_Ret emits_lit by (cases "i = 0") simp_all
  have "emits s0 buf (str (a ! i)) (json_text j)" using Cons.prems(3) by fastforce
  moreover have "emits s0 buf (json_items E w buf str p (Suc i) (length js)) ((if js = [] then [] else [44]) @ commas (map json_text js))"
    using Cons.IH [of "Suc i"] Cons.prems by fastforce
  ultimately have "emits s0 buf ?m ((if i = 0 then [] else bs '','') @ json_text j @ (if js = [] then [] else [44]) @ commas (map json_text js))"
    using sep by (intro emits_andthen)
  moreover have "(if i = 0 then [] else bs '','') @ json_text j @ (if js = [] then [] else [44]) @ commas (map json_text js) =
      (if i = 0 \<or> j # js = [] then [] else [44]) @ commas (map json_text (j # js))"
    by (cases js) (simp_all add: bs_def)
  ultimately have "emits s0 buf ?m ((if i = 0 \<or> j # js = [] then [] else [44]) @ commas (map json_text (j # js)))" by simp
  then show ?case
  proof (rule emits_cong)
    fix out s
    assume h: "holding s0 buf out s"
    have alive: "pone_alive (st_heap s0 p)" using Cons.prems(1) by (simp add: pone_alive_iff)
    obtain t s1 where s1: "(if i = 0 then Ret () s else append_lit E w buf '','' s) = Ret () s1" "holding s0 buf (out @ t) s1"
      using emitsD [OF sep h] by blast
    then have "pone_ary_at_pos p (int i) s1 = Ret (a ! i) s1"
      using holding_other [OF s1(2) assms(1) alive] Cons.prems(1,2) by (simp add: pone_ary_at_pos_def)
    then show "json_items E w buf str p i (length (j # js)) s = ?m s" using s1(1) by simp
  qed
qed

text \<open>The entries are written with a comma after each; the last one is then cut off.\<close>

lemma emits_entries:
  assumes "list_all2 (\<lambda>(k, v) (b, j). emits s0 buf (str k) (quoted b) \<and> emits s0 buf (str v) (json_text j)) kvs bjs"
  shows "emits s0 buf (json_entries E w buf str kvs)
    (concat (map (\<lambda>(b, j). quoted b @ 58 # json_text j @ [44]) bjs))"
  using assms
proof (induction rule: list_all2_induct)
  case Nil
  have "json_entries E w buf str [] = Ret ()" by (rule ext) simp
  then show ?case by (simp add: emits_Ret)
next
  case (Cons kv kvs bj bjs)
  obtain k v b j where kv: "kv = (k, v)" "bj = (b, j)" by (cases kv, cases bj)
  have "json_entries E w buf str (kv # kvs) = (\<lambda>s. andthen (str k s) (\<lambda>_ s. andthen (append_lit E w buf '':'' s) (\<lambda>_ s.
      andthen (str v s) (\<lambda>_ s. andthen (append_lit E w buf '','' s) (\<lambda>_. json_entries E w buf str kvs)))))"
    by (rule ext) (simp add: kv)
  moreover have "emits s0 buf \<dots> (quoted b @ bs '':'' @ json_text j @ bs '','' @
      concat (map (\<lambda>(b, j). quoted b @ 58 # json_text j @ [44]) bjs))"
    using Cons by (intro emits_andthen emits_lit) (simp_all add: kv)
  ultimately show ?case by (simp add: kv bs_def)
qed

lemma commas_concat: "bs' \<noteq> [] \<Longrightarrow> concat (map (\<lambda>b. b @ [44]) bs') = commas bs' @ [44]"
  by (induction bs' rule: commas.induct) simp_all

lemma cut_comma_holding:
  assumes "holding s0 buf (out @ [c]) s"
  shows "\<exists>s'. cut_comma buf s = Ret () s' \<and> holding s0 buf out s'"
proof -
  obtain fl x where h: "st_heap s = (st_heap s0)(buf := \<lparr>val_flags = fl, val_as = AsStr (StrBuf ((out @ [c]) @ x)) (Suc (length out))\<rparr>)"
    "fl AND PONE_FLAGS_STR_COPY = 0" "fl AND PONE_FLAGS_STR_CONST = 0"
    using assms by (auto simp: holding_def)
  have "holding s0 buf out (set_as buf (AsStr (StrBuf ((out @ [c]) @ x)) (length out)) s)"
    unfolding holding_def by (rule exI [of _ fl], rule exI [of _ "c # x"]) (simp add: h)
  then show ?thesis by (simp add: cut_comma_def h(1))
qed

subsection \<open>The text of a value\<close>

lemma emits_array:
  assumes free: "\<not> pone_alive (st_heap s0 buf)" and p: "val_as (st_heap s0 p) = AsAry a mx (length js)" "length js \<le> length a"
    and items: "\<forall>k < length js. emits s0 buf (stringify n utf8_code E w buf (a ! k)) (json_text (js ! k))"
  shows "emits s0 buf (stringify (Suc n) utf8_code E w buf p) (json_text (JArr js))"
proof -
  let ?i = "json_items E w buf (stringify n utf8_code E w buf) p 0 (length js)"
  have "emits s0 buf (\<lambda>s. andthen (append_lit E w buf ''['' s) (\<lambda>_ s. andthen (?i s) (\<lambda>_. append_lit E w buf '']'')))
      (bs ''['' @ commas (map json_text js) @ bs '']'')"
    using emits_items [OF free, of p a mx 0 js] p items by (intro emits_andthen emits_lit) simp_all
  then have "emits s0 buf (\<lambda>s. andthen (append_lit E w buf ''['' s) (\<lambda>_ s. andthen (?i s) (\<lambda>_. append_lit E w buf '']''))) (json_text (JArr js))"
    by (simp add: bs_def)
  then show ?thesis
  proof (rule emits_cong)
    fix out s
    assume h: "holding s0 buf out s"
    have alive: "pone_alive (st_heap s0 p)" using p by (simp add: pone_alive_iff)
    obtain s1 where s1: "append_lit E w buf ''['' s = Ret () s1" "holding s0 buf (out @ bs ''['') s1"
      using emitsD [OF emits_lit h] by blast
    show "stringify (Suc n) utf8_code E w buf p s = andthen (append_lit E w buf ''['' s) (\<lambda>_ s. andthen (?i s) (\<lambda>_. append_lit E w buf '']''))"
      using holding_other [OF h free alive] holding_other [OF s1(2) free alive] p s1(1)
      by (simp add: type_at_def pone_type_def pone_ary_size_def)
  qed
qed

lemma emits_map:
  assumes free: "\<not> pone_alive (st_heap s0 buf)" and p: "val_as (st_heap s0 p) = AsMap t len" "0 < len \<longleftrightarrow> bjs \<noteq> []"
    and entries: "list_all2 (\<lambda>(k, v) (b, j). emits s0 buf (stringify n utf8_code E w buf k) (quoted b) \<and>
      emits s0 buf (stringify n utf8_code E w buf v) (json_text j)) (kh_foreach t) bjs"
  shows "emits s0 buf (stringify (Suc n) utf8_code E w buf p) (json_text (JObj bjs))"
  unfolding emits_def
proof (intro allI impI)
  fix out s
  assume h: "holding s0 buf out s"
  let ?bs = "map (\<lambda>(b, j). quoted b @ 58 # json_text j) bjs"
  let ?e = "concat (map (\<lambda>(b, j). quoted b @ 58 # json_text j @ [44]) bjs)"
  have alive: "pone_alive (st_heap s0 p)" using p by (simp add: pone_alive_iff)
  obtain s1 where s1: "append_lit E w buf ''{'' s = Ret () s1" "holding s0 buf (out @ bs ''{'') s1"
    using emitsD [OF emits_lit h] by blast
  obtain s2 where s2: "json_entries E w buf (stringify n utf8_code E w buf) (kh_foreach t) s1 = Ret () s2"
    "holding s0 buf ((out @ bs ''{'') @ ?e) s2"
    using emitsD [OF emits_entries [OF entries] s1(2)] by blast
  have e: "?e = concat (map (\<lambda>b. b @ [44]) ?bs)" by (rule arg_cong [of _ _ concat]) auto
  obtain s3 where s3: "(if len > 0 then cut_comma buf s2 else Ret () s2) = Ret () s3"
    "holding s0 buf ((out @ bs ''{'') @ commas ?bs) s3"
  proof (cases "bjs = []")
    case True
    then show thesis using s2(2) p(2) that by simp
  next
    case False
    then have "?e = commas ?bs @ [44]" using commas_concat [of ?bs] e by simp
    then show thesis using cut_comma_holding s2(2) p(2) False that by (metis append_assoc)
  qed
  obtain s4 where s4: "append_lit E w buf ''}'' s3 = Ret () s4" "holding s0 buf (((out @ bs ''{'') @ commas ?bs) @ bs ''}'') s4"
    using emitsD [OF emits_lit s3(2)] by blast
  have "stringify (Suc n) utf8_code E w buf p s = Ret () s4"
    using holding_other [OF h free alive] holding_other [OF s1(2) free alive] holding_other [OF s2(2) free alive] p(1) s1(1) s2(1) s3(1) s4(1)
    by (simp add: type_at_def pone_type_def map_entries_def)
  then show "\<exists>s'. stringify (Suc n) utf8_code E w buf p s = Ret () s' \<and> holding s0 buf (out @ json_text (JObj bjs)) s'"
    using s4(2) by (simp add: bs_def)
qed

lemma emits_stringify:
  assumes utf8: "\<And>c cs. json_alnum (ucast c) \<Longrightarrow> utf8_code (c # cs) = ucast c \<and> e_mbc_enc_len E c = 1"
    and free: "\<not> pone_alive (st_heap s0 buf)" and j: "json_at n (e_depth E) s0 p j"
  shows "emits s0 buf (stringify n utf8_code E w buf p) (json_text j)"
  using j
proof (induction n arbitrary: p j)
  case (Suc n)
  have leaf: "emits s0 buf (stringify (Suc n) utf8_code E w buf p) t"
    if "emits s0 buf m t" "pone_alive (st_heap s0 p)" "\<And>s. st_heap s p = st_heap s0 p \<Longrightarrow> stringify (Suc n) utf8_code E w buf p s = m s" for m t
    using that(1) by (rule emits_cong) (use that(3) holding_other [OF _ free that(2)] in blast)
  have str: "emits s0 buf (stringify (Suc k) utf8_code E w buf q) (quoted b)" if "string_at (e_depth E) s0 q b" for k q b
  proof (rule emits_cong [OF emits_string [where utf8_code = utf8_code, OF utf8 free that]])
    fix out s
    assume "holding s0 buf out s"
    then show "stringify (Suc k) utf8_code E w buf q s = json_string utf8_code E w buf q s"
      using holding_string [OF _ free that] by (simp add: string_at_def)
  qed
  show ?case
  proof (cases j)
    case JNull
    then have v: "val_as (st_heap s0 p) = AsNil" using Suc.prems by simp
    have "emits s0 buf (stringify (Suc n) utf8_code E w buf p) (bs (''null''))"
      by (rule leaf [OF emits_lit [of s0 buf E w "''null''"]]) (simp_all add: v pone_alive_iff type_at_def pone_type_def)
    then show ?thesis by (simp add: JNull del: stringify.simps)
  next
    case (JBool b)
    then have v: "val_as (st_heap s0 p) = AsBool b" using Suc.prems by simp
    have "emits s0 buf (stringify (Suc n) utf8_code E w buf p) (bs (if b then ''true'' else ''false''))"
      by (rule leaf [OF emits_lit [of s0 buf E w "if b then ''true'' else ''false''"]]) (simp_all add: v pone_alive_iff type_at_def pone_type_def pone_so_def pone_bool_val_def)
    then show ?thesis by (simp add: JBool del: stringify.simps)
  next
    case (JStr b)
    then show ?thesis using Suc.prems str by (simp del: stringify.simps)
  next
    case (JArr js)
    then obtain a mx where a: "val_as (st_heap s0 p) = AsAry a mx (length js)" "length js \<le> length a"
      "list_all2 (json_at n (e_depth E) s0) (take (length js) a) js"
      using Suc.prems by auto
    have "\<forall>k < length js. emits s0 buf (stringify n utf8_code E w buf (a ! k)) (json_text (js ! k))"
      using a(2,3) Suc.IH by (simp add: list_all2_conv_all_nth)
    then show ?thesis unfolding JArr by (rule emits_array [OF free a(1,2)])
  next
    case (JObj bjs)
    then obtain t len where t: "val_as (st_heap s0 p) = AsMap t len" "0 < len \<longleftrightarrow> bjs \<noteq> []"
      "list_all2 (\<lambda>(k, v) (b, j). n \<noteq> 0 \<and> string_at (e_depth E) s0 k b \<and> json_at n (e_depth E) s0 v j) (kh_foreach t) bjs"
      using Suc.prems by auto
    have "list_all2 (\<lambda>(k, v) (b, j). emits s0 buf (stringify n utf8_code E w buf k) (quoted b) \<and>
        emits s0 buf (stringify n utf8_code E w buf v) (json_text j)) (kh_foreach t) bjs"
      using t(3)
      by (rule list_all2_mono) (use Suc.IH str [where k = "n - 1"] in \<open>auto simp del: stringify.simps\<close>)
    then show ?thesis unfolding JObj by (rule emits_map [OF free t(1,2)])
  qed
qed simp



text \<open>An array of nil, a boolean and a string.\<close>

definition json_demo :: pone_state where
  "json_demo = blank_state
     \<lparr>st_heap := initial_heap
        (Cell 1 0 0 := \<lparr>val_flags = PONE_FLAGS_STR_UTF8, val_as = AsStr (StrBuf [97, 49]) 2\<rparr>,
         Cell 1 0 1 := \<lparr>val_flags = 0, val_as = AsAry [NilP, TrueP, Cell 1 0 0] 3 3\<rparr>)\<rparr>"


end
