(* ===== verification/Pone_File.thy ===== *)
theory Pone_File
  imports Pone_Threads
begin

text \<open>
  Files (\<^verbatim>\<open>src/file.c\<close>), file attributes (\<^verbatim>\<open>src/stat.c\<close>), paths (\<^verbatim>\<open>src/path.c\<close>) and temporary files
  (\<^verbatim>\<open>src/tmpfile.c\<close>) over the streams of \<open>C_Stdio\<close>. A \<open>FILE*\<close> is the address that the opaque value of a file
  holds; a closed file holds NULL. The system calls beyond streams are fields of \<open>pone_posix\<close>; one that can
  fail returns the error number on the left.
\<close>

record pone_posix = pone_sys +
  e_flock :: "int \<Rightarrow> int \<Rightarrow> int" \<comment> \<open>0, or the error number\<close>
  e_stat :: "os_state \<Rightarrow> bytes \<Rightarrow> int + c_struct"
  e_fstat :: "os_state \<Rightarrow> int \<Rightarrow> int + c_struct"
  e_mkstemp :: "os_state \<Rightarrow> bytes \<Rightarrow> int + bytes" \<comment> \<open>the name that is chosen\<close>
  e_getcwd :: "int + bytes"
  e_gettimeofday :: "int + (pone_int_t \<times> pone_int_t)"
  e_localtime :: "pone_int_t \<Rightarrow> int + c_struct"
  e_gmtime :: "pone_int_t \<Rightarrow> int + c_struct"
  e_mktime :: "c_struct \<Rightarrow> pone_int_t \<times> c_struct" \<comment> \<open>it also brings the fields into range\<close>
  e_strftime :: "c_struct \<Rightarrow> bytes"
  e_tm_enc :: "c_struct \<Rightarrow> bytes" \<comment> \<open>the bytes of a \<open>struct tm\<close>\<close>
  e_tm_dec :: "bytes \<Rightarrow> c_struct"

definition os_do :: "(os_state \<Rightarrow> ('a \<times> os_state) option) \<Rightarrow> 'a pone" where
  "os_do f s = (case f (st_os s) of Some (x, os) \<Rightarrow> Ret x (s\<lparr>st_os := os\<rparr>) | None \<Rightarrow> Undef)"

definition os_get :: "(os_state \<Rightarrow> 'a \<times> os_state) \<Rightarrow> 'a pone" where
  "os_get f = os_do (\<lambda>os. Some (f os))"

text \<open>\<open>pone_world_set_errno\<close> with the error number of the last call.\<close>

definition keep_errno :: "nat \<Rightarrow> pone_state \<Rightarrow> pone_state" where
  "keep_errno w s = pone_world_set_errno w (os_errno (st_os s)) s"

definition fail_errno :: "nat \<Rightarrow> int \<Rightarrow> ptr pone" where
  "fail_errno w e s = Ret pone_nil (keep_errno w (s\<lparr>st_os := (st_os s)\<lparr>os_errno := e\<rparr>\<rparr>))"

text \<open>A negative length is a huge \<open>size_t\<close>, which \<open>malloc\<close> refuses. The bytes are not initialised.\<close>

definition pone_bytes_new_malloc :: "nat \<Rightarrow> pone_int_t \<Rightarrow> ptr pone" where
  "pone_bytes_new_malloc w len s =
     andthen (pone_obj_alloc w (AsStr (StrBuf []) 0) s) (\<lambda>v s.
     if sint len < 0 then Exit 1
     else Ret v (set_as v (AsStr (StrBuf (replicate (nat (sint len)) 0)) (nat (sint len))) s))"

section \<open>Files\<close>

abbreviation SELF_FH :: "ptr \<Rightarrow> nat pone" where
  "SELF_FH self \<equiv> pone_opaque_ptr self"

definition file_finalizer :: "ptr \<Rightarrow> unit pone" where
  "file_finalizer val s =
     andthen (pone_opaque_ptr val s) (\<lambda>fp s.
     if fp \<noteq> 0 then andthen (os_do (c_fclose fp) s) (\<lambda>_. Ret ()) else Ret () s)"

definition pone_file_new :: "nat \<Rightarrow> nat \<Rightarrow> bool \<Rightarrow> ptr pone" where
  "pone_file_new w fh auto_close s =
     pone_opaque_new w (u_class_file (st_universe s)) fh (if auto_close then Some ''file_finalizer'' else None) s"

definition pone_file_fp :: "ptr \<Rightarrow> nat pone" where
  "pone_file_fp file s = andthen (pone_obj_get_ivar file (bs ''$!fh'') s) pone_opaque_ptr"

definition meth_file_read :: "('z pone_rt_scheme) \<Rightarrow> nat \<Rightarrow> ptr \<Rightarrow> ptr list \<Rightarrow> ptr pone" where
  "meth_file_read E w self args s =
     andthen (args_i E w ''File#read'' args s) (\<lambda>nmemb s.
     andthen (pone_bytes_new_malloc w nmemb s) (\<lambda>buf s.
     let n = nat (sint nmemb) in
     andthen (SELF_FH self s) (\<lambda>fp s.
     andthen (os_do (c_fread n fp) s) (\<lambda>b s.
     andthen (pone_bytes_truncate buf (length b)
       (set_as buf (AsStr (StrBuf (b @ replicate (n - length b) 0)) n) s)) (\<lambda>_. Ret buf)))))"

definition meth_file_write :: "('z pone_rt_scheme) \<Rightarrow> nat \<Rightarrow> ptr \<Rightarrow> ptr list \<Rightarrow> ptr pone" where
  "meth_file_write E w self args s =
     andthen (args_o E w ''File#write'' args s) (\<lambda>buf s.
     andthen (pone_str_bytes (e_depth E) buf s) (\<lambda>b s.
     andthen (SELF_FH self s) (\<lambda>fp s.
     andthen (os_do (c_fwrite b fp) s) (\<lambda>r s.
     if int r < 2 ^ 63 - 1 then pone_int_new w (of_nat r) s else Abort))))"

definition meth_file_str :: "('z pone_rt_scheme) \<Rightarrow> nat \<Rightarrow> ptr \<Rightarrow> ptr list \<Rightarrow> ptr pone" where
  "meth_file_str E w self args s =
     andthen (args_none E w ''File#Str'' args s) (\<lambda>_ s.
     andthen (SELF_FH self s) (\<lambda>fp s.
     andthen (os_do (c_fileno fp) s) (\<lambda>fd.
     pone_str_new_vprintf w (bs ''FILE<'' @ dec_of_int fd @ bs ''>''))))"

definition meth_file_rewind :: "('z pone_rt_scheme) \<Rightarrow> nat \<Rightarrow> ptr \<Rightarrow> ptr list \<Rightarrow> ptr pone" where
  "meth_file_rewind E w self args s =
     andthen (args_none E w ''File#rewind'' args s) (\<lambda>_ s.
     andthen (SELF_FH self s) (\<lambda>fp s.
     andthen (os_do (c_rewind fp) s) (\<lambda>_. Ret pone_nil)))"

definition pone_file_close :: "nat \<Rightarrow> ptr \<Rightarrow> unit pone" where
  "pone_file_close w self s =
     andthen (SELF_FH self s) (\<lambda>fp s.
     andthen (os_do (c_fclose fp) s) (\<lambda>ok s.
     pone_opaque_set_ptr self 0 (if ok then s else keep_errno w s)))"

definition meth_file_close :: "('z pone_rt_scheme) \<Rightarrow> nat \<Rightarrow> ptr \<Rightarrow> ptr list \<Rightarrow> ptr pone" where
  "meth_file_close E w self args s =
     andthen (args_none E w ''File#close'' args s) (\<lambda>_ s.
     andthen (pone_file_close w self s) (\<lambda>_. Ret pone_nil))"

definition meth_file_fileno :: "('z pone_rt_scheme) \<Rightarrow> nat \<Rightarrow> ptr \<Rightarrow> ptr list \<Rightarrow> ptr pone" where
  "meth_file_fileno E w self args s =
     andthen (args_none E w ''File#fileno'' args s) (\<lambda>_ s.
     andthen (SELF_FH self s) (\<lambda>fp s.
     andthen (os_do (c_fileno fp) s) (\<lambda>fd. pone_int_new w (of_int fd))))"

definition meth_file_tell :: "('z pone_rt_scheme) \<Rightarrow> nat \<Rightarrow> ptr \<Rightarrow> ptr list \<Rightarrow> ptr pone" where
  "meth_file_tell E w self args s =
     andthen (args_none E w ''File#fileno'' args s) (\<lambda>_ s.
     andthen (SELF_FH self s) (\<lambda>fp s.
     andthen (os_do (c_ftell fp) s) (\<lambda>pos. pone_int_new w pos)))"

text \<open>\<open>whence\<close> is passed as an \<open>int\<close>.\<close>

definition meth_file_seek :: "('z pone_rt_scheme) \<Rightarrow> nat \<Rightarrow> ptr \<Rightarrow> ptr list \<Rightarrow> ptr pone" where
  "meth_file_seek E w self args s =
     andthen (pone_arg E w ''File#seek'' ''ii'' args s) (\<lambda>vs s.
     case vs of
       [PInt position, PInt whence] \<Rightarrow>
         andthen (SELF_FH self s) (\<lambda>fp s.
         andthen (os_do (c_fseek fp (sint position) (sint (ucast whence :: 32 word))) s) (\<lambda>ok s.
         if ok then Ret pone_true s else Ret pone_nil (keep_errno w s)))
     | _ \<Rightarrow> Undef)"

definition meth_file_eof :: "('z pone_rt_scheme) \<Rightarrow> nat \<Rightarrow> ptr \<Rightarrow> ptr list \<Rightarrow> ptr pone" where
  "meth_file_eof E w self args s =
     andthen (args_none E w ''File#eof'' args s) (\<lambda>_ s.
     andthen (SELF_FH self s) (\<lambda>fp s.
     andthen (os_do (c_feof fp) s) (\<lambda>b. Ret (pone_bool b))))"

definition meth_file_getc :: "('z pone_rt_scheme) \<Rightarrow> nat \<Rightarrow> ptr \<Rightarrow> ptr list \<Rightarrow> ptr pone" where
  "meth_file_getc E w self args s =
     andthen (args_none E w ''File#getc'' args s) (\<lambda>_ s.
     andthen (SELF_FH self s) (\<lambda>fp s.
     andthen (os_do (c_fread 1 fp) s) (\<lambda>b s.
     if b \<noteq> [] then pone_str_new_strdup w b 1 s else Ret pone_nil (keep_errno w s))))"

definition meth_file_flock :: "('z pone_posix_scheme) \<Rightarrow> nat \<Rightarrow> ptr \<Rightarrow> ptr list \<Rightarrow> ptr pone" where
  "meth_file_flock E w self args s =
     andthen (args_i E w ''File#flock'' args s) (\<lambda>op s.
     andthen (SELF_FH self s) (\<lambda>fp s.
     andthen (os_do (c_fileno fp) s) (\<lambda>fd s.
     let e = e_flock E fd (sint (ucast op :: 32 word)) in
     if e = 0 then Ret pone_true s else fail_errno w e s)))"

section \<open>Attributes\<close>

definition stat_result :: "nat \<Rightarrow> int + c_struct \<Rightarrow> ptr pone" where
  "stat_result w r s =
     (case r of
        Inr st \<Rightarrow>
          andthen (os_get (c_new (StatObj st)) s) (\<lambda>p s.
          pone_opaque_new w (u_class_stat (st_universe s)) p (Some ''stat_finalizer'') s)
      | Inl e \<Rightarrow> fail_errno w e s)"

definition stat_finalizer :: "ptr \<Rightarrow> unit pone" where
  "stat_finalizer val s = andthen (pone_opaque_ptr val s) (\<lambda>p. os_do (c_free p))"

definition pone_fstat :: "('z pone_posix_scheme) \<Rightarrow> nat \<Rightarrow> int \<Rightarrow> ptr pone" where
  "pone_fstat E w fd s = stat_result w (e_fstat E (st_os s) fd) s"

definition pone_stat :: "('z pone_posix_scheme) \<Rightarrow> nat \<Rightarrow> bytes \<Rightarrow> ptr pone" where
  "pone_stat E w filename s = stat_result w (e_stat E (st_os s) (cstr filename)) s"

definition stat_at :: "ptr \<Rightarrow> c_struct pone" where
  "stat_at self s =
     andthen (pone_opaque_ptr self s) (\<lambda>p s.
     case os_obj (st_os s) p of StatObj st \<Rightarrow> Ret st s | _ \<Rightarrow> Undef)"

text \<open>The methods the macro \<open>STAT\<close> makes, by the name of the field.\<close>

definition meth_fileinfo :: "string \<Rightarrow> nat \<Rightarrow> ptr \<Rightarrow> ptr list \<Rightarrow> ptr pone" where
  "meth_fileinfo key w self args s = andthen (stat_at self s) (\<lambda>st. pone_int_new w (st key))"

definition meth_file_stat :: "('z pone_posix_scheme) \<Rightarrow> nat \<Rightarrow> ptr \<Rightarrow> ptr list \<Rightarrow> ptr pone" where
  "meth_file_stat E w self args s =
     andthen (args_none E w ''File#stat'' args s) (\<lambda>_ s.
     andthen (SELF_FH self s) (\<lambda>fp s.
     andthen (os_do (c_fileno fp) s) (\<lambda>fd. pone_fstat E w fd)))"

definition stat_method :: "string \<Rightarrow> string \<times> pone_funcptr_t" where
  "stat_method key = (key, ''meth_fileinfo_'' @ key)"

definition pone_stat_init :: "('z pone_rt_scheme) \<Rightarrow> nat \<Rightarrow> unit pone" where
  "pone_stat_init E w s =
     (if u_class_stat (st_universe s) \<noteq> Null then Abort
      else andthen (pone_class_new E w ''Stat'' s) (\<lambda>k s.
           andthen (add_methods E w k (map stat_method
             [''dev'', ''ino'', ''mode'', ''nlink'', ''uid'', ''gid'', ''rdev'', ''size'', ''blksize'', ''blocks'',
              ''atime'', ''mtime'', ''ctime'']) (upd_universe (u_class_stat_update (\<lambda>_. k)) s)) (\<lambda>_.
           pone_universe_set_global (bs ''Stat'') k)))"

section \<open>Reading whole files and lines\<close>

text \<open>
  The loop of \<open>pull-one\<close>. A buffer of 512 bytes holds 511 and a NUL; a NUL in the text cuts off what follows, and
  a piece that starts with one is looked at before its first byte. \<open>fuel\<close> bounds the number of turns.
\<close>

fun lines_loop :: "nat \<Rightarrow> ('z pone_rt_scheme) \<Rightarrow> nat \<Rightarrow> nat \<Rightarrow> ptr \<Rightarrow> bool pone" where
  "lines_loop 0 E w fp retval s = Undef"
| "lines_loop (Suc fuel) E w fp retval s =
     andthen (os_do (c_feof fp) s) (\<lambda>eof s.
     if eof then Ret False s
     else andthen (os_do (c_fgets 512 fp) s) (\<lambda>buf s.
          case buf of
            None \<Rightarrow> lines_loop fuel E w fp retval s
          | Some b \<Rightarrow>
              andthen (pone_str_append_c (e_depth E) w retval (cstr (b @ [0])) s) (\<lambda>_ s.
              if cstr (b @ [0]) = [] then Undef
              else if last (cstr (b @ [0])) = 10 then Ret True s
              else lines_loop fuel E w fp retval s)))"

definition meth_file_list_iterator_pull_one ::
  "nat \<Rightarrow> ('z pone_rt_scheme) \<Rightarrow> nat \<Rightarrow> ptr \<Rightarrow> ptr list \<Rightarrow> ptr pone" where
  "meth_file_list_iterator_pull_one fuel E w self args s =
     andthen (args_none E w ''FileSeqIterator#pull-one'' args s) (\<lambda>_ s.
     andthen (pone_obj_get_ivar self (bs ''$!file'') s) (\<lambda>file s.
     andthen (pone_bytes_new_strdup w [0] 0 s) (\<lambda>retval s.
     andthen (pone_opaque_ptr file s) (\<lambda>fp s.
     andthen (lines_loop fuel E w fp retval s) (\<lambda>line s.
     if line then Ret retval s
     else andthen (pone_str_len (e_depth E) retval s) (\<lambda>n s.
          Ret (if n \<noteq> 0 then retval else u_instance_iteration_end (st_universe s)) s))))))"

definition meth_file_seq_iterator :: "('z pone_rt_scheme) \<Rightarrow> nat \<Rightarrow> ptr \<Rightarrow> ptr list \<Rightarrow> ptr pone" where
  "meth_file_seq_iterator E w self args s =
     andthen (args_none E w ''FileSeq#iterator'' args s) (\<lambda>_ s.
     andthen (pone_what self s) (\<lambda>c s.
     andthen (pone_obj_get_ivar c (bs ''FileSeqIterator'') s) (\<lambda>klass s.
     andthen (pone_obj_get_ivar self (bs ''$!file'') s) (\<lambda>file s.
     andthen (pone_obj_new w klass s) (\<lambda>iter s.
     andthen (pone_obj_set_ivar iter (bs ''$!file'') file s) (\<lambda>_. Ret iter))))))"

definition meth_file_lines :: "('z pone_rt_scheme) \<Rightarrow> nat \<Rightarrow> ptr \<Rightarrow> ptr list \<Rightarrow> ptr pone" where
  "meth_file_lines E w self args s =
     andthen (args_none E w ''File#lines'' args s) (\<lambda>_ s.
     andthen (pone_what self s) (\<lambda>c s.
     andthen (pone_obj_get_ivar c (bs ''FileSeq'') s) (\<lambda>klass s.
     if klass = Null then Abort
     else andthen (pone_obj_new w klass s) (\<lambda>l s.
          andthen (pone_obj_set_ivar l (bs ''$!file'') self s) (\<lambda>_. Ret l)))))"

definition file_result :: "nat \<Rightarrow> bool \<Rightarrow> nat \<Rightarrow> ptr pone" where
  "file_result w auto_close fh s =
     (if fh \<noteq> 0 then pone_file_new w fh auto_close s else Ret pone_nil (keep_errno w s))"

definition meth_open :: "('z pone_rt_scheme) \<Rightarrow> nat \<Rightarrow> ptr \<Rightarrow> ptr list \<Rightarrow> ptr pone" where
  "meth_open E w self args s =
     andthen (pone_arg E w ''File#open'' ''s:s'' args s) (\<lambda>vs s.
     case vs of
       [PStr fname n] \<Rightarrow> andthen (os_get (c_fopen (cstr fname) (bs ''rb'')) s) (file_result w True)
     | [PStr fname n, PStr mode m] \<Rightarrow> andthen (os_get (c_fopen (cstr fname) (cstr mode)) s) (file_result w True)
     | _ \<Rightarrow> Undef)"

definition meth_fdopen :: "('z pone_rt_scheme) \<Rightarrow> nat \<Rightarrow> ptr \<Rightarrow> ptr list \<Rightarrow> ptr pone" where
  "meth_fdopen E w self args s =
     andthen (pone_arg E w ''File#fdopen'' ''is'' args s) (\<lambda>vs s.
     case vs of
       [PInt fd, PStr mode m] \<Rightarrow>
         andthen (os_get (c_fdopen (sint (ucast fd :: 32 word)) (cstr mode)) s) (file_result w False)
     | _ \<Rightarrow> Undef)"

text \<open>
  The loop of \<open>slurp_rest\<close> and \<open>slurp\<close>: the end of the file is asked for before a read, but a read that ends exactly
  there does not notice it; the next one then gets nothing, which is taken for an error. \<open>fail\<close> closes the
  file and throws.
\<close>

fun slurp_loop :: "nat \<Rightarrow> ('z pone_rt_scheme) \<Rightarrow> nat \<Rightarrow> nat \<Rightarrow> unit pone \<Rightarrow> ptr \<Rightarrow> unit pone" where
  "slurp_loop 0 E w fp fail retval s = Undef"
| "slurp_loop (Suc fuel) E w fp fail retval s =
     andthen (os_do (c_feof fp) s) (\<lambda>eof s.
     if eof then Ret () s
     else andthen (os_do (c_fread 512 fp) s) (\<lambda>b s.
          if b = [] then fail s
          else andthen (pone_str_append_c (e_depth E) w retval b s) (\<lambda>_.
               slurp_loop fuel E w fp fail retval)))"

definition slurp_rest_fail :: "('z pone_libc_scheme) \<Rightarrow> nat \<Rightarrow> ptr \<Rightarrow> unit pone" where
  "slurp_rest_fail E w self s =
     andthen (pone_file_close w self s) (\<lambda>_ s.
     pone_throw_str w (bs ''Cannot read file: '' @ e_strerror E (os_errno (st_os s))) s)"

definition meth_file_slurp_rest ::
  "nat \<Rightarrow> ('z pone_libc_scheme) \<Rightarrow> nat \<Rightarrow> ptr \<Rightarrow> ptr list \<Rightarrow> ptr pone" where
  "meth_file_slurp_rest fuel E w self args s =
     andthen (args_none E w ''File#slurp_rest'' args s) (\<lambda>_ s.
     andthen (SELF_FH self s) (\<lambda>fp s.
     andthen (pone_str_new_strdup w [0] 0 s) (\<lambda>retval s.
     andthen (slurp_loop fuel E w fp (slurp_rest_fail E w self) retval s) (\<lambda>_. Ret retval))))"

definition slurp_fail :: "('z pone_libc_scheme) \<Rightarrow> nat \<Rightarrow> nat \<Rightarrow> bytes \<Rightarrow> unit pone" where
  "slurp_fail E w fp name s =
     andthen (os_do (c_fclose fp) s) (\<lambda>_ s.
     pone_throw_str w (bs ''Cannot read file '' @ [39] @ name @ [39] @ bs '': '' @ e_strerror E (os_errno (st_os s))) s)"

definition meth_slurp :: "nat \<Rightarrow> ('z pone_libc_scheme) \<Rightarrow> nat \<Rightarrow> ptr \<Rightarrow> ptr list \<Rightarrow> ptr pone" where
  "meth_slurp fuel E w self args s =
     andthen (args_o E w ''file.slurp'' args s) (\<lambda>val s.
     andthen (pone_str_contains_null (e_depth E) val s) (\<lambda>has_null s.
     if has_null
     then pone_throw_str w (bs ''You can't slurp file. Because file name contains '' @ [92] @ bs ''0.'') s
     else andthen (pone_str_c_str E w val s) (\<lambda>str s.
          andthen (pone_str_ptr (e_depth E) str s) (\<lambda>name s.
          andthen (os_get (c_fopen (cstr name) (bs ''r'')) s) (\<lambda>fp s.
          if fp = 0
          then pone_throw_str w (bs ''Cannot open '' @ [39] @ cstr name @ [39] @ bs '': '' @ e_strerror E (os_errno (st_os s))) s
          else andthen (pone_str_new_strdup w [0] 0 s) (\<lambda>retval s.
               andthen (slurp_loop fuel E w fp (slurp_fail E w fp (cstr name)) retval s) (\<lambda>_ s.
               andthen (os_do (c_fclose fp) s) (\<lambda>_. Ret retval))))))))"

definition put_stream :: "nat \<Rightarrow> ptr \<Rightarrow> string \<Rightarrow> nat \<Rightarrow> unit pone" where
  "put_stream w module name fp s =
     andthen (pone_file_new w fp False s) (\<lambda>v. pone_module_put module (bs name) v)"

definition pone_file_init :: "('z pone_rt_scheme) \<Rightarrow> nat \<Rightarrow> unit pone" where
  "pone_file_init E w s =
     andthen (pone_class_new E w ''File'' s) (\<lambda>klass s.
     andthen (add_methods E w klass
       [(''Str'', ''meth_file_str''), (''read'', ''meth_file_read''), (''write'', ''meth_file_write''),
        (''rewind'', ''meth_file_rewind''), (''close'', ''meth_file_close''), (''fileno'', ''meth_file_fileno''),
        (''tell'', ''meth_file_tell''), (''seek'', ''meth_file_seek''), (''eof'', ''meth_file_eof''),
        (''getc'', ''meth_file_getc''), (''flock'', ''meth_file_flock''), (''stat'', ''meth_file_stat'')] s) (\<lambda>_ s.
     andthen (pone_class_new E w ''FileSeqIterator'' s) (\<lambda>seq_iter_klass s.
     andthen (add_methods E w seq_iter_klass [(''pull-one'', ''meth_file_list_iterator_pull_one'')] s) (\<lambda>_ s.
     andthen (pone_class_new E w ''FileLinesSeq'' s) (\<lambda>seq_klass s.
     andthen (add_methods E w seq_klass [(''iterator'', ''meth_file_seq_iterator'')] s) (\<lambda>_ s.
     andthen (pone_obj_set_ivar seq_klass (bs ''FileSeqIterator'') seq_iter_klass s) (\<lambda>_ s.
     andthen (pone_obj_set_ivar klass (bs ''FileSeq'') seq_klass s) (\<lambda>_ s.
     andthen (add_methods E w klass [(''lines'', ''meth_file_lines''), (''slurp_rest'', ''meth_file_slurp_rest'')] s) (\<lambda>_ s.
     andthen (pone_module_new w (bs ''file'') (upd_universe (u_class_file_update (\<lambda>_. klass)) s)) (\<lambda>module s.
     andthen (pone_module_put module (bs ''File'') klass s) (\<lambda>_ s.
     andthen (put_functions w module [(''open'', ''meth_open''), (''fdopen'', ''meth_fdopen''), (''slurp'', ''meth_slurp'')] s) (\<lambda>_ s.
     andthen (put_stream w module ''stdin'' 1 s) (\<lambda>_ s.
     andthen (put_stream w module ''stdout'' 2 s) (\<lambda>_ s.
     andthen (put_stream w module ''stderr'' 3 s) (\<lambda>_ s.
     andthen (put_ints w module [(''SEEK_CUR'', 1), (''SEEK_SET'', 0), (''SEEK_END'', 2),
       (''LOCK_SH'', 1), (''LOCK_EX'', 2), (''LOCK_UN'', 8)] s) (\<lambda>_.
     pone_universe_set_global (bs ''file'') module))))))))))))))))"

section \<open>Paths and temporary files\<close>

definition pone_path_new :: "('z pone_rt_scheme) \<Rightarrow> nat \<Rightarrow> ptr \<Rightarrow> ptr pone" where
  "pone_path_new E w path s =
     andthen (pone_obj_new w (u_class_path (st_universe s)) s) (\<lambda>obj s.
     andthen (pone_stringify E w path s) (\<lambda>v s.
     andthen (pone_obj_set_ivar obj (bs ''$!path'') v s) (\<lambda>_. Ret obj)))"

definition meth_path_new :: "('z pone_rt_scheme) \<Rightarrow> nat \<Rightarrow> ptr \<Rightarrow> ptr list \<Rightarrow> ptr pone" where
  "meth_path_new E w self args s = andthen (args_o E w ''path(Str $path)'' args s) (\<lambda>path. pone_path_new E w path)"

definition meth_path_str :: "('z pone_rt_scheme) \<Rightarrow> nat \<Rightarrow> ptr \<Rightarrow> ptr list \<Rightarrow> ptr pone" where
  "meth_path_str E w self args = pone_obj_get_ivar self (bs ''$!path'')"

text \<open>The variable \<open>$!path\<close> as a C string.\<close>

definition path_c :: "('z pone_rt_scheme) \<Rightarrow> nat \<Rightarrow> ptr \<Rightarrow> bytes pone" where
  "path_c E w self s =
     andthen (pone_obj_get_ivar self (bs ''$!path'') s) (\<lambda>v s.
     andthen (pone_str_c_str E w v s) (\<lambda>c. pone_str_ptr (e_depth E) c))"

definition meth_path_stat :: "('z pone_posix_scheme) \<Rightarrow> nat \<Rightarrow> ptr \<Rightarrow> ptr list \<Rightarrow> ptr pone" where
  "meth_path_stat E w self args s = andthen (path_c E w self s) (\<lambda>v. pone_stat E w v)"

definition pone_path_init :: "('z pone_rt_scheme) \<Rightarrow> nat \<Rightarrow> unit pone" where
  "pone_path_init E w s =
     (if u_class_path (st_universe s) \<noteq> Null then Abort
      else andthen (pone_class_new E w ''Path'' s) (\<lambda>k s.
           andthen (add_methods E w k [(''Str'', ''meth_path_str''), (''stat'', ''meth_path_stat'')]
             (upd_universe (u_class_path_update (\<lambda>_. k)) s)) (\<lambda>_ s.
           andthen (pone_universe_set_global (bs ''Path'') k s) (\<lambda>_ s.
           andthen (pone_module_new w (bs ''path'') s) (\<lambda>m s.
           andthen (put_functions w m [(''new'', ''meth_path_new'')] s) (\<lambda>_.
           pone_universe_set_global (bs ''path'') m))))))"

definition get_tmpdir :: "('z pone_sys_scheme) \<Rightarrow> bytes" where
  "get_tmpdir E = (case e_getenv E (bs ''TMPDIR'') of Some t \<Rightarrow> t | None \<Rightarrow> bs ''/tmp'')"

text \<open>\<open>mkstemp\<close> writes the name it chose into the buffer and opens the new file.\<close>

definition c_mkstemp :: "bytes \<Rightarrow> os_state \<Rightarrow> int \<times> os_state" where
  "c_mkstemp name os = (let (i, os) = c_creat name os in c_open_fd i os)"

definition pone_tmpfile_new :: "('z pone_posix_scheme) \<Rightarrow> nat \<Rightarrow> ptr pone" where
  "pone_tmpfile_new E w s =
     andthen (pone_obj_new w (u_class_tmpfile (st_universe s)) s) (\<lambda>self s.
     andthen (pone_str_new_strdup w (get_tmpdir E @ [0]) (length (get_tmpdir E)) s) (\<lambda>path s.
     andthen (append_lit E w path ''/pone_XXXXXX'' s) (\<lambda>_ s.
     andthen (pone_str_c_str E w path s) (\<lambda>path s.
     andthen (pone_str_ptr (e_depth E) path s) (\<lambda>ptr s.
     case e_mkstemp E (st_os s) (cstr ptr) of
       Inl e \<Rightarrow> pone_throw_str w (bs ''mkstemp: cannot create tmpfile: '' @ e_strerror E e) s
     | Inr name \<Rightarrow>
         (case val_as (st_heap s path) of
            AsStr d len \<Rightarrow>
              andthen (os_get (c_mkstemp name) (set_as path (AsStr (StrBuf (name @ [0])) len) s)) (\<lambda>fd s.
              andthen (pone_obj_set_ivar self (bs ''$!path'') path s) (\<lambda>_ s.
              andthen (os_get (c_fdopen fd (bs ''rw'')) s) (\<lambda>fp s.
              if fp = 0
              then pone_throw_str w (bs ''fdopen: cannot create tmpfile: '' @ e_strerror E (os_errno (st_os s))) s
              else andthen (pone_file_new w fp True s) (\<lambda>file s.
                   andthen (pone_obj_set_ivar self (bs ''$!file'') file s) (\<lambda>_. Ret self)))))
          | _ \<Rightarrow> Undef))))))"

definition pone_tmpfile_path_c :: "('z pone_rt_scheme) \<Rightarrow> nat \<Rightarrow> ptr \<Rightarrow> bytes pone" where
  "pone_tmpfile_path_c E w self = path_c E w self"

definition pone_tmpfile_fp :: "ptr \<Rightarrow> nat pone" where
  "pone_tmpfile_fp self s = andthen (pone_obj_get_ivar self (bs ''$!file'') s) pone_file_fp"

text \<open>The methods \<open>meth_new\<close>, \<open>meth_path\<close> and \<open>meth_file\<close> of the file.\<close>

definition meth_tmpfile_new :: "('z pone_posix_scheme) \<Rightarrow> nat \<Rightarrow> ptr \<Rightarrow> ptr list \<Rightarrow> ptr pone" where
  "meth_tmpfile_new E w self args s = andthen (args_none E w ''tmpfile'' args s) (\<lambda>_. pone_tmpfile_new E w)"

definition meth_tmpfile_path :: "('z pone_rt_scheme) \<Rightarrow> nat \<Rightarrow> ptr \<Rightarrow> ptr list \<Rightarrow> ptr pone" where
  "meth_tmpfile_path E w self args s =
     andthen (args_none E w ''TempFile#Path'' args s) (\<lambda>_ s.
     andthen (pone_obj_get_ivar self (bs ''$!path'') s) (\<lambda>p. pone_path_new E w p))"

definition meth_tmpfile_file :: "('z pone_rt_scheme) \<Rightarrow> nat \<Rightarrow> ptr \<Rightarrow> ptr list \<Rightarrow> ptr pone" where
  "meth_tmpfile_file E w self args s =
     andthen (args_none E w ''TempFile#file'' args s) (\<lambda>_. pone_obj_get_ivar self (bs ''$!file''))"

definition pone_tmpfile_init :: "('z pone_rt_scheme) \<Rightarrow> nat \<Rightarrow> unit pone" where
  "pone_tmpfile_init E w s =
     andthen (pone_class_new E w ''TmpFile'' s) (\<lambda>k s.
     andthen (add_methods E w k [(''Path'', ''meth_path''), (''file'', ''meth_file'')] s) (\<lambda>_ s.
     set_globals w [(''tmpfile'', ''meth_new'')] (upd_universe (u_class_tmpfile_update (\<lambda>_. k)) s)))"

end
