(* ===== verification/Pone_File_Correct.thy ===== *)
theory Pone_File_Correct
  imports Pone_File Pone_Json
begin

text \<open>
  What reading a file yields: the whole rest of it by \<open>slurp_rest\<close>, one line after the other by the iterator of
  \<open>lines\<close>. Both loops end.
\<close>

section \<open>Streams\<close>

text \<open>The stream \<open>fp\<close> is open for reading, \<open>r\<close> is left to read, and \<open>eof\<close> says whether its end was noticed.\<close>

definition reading :: "nat \<Rightarrow> bytes \<Rightarrow> bool \<Rightarrow> os_state \<Rightarrow> bool" where
  "reading fp r eof os \<longleftrightarrow> (eof \<longrightarrow> r = []) \<and>
     (\<exists>f. c_stream fp os = Some f \<and> f_read f \<and> f_eof f = eof \<and> drop (f_pos f) (os_data os (f_inode f)) = r)"

lemma stream_set_obj [simp]: "fp \<noteq> 0 \<Longrightarrow> c_stream fp (set_obj fp (FileObj f) os) = Some f"
  by (simp add: c_stream_def set_obj_def)

lemma data_set_obj [simp]: "os_data (set_obj fp x os) = os_data os"
  by (simp add: set_obj_def)

lemma c_stream_nonzero: "c_stream fp os = Some f \<Longrightarrow> fp \<noteq> 0"
  by (auto simp: c_stream_def split: if_splits)

lemma feof_reading: "reading fp r eof os \<Longrightarrow> c_feof fp os = Some (eof, os)"
  by (auto simp: reading_def c_feof_def)

lemma fread_reading:
  assumes "reading fp r False os"
  shows "\<exists>os'. c_fread n fp os = Some (take n r, os') \<and> reading fp (drop n r) (length r < n) os'"
proof -
  obtain f where f: "c_stream fp os = Some f" "f_read f" "\<not> f_eof f" "drop (f_pos f) (os_data os (f_inode f)) = r"
    using assms by (auto simp: reading_def)
  let ?f = "f\<lparr>f_pos := f_pos f + length (take n r), f_eof := length (take n r) < n\<rparr>"
  have "c_fread n fp os = Some (take n r, set_obj fp (FileObj ?f) os)"
    using f by (simp add: c_fread_def)
  moreover have "drop (f_pos f + min (length r) n) (os_data os (f_inode f)) = drop (min (length r) n) r"
    using f(4) by (metis add.commute drop_drop)
  then have "reading fp (drop n r) (length r < n) (set_obj fp (FileObj ?f) os)"
    using c_stream_nonzero [OF f(1)] f(2) by (auto simp: reading_def min_def split: if_splits)
  ultimately show ?thesis by blast
qed

lemma length_c_line: "length (c_line n r) \<le> n"
  by (induction n r rule: c_line.induct) auto

lemma c_line_prefix: "c_line n r = take (length (c_line n r)) r"
  by (induction n r rule: c_line.induct) auto

lemma c_line_Nil [simp]: "c_line n r = [] \<longleftrightarrow> n = 0 \<or> r = []"
  by (cases n; cases r) auto

text \<open>A piece that is shorter than it may be ends in a line feed or with the text.\<close>

lemma c_line_short: "length (c_line n r) < n \<Longrightarrow> c_line n r \<noteq> [] \<Longrightarrow> last (c_line n r) \<noteq> 10 \<Longrightarrow> c_line n r = r"
  by (induction n r rule: c_line.induct) (auto split: if_splits)

lemma fgets_reading:
  assumes "reading fp r False os" "1 < sz"
  shows "\<exists>os'. c_fgets sz fp os = Some (if r = [] then None else Some (c_line (sz - 1) r), os') \<and>
    reading fp (drop (length (c_line (sz - 1) r)) r)
      (length (c_line (sz - 1) r) < sz - 1 \<and> (r = [] \<or> last (c_line (sz - 1) r) \<noteq> 10)) os'"
proof -
  obtain f where f: "c_stream fp os = Some f" "f_read f" "\<not> f_eof f" "drop (f_pos f) (os_data os (f_inode f)) = r"
    using assms by (auto simp: reading_def)
  let ?b = "c_line (sz - 1) r" and ?hit = "length (c_line (sz - 1) r) < sz - 1 \<and> (r = [] \<or> last (c_line (sz - 1) r) \<noteq> 10)"
  let ?f = "f\<lparr>f_pos := f_pos f + length ?b, f_eof := ?hit\<rparr>"
  have "c_fgets sz fp os = Some (if r = [] then None else Some ?b, set_obj fp (FileObj ?f) os)"
    using f assms(2) by (simp add: c_fgets_def Let_def)
  moreover have "drop (f_pos f + length ?b) (os_data os (f_inode f)) = drop (length ?b) r"
    using f(4) by (metis add.commute drop_drop)
  moreover have "?hit \<longrightarrow> drop (length ?b) r = []"
    using c_line_short [of "sz - 1" r] assms(2) by (cases "r = []") auto
  ultimately show ?thesis
    using c_stream_nonzero [OF f(1)] f(2) by (auto simp: reading_def)
qed

section \<open>Reading the rest of a file\<close>

text \<open>Operations on streams leave the values alone.\<close>

lemma holding_os [simp]: "holding s0 buf out (s\<lparr>st_os := os\<rparr>) \<longleftrightarrow> holding s0 buf out s"
  by (simp add: holding_def)

text \<open>What the loops change: the buffer and the stream.\<close>

definition same_but_os :: "pone_state \<Rightarrow> pone_state \<Rightarrow> bool" where
  "same_but_os s s' \<longleftrightarrow> st_world s' = st_world s \<and> st_opaque s' = st_opaque s \<and> st_universe s' = st_universe s \<and>
     st_self s' = st_self s \<and> st_next_opaque s' = st_next_opaque s"

lemma same_but_os_update [simp]:
  "same_but_os s (s\<lparr>st_os := os\<rparr>)" "same_but_os s (s\<lparr>st_heap := h\<rparr>)"
  by (simp_all add: same_but_os_def)

lemma same_but_os_trans [trans]: "same_but_os s1 s2 \<Longrightarrow> same_but_os s2 s3 \<Longrightarrow> same_but_os s1 s3"
  by (simp add: same_but_os_def)

lemma append_c_reading:
  assumes "holding s0 buf out s"
  shows "\<exists>s'. pone_str_append_c d w buf b s = Ret () s' \<and> holding s0 buf (out @ b) s' \<and>
    st_os s' = st_os s \<and> same_but_os s s'"
  using append_c_holding [OF assms, of d w b] by force

lemma slurp_loop_spec:
  assumes "holding s0 buf out s" "reading fp r False (st_os s)" "length r div 512 + 1 < fuel"
  shows "\<exists>s'. slurp_loop fuel E w fp fail buf s = (if length r mod 512 = 0 then fail s' else Ret () s') \<and>
    holding s0 buf (out @ r) s' \<and> reading fp [] True (st_os s') \<and> same_but_os s s'"
  using assms
proof (induction fuel arbitrary: out r s)
  case (Suc fuel)
  let ?eof = "length r < 512"
  obtain os where os: "c_fread 512 fp (st_os s) = Some (take 512 r, os)" "reading fp (drop 512 r) ?eof os"
    using fread_reading [OF Suc.prems(2)] by blast
  let ?s = "s\<lparr>st_os := os\<rparr>"
  have start: "slurp_loop (Suc fuel) E w fp fail buf s =
      (if r = [] then fail ?s
       else andthen (pone_str_append_c (e_depth E) w buf (take 512 r) ?s) (\<lambda>_. slurp_loop fuel E w fp fail buf))"
    by (simp add: os_do_def feof_reading [OF Suc.prems(2)] os(1))
  show ?case
  proof (cases "r = []")
    case True
    then show ?thesis using start os(2) Suc.prems(1) by (intro exI [of _ ?s]) auto
  next
    case False
    obtain s1 where s1: "pone_str_append_c (e_depth E) w buf (take 512 r) ?s = Ret () s1"
      "holding s0 buf (out @ take 512 r) s1" "st_os s1 = os" "same_but_os ?s s1"
      using append_c_reading [of s0 buf out ?s] Suc.prems(1) by fastforce
    have same: "same_but_os s s1" using s1(4) by (simp add: same_but_os_def)
    have step: "slurp_loop (Suc fuel) E w fp fail buf s = slurp_loop fuel E w fp fail buf s1"
      using start False s1(1) by simp
    show ?thesis
    proof (cases "length r < 512")
      case True
      obtain k where k: "fuel = Suc k" using Suc.prems(3) by (cases fuel) auto
      have "slurp_loop fuel E w fp fail buf s1 = Ret () s1"
        using feof_reading [OF os(2)] s1(3) True by (simp add: k os_do_def)
      moreover have "length r mod 512 \<noteq> 0" using True False by simp
      ultimately show ?thesis using step s1(2,3) os(2) same True by auto
    next
      case long: False
      have len: "length r div 512 = Suc (length (drop 512 r) div 512)" "length r mod 512 = length (drop 512 r) mod 512"
        using long by (simp_all only: length_drop le_div_geq le_mod_geq not_less zero_less_numeral)
      have "reading fp (drop 512 r) False (st_os s1)" using os(2) s1(3) long by simp
      then obtain s' where s': "slurp_loop fuel E w fp fail buf s1 = (if length (drop 512 r) mod 512 = 0 then fail s' else Ret () s')"
        "holding s0 buf ((out @ take 512 r) @ drop 512 r) s'" "reading fp [] True (st_os s')" "same_but_os s1 s'"
        using Suc.IH [OF s1(2), of "drop 512 r"] Suc.prems(3) len(1) by auto
      have "holding s0 buf (out @ r) s'" using s'(2) by simp
      moreover have "same_but_os s s'" by (rule same_but_os_trans [OF same s'(4)])
      ultimately show ?thesis unfolding step s'(1) len(2) using s'(3) by blast
    qed
  qed
qed simp

lemma throw_str_not_Ret: "pone_throw_str w msg s \<noteq> Ret x s'"
  by (auto simp: pone_throw_str_def pone_throw_def Let_def andthen_Ret_iff split: if_splits)


section \<open>Reading lines\<close>

text \<open>The first line of a text, with its line feed.\<close>

definition first_line :: "bytes \<Rightarrow> bytes" where
  "first_line r = c_line (length r) r"

lemma c_line_extend:
  "m \<le> n \<Longrightarrow> c_line n r = (if c_line m r \<noteq> [] \<and> last (c_line m r) = 10 then c_line m r
     else c_line m r @ c_line (n - m) (drop (length (c_line m r)) r))"
proof (induction m r arbitrary: n rule: c_line.induct)
  case (2 m)
  then show ?case by (cases "n - Suc m") auto
next
  case (3 m c cs)
  obtain k where k: "n = Suc k" "m \<le> k" using 3(2) by (cases n) auto
  show ?case
  proof (cases "c = 10")
    case False
    have "c_line k cs = (if c_line m cs \<noteq> [] \<and> last (c_line m cs) = 10 then c_line m cs
        else c_line m cs @ c_line (k - m) (drop (length (c_line m cs)) cs))"
      by (rule 3(1) [OF False k(2)])
    then show ?thesis using False by (simp add: k(1))
  qed (simp add: k(1))
qed simp

lemma c_line_enough: "length r \<le> n \<Longrightarrow> c_line n r = first_line r"
  unfolding first_line_def by (induction n r rule: c_line.induct) auto

lemma cstr_no_nul: "0 \<notin> set b \<Longrightarrow> cstr (b @ [0]) = b"
  by (induction b) (auto simp: cstr_def)

lemma set_c_line: "set (c_line n r) \<subseteq> set r"
  by (subst c_line_prefix) (rule set_take_subset)

text \<open>One piece of at most \<open>m\<close> bytes: it completes the line, or the line goes on behind it.\<close>

lemma first_line_piece:
  assumes "0 < m" "r \<noteq> []"
  shows "if last (c_line m r) = 10 then first_line r = c_line m r
    else first_line r = c_line m r @ first_line (drop (length (c_line m r)) r)"
proof -
  let ?r = "drop (length (c_line m r)) r"
  have "first_line r = c_line (m + length r) r" by (simp add: c_line_enough)
  moreover have "c_line (m + length r - m) ?r = first_line ?r" by (rule c_line_enough) simp
  ultimately show ?thesis using c_line_extend [of m "m + length r" r] assms by simp
qed

lemma lines_loop_spec:
  assumes "holding s0 buf out s" "reading fp r eof (st_os s)" "0 \<notin> set r" "length r + 1 < fuel"
  shows "\<exists>s' eof'. lines_loop fuel E w fp buf s = Ret (r \<noteq> [] \<and> last (first_line r) = 10) s' \<and>
    holding s0 buf (out @ first_line r) s' \<and> reading fp (drop (length (first_line r)) r) eof' (st_os s') \<and> same_but_os s s'"
  using assms
proof (induction fuel arbitrary: out r eof s)
  case (Suc fuel)
  show ?case
  proof (cases eof)
    case True
    then have "r = []" using Suc.prems(2) by (simp add: reading_def)
    moreover have "lines_loop (Suc fuel) E w fp buf s = Ret False s"
      using feof_reading [OF Suc.prems(2)] True by (simp add: os_do_def)
    ultimately show ?thesis using Suc.prems by (auto simp: first_line_def same_but_os_def)
  next
    case False
    then have rd: "reading fp r False (st_os s)" using Suc.prems(2) by simp
    let ?b = "c_line 511 r"
    let ?eof = "length ?b < 511 \<and> (r = [] \<or> last ?b \<noteq> 10)"
    obtain os where os: "c_fgets 512 fp (st_os s) = Some (if r = [] then None else Some ?b, os)"
      "reading fp (drop (length ?b) r) ?eof os"
      using fgets_reading [OF rd, of 512] by auto
    let ?s = "s\<lparr>st_os := os\<rparr>"
    show ?thesis
    proof (cases "r = []")
      case True
      obtain k where k: "fuel = Suc k" using Suc.prems(4) by (cases fuel) auto
      have rd': "reading fp [] True (st_os ?s)" using os(2) c_line_Nil [of 511 "[]"] by (simp add: True del: c_line_Nil)
      have "lines_loop (Suc fuel) E w fp buf s = lines_loop fuel E w fp buf ?s"
        using feof_reading [OF rd] os(1) by (simp add: os_do_def True)
      also have "\<dots> = Ret False ?s" using feof_reading [OF rd'] by (simp add: k os_do_def)
      finally show ?thesis using True Suc.prems(1) rd' by (auto simp: first_line_def)
    next
      case ne: False
      have nul: "cstr (?b @ [0]) = ?b" using set_c_line [of 511 r] Suc.prems(3) by (intro cstr_no_nul) blast
      obtain s1 where s1: "pone_str_append_c (e_depth E) w buf ?b ?s = Ret () s1" "holding s0 buf (out @ ?b) s1"
        "st_os s1 = os" "same_but_os ?s s1"
        using append_c_reading [of s0 buf out ?s] Suc.prems(1) by fastforce
      have same: "same_but_os s s1" using s1(4) by (simp add: same_but_os_def)
      have step: "lines_loop (Suc fuel) E w fp buf s =
          (if last ?b = 10 then Ret True s1 else lines_loop fuel E w fp buf s1)"
        using feof_reading [OF rd] os(1) s1(1) nul ne by (simp add: os_do_def)
      show ?thesis
      proof (cases "last ?b = 10")
        case True
        then have "first_line r = ?b" using first_line_piece [of 511 r] ne by simp
        then show ?thesis using True step s1(2,3) os(2) same ne by auto
      next
        case more: False
        let ?r = "drop (length ?b) r"
        have fl: "first_line r = ?b @ first_line ?r" using first_line_piece [of 511 r] ne more by simp
        have "0 < length ?b" using ne by (simp only: length_greater_0_conv c_line_Nil) simp
        then have "length ?r < length r" using ne by (simp only: length_drop) (metis diff_less length_greater_0_conv)
        then have "length ?r + 1 < fuel" using Suc.prems(4) by linarith
        moreover have "0 \<notin> set ?r" using Suc.prems(3) by (meson in_set_dropD)
        ultimately obtain s' eof' where s': "lines_loop fuel E w fp buf s1 = Ret (?r \<noteq> [] \<and> last (first_line ?r) = 10) s'"
          "holding s0 buf ((out @ ?b) @ first_line ?r) s'" "reading fp (drop (length (first_line ?r)) ?r) eof' (st_os s')"
          "same_but_os s1 s'"
          using Suc.IH [OF s1(2), of ?r ?eof] os(2) s1(3) by auto
        have "first_line ?r = [] \<longleftrightarrow> ?r = []" by (simp add: first_line_def)
        then have "(?r \<noteq> [] \<and> last (first_line ?r) = 10) \<longleftrightarrow> (r \<noteq> [] \<and> last (first_line r) = 10)"
          using more ne by (auto simp: fl)
        moreover have "drop (length (first_line r)) r = drop (length (first_line ?r)) ?r" by (simp add: fl add.commute)
        moreover have "holding s0 buf (out @ first_line r) s'" using s'(2) by (simp add: fl)
        ultimately show ?thesis
          using step more s'(1,3) same_but_os_trans [OF same s'(4)] by auto
      qed
    qed
  qed
qed simp

text \<open>An iterator over the lines of the stream \<open>fp\<close>, of which \<open>r\<close> is left.\<close>

definition line_iter :: "ptr \<Rightarrow> nat \<Rightarrow> bytes \<Rightarrow> pone_state \<Rightarrow> bool" where
  "line_iter self fp r s \<longleftrightarrow>
     (\<exists>k ivar file b. val_as (st_heap s self) = AsObj k ivar \<and> str_kh_get ivar (bs ''$!file'') = Some (Some file) \<and>
        val_as (st_heap s file) = AsOpaque b \<and> \<not> o_freed (st_opaque s b) \<and> o_ptr (st_opaque s b) = fp) \<and>
     (\<exists>eof. reading fp r eof (st_os s))"

lemma holding_wf:
  assumes "arena_wf w s" "holding s0 buf out s" "holding s0 buf out' s'" "st_world s' = st_world s"
  shows "arena_wf w s'"
  using assms(1,4) by (rule arena_wf_heap_cong) (use assms(2,3) in \<open>auto simp: holding_def pone_alive_iff split: if_splits\<close>)

lemma pull_one_line:
  assumes wf: "arena_wf w s" and it: "line_iter self fp r s" and r: "0 \<notin> set r" "length r + 1 < fuel" and d: "e_depth E \<noteq> 0"
  shows "\<exists>v s'. meth_file_list_iterator_pull_one fuel E w self [] s = Ret v s' \<and>
    (if r = [] then v = u_instance_iteration_end (st_universe s) else pone_str_bytes 1 v s' = Ret (first_line r) s' \<and> pone_alive (st_heap s' v)) \<and>
    line_iter self fp (drop (length (first_line r)) r) s' \<and> arena_wf w s' \<and> st_universe s' = st_universe s \<and>
    (\<forall>p. pone_alive (st_heap s p) \<longrightarrow> st_heap s' p = st_heap s p)"
proof -
  obtain k ivar fv b eof where f: "val_as (st_heap s self) = AsObj k ivar" "str_kh_get ivar (bs ''$!file'') = Some (Some fv)"
    "val_as (st_heap s fv) = AsOpaque b" "\<not> o_freed (st_opaque s b)" "o_ptr (st_opaque s b) = fp" "reading fp r eof (st_os s)"
    using it by (auto simp: line_iter_def)
  obtain buf s1 where b: "pone_bytes_new_strdup w [0] 0 s = Ret buf s1" "\<not> pone_alive (st_heap s buf)" "holding s buf [] s1"
    "arena_wf w s1" "st_os s1 = st_os s" "st_opaque s1 = st_opaque s" "st_universe s1 = st_universe s"
    using new_bytes_buffer [OF wf] by blast
  have al: "pone_alive (st_heap s fv)" "pone_alive (st_heap s self)" using f(1,3) by (simp_all add: pone_alive_iff)
  have rd: "reading fp r eof (st_os s1)" using f(6) b(5) by simp
  obtain s' eof' where s': "lines_loop fuel E w fp buf s1 = Ret (r \<noteq> [] \<and> last (first_line r) = 10) s'"
    "holding s buf ([] @ first_line r) s'" "reading fp (drop (length (first_line r)) r) eof' (st_os s')" "same_but_os s1 s'"
    using lines_loop_spec [OF b(3) rd r, where E = E and w = w] by blast
  have h: "holding s buf (first_line r) s'" using s'(2) by simp
  obtain n where n: "e_depth E = Suc n" using d by (cases "e_depth E") auto
  have content: "pone_str_bytes (Suc m) buf s' = Ret (first_line r) s'" for m by (rule holding_bytes [OF h])
  have len: "pone_str_len (e_depth E) buf s' = Ret (length (first_line r)) s'"
    using h by (auto simp: holding_def n has_flag_def)
  have nil: "first_line r = [] \<longleftrightarrow> r = []" by (simp add: first_line_def)
  have same: "st_heap s' p = st_heap s p" if "pone_alive (st_heap s p)" for p by (rule holding_other [OF h b(2) that])
  have U: "st_universe s' = st_universe s" "st_opaque s' = st_opaque s" "st_world s' = st_world s1"
    using s'(4) b(6,7) by (simp_all add: same_but_os_def)
  have "meth_file_list_iterator_pull_one fuel E w self [] s =
      Ret (if r = [] then u_instance_iteration_end (st_universe s) else buf) s'"
    using f(1-5) b(1,6) s'(1) len holding_other [OF b(3,2) al(1)] nil U(1)
    by (auto simp: meth_file_list_iterator_pull_one_def pone_obj_get_ivar_def pone_opaque_ptr_def)
  moreover have "pone_alive (st_heap s' buf)" using h by (auto simp: holding_def pone_alive_iff)
  moreover have "line_iter self fp (drop (length (first_line r)) r) s'"
    using f(1-5) s'(3) same [OF al(1)] same [OF al(2)] U(2) unfolding line_iter_def by auto
  moreover have "arena_wf w s'" by (rule holding_wf [OF b(4,3) h U(3)])
  ultimately show ?thesis using content [of 0] same U(1) by auto
qed

text \<open>The lines of a text. Joined, they are the text; each has its line feed at the end and nowhere else.\<close>

function split_lines :: "bytes \<Rightarrow> bytes list" where
  "split_lines r = (if r = [] then [] else first_line r # split_lines (drop (length (first_line r)) r))"
  by auto
termination
  by (relation "measure length") (auto simp: first_line_def neq_Nil_conv)

declare split_lines.simps [simp del]

lemma first_line_append: "first_line r @ drop (length (first_line r)) r = r"
  unfolding first_line_def by (metis append_take_drop_id c_line_prefix)

lemma concat_split_lines: "concat (split_lines r) = r"
proof (induction r rule: split_lines.induct)
  case (1 r)
  then show ?case by (subst split_lines.simps) (simp add: first_line_append)
qed

lemma collect_lines:
  assumes "arena_wf w s" "line_iter self fp r s" "0 \<notin> set r" "length r + 1 < fuel" "e_depth E \<noteq> 0"
  shows "\<exists>vs s'. collect_n (meth_file_list_iterator_pull_one fuel E w self []) (length (split_lines r)) s = Ret vs s' \<and>
    list_all2 (\<lambda>v l. pone_str_bytes 1 v s' = Ret l s') vs (split_lines r) \<and>
    arena_wf w s' \<and> line_iter self fp [] s' \<and> st_universe s' = st_universe s \<and>
    (\<forall>p. pone_alive (st_heap s p) \<longrightarrow> st_heap s' p = st_heap s p)"
  using assms
proof (induction r arbitrary: s rule: split_lines.induct)
  case (1 r)
  let ?pull = "meth_file_list_iterator_pull_one fuel E w self []"
  let ?r = "drop (length (first_line r)) r"
  show ?case
  proof (cases "r = []")
    case True
    then show ?thesis using 1(2,3) by (simp add: split_lines.simps)
  next
    case False
    obtain v s1 where s1: "?pull s = Ret v s1" "pone_str_bytes 1 v s1 = Ret (first_line r) s1" "pone_alive (st_heap s1 v)"
      "line_iter self fp ?r s1" "arena_wf w s1" "st_universe s1 = st_universe s"
      "\<forall>p. pone_alive (st_heap s p) \<longrightarrow> st_heap s1 p = st_heap s p"
      using pull_one_line [OF 1(2-6)] False by auto
    have "0 \<notin> set ?r" using 1(4) by (meson in_set_dropD)
    moreover have "length ?r + 1 < fuel" using 1(5) by simp
    ultimately obtain vs s' where s': "collect_n ?pull (length (split_lines ?r)) s1 = Ret vs s'"
      "list_all2 (\<lambda>v l. pone_str_bytes 1 v s' = Ret l s') vs (split_lines ?r)"
      "arena_wf w s'" "line_iter self fp [] s'" "st_universe s' = st_universe s1"
      "\<forall>p. pone_alive (st_heap s1 p) \<longrightarrow> st_heap s' p = st_heap s1 p"
      using 1(1) [OF False s1(5,4)] 1(6) by blast
    have "pone_str_bytes 1 v s' = Ret (first_line r) s'"
      by (rule str_frame [OF _ s1(2)]) (use s'(6) in \<open>auto simp: pone_alive_def\<close>)
    moreover have "split_lines r = first_line r # split_lines ?r" using False by (subst split_lines.simps) simp
    moreover have "\<forall>p. pone_alive (st_heap s p) \<longrightarrow> st_heap s' p = st_heap s p" using s1(7) s'(6) by metis
    ultimately show ?thesis using s1(1,6) s'(1-5) by auto
  qed
qed


section \<open>Examples\<close>

text \<open>The file \<open>a\<close>, line feed, \<open>b\<close>, open on stream 4, the file object and an iterator over its lines.\<close>

definition file_demo :: "ptr str_khash \<Rightarrow> pone_state" where
  "file_demo ivar = blank_state
     \<lparr>st_heap := initial_heap
        (Cell 1 0 0 := \<lparr>val_flags = 0, val_as = AsOpaque 0\<rparr>,
         Cell 1 0 1 := \<lparr>val_flags = 0, val_as = AsObj Null ivar\<rparr>),
      st_opaque := (\<lambda>_. \<lparr>o_klass = Null, o_ptr = 4, o_finalizer = None, o_refcnt = 1, o_freed = False\<rparr>),
      st_os := snd (c_fopen [102] [114] (blank_os\<lparr>os_dir := [[102] \<mapsto> 3], os_data := (\<lambda>_. [97, 10, 98])\<rparr>))\<rparr>"

lemma file_demo_reading: "reading 4 [97, 10, 98] False (st_os (file_demo ivar))"
  by (simp add: reading_def file_demo_def c_fopen_def c_mode_ok_def c_open_fd_def c_open_stream_def c_new_def
      blank_os_def c_stream_def)

lemma file_demo_wf: "arena_wf 0 (file_demo ivar)"
  by (rule blank_world_wf) (simp_all add: file_demo_def blank_state_def initial_heap_def)



end
