(* ===== verification/Pone_System.thy ===== *)
theory Pone_System
  imports Pone_File
begin

text \<open>
  Time (\<^verbatim>\<open>src/time.c\<close>), the operating system (\<^verbatim>\<open>src/os.c\<close>), the module internals (\<^verbatim>\<open>src/internals.c\<close>) and the
  dumps that help debugging (\<open>pone_lex_dump\<close> of \<^verbatim>\<open>src/scope.c\<close>, \<open>pone_dd\<close> of \<^verbatim>\<open>src/op.c\<close>). The calendar functions of the
  C library are parameters; a time object keeps a \<open>struct tm\<close> in the buffer of a bytes value.
\<close>

section \<open>Time\<close>

definition SIZEOF_TM :: pone_int_t where "SIZEOF_TM = 56"
definition SIZEOF_TIMEVAL :: pone_int_t where "SIZEOF_TIMEVAL = 16"

definition set_buf :: "ptr \<Rightarrow> bytes \<Rightarrow> pone_state \<Rightarrow> pone_state" where
  "set_buf v b s = (case val_as (st_heap s v) of AsStr d len \<Rightarrow> set_as v (AsStr (StrBuf b) len) s | _ \<Rightarrow> s)"

definition tm_val :: "ptr \<Rightarrow> ptr pone" where
  "tm_val self = pone_obj_get_ivar self (bs ''$!tm'')"

definition GET_TM :: "('z pone_posix_scheme) \<Rightarrow> ptr \<Rightarrow> c_struct pone" where
  "GET_TM E self s =
     andthen (tm_val self s) (\<lambda>v s.
     andthen (pone_str_ptr (e_depth E) v s) (\<lambda>b. Ret (e_tm_dec E b)))"

definition meth_time_str :: "('z pone_posix_scheme) \<Rightarrow> nat \<Rightarrow> ptr \<Rightarrow> ptr list \<Rightarrow> ptr pone" where
  "meth_time_str E w self args s =
     andthen (args_none E w ''Time#Str'' args s) (\<lambda>_ s.
     andthen (GET_TM E self s) (\<lambda>t.
     pone_str_new_strdup w (e_strftime E t) (length (e_strftime E t))))"

text \<open>A field of type \<open>int\<close> plus a constant; the sum may overflow.\<close>

definition tm_field :: "('z pone_posix_scheme) \<Rightarrow> nat \<Rightarrow> string \<Rightarrow> string \<Rightarrow> int \<Rightarrow> ptr \<Rightarrow> ptr list \<Rightarrow> ptr pone" where
  "tm_field E w name field k self args s =
     andthen (args_none E w name args s) (\<lambda>_ s.
     andthen (GET_TM E self s) (\<lambda>t s.
     let n = sint (t field) + k in
     if n < 2 ^ 31 then pone_int_new w (of_int n) s else Undef))"

definition meth_year :: "('z pone_posix_scheme) \<Rightarrow> nat \<Rightarrow> ptr \<Rightarrow> ptr list \<Rightarrow> ptr pone" where
  "meth_year E w = tm_field E w ''Time#year'' ''tm_year'' 1900"

definition meth_month :: "('z pone_posix_scheme) \<Rightarrow> nat \<Rightarrow> ptr \<Rightarrow> ptr list \<Rightarrow> ptr pone" where
  "meth_month E w = tm_field E w ''Time#month'' ''tm_mon'' 1"

definition meth_mday :: "('z pone_posix_scheme) \<Rightarrow> nat \<Rightarrow> ptr \<Rightarrow> ptr list \<Rightarrow> ptr pone" where
  "meth_mday E w = tm_field E w ''Time#mday'' ''tm_mday'' 0"

definition meth_wday :: "('z pone_posix_scheme) \<Rightarrow> nat \<Rightarrow> ptr \<Rightarrow> ptr list \<Rightarrow> ptr pone" where
  "meth_wday E w = tm_field E w ''Time#wday'' ''tm_wday'' 0"

definition meth_hour :: "('z pone_posix_scheme) \<Rightarrow> nat \<Rightarrow> ptr \<Rightarrow> ptr list \<Rightarrow> ptr pone" where
  "meth_hour E w = tm_field E w ''Time#hour'' ''tm_hour'' 0"

definition meth_min :: "('z pone_posix_scheme) \<Rightarrow> nat \<Rightarrow> ptr \<Rightarrow> ptr list \<Rightarrow> ptr pone" where
  "meth_min E w = tm_field E w ''Time#min'' ''tm_min'' 0"

definition meth_sec :: "('z pone_posix_scheme) \<Rightarrow> nat \<Rightarrow> ptr \<Rightarrow> ptr list \<Rightarrow> ptr pone" where
  "meth_sec E w = tm_field E w ''Time#sec'' ''tm_sec'' 0"

definition meth_usec :: "('z pone_posix_scheme) \<Rightarrow> nat \<Rightarrow> ptr \<Rightarrow> ptr list \<Rightarrow> ptr pone" where
  "meth_usec E w self args s =
     andthen (args_none E w ''Time#usec'' args s) (\<lambda>_. pone_obj_get_ivar self (bs ''$!usec''))"

text \<open>\<open>mktime\<close> works on the structure in the value.\<close>

definition time_mktime :: "('z pone_posix_scheme) \<Rightarrow> ptr \<Rightarrow> pone_int_t pone" where
  "time_mktime E self s =
     andthen (tm_val self s) (\<lambda>v s.
     andthen (pone_str_ptr (e_depth E) v s) (\<lambda>b s.
     andthen (pone_str_root (e_depth E) v s) (\<lambda>root s.
     case e_mktime E (e_tm_dec E b) of (t, tm) \<Rightarrow> Ret t (set_buf root (e_tm_enc E tm) s))))"

definition meth_epoch :: "('z pone_posix_scheme) \<Rightarrow> nat \<Rightarrow> ptr \<Rightarrow> ptr list \<Rightarrow> ptr pone" where
  "meth_epoch E w self args s =
     andthen (args_none E w ''Time#epoch'' args s) (\<lambda>_ s.
     andthen (time_mktime E self s) (\<lambda>t. pone_int_new w t))"

definition meth_utc :: "('z pone_posix_scheme) \<Rightarrow> nat \<Rightarrow> ptr \<Rightarrow> ptr list \<Rightarrow> ptr pone" where
  "meth_utc E w self args s =
     andthen (args_none E w ''Time#utc'' args s) (\<lambda>_ s.
     andthen (time_mktime E self s) (\<lambda>time s.
     andthen (pone_bytes_new_malloc w SIZEOF_TM s) (\<lambda>t s.
     case e_gmtime E time of
       Inl e \<Rightarrow> pone_throw_str w (bs ''gmtime_r: '' @ e_strerror E e) s
     | Inr tm \<Rightarrow>
         andthen (pone_obj_new w (u_class_time (st_universe s)) (set_buf t (e_tm_enc E tm) s)) (\<lambda>obj s.
         andthen (pone_obj_set_ivar obj (bs ''$!tm'') t s) (\<lambda>_ s.
         andthen (pone_obj_get_ivar self (bs ''$!usec'') s) (\<lambda>u s.
         andthen (pone_obj_set_ivar obj (bs ''$!usec'') u s) (\<lambda>_. Ret obj)))))))"

definition pone_time_from_epoch :: "('z pone_posix_scheme) \<Rightarrow> nat \<Rightarrow> pone_int_t \<Rightarrow> pone_int_t \<Rightarrow> ptr pone" where
  "pone_time_from_epoch E w sec usec s =
     andthen (pone_bytes_new_malloc w SIZEOF_TM s) (\<lambda>t s.
     case e_localtime E sec of
       Inl e \<Rightarrow> pone_throw_str w (bs ''localtime_r: '' @ e_strerror E e) s
     | Inr tm \<Rightarrow>
         andthen (pone_obj_new w (u_class_time (st_universe s)) (set_buf t (e_tm_enc E tm) s)) (\<lambda>obj s.
         andthen (pone_obj_set_ivar obj (bs ''$!tm'') t s) (\<lambda>_ s.
         andthen (pone_int_new w usec s) (\<lambda>u s.
         andthen (pone_obj_set_ivar obj (bs ''$!usec'') u s) (\<lambda>_. Ret obj)))))"

text \<open>The times of a file, as the macro \<open>STAT_TIME\<close> of \<^verbatim>\<open>src/stat.c\<close> makes them.\<close>

definition meth_fileinfo_time :: "string \<Rightarrow> ('z pone_posix_scheme) \<Rightarrow> nat \<Rightarrow> ptr \<Rightarrow> ptr list \<Rightarrow> ptr pone" where
  "meth_fileinfo_time key E w self args s =
     andthen (stat_at self s) (\<lambda>st. pone_time_from_epoch E w (st key) 0)"

definition time_now :: "('z pone_posix_scheme) \<Rightarrow> nat \<Rightarrow> ptr \<Rightarrow> ptr list \<Rightarrow> ptr pone" where
  "time_now E w self args s =
     andthen (args_none E w ''time.now'' args s) (\<lambda>_ s.
     andthen (pone_bytes_new_malloc w SIZEOF_TIMEVAL s) (\<lambda>buf s.
     case e_gettimeofday E of
       Inl e \<Rightarrow> pone_throw_str w (bs ''gettimeofday: '' @ e_strerror E e) s
     | Inr (sec, usec) \<Rightarrow> pone_time_from_epoch E w sec usec s))"

text \<open>\<open>pone_code_new\<close> keeps the current scope with the function.\<close>

definition put_code :: "nat \<Rightarrow> ptr \<Rightarrow> string \<Rightarrow> pone_funcptr_t \<Rightarrow> unit pone" where
  "put_code w module name f s = andthen (pone_code_new w f s) (\<lambda>code. pone_module_put module (bs name) code)"

definition pone_time_init :: "('z pone_rt_scheme) \<Rightarrow> nat \<Rightarrow> unit pone" where
  "pone_time_init E w s =
     andthen (pone_class_new E w ''Time'' s) (\<lambda>klass s.
     andthen (add_methods E w klass
       [(''Str'', ''meth_str''), (''year'', ''meth_year''), (''month'', ''meth_month''), (''mday'', ''meth_mday''),
        (''wday'', ''meth_wday''), (''hour'', ''meth_hour''), (''min'', ''meth_min''), (''sec'', ''meth_sec''),
        (''usec'', ''meth_usec''), (''utc'', ''meth_utc''), (''epoch'', ''meth_epoch'')] s) (\<lambda>_ s.
     andthen (pone_universe_set_global (bs ''Time'') klass (upd_universe (u_class_time_update (\<lambda>_. klass)) s)) (\<lambda>_ s.
     andthen (pone_module_new w (bs ''time'') s) (\<lambda>module s.
     andthen (put_code w module ''now'' ''time_now'' s) (\<lambda>_.
     pone_universe_set_global (bs ''time'') module)))))"

section \<open>Operating system\<close>

definition meth_getwd :: "('z pone_posix_scheme) \<Rightarrow> nat \<Rightarrow> ptr \<Rightarrow> ptr list \<Rightarrow> ptr pone" where
  "meth_getwd E w self args s =
     andthen (args_none E w ''getcwd'' args s) (\<lambda>_ s.
     case e_getcwd E of
       Inl e \<Rightarrow> fail_errno w e s
     | Inr b \<Rightarrow> pone_str_new_strdup w (cstr b @ [0]) (length (cstr b)) s)"

definition meth_is_win :: "('z pone_rt_scheme) \<Rightarrow> nat \<Rightarrow> ptr \<Rightarrow> ptr list \<Rightarrow> ptr pone" where
  "meth_is_win E w self args s = andthen (args_none E w ''OS#is_win'' args s) (\<lambda>_. Ret pone_false)"

definition pone_os_init :: "('z pone_rt_scheme) \<Rightarrow> nat \<Rightarrow> unit pone" where
  "pone_os_init E w s =
     andthen (pone_class_new E w ''$*OS'' s) (\<lambda>os_class s.
     andthen (add_methods E w os_class [(''is_win'', ''meth_is_win'')] s) (\<lambda>_ s.
     andthen (pone_obj_new w os_class s) (\<lambda>os s.
     andthen (pone_universe_set_global (bs ''$*OS'') os s) (\<lambda>_ s.
     andthen (pone_code_new w ''meth_getwd'' s) (\<lambda>code.
     pone_universe_set_global (bs ''getcwd'') code)))))"

section \<open>Dumps\<close>

text \<open>The texts of addresses, and of numbers as \<open>%.f\<close> prints them.\<close>

record pone_dump = pone_posix +
  e_buf_fmt :: "ptr \<Rightarrow> bytes" \<comment> \<open>the buffer of a string\<close>
  e_fun_fmt :: "pone_funcptr_t \<Rightarrow> bytes"
  e_addr_fmt :: "nat \<Rightarrow> bytes"
  e_num_fmt0 :: "pone_num_t \<Rightarrow> bytes"

definition say_out :: "bytes \<Rightarrow> unit pone" where
  "say_out b s = Ret () (put_out b s)"

text \<open>The scopes from \<open>lx\<close> outwards; \<open>fuel\<close> bounds their number.\<close>

fun lex_dump_loop :: "nat \<Rightarrow> ('z pone_rt_scheme) \<Rightarrow> nat \<Rightarrow> ptr \<Rightarrow> unit pone" where
  "lex_dump_loop fuel E i lx s =
     (if lx = Null then Ret () s
      else case fuel of
             0 \<Rightarrow> Undef
           | Suc f \<Rightarrow>
               (case val_as (st_heap s lx) of
                  AsLex parent m _ \<Rightarrow>
                    lex_dump_loop f E (Suc i) parent
                      (put_out (concat (map (\<lambda>(k, v). bs ''  '' @ cstr k @ bs '': '' @ e_ptr_fmt E v @ [10]) (kh_foreach m)))
                        (put_out (bs ''--- '' @ dec_of_nat i @ bs ''('' @ e_ptr_fmt E lx @ bs '')'' @ [10]) s))
                | _ \<Rightarrow> Undef))"

declare lex_dump_loop.simps [simp del]

definition pone_lex_dump :: "nat \<Rightarrow> ('z pone_rt_scheme) \<Rightarrow> ptr \<Rightarrow> unit pone" where
  "pone_lex_dump fuel E lx s =
     andthen (say_out (bs ''--- LEX DUMP('' @ e_ptr_fmt E lx @ bs '') ---'' @ [10]) s) (\<lambda>_ s.
     andthen (lex_dump_loop fuel E 0 lx s) (\<lambda>_.
     say_out (bs ''--- /LEX DUMP ---'' @ [10])))"

definition pin :: "nat \<Rightarrow> unit pone" where
  "pin indent = say_out (replicate indent 32)"

definition hex_digit :: "nat \<Rightarrow> byte" where
  "hex_digit n = (if n < 10 then of_nat (48 + n) else of_nat (87 + n))"

text \<open>\<open>isprint\<close> in the C locale; the argument of \<open>%02x\<close> is a \<open>char\<close> promoted to \<open>int\<close>, so that a byte above 127 prints
  as eight digits.\<close>

definition dd_char :: "byte \<Rightarrow> bytes" where
  "dd_char c =
     (if 32 \<le> c \<and> c \<le> 126 then [c]
      else [92, 120] @ (if 128 \<le> c then replicate 6 102 else []) @ [hex_digit (unat c div 16), hex_digit (unat c mod 16)])"

definition dd_flags :: "pone_val \<Rightarrow> bytes" where
  "dd_flags v =
     (if has_flag PONE_FLAGS_FROZEN v then bs ''FROZEN,'' else []) @
     (if has_flag PONE_FLAGS_STR_COPY v then bs ''STR_COPY,'' else []) @
     (if has_flag PONE_FLAGS_STR_CONST v then bs ''STR_CONST,'' else []) @
     (if has_flag PONE_FLAGS_STR_UTF8 v then bs ''STR_UTF8,'' else [])"

text \<open>
  The loops of \<open>dd\<close>; \<open>f\<close> dumps a value at an indentation.
\<close>

fun dd_pairs :: "(ptr \<Rightarrow> nat \<Rightarrow> unit pone) \<Rightarrow> nat \<Rightarrow> ptr \<Rightarrow> nat \<Rightarrow> ptr list \<Rightarrow> unit pone" where
  "dd_pairs f depth val indent [] s = Ret () s"
| "dd_pairs f depth val indent (key # ks) s =
     andthen (pin (indent + 1) s) (\<lambda>_ s.
     andthen (say_out (bs ''key:'' @ [10]) s) (\<lambda>_ s.
     andthen (f key (indent + 2) s) (\<lambda>_ s.
     andthen (pin (indent + 1) s) (\<lambda>_ s.
     andthen (say_out (bs ''value:'' @ [10]) s) (\<lambda>_ s.
     andthen (pone_map_at_key depth val key s) (\<lambda>v s.
     andthen (f v (indent + 2) s) (\<lambda>_.
     dd_pairs f depth val indent ks)))))))"

fun dd_items :: "(ptr \<Rightarrow> nat \<Rightarrow> unit pone) \<Rightarrow> nat \<Rightarrow> ptr list \<Rightarrow> unit pone" where
  "dd_items f indent [] s = Ret () s"
| "dd_items f indent (v # vs) s =
     andthen (pin (indent + 1) s) (\<lambda>_ s.
     andthen (f v (indent + 2) s) (\<lambda>_. dd_items f indent vs))"

fun dd_ivars :: "(ptr \<Rightarrow> nat \<Rightarrow> unit pone) \<Rightarrow> nat \<Rightarrow> (bytes \<times> ptr) list \<Rightarrow> unit pone" where
  "dd_ivars f indent [] s = Ret () s"
| "dd_ivars f indent ((k, v) # kvs) s =
     andthen (pin (indent + 1) s) (\<lambda>_ s.
     andthen (say_out (bs ''key:'' @ cstr k @ [10]) s) (\<lambda>_ s.
     andthen (f v (indent + 2) s) (\<lambda>_. dd_ivars f indent kvs)))"

definition dd_close :: "nat \<Rightarrow> unit pone" where
  "dd_close indent s = andthen (pin indent s) (\<lambda>_. say_out (bs '')'' @ [10]))"

text \<open>\<open>depth\<close> bounds the nesting: a value that contains itself overflows the C stack.\<close>

fun dd :: "nat \<Rightarrow> ('z pone_dump_scheme) \<Rightarrow> nat \<Rightarrow> ptr \<Rightarrow> nat \<Rightarrow> unit pone" where
  "dd 0 E w val indent s = Undef"
| "dd (Suc depth) E w val indent s =
     andthen (pin indent s) (\<lambda>_ s.
     let f = dd depth E w; v = st_heap s val; fl = dec_of_nat (unat (val_flags v)) in
     case val_as v of
       AsStr d l \<Rightarrow>
         andthen (pone_str_bytes (e_depth E) val s) (\<lambda>b.
         say_out (bs ''(string: '' @ e_ptr_fmt E val @ bs '' as.str.p:'' @ e_buf_fmt E val @ bs '' flags:'' @ dd_flags v @
           bs '' len:'' @ dec_of_nat (length b) @ bs '' , '' @ concat (map dd_char b) @ bs '')'' @ [10]))
     | AsLex _ _ _ \<Rightarrow> Abort
     | AsInt i \<Rightarrow> say_out (bs ''(int: flags:'' @ fl @ bs '' '' @ dec_of_int (sint i) @ bs '')'' @ [10]) s
     | AsNum n \<Rightarrow> say_out (bs ''(num: flags:'' @ fl @ bs '' '' @ e_num_fmt0 E n @ bs '')'' @ [10]) s
     | AsNil \<Rightarrow> say_out (bs ''(undef)'' @ [10]) s
     | AsCode g _ \<Rightarrow> say_out (bs ''(code func:'' @ e_fun_fmt E g @ bs '')'' @ [10]) s
     | AsMap _ _ \<Rightarrow>
         andthen (say_out (bs ''MAP: '' @ e_ptr_fmt E val @ [10]) s) (\<lambda>_ s.
         andthen (pone_map_keys w val s) (\<lambda>ks s.
         case val_as (st_heap s ks) of
           AsAry a mx len \<Rightarrow>
             andthen (dd_pairs f (e_depth E) val indent (take len a) s) (\<lambda>_. dd_close indent)
         | _ \<Rightarrow> Abort))
     | AsAry a mx len \<Rightarrow>
         andthen (say_out (bs ''(array len:'' @ dec_of_nat len @ bs '', max:'' @ dec_of_nat mx @ [10]) s) (\<lambda>_ s.
         if length a < len then Undef
         else andthen (dd_items f indent (take len a) s) (\<lambda>_. dd_close indent))
     | AsBool b \<Rightarrow> say_out (bs ''(bool '' @ bs (if b then ''true'' else ''false'') @ bs '')'' @ [10]) s
     | AsOpaque _ \<Rightarrow>
         andthen (pone_opaque_ptr val s) (\<lambda>p s.
         andthen (say_out (bs ''opaque: '' @ e_addr_fmt E p @ [10]) s) (\<lambda>_ s.
         case val_as (st_heap s val) of
           AsOpaque b \<Rightarrow>
             if o_klass (st_opaque s b) = Null then Ret () s
             else andthen (pin (indent + 1) s) (\<lambda>_ s.
                  andthen (say_out (bs ''class:'' @ [10]) s) (\<lambda>_.
                  f (o_klass (st_opaque s b)) (indent + 2)))
         | _ \<Rightarrow> Undef))
     | AsObj klass ivar \<Rightarrow>
         andthen (say_out (bs ''(obj'' @ [10]) s) (\<lambda>_ s.
         andthen (pin (indent + 1) s) (\<lambda>_ s.
         andthen (if klass \<noteq> Null
                  then andthen (say_out (bs ''class:'' @ [10]) s) (\<lambda>_. f klass (indent + 2))
                  else say_out (bs ''class is NULL!'' @ [10]) s) (\<lambda>_ s.
         andthen (dd_ivars f indent (kh_foreach ivar) s) (\<lambda>_. dd_close indent))))
     | AsFree _ \<Rightarrow> Ret () s)"

definition pone_dd :: "nat \<Rightarrow> ('z pone_dump_scheme) \<Rightarrow> nat \<Rightarrow> ptr \<Rightarrow> unit pone" where
  "pone_dd depth E w val = dd depth E w val 0"

section \<open>The module internals\<close>

definition meth_set_global :: "('z pone_rt_scheme) \<Rightarrow> nat \<Rightarrow> ptr \<Rightarrow> ptr list \<Rightarrow> ptr pone" where
  "meth_set_global E w self args s =
     andthen (pone_arg E w ''internals.set_global'' ''so'' args s) (\<lambda>vs s.
     case vs of
       [PStr name n, PObj val] \<Rightarrow>
         andthen (pone_universe_set_global name val s) (\<lambda>_ s.
         andthen (say_out (bs ''SeT '' @ cstr name @ [10]) s) (\<lambda>_. Ret pone_nil))
     | _ \<Rightarrow> Undef)"

definition meth_dump_lex :: "nat \<Rightarrow> ('z pone_rt_scheme) \<Rightarrow> nat \<Rightarrow> ptr \<Rightarrow> ptr list \<Rightarrow> ptr pone" where
  "meth_dump_lex fuel E w self args s =
     andthen (pone_lex_dump fuel E (w_lex (st_world s w)) s) (\<lambda>_. Ret pone_nil)"

definition pone_internals_init :: "nat \<Rightarrow> unit pone" where
  "pone_internals_init w s =
     andthen (pone_module_new w (bs ''internals'') s) (\<lambda>m s.
     andthen (put_code w m ''set_global'' ''meth_set_global'' s) (\<lambda>_ s.
     andthen (put_code w m ''dump_lex'' ''meth_dump_lex'' s) (\<lambda>_.
     pone_universe_set_global (bs ''internals'') m)))"

text \<open>The functions \<open>dd\<close> and \<open>INTERNALS__dump_lex\<close> of \<^verbatim>\<open>src/builtin.c\<close>.\<close>

definition meth_dd :: "nat \<Rightarrow> ('z pone_dump_scheme) \<Rightarrow> nat \<Rightarrow> ptr \<Rightarrow> ptr list \<Rightarrow> ptr pone" where
  "meth_dd depth E w self args s =
     andthen (args_o E w ''dd'' args s) (\<lambda>val s.
     andthen (pone_dd depth E w val s) (\<lambda>_. Ret pone_nil))"

definition meth_internals_dump_lex :: "nat \<Rightarrow> ('z pone_rt_scheme) \<Rightarrow> nat \<Rightarrow> ptr \<Rightarrow> ptr list \<Rightarrow> ptr pone" where
  "meth_internals_dump_lex fuel E w self args s =
     andthen (pone_lex_dump fuel E (w_lex (st_world s w)) s) (\<lambda>_. Ret pone_nil)"

end
