(* ===== verification/Pone_Regex.thy ===== *)
theory Pone_Regex
  imports Pone_File
begin

text \<open>
  Regular expressions (\<^verbatim>\<open>src/re.c\<close>). Compiling and searching belong to the library Oniguruma and are parameters;
  modelled is what the run-time makes of a result: the tree of matches of the groups and its text.
\<close>

text \<open>
  \<open>e_onig_new\<close> gives the message for a pattern that cannot be compiled. \<open>e_onig_search\<close> gives the region of a
  match: begin and end of the whole match and of each group, -1 for a group that did not take part.
\<close>

record pone_onig = pone_posix +
  e_onig_new :: "bytes \<Rightarrow> bytes option"
  e_onig_search :: "bytes \<Rightarrow> bytes \<Rightarrow> (pone_int_t \<times> pone_int_t) list option"

definition re_finalizer :: "ptr \<Rightarrow> unit pone" where
  "re_finalizer val s = andthen (pone_opaque_ptr val s) (\<lambda>p. os_do (c_free p))"

definition pone_regex_new :: "('z pone_onig_scheme) \<Rightarrow> nat \<Rightarrow> bytes \<Rightarrow> nat \<Rightarrow> ptr pone" where
  "pone_regex_new E w str len s =
     andthen (pone_obj_new w (u_class_regex (st_universe s)) s) (\<lambda>obj s.
     case e_onig_new E (take len str) of
       Some msg \<Rightarrow> andthen (pone_str_new_strdup w msg (length msg) s) (\<lambda>v. pone_throw w v)
     | None \<Rightarrow>
         andthen (os_get (c_new (RegexObj (take len str))) s) (\<lambda>re s.
         andthen (pone_opaque_new w (u_class_onig (st_universe s)) re (Some ''re_finalizer'') s) (\<lambda>og s.
         andthen (pone_obj_set_ivar obj (bs ''$!re'') og s) (\<lambda>_ s.
         andthen (pone_str_new_strdup w str len s) (\<lambda>v s.
         andthen (pone_obj_set_ivar obj (bs ''$!str'') v s) (\<lambda>_. Ret obj))))))"

section \<open>Matches\<close>

definition pone_match_new :: "nat \<Rightarrow> ptr \<Rightarrow> pone_int_t \<Rightarrow> pone_int_t \<Rightarrow> ptr pone" where
  "pone_match_new w orig from to s =
     (if u_class_match (st_universe s) = Null then Abort
      else andthen (pone_obj_new w (u_class_match (st_universe s)) s) (\<lambda>obj s.
           andthen (pone_obj_set_ivar obj (bs ''$!orig'') orig s) (\<lambda>_ s.
           andthen (pone_int_new w from s) (\<lambda>f s.
           andthen (pone_obj_set_ivar obj (bs ''$!from'') f s) (\<lambda>_ s.
           andthen (pone_int_new w to s) (\<lambda>t s.
           andthen (pone_obj_set_ivar obj (bs ''$!to'') t s) (\<lambda>_ s.
           andthen (pone_ary_new w [] s) (\<lambda>l s.
           andthen (pone_obj_set_ivar obj (bs ''@!list'') l s) (\<lambda>_. Ret obj)))))))))"

text \<open>
  A group is put below the first match of the list that does not begin after it, otherwise at the end of the
  list. \<open>match_place\<close> is the loop: the index of that match, if there is one. \<open>depth\<close> bounds the
  nesting of the tree.
\<close>

fun match_place :: "('z pone_rt_scheme) \<Rightarrow> nat \<Rightarrow> ptr \<Rightarrow> pone_int_t \<Rightarrow> nat \<Rightarrow> nat \<Rightarrow> ptr option pone" where
  "match_place E w l from i 0 s = Ret None s"
| "match_place E w l from i (Suc n) s =
     andthen (pone_ary_at_pos l (int i) s) (\<lambda>c s.
     andthen (pone_obj_get_ivar c (bs ''$!from'') s) (\<lambda>f s.
     andthen (pone_intify E w f s) (\<lambda>c_from s.
     if sint from \<ge> sint c_from then Ret (Some c) s
     else match_place E w l from (Suc i) n s)))"

fun pone_match_push :: "nat \<Rightarrow> ('z pone_rt_scheme) \<Rightarrow> nat \<Rightarrow> ptr \<Rightarrow> pone_int_t \<Rightarrow> pone_int_t \<Rightarrow> unit pone" where
  "pone_match_push 0 E w self from to s = Undef"
| "pone_match_push (Suc depth) E w self from to s =
     andthen (pone_obj_get_ivar self (bs ''@!list'') s) (\<lambda>l s.
     andthen (pone_obj_get_ivar self (bs ''$!orig'') s) (\<lambda>orig s.
     andthen (pone_ary_size l s) (\<lambda>n s.
     andthen (match_place E w l from 0 n s) (\<lambda>c s.
     case c of
       Some c \<Rightarrow> pone_match_push depth E w c from to s
     | None \<Rightarrow> andthen (pone_match_new w orig from to s) (\<lambda>m. pone_ary_push l m)))))"

fun push_groups :: "nat \<Rightarrow> ('z pone_rt_scheme) \<Rightarrow> nat \<Rightarrow> ptr \<Rightarrow> (pone_int_t \<times> pone_int_t) list \<Rightarrow> unit pone" where
  "push_groups depth E w match [] s = Ret () s"
| "push_groups depth E w match ((from, to) # gs) s =
     andthen (pone_match_push depth E w match from to s) (\<lambda>_. push_groups depth E w match gs)"

definition meth_regex_accepts :: "nat \<Rightarrow> ('z pone_onig_scheme) \<Rightarrow> nat \<Rightarrow> ptr \<Rightarrow> ptr list \<Rightarrow> ptr pone" where
  "meth_regex_accepts depth E w self args s =
     andthen (args_o E w ''Regex#ACCEPTS'' args s) (\<lambda>obj s.
     andthen (pone_stringify E w obj s) (\<lambda>obj s.
     andthen (pone_obj_get_ivar self (bs ''$!re'') s) (\<lambda>og s.
     andthen (pone_opaque_ptr og s) (\<lambda>p s.
     andthen (pone_str_bytes (e_depth E) obj s) (\<lambda>b s.
     case os_obj (st_os s) p of
       RegexObj re \<Rightarrow>
         (case e_onig_search E re b of
            Some ((from, to) # gs) \<Rightarrow>
              andthen (pone_match_new w obj from to s) (\<lambda>match s.
              andthen (push_groups depth E w match gs s) (\<lambda>_. Ret match))
          | Some [] \<Rightarrow> Undef
          | None \<Rightarrow> Ret pone_nil s)
     | _ \<Rightarrow> Undef)))))"

definition meth_regex_str :: "('z pone_rt_scheme) \<Rightarrow> nat \<Rightarrow> ptr \<Rightarrow> ptr list \<Rightarrow> ptr pone" where
  "meth_regex_str E w self args = getter ''$!str'' self args"

definition meth_match_from :: "('z pone_rt_scheme) \<Rightarrow> nat \<Rightarrow> ptr \<Rightarrow> ptr list \<Rightarrow> ptr pone" where
  "meth_match_from E w self args = getter ''$!from'' self args"

definition meth_match_to :: "('z pone_rt_scheme) \<Rightarrow> nat \<Rightarrow> ptr \<Rightarrow> ptr list \<Rightarrow> ptr pone" where
  "meth_match_to E w self args = getter ''$!to'' self args"

definition meth_match_orig :: "('z pone_rt_scheme) \<Rightarrow> nat \<Rightarrow> ptr \<Rightarrow> ptr list \<Rightarrow> ptr pone" where
  "meth_match_orig E w self args = getter ''$!orig'' self args"

definition meth_match_list :: "('z pone_rt_scheme) \<Rightarrow> nat \<Rightarrow> ptr \<Rightarrow> ptr list \<Rightarrow> ptr pone" where
  "meth_match_list E w self args = getter ''@!list'' self args"

text \<open>The loop over the submatches; \<open>str\<close> makes the text of one.\<close>

fun match_children :: "('z pone_rt_scheme) \<Rightarrow> nat \<Rightarrow> (ptr \<Rightarrow> nat \<Rightarrow> ptr pone) \<Rightarrow> ptr \<Rightarrow> ptr \<Rightarrow> nat \<Rightarrow> nat \<Rightarrow> unit pone" where
  "match_children E w str buf l i 0 s = Ret () s"
| "match_children E w str buf l i (Suc n) s =
     andthen (pone_ary_at_pos l (int i) s) (\<lambda>m s.
     andthen (str m i s) (\<lambda>v s.
     andthen (pone_str_append E w buf v s) (\<lambda>_.
     match_children E w str buf l (Suc i) n)))"

text \<open>
  The corner brackets are U+FF62 and U+FF63 in UTF-8. The text between \<open>from\<close> and \<open>to\<close> is copied from the buffer
  of the string without a check, which is undefined for positions outside it.
\<close>

definition match_slice :: "bytes \<Rightarrow> int \<Rightarrow> int \<Rightarrow> bytes option" where
  "match_slice b from to =
     (if 0 \<le> from \<and> from \<le> to \<and> to \<le> int (length b) then Some (take (nat (to - from)) (drop (nat from) b)) else None)"

fun match_str :: "nat \<Rightarrow> ('z pone_rt_scheme) \<Rightarrow> nat \<Rightarrow> ptr \<Rightarrow> nat option \<Rightarrow> nat \<Rightarrow> ptr pone" where
  "match_str 0 E w self n indent s = Undef"
| "match_str (Suc depth) E w self n indent s =
     andthen (pone_obj_get_ivar self (bs ''$!orig'') s) (\<lambda>orig s.
     andthen (pone_obj_get_ivar self (bs ''$!from'') s) (\<lambda>f s.
     andthen (pone_intify E w f s) (\<lambda>from s.
     andthen (pone_obj_get_ivar self (bs ''$!to'') s) (\<lambda>t s.
     andthen (pone_intify E w t s) (\<lambda>to s.
     andthen (pone_obj_get_ivar self (bs ''@!list'') s) (\<lambda>l s.
     andthen (pone_str_new_strdup w [0] 0 s) (\<lambda>buf s.
     andthen (append_lit E w buf (replicate indent CHR '' '') s) (\<lambda>_ s.
     andthen (case n of
                Some i \<Rightarrow> andthen (pone_str_new_vprintf w (dec_of_nat i @ [32]) s) (\<lambda>v. pone_str_append E w buf v)
              | None \<Rightarrow> Ret () s) (\<lambda>_ s.
     andthen (pone_str_append_c (e_depth E) w buf [0xEF, 0xBD, 0xA2] s) (\<lambda>_ s.
     andthen (pone_str_ptr (e_depth E) orig s) (\<lambda>b s.
     andthen (from_option (match_slice b (sint from) (sint to)) s) (\<lambda>txt s.
     andthen (pone_str_append_c (e_depth E) w buf txt s) (\<lambda>_ s.
     andthen (pone_str_append_c (e_depth E) w buf [0xEF, 0xBD, 0xA3, 10] s) (\<lambda>_ s.
     andthen (pone_ary_size l s) (\<lambda>k s.
     andthen (match_children E w (\<lambda>m i. match_str depth E w m (Some i) (indent + 1)) buf l 0 k s) (\<lambda>_.
     Ret buf))))))))))))))))"

definition meth_match_str :: "nat \<Rightarrow> ('z pone_rt_scheme) \<Rightarrow> nat \<Rightarrow> ptr \<Rightarrow> ptr list \<Rightarrow> ptr pone" where
  "meth_match_str depth E w self args s =
     andthen (args_none E w ''Match#Str'' args s) (\<lambda>_. match_str depth E w self None 0)"

definition pone_regex_init :: "('z pone_rt_scheme) \<Rightarrow> nat \<Rightarrow> unit pone" where
  "pone_regex_init E w s =
     (if u_class_regex (st_universe s) \<noteq> Null then Abort
      else andthen (pone_class_new E w ''Regex'' s) (\<lambda>re s.
           andthen (pone_class_new E w ''onig'' (upd_universe (u_class_regex_update (\<lambda>_. re)) s)) (\<lambda>og s.
           andthen (add_methods E w re [(''ACCEPTS'', ''meth_regex_accepts''), (''Str'', ''meth_regex_str'')]
             (upd_universe (u_class_onig_update (\<lambda>_. og)) s)) (\<lambda>_ s.
           andthen (pone_class_new E w ''Match'' s) (\<lambda>m s.
           andthen (add_methods E w m [(''from'', ''meth_match_from''), (''Str'', ''meth_match_str''),
             (''to'', ''meth_match_to''), (''orig'', ''meth_match_orig''), (''list'', ''meth_match_list'')]
             (upd_universe (u_class_match_update (\<lambda>_. m)) s)) (\<lambda>_.
           pone_universe_set_global (bs ''Regex'') re))))))"

end
