(* ===== verification/Pone_Net.thy ===== *)
theory Pone_Net
  imports Pone_File
begin

text \<open>
  Sockets (\<^verbatim>\<open>ext/socket.c\<close>) and the parser of HTTP requests (\<^verbatim>\<open>ext/http_parser.c\<close>). The system calls are parameters that
  may change the state of the operating system; one that can fail returns the error number on the left. The
  parser itself is the vendored picohttpparser, a parameter too. Modelled for a system with \<open>accept\<close> and
  \<open>SOCK_CLOEXEC\<close>.
\<close>

datatype sa_family = AF_INET | AF_INET6 | AF_OTHER int

record sockaddr =
  sa_family :: sa_family
  sa_addr :: bytes
  sa_port :: "16 word"

type_synonym 'a syscall = "os_state \<Rightarrow> (int + 'a) \<times> os_state"

record pone_net = pone_posix +
  e_write :: "int \<Rightarrow> bytes \<Rightarrow> nat syscall"
  e_read :: "int \<Rightarrow> nat \<Rightarrow> bytes syscall"
  e_accept :: "int \<Rightarrow> int syscall"
  e_fcntl :: "int \<Rightarrow> unit syscall"
  e_getsockname :: "int \<Rightarrow> sockaddr syscall"
  e_getpeername :: "int \<Rightarrow> sockaddr syscall"
  e_inet_ntop :: "sockaddr \<Rightarrow> int + bytes"
  e_getaddrinfo :: "bytes \<Rightarrow> bytes \<Rightarrow> bytes + sockaddr list" \<comment> \<open>the message of the failure\<close>
  e_socket :: "sockaddr \<Rightarrow> int syscall"
  e_connect :: "int \<Rightarrow> sockaddr \<Rightarrow> unit syscall"
  e_bind :: "int \<Rightarrow> sockaddr \<Rightarrow> unit syscall"
  e_listen :: "int \<Rightarrow> int \<Rightarrow> unit syscall"
  e_setsockopt :: "int \<Rightarrow> unit syscall"
  e_phr_parse_request :: "bytes \<Rightarrow> int \<times> bytes \<times> bytes"

text \<open>A system call: a failure sets \<open>errno\<close>.\<close>

definition sys :: "'a syscall \<Rightarrow> 'a option pone" where
  "sys f s =
     (case f (st_os s) of
        (Inr x, os) \<Rightarrow> Ret (Some x) (s\<lparr>st_os := os\<rparr>)
      | (Inl e, os) \<Rightarrow> Ret None (s\<lparr>st_os := os\<lparr>os_errno := e\<rparr>\<rparr>))"

definition c_close :: "int \<Rightarrow> pone_state \<Rightarrow> pone_state" where
  "c_close fd s = s\<lparr>st_os := (st_os s)\<lparr>os_fd := (os_fd (st_os s))(fd := None)\<rparr>\<rparr>"

section \<open>Sockets\<close>

definition sock_fd :: "ptr \<Rightarrow> int pone" where
  "sock_fd self s =
     andthen (pone_opaque_ptr self s) (\<lambda>p s.
     case os_obj (st_os s) p of SockObj fd \<Rightarrow> Ret fd s | _ \<Rightarrow> Undef)"

definition sock_close :: "nat \<Rightarrow> unit pone" where
  "sock_close p s =
     (case os_obj (st_os s) p of
        SockObj fd \<Rightarrow>
          if fd \<noteq> 0
          then (let s = c_close fd s in Ret () (s\<lparr>st_os := set_obj p (SockObj 0) (st_os s)\<rparr>))
          else Ret () s
      | _ \<Rightarrow> Undef)"

definition sock_finalizer :: "ptr \<Rightarrow> unit pone" where
  "sock_finalizer val s =
     andthen (pone_opaque_ptr val s) (\<lambda>p s.
     andthen (sock_close p s) (\<lambda>_. os_do (c_free p)))"

definition meth_sock_close :: "('z pone_rt_scheme) \<Rightarrow> nat \<Rightarrow> ptr \<Rightarrow> ptr list \<Rightarrow> ptr pone" where
  "meth_sock_close E w self args s =
     andthen (args_none E w ''Socket#close'' args s) (\<lambda>_ s.
     andthen (pone_opaque_ptr self s) (\<lambda>p s.
     andthen (sock_close p s) (\<lambda>_. Ret pone_nil)))"

definition meth_sock_write :: "('z pone_net_scheme) \<Rightarrow> nat \<Rightarrow> ptr \<Rightarrow> ptr list \<Rightarrow> ptr pone" where
  "meth_sock_write E w self args s =
     andthen (args_o E w ''Socket#write'' args s) (\<lambda>buf s.
     if buf = Null then Abort
     else andthen (sock_fd self s) (\<lambda>fd s.
          andthen (pone_str_bytes (e_depth E) buf s) (\<lambda>b s.
          andthen (sys (e_write E fd b) s) (\<lambda>r.
          pone_int_new w (case r of Some n \<Rightarrow> of_nat n | None \<Rightarrow> -1)))))"

definition meth_sock_read :: "('z pone_net_scheme) \<Rightarrow> nat \<Rightarrow> ptr \<Rightarrow> ptr list \<Rightarrow> ptr pone" where
  "meth_sock_read E w self args s =
     andthen (args_i E w ''Socket#read'' args s) (\<lambda>len s.
     andthen (pone_bytes_new_malloc w len s) (\<lambda>buf s.
     let n = nat (sint len) in
     andthen (sock_fd self s) (\<lambda>fd s.
     andthen (sys (e_read E fd n) s) (\<lambda>r s.
     case r of
       Some b \<Rightarrow>
         if n < length b then Undef
         else andthen (pone_bytes_truncate buf (length b)
                (set_as buf (AsStr (StrBuf (b @ replicate (n - length b) 0)) n) s)) (\<lambda>_. Ret buf)
     | None \<Rightarrow> Ret pone_nil (keep_errno w s)))))"

definition meth_sock_accept :: "('z pone_net_scheme) \<Rightarrow> nat \<Rightarrow> ptr \<Rightarrow> ptr list \<Rightarrow> ptr pone" where
  "meth_sock_accept E w self args s =
     andthen (args_none E w ''Socket#accept'' args s) (\<lambda>_ s.
     andthen (sock_fd self s) (\<lambda>fd s.
     andthen (sys (e_accept E fd) s) (\<lambda>r s.
     case r of
       None \<Rightarrow> Ret pone_nil (keep_errno w s)
     | Some cfd \<Rightarrow>
         andthen (sys (e_fcntl E cfd) s) (\<lambda>r s.
         case r of
           None \<Rightarrow> Ret pone_nil (keep_errno w s)
         | Some _ \<Rightarrow>
             andthen (os_get (c_new (SockObj cfd)) s) (\<lambda>p s.
             andthen (pone_what self s) (\<lambda>klass.
             pone_opaque_new w klass p (Some ''sock_finalizer'')))))))"

text \<open>
  The text of an address. \<open>struct sockaddr\<close> has 16 bytes: of the address of an IPv6 socket, bytes 8 to 23 of its
  structure, only a part is in it. For another family the buffer that is returned was never written.
\<close>

definition get_addr :: "('z pone_net_scheme) \<Rightarrow> nat \<Rightarrow> sockaddr \<Rightarrow> ptr pone" where
  "get_addr E w addr s =
     (case sa_family addr of
        AF_INET \<Rightarrow>
          (case e_inet_ntop E addr of
             Inl e \<Rightarrow> fail_errno w e s
           | Inr b \<Rightarrow> pone_str_new_strdup w (cstr b @ [0]) (length (cstr b)) s)
      | AF_INET6 \<Rightarrow> Undef
      | AF_OTHER f \<Rightarrow> Undef)"

definition get_port :: "nat \<Rightarrow> sockaddr \<Rightarrow> ptr pone" where
  "get_port w addr s =
     (case sa_family addr of
        AF_OTHER f \<Rightarrow> pone_throw_str w (bs ''Unsupported socket family: '' @ dec_of_int f) s
      | _ \<Rightarrow> pone_int_new w (ucast (sa_port addr)) s)"

definition sock_name :: "nat \<Rightarrow> (int \<Rightarrow> sockaddr syscall) \<Rightarrow> (sockaddr \<Rightarrow> ptr pone) \<Rightarrow> ptr \<Rightarrow> ptr pone" where
  "sock_name w call f self s =
     andthen (sock_fd self s) (\<lambda>fd s.
     andthen (sys (call fd) s) (\<lambda>r s.
     case r of Some addr \<Rightarrow> f addr s | None \<Rightarrow> Ret pone_nil (keep_errno w s)))"

definition meth_sock_sockaddr :: "('z pone_net_scheme) \<Rightarrow> nat \<Rightarrow> ptr \<Rightarrow> ptr list \<Rightarrow> ptr pone" where
  "meth_sock_sockaddr E w self args = sock_name w (e_getsockname E) (get_addr E w) self"

definition meth_sock_sockport :: "('z pone_net_scheme) \<Rightarrow> nat \<Rightarrow> ptr \<Rightarrow> ptr list \<Rightarrow> ptr pone" where
  "meth_sock_sockport E w self args = sock_name w (e_getsockname E) (get_port w) self"

definition meth_sock_peeraddr :: "('z pone_net_scheme) \<Rightarrow> nat \<Rightarrow> ptr \<Rightarrow> ptr list \<Rightarrow> ptr pone" where
  "meth_sock_peeraddr E w self args = sock_name w (e_getpeername E) (get_addr E w) self"

definition meth_sock_peerport :: "('z pone_net_scheme) \<Rightarrow> nat \<Rightarrow> ptr \<Rightarrow> ptr list \<Rightarrow> ptr pone" where
  "meth_sock_peerport E w self args = sock_name w (e_getpeername E) (get_port w) self"

text \<open>
  The loop over the addresses of a name: the first for which a socket can be made and \<open>use\<close> succeeds.
\<close>

fun first_address :: "('z pone_net_scheme) \<Rightarrow> nat \<Rightarrow> (int \<Rightarrow> sockaddr \<Rightarrow> unit syscall) \<Rightarrow> sockaddr list \<Rightarrow> int option pone" where
  "first_address E w use [] s = Ret None s"
| "first_address E w use (rp # rps) s =
     andthen (sys (e_socket E rp) s) (\<lambda>r s.
     case r of
       None \<Rightarrow> first_address E w use rps (keep_errno w s)
     | Some fd \<Rightarrow>
         andthen (sys (use fd rp) s) (\<lambda>r s.
         case r of
           Some _ \<Rightarrow> Ret (Some fd) s
         | None \<Rightarrow> first_address E w use rps (c_close fd (keep_errno w s))))"

definition new_socket :: "nat \<Rightarrow> int \<Rightarrow> ptr pone" where
  "new_socket w fd s =
     andthen (os_get (c_new (SockObj fd)) s) (\<lambda>p s.
     andthen (pone_get_lex w (bs ''klass'') s) (\<lambda>klass.
     pone_opaque_new w klass p (Some ''sock_finalizer'')))"

definition addr_error :: "nat \<Rightarrow> bytes \<Rightarrow> bytes \<Rightarrow> bytes \<Rightarrow> ptr pone" where
  "addr_error w addr port msg =
     pone_throw_str w (bs ''getaddrinfo: '' @ cstr addr @ bs '':'' @ cstr port @ bs '': '' @ msg @ [10])"

definition meth_sock_connect :: "('z pone_net_scheme) \<Rightarrow> nat \<Rightarrow> ptr \<Rightarrow> ptr list \<Rightarrow> ptr pone" where
  "meth_sock_connect E w self args s =
     andthen (pone_arg E w ''Socket#connect'' ''ss'' args s) (\<lambda>vs s.
     case vs of
       [PStr addr n, PStr port m] \<Rightarrow>
         (case e_getaddrinfo E (cstr addr) (cstr port) of
            Inl msg \<Rightarrow> addr_error w addr port msg s
          | Inr result \<Rightarrow>
              andthen (first_address E w (e_connect E) result s) (\<lambda>r s.
              case r of None \<Rightarrow> Ret pone_nil s | Some fd \<Rightarrow> new_socket w fd s))
     | _ \<Rightarrow> Undef)"

definition SOMAXCONN :: pone_int_t where "SOMAXCONN = 4096"

definition sock_listen :: "('z pone_net_scheme) \<Rightarrow> nat \<Rightarrow> bytes \<Rightarrow> bytes \<Rightarrow> pone_int_t \<Rightarrow> ptr pone" where
  "sock_listen E w addr port backlog s =
     (case e_getaddrinfo E (cstr addr) (cstr port) of
        Inl msg \<Rightarrow> addr_error w addr port msg s
      | Inr result \<Rightarrow>
          andthen (first_address E w (e_bind E) result s) (\<lambda>r s.
          case r of
            None \<Rightarrow> Ret pone_nil s
          | Some fd \<Rightarrow>
              andthen (sys (e_listen E fd (sint (ucast backlog :: 32 word))) s) (\<lambda>r s.
              case r of
                None \<Rightarrow> Ret pone_nil (keep_errno w s)
              | Some _ \<Rightarrow>
                  andthen (sys (e_setsockopt E fd) s) (\<lambda>r s.
                  case r of
                    None \<Rightarrow> Ret pone_nil (keep_errno w s)
                  | Some _ \<Rightarrow> new_socket w fd s))))"

definition meth_sock_listen :: "('z pone_net_scheme) \<Rightarrow> nat \<Rightarrow> ptr \<Rightarrow> ptr list \<Rightarrow> ptr pone" where
  "meth_sock_listen E w self args s =
     andthen (pone_arg E w ''Socket#listen'' ''ss:i'' args s) (\<lambda>vs s.
     case vs of
       [PStr addr n, PStr port m] \<Rightarrow> sock_listen E w addr port SOMAXCONN s
     | [PStr addr n, PStr port m, PInt backlog] \<Rightarrow> sock_listen E w addr port backlog s
     | _ \<Rightarrow> Undef)"

definition put_bound :: "nat \<Rightarrow> ptr \<Rightarrow> ptr \<Rightarrow> string \<Rightarrow> pone_funcptr_t \<Rightarrow> unit pone" where
  "put_bound w module klass name f s =
     andthen (pone_code_new w f s) (\<lambda>code s.
     andthen (pone_code_bind code (bs ''klass'') klass s) (\<lambda>_.
     pone_module_put module (bs name) code))"

definition PONE_DLL_socket :: "('z pone_rt_scheme) \<Rightarrow> nat \<Rightarrow> ptr \<Rightarrow> unit pone" where
  "PONE_DLL_socket E w module s =
     andthen (pone_class_new E w ''Socket'' s) (\<lambda>klass s.
     andthen (add_methods E w klass
       [(''accept'', ''meth_sock_accept''), (''close'', ''meth_sock_close''), (''write'', ''meth_sock_write''),
        (''read'', ''meth_sock_read''), (''sockaddr'', ''meth_sock_sockaddr''), (''sockport'', ''meth_sock_sockport''),
        (''peeraddr'', ''meth_sock_peeraddr''), (''peerport'', ''meth_sock_peerport'')] s) (\<lambda>_ s.
     andthen (pone_module_put module (bs ''Socket'') klass s) (\<lambda>_ s.
     andthen (put_bound w module klass ''listen'' ''meth_sock_listen'' s) (\<lambda>_.
     put_bound w module klass ''connect'' ''meth_sock_connect''))))"

section \<open>HTTP requests\<close>

definition set_env :: "('z pone_rt_scheme) \<Rightarrow> nat \<Rightarrow> ptr \<Rightarrow> string \<Rightarrow> ptr \<Rightarrow> unit pone" where
  "set_env E w env key v s = andthen (pone_str_lit w key s) (\<lambda>k. pone_map_assign_key E w env k v)"

definition meth_parse_request :: "('z pone_net_scheme) \<Rightarrow> nat \<Rightarrow> ptr \<Rightarrow> ptr list \<Rightarrow> ptr pone" where
  "meth_parse_request E w self args s =
     andthen (args_o E w ''http/parser.parse_request'' args s) (\<lambda>buf s.
     andthen (pone_str_bytes (e_depth E) buf s) (\<lambda>b s.
     case e_phr_parse_request E b of
       (pret, method, path) \<Rightarrow>
         if pret > 0
         then andthen (pone_map_new w s) (\<lambda>env s.
              andthen (pone_str_new_strdup w method (length method) s) (\<lambda>v s.
              andthen (set_env E w env ''REQUEST_METHOD'' v s) (\<lambda>_ s.
              andthen (pone_str_new_strdup w path (length path) s) (\<lambda>v s.
              andthen (set_env E w env ''REQUEST_URI'' v s) (\<lambda>_ s.
              andthen (pone_str_lit w '''' s) (\<lambda>v s.
              andthen (set_env E w env ''SCRIPT_NAME'' v s) (\<lambda>_ s.
              andthen (pone_int_new w (of_int pret) s) (\<lambda>n.
              pone_ary_new w [n, env]))))))))
         else andthen (pone_int_new w (of_int pret) s) (\<lambda>n. pone_ary_new w [n])))"

definition PONE_DLL_http_parser :: "nat \<Rightarrow> ptr \<Rightarrow> unit pone" where
  "PONE_DLL_http_parser w module s =
     andthen (pone_code_new w ''meth_parse_request'' s) (\<lambda>code. pone_module_put module (bs ''parse_request'') code)"

end
