(* ===== verification/Pone_Class_Table.thy ===== *)
theory Pone_Class_Table
  imports Pone_Methods_Correct
begin

text \<open>
  Classes as finite maps (\<^verbatim>\<open>src/class.c\<close>). A class is an object whose variable \<open>$!methods\<close> is a map from the
  names of its methods to code values. \<open>class_at\<close> relates it to a finite map; adding a method updates that map
  and finding one looks it up, whatever else is allocated in between.
\<close>

section \<open>Keys of a table\<close>

text \<open>The invariant of a table reads keys only through their views, and only those of live buckets.\<close>

lemma kh_view:
  assumes same: "\<forall>i \<in> kh_live h. rep' (kh_key h i) = rep (kh_key h i) \<and> hash' (kh_key h i) = hash (kh_key h i)"
    and inv: "kh_inv hash rep h"
  shows "kh_inv hash' rep' h" "kh_lookup rep' h = kh_lookup rep h"
proof -
  have path: "kh_path hash' n fl (kh_key h i) i \<longleftrightarrow> kh_path hash n fl (kh_key h i) i" if "i \<in> kh_live h" for i n fl
    using same that by (simp add: kh_path_def)
  have inj: "inj_on (\<lambda>i. rep' (kh_key h i)) (kh_live h)"
    using kh_inv_inj [OF inv] same by (simp add: inj_on_def)
  then show "kh_inv hash' rep' h" using inv path by (simp add: kh_inv_def)
  show "kh_lookup rep' h = kh_lookup rep h"
  proof -
    have "map (\<lambda>(k, v). (rep' k, v)) (kh_foreach h) = map (\<lambda>(k, v). (rep k, v)) (kh_foreach h)"
    proof (rule map_cong [OF refl])
      fix x assume "x \<in> set (kh_foreach h)"
      then obtain i where "i \<in> kh_live h" "x = (kh_key h i, kh_val h i)" by (auto simp: set_kh_foreach)
      then show "(\<lambda>(k, v). (rep' k, v)) x = (\<lambda>(k, v). (rep k, v)) x" using same by simp
    qed
    then show ?thesis unfolding kh_lookup_def by (rule arg_cong)
  qed
qed

lemma kh_inv_keys: "kh_inv hash rep h \<Longrightarrow> kh_inv hash (\<lambda>k. k) h"
  by (auto simp: kh_inv_def inj_on_def)

lemma keys_of_lookup: "kh_lookup (\<lambda>k. k) h' = kh_lookup (\<lambda>k. k) h \<Longrightarrow> kh_key h' ` kh_live h' = kh_key h ` kh_live h"
  using dom_kh_lookup [of "\<lambda>k. k" h] dom_kh_lookup [of "\<lambda>k. k" h'] by simp

context khash_keys
begin

text \<open>A store keeps the keys that are there and adds at most the given one.\<close>

lemma store_keys:
  assumes inv: "kh_inv hash rep h" "kh_size h < 2 ^ 30" and st: "kh_store hash eq h key v = Some (h', r)"
  shows "kh_key h' ` kh_live h' \<subseteq> insert key (kh_key h ` kh_live h)"
proof -
  have ids: "khash_keys hash (=) (\<lambda>k. k)" by unfold_locales simp_all
  obtain h1 where h1: "(if n_occupied h \<ge> upper_bound h
        then if n_buckets h > push_bit 1 (kh_size h) then kh_resize hash h (n_buckets h - 1)
             else kh_resize hash h (n_buckets h + 1)
        else Some h) = Some h1" "kh_inv hash rep h1" "n_occupied h1 < upper_bound h1" "n_buckets h1 \<noteq> 0"
    using put_grow [OF inv] by blast
  have "kh_lookup (\<lambda>k. k) h1 = kh_lookup (\<lambda>k. k) h"
    using khash_keys.put_grow [OF ids kh_inv_keys [OF inv(1)] inv(2)] h1(1) by force
  then have keys1: "kh_key h1 ` kh_live h1 = kh_key h ` kh_live h" by (rule keys_of_lookup)
  obtain x where x: "kh_put_bucket hash eq h1 key = Some x" "x < n_buckets h1"
    and spec: "x \<in> kh_live h1 \<and> rep (kh_key h1 x) = rep key \<or>
     x \<notin> kh_live h1 \<and> (\<forall>i \<in> kh_live h1. rep (kh_key h1 i) \<noteq> rep key) \<and>
     kh_path hash (n_buckets h1) (flags h1) key x"
    using put_bucket_spec [OF h1(2,4)] by blast
  obtain h2 r2 where h2: "kh_put_at h1 key x = (h2, x, r2)" "kh_live h2 = insert x (kh_live h1)"
    using put_at_spec [OF h1(2,3) x(2) spec] by blast
  have h': "h' = kh_set_val h2 x v" using st h1(1) x(1) h2(1) by (simp add: kh_store_def kh_put_def)
  have "length (keys h1) = n_buckets h1" using h1(2,4) by (auto simp: kh_inv_def)
  then have "kh_key h2 i = (if i = x \<and> x \<notin> kh_live h1 then key else kh_key h1 i)" if "i \<in> kh_live h2" for i
    using h2(1) x(2) that by (auto simp: kh_put_at_def kh_key_def kh_live_def split: if_splits)
  then have "kh_key h2 ` kh_live h2 \<subseteq> insert key (kh_key h1 ` kh_live h1)" unfolding h2(2) by auto
  then show ?thesis using keys1 by (simp add: h' kh_set_val_def kh_key_def kh_live_def)
qed

end

section \<open>What allocation leaves alone\<close>

text \<open>
  \<open>frame w P s s'\<close>: every live value outside \<open>P\<close> is unchanged, and of the rest of the state only the
  allocator and the temporary stack of world \<open>w\<close> differ.
\<close>

definition same_but_alloc :: "nat \<Rightarrow> pone_state \<Rightarrow> pone_state \<Rightarrow> bool" where
  "same_but_alloc w s s' \<longleftrightarrow>
     s' = s\<lparr>st_heap := st_heap s', st_world := st_world s'\<rparr> \<and>
     (\<exists>a f g t m. st_world s' = (st_world s)(w := (st_world s w)
        \<lparr>w_arenas := a, w_freelist := f, w_gc_requested := g, w_tmpstack := t, w_tmpstack_m := m\<rparr>))"

definition frame :: "nat \<Rightarrow> ptr set \<Rightarrow> pone_state \<Rightarrow> pone_state \<Rightarrow> bool" where
  "frame w P s s' \<longleftrightarrow> arena_wf w s' \<and> same_but_alloc w s s' \<and>
     (\<forall>p. pone_alive (st_heap s p) \<longrightarrow> p \<notin> P \<longrightarrow> st_heap s' p = st_heap s p)"

lemma same_but_alloc_heap [simp]: "same_but_alloc w s (s\<lparr>st_heap := h\<rparr>)"
  unfolding same_but_alloc_def
  by (intro conjI exI [of _ "w_arenas (st_world s w)"] exI [of _ "w_freelist (st_world s w)"]
      exI [of _ "w_gc_requested (st_world s w)"] exI [of _ "w_tmpstack (st_world s w)"]
      exI [of _ "w_tmpstack_m (st_world s w)"]) simp_all

lemma same_but_alloc_refl [simp]: "same_but_alloc w s s"
  using same_but_alloc_heap [of w s "st_heap s"] by simp

lemma same_but_alloc_trans:
  assumes "same_but_alloc w s1 s2" "same_but_alloc w s2 s3"
  shows "same_but_alloc w s1 s3"
proof -
  obtain a f g t m where 2: "s2 = s1\<lparr>st_heap := st_heap s2, st_world := st_world s2\<rparr>"
    "st_world s2 = (st_world s1)(w := (st_world s1 w)
        \<lparr>w_arenas := a, w_freelist := f, w_gc_requested := g, w_tmpstack := t, w_tmpstack_m := m\<rparr>)"
    using assms(1) unfolding same_but_alloc_def by blast
  obtain a' f' g' t' m' where 3: "s3 = s2\<lparr>st_heap := st_heap s3, st_world := st_world s3\<rparr>"
    "st_world s3 = (st_world s2)(w := (st_world s2 w)
        \<lparr>w_arenas := a', w_freelist := f', w_gc_requested := g', w_tmpstack := t', w_tmpstack_m := m'\<rparr>)"
    using assms(2) unfolding same_but_alloc_def by blast
  have "s3 = s1\<lparr>st_heap := st_heap s3, st_world := st_world s3\<rparr>"
    by (subst 3(1), subst 2(1)) simp
  moreover have "st_world s3 = (st_world s1)(w := (st_world s1 w)
        \<lparr>w_arenas := a', w_freelist := f', w_gc_requested := g', w_tmpstack := t', w_tmpstack_m := m'\<rparr>)"
    by (simp add: 3(2) 2(2))
  ultimately show ?thesis unfolding same_but_alloc_def by blast
qed

lemma frame_refl: "arena_wf w s \<Longrightarrow> frame w P s s"
  by (simp add: frame_def)

lemma frame_trans: "frame w P s1 s2 \<Longrightarrow> frame w P s2 s3 \<Longrightarrow> frame w P s1 s3"
  using same_but_alloc_trans unfolding frame_def by metis

lemma frame_mono: "frame w P s s' \<Longrightarrow> P \<subseteq> Q \<Longrightarrow> frame w Q s s'"
  by (auto simp: frame_def)

lemma frameD:
  assumes "frame w P s s'"
  shows "arena_wf w s'" "st_universe s' = st_universe s" "st_os s' = st_os s"
    "w_lex (st_world s' w) = w_lex (st_world s w)"
    "w_caller_stack (st_world s' w) = w_caller_stack (st_world s w)"
    "pone_alive (st_heap s p) \<Longrightarrow> p \<notin> P \<Longrightarrow> st_heap s' p = st_heap s p"
  using assms by (auto simp: frame_def same_but_alloc_def) (metis pone_state.select_convs pone_state.surjective pone_state.update_convs)+

text \<open>A write to a value that is new or in \<open>P\<close>.\<close>

lemma frame_set_val:
  assumes "frame w P s s'" "pone_alive (st_heap s' p)" "pone_alive v" "p \<in> P \<or> \<not> pone_alive (st_heap s p)"
  shows "frame w P s (set_val p v s')"
proof -
  have "arena_wf w (set_val p v s')"
    using frameD(1) [OF assms(1)] by (rule arena_wf_heap_cong) (use assms(2,3) in auto)
  moreover have "same_but_alloc w s' (set_val p v s')"
    by (simp add: set_val_def)
  ultimately show ?thesis using assms same_but_alloc_trans by (auto simp: frame_def)
qed

lemma frame_set_as:
  "frame w P s s' \<Longrightarrow> pone_alive (st_heap s' p) \<Longrightarrow> as_type a \<noteq> PONE_FREE \<Longrightarrow> p \<in> P \<or> \<not> pone_alive (st_heap s p) \<Longrightarrow>
   frame w P s (set_as p a s')"
  unfolding set_as_def by (erule frame_set_val) (simp_all add: pone_alive_def pone_type_def)

lemma frame_set_flags:
  "frame w P s s' \<Longrightarrow> pone_alive (st_heap s' p) \<Longrightarrow> p \<in> P \<or> \<not> pone_alive (st_heap s p) \<Longrightarrow>
   frame w P s (set_flags p f s')"
  unfolding set_flags_def by (erule frame_set_val) (simp_all add: pone_alive_def pone_type_def)

lemma alloc_frame:
  assumes "arena_wf w s" "as_type a \<noteq> PONE_FREE"
  obtains p s' where "pone_obj_alloc w a s = Ret p s'" "frame w {} s s'" "p \<noteq> Null" "\<not> pone_alive (st_heap s p)"
    "st_heap s' = (st_heap s)(p := \<lparr>val_flags = 0, val_as = a\<rparr>)"
proof -
  obtain p s' F where p: "pone_obj_alloc w a s = Ret p s'" "\<exists>i j. p = Cell w i j" "\<not> pone_alive (st_heap s p)"
    "st_heap s' = (st_heap s)(p := \<lparr>val_flags = 0, val_as = a\<rparr>)" "arena_wf w s'"
    and s': "s' = upd_world w F (set_val p \<lparr>val_flags = 0, val_as = a\<rparr> s)"
    and F: "\<And>W. F W = W\<lparr>w_arenas := w_arenas (F W), w_freelist := w_freelist (F W),
                    w_gc_requested := w_gc_requested (F W), w_tmpstack := w_tmpstack (F W),
                    w_tmpstack_m := w_tmpstack_m (F W)\<rparr>"
    using obj_alloc_spec [OF assms(1) as_type_free [OF assms(2)]] by blast
  have "st_world s' = (st_world s)(w := F (st_world s w))" by (simp add: s')
  then have "same_but_alloc w s s'"
    unfolding same_but_alloc_def using F [of "st_world s w"] by (auto simp: s' upd_world_def set_val_def) metis
  then have "frame w {} s s'" using p(3,4,5) by (auto simp: frame_def)
  then show thesis using that p by blast
qed

section \<open>Strings that can be keys\<close>

definition text_at :: "nat \<Rightarrow> pone_state \<Rightarrow> ptr \<Rightarrow> bytes \<Rightarrow> bool" where
  "text_at d s k b \<longleftrightarrow> map_key d k s = Ret () s \<and> pone_str_bytes d k s = Ret b s"

lemma text_atD:
  assumes "text_at d s k b"
  shows "type_at s k = PONE_STRING" "str_content d s k = b" "map_key d k s = Ret () s" "pone_alive (st_heap s k)"
  using assms
  by (auto simp: text_at_def str_content_def map_key_def type_at_def pone_alive_def split: if_splits)

text \<open>It reads the same as long as no string changes.\<close>

lemma text_at_cong:
  assumes same: "\<And>q. pone_type (st_heap s q) = PONE_STRING \<Longrightarrow> st_heap s' q = st_heap s q" and t: "text_at d s k b"
  shows "text_at d s' k b"
proof -
  have b: "pone_str_bytes d k s' = Ret b s'" using t by (intro str_frame [OF same]) (simp_all add: text_at_def)
  have ptr: "pone_str_ptr d p s = Ret x s \<Longrightarrow> pone_str_ptr d p s' = Ret x s'" for x p
    using same by (induction d arbitrary: p)
      (auto simp: pone_type_def split: pone_as.splits if_splits str_data.splits)
  have len: "pone_str_len d p s = Ret x s \<Longrightarrow> pone_str_len d p s' = Ret x s'" for x p
    using same by (induction d arbitrary: p)
      (auto simp: pone_type_def split: pone_as.splits if_splits str_data.splits)
  have m: "map_key d k s = Ret () s" and ty: "pone_type (st_heap s k) = PONE_STRING"
    using t text_atD(1) [OF t] by (simp_all add: text_at_def type_at_def)
  then obtain buf s1 n s2 where r: "pone_str_ptr d k s = Ret buf s1" "pone_str_len d k s1 = Ret n s2"
    "n \<le> length buf" "buf \<noteq> []" "n = 0 \<longrightarrow> hd buf = 0"
    by (auto simp: map_key_def andthen_Ret_iff type_at_def split: if_splits)
  have "s1 = s" "s2 = s" using str_ptr_state [OF r(1)] str_len_state [OF r(2)] by simp_all
  then have "map_key d k s' = Ret () s'"
    using r ptr [of k buf] len [of k n] ty same [OF ty] by (simp add: map_key_def type_at_def)
  then show ?thesis using b by (simp add: text_at_def)
qed

lemma new_str:
  assumes "arena_wf w s" "d \<noteq> 0"
  obtains k s' where "pone_str_new_strdup w (b @ [0]) (length b) s = Ret k s'" "frame w {} s s'" "k \<noteq> Null"
    "\<not> pone_alive (st_heap s k)" "text_at d s' k b"
    "st_heap s' = (st_heap s)(k := \<lparr>val_flags = PONE_FLAGS_STR_UTF8, val_as = AsStr (StrBuf (b @ [0])) (length b)\<rparr>)"
proof -
  obtain k s1 where k: "pone_obj_alloc w (AsStr (StrBuf (b @ [0])) (length b)) s = Ret k s1" "frame w {} s s1" "k \<noteq> Null"
    "\<not> pone_alive (st_heap s k)"
    "st_heap s1 = (st_heap s)(k := \<lparr>val_flags = 0, val_as = AsStr (StrBuf (b @ [0])) (length b)\<rparr>)"
    by (rule alloc_frame [OF assms(1), of "AsStr (StrBuf (b @ [0])) (length b)"]) simp_all
  let ?s = "or_flags PONE_FLAGS_STR_UTF8 k s1"
  have h: "st_heap ?s = (st_heap s)(k := \<lparr>val_flags = PONE_FLAGS_STR_UTF8, val_as = AsStr (StrBuf (b @ [0])) (length b)\<rparr>)"
    by (simp add: or_flags_def k(5))
  have fl: "PONE_FLAGS_STR_UTF8 AND PONE_FLAGS_STR_COPY = 0" by (simp add: flag_defs)
  have "text_at d ?s k b"
    using assms(2) by (cases d; cases b) (simp_all add: text_at_def map_key_def pone_str_bytes_def type_at_def pone_type_def h has_flag_def fl)
  moreover have "frame w {} s ?s"
    unfolding or_flags_def
    by (rule frame_set_flags [OF k(2)]) (use k(4) in \<open>simp_all add: k(5) pone_alive_def pone_type_def\<close>)
  moreover have "pone_str_new_strdup w (b @ [0]) (length b) s = Ret k ?s"
    using k(1) by (simp add: pone_str_new_strdup_def pone_bytes_new_strdup_def pone_strdup_def)
  ultimately show thesis using that k(3,4) h by blast
qed

section \<open>Classes\<close>

text \<open>The class \<open>klass\<close> with the method table \<open>m\<close> has the methods \<open>M\<close>: functions with their scopes.\<close>

definition code_at :: "pone_state \<Rightarrow> ptr \<Rightarrow> pone_funcptr_t \<times> ptr \<Rightarrow> bool" where
  "code_at s p c \<longleftrightarrow> p \<noteq> Null \<and> val_as (st_heap s p) = AsCode (fst c) (snd c)"

definition methods_at :: "nat \<Rightarrow> pone_state \<Rightarrow> ptr \<Rightarrow> (bytes \<rightharpoonup> pone_funcptr_t \<times> ptr) \<Rightarrow> bool" where
  "methods_at d s m M \<longleftrightarrow>
     (\<exists>h len. val_as (st_heap s m) = AsMap h len \<and> kh_inv (pone_val_hash_func d s) (str_content d s) h \<and>
        (\<forall>i \<in> kh_live h. \<exists>b. text_at d s (kh_key h i) b) \<and>
        (\<forall>b. rel_option (code_at s) (kh_lookup (str_content d s) h b) (M b)))"

definition class_at :: "nat \<Rightarrow> pone_state \<Rightarrow> ptr \<Rightarrow> ptr \<Rightarrow> (bytes \<rightharpoonup> pone_funcptr_t \<times> ptr) \<Rightarrow> bool" where
  "class_at d s klass m M \<longleftrightarrow> klass \<noteq> Null \<and>
     (\<exists>k iv. val_as (st_heap s klass) = AsObj k iv \<and> str_kh_inv iv \<and>
        str_kh_map iv (cstr (bs ''$!methods'')) = Some m) \<and> methods_at d s m M"

definition class_part :: "pone_t \<Rightarrow> bool" where
  "class_part t \<longleftrightarrow> t = PONE_OBJ \<or> t = PONE_MAP \<or> t = PONE_STRING \<or> t = PONE_CODE"

lemma methods_at_cong:
  assumes same: "\<And>p. pone_type (st_heap s p) = PONE_STRING \<or> pone_type (st_heap s p) = PONE_CODE \<Longrightarrow> st_heap s' p = st_heap s p"
    and m: "st_heap s' m = st_heap s m" and M: "methods_at d s m M"
  shows "methods_at d s' m M"
proof -
  obtain h len where h: "val_as (st_heap s m) = AsMap h len" "kh_inv (pone_val_hash_func d s) (str_content d s) h"
    "\<forall>i \<in> kh_live h. \<exists>b. text_at d s (kh_key h i) b"
    "\<forall>b. rel_option (code_at s) (kh_lookup (str_content d s) h b) (M b)"
    using M by (auto simp: methods_at_def)
  have keys: "\<forall>i \<in> kh_live h. \<exists>b. text_at d s (kh_key h i) b \<and> text_at d s' (kh_key h i) b"
    using h(3) text_at_cong [of s s'] same by blast
  then have "\<forall>i \<in> kh_live h. str_content d s' (kh_key h i) = str_content d s (kh_key h i) \<and>
      pone_val_hash_func d s' (kh_key h i) = pone_val_hash_func d s (kh_key h i)"
    using text_atD(2) unfolding pone_val_hash_func_def by metis
  note v = kh_view [OF this h(2)]
  have "code_at s' p c" if "code_at s p c" for p c
    using that same [of p] by (simp add: code_at_def pone_type_def)
  then have "\<forall>b. rel_option (code_at s') (kh_lookup (str_content d s') h b) (M b)"
    using h(4) option.rel_mono_strong unfolding v(2) by metis
  then show ?thesis using h(1) v(1) keys unfolding methods_at_def m by blast
qed

lemma class_at_cong:
  assumes "\<And>p. class_part (pone_type (st_heap s p)) \<Longrightarrow> st_heap s' p = st_heap s p" "class_at d s klass m M"
  shows "class_at d s' klass m M"
proof -
  have M: "methods_at d s m M" using assms(2) by (simp add: class_at_def)
  then have "st_heap s' m = st_heap s m"
    using assms(1) [of m] by (auto simp: methods_at_def pone_type_def class_part_def)
  then have "methods_at d s' m M" using assms(1) M by (intro methods_at_cong [of s s']) (auto simp: class_part_def)
  moreover have "st_heap s' klass = st_heap s klass"
    using assms by (auto simp: class_at_def pone_type_def class_part_def)
  ultimately show ?thesis using assms(2) by (simp add: class_at_def)
qed

lemma class_part_alive: "class_part (pone_type v) \<Longrightarrow> pone_alive v"
  by (auto simp: class_part_def pone_alive_def)

lemma class_at_frame:
  assumes "frame w P s s'" "\<And>p. p \<in> P \<Longrightarrow> \<not> class_part (pone_type (st_heap s p))" "class_at d s klass m M"
  shows "class_at d s' klass m M"
  using assms(1,2) by (intro class_at_cong [OF _ assms(3)]) (auto intro: frameD(6) class_part_alive)

lemma class_ivar:
  assumes "class_at d s klass m M"
  shows "pone_obj_get_ivar klass (bs ''$!methods'') s = Ret m s"
  using assms by (auto simp: class_at_def pone_obj_get_ivar_def str_table.table.find_look)


lemma class_method_spec:
  assumes wf: "arena_wf w s" and nil: "val_as (st_heap s pone_nil) = AsNil" and cls: "class_at d s klass m M"
    and d: "d \<noteq> 0"
  obtains r s' where "class_method d w klass name s = Ret r s'" "frame w {} s s'"
    "case M name of None \<Rightarrow> r = Null | Some c \<Rightarrow> code_at s' r c"
proof -
  obtain k s1 where k: "pone_str_new_strdup w (name @ [0]) (length name) s = Ret k s1" "frame w {} s s1"
    "text_at d s1 k name"
    using new_str [OF wf d, of name] by metis
  have "class_at d s1 klass m M" by (rule class_at_frame [OF k(2) _ cls]) simp
  then obtain h len where h: "val_as (st_heap s1 m) = AsMap h len"
    "kh_inv (pone_val_hash_func d s1) (str_content d s1) h"
    "rel_option (code_at s1) (kh_lookup (str_content d s1) h name) (M name)"
    by (auto simp: class_at_def methods_at_def)
  let ?r = "case kh_lookup (str_content d s1) h name of Some v \<Rightarrow> v | None \<Rightarrow> pone_nil"
  have at: "pone_map_at_key d m k s1 = Ret ?r s1"
    using h(1) text_atD(2,3) [OF k(3)] val_table.table.find_look [OF h(2), of k] by (simp add: pone_map_at_key_def)
  have run: "class_method d w klass name s = Ret (if pone_defined (st_heap s1 ?r) then ?r else Null) s1"
    using class_ivar [OF cls] k(1) at by (simp add: class_method_def)
  have "st_heap s1 pone_nil = st_heap s pone_nil"
    by (rule frameD(6) [OF k(2)]) (simp_all add: nil pone_alive_iff)
  then have "case M name of None \<Rightarrow> ?r = pone_nil | Some c \<Rightarrow> code_at s1 ?r c"
    "\<not> pone_defined (st_heap s1 pone_nil)"
    using h(3) nil by (auto simp: option_rel_Some2 pone_defined_def pone_type_def split: option.splits)
  then have "case M name of None \<Rightarrow> (if pone_defined (st_heap s1 ?r) then ?r else Null) = Null
      | Some c \<Rightarrow> code_at s1 (if pone_defined (st_heap s1 ?r) then ?r else Null) c"
    by (cases "M name") (auto simp: code_at_def pone_defined_def pone_type_def)
  then show thesis using that run k(2) by blast
qed

lemma rel_option_dom:
  assumes "\<forall>b. rel_option R (f b) (g b)"
  shows "dom f = dom g"
proof -
  have "f b = None \<longleftrightarrow> g b = None" for b using assms by (cases "f b"; cases "g b") (metis option.rel_distinct)+
  then show ?thesis by (simp add: dom_def)
qed

text \<open>Putting a name and a code value into the table of a class adds the method.\<close>

lemma class_put:
  assumes cls: "class_at d s klass m M" and fin: "card (dom M) < 2 ^ 30" and k: "text_at d s k name" and c: "code_at s c (f, lx)"
  obtains h len where "pone_map_put d m k c s = Ret () (set_as m (AsMap h len) s)"
    "class_at d (set_as m (AsMap h len) s) klass m (M(name \<mapsto> (f, lx)))" "pone_type (st_heap s m) = PONE_MAP"
proof -
  obtain h len where h: "val_as (st_heap s m) = AsMap h len"
    "kh_inv (pone_val_hash_func d s) (str_content d s) h" "\<forall>i \<in> kh_live h. \<exists>b. text_at d s (kh_key h i) b"
    "\<forall>b. rel_option (code_at s) (kh_lookup (str_content d s) h b) (M b)"
    using cls unfolding class_at_def methods_at_def by blast
  have sz: "kh_size h < 2 ^ 30" using kh_size_dom [OF h(2)] rel_option_dom [OF h(4)] fin by simp
  obtain h' r where h': "kh_store (pone_val_hash_func d s) (pone_val_hash_equal d s) h k c = Some (h', r)"
    "kh_inv (pone_val_hash_func d s) (str_content d s) h'"
    "kh_lookup (str_content d s) h' = (kh_lookup (str_content d s) h)(name \<mapsto> c)"
    using val_table.table.store_look [OF h(2) sz] text_atD(2) [OF k] by metis
  let ?s = "set_as m (AsMap h' (Suc len)) s"
  have same: "st_heap ?s p = st_heap s p" if "pone_type (st_heap s p) \<noteq> PONE_MAP" for p
    using that h(1) by (auto simp: pone_type_def)
  have content: "str_content d ?s = str_content d s"
    by (rule str_content_same, rule same_strings_set) (simp_all add: h(1) pone_type_def)
  have hash: "pone_val_hash_func d ?s = pone_val_hash_func d s"
    by (rule ext) (simp add: pone_val_hash_func_def content)
  have codes: "code_at ?s p x" if "code_at s p x" for p x
    using that same [of p] by (simp add: code_at_def pone_type_def)
  have "\<exists>b. text_at d ?s (kh_key h' i) b" if "i \<in> kh_live h'" for i
  proof -
    have "kh_key h' i \<in> insert k (kh_key h ` kh_live h)" using that val_table.store_keys [OF h(2) sz h'(1)] by blast
    then obtain b where "text_at d s (kh_key h' i) b" using h(3) k by auto
    then have "text_at d ?s (kh_key h' i) b" by (rule text_at_cong [rotated]) (rule same, simp)
    then show ?thesis by blast
  qed
  moreover have "rel_option (code_at ?s) (kh_lookup (str_content d ?s) h' b) ((M(name \<mapsto> (f, lx))) b)" for b
  proof (cases "b = name")
    case True
    then show ?thesis using codes [OF c] unfolding content h'(3) by (simp del: set_as_simps)
  next
    case False
    then show ?thesis using option.rel_mono_strong [OF spec [OF h(4), of b] codes] unfolding content h'(3) by simp
  qed
  ultimately have "methods_at d ?s m (M(name \<mapsto> (f, lx)))"
    using h'(2) unfolding methods_at_def content hash by (intro exI [of _ h'] exI [of _ "Suc len"]) simp
  then have "class_at d ?s klass m (M(name \<mapsto> (f, lx)))"
    using cls same [of klass] h(1) by (auto simp: class_at_def pone_type_def simp del: set_as_simps)
  moreover have "pone_map_put d m k c s = Ret () ?s"
    using h(1) h'(1) text_atD(3) [OF k] by (simp add: pone_map_put_def)
  ultimately show thesis using that h(1) by (simp add: pone_type_def)
qed

lemma add_method_spec:
  assumes wf: "arena_wf w s" and cls: "class_at (e_depth E) s klass m M" and d: "e_depth E \<noteq> 0"
    and fin: "card (dom M) < 2 ^ 30" and code: "code_at s c (f, lx)"
  obtains s' where "pone_add_method E w klass name c s = Ret () s'" "frame w {m} s s'"
    "class_at (e_depth E) s' klass m (M(name \<mapsto> (f, lx)))"
proof -
  let ?d = "e_depth E"
  obtain k s1 where k: "pone_str_new_strdup w (name @ [0]) (length name) s = Ret k s1" "frame w {} s s1"
    "text_at ?d s1 k name"
    using new_str [OF wf d, of name] by metis
  have cls1: "class_at ?d s1 klass m M" by (rule class_at_frame [OF k(2) _ cls]) simp
  have "st_heap s1 c = st_heap s c"
    by (rule frameD(6) [OF k(2)]) (use code in \<open>simp_all add: code_at_def pone_alive_iff\<close>)
  then have c1: "code_at s1 c (f, lx)" using code by (simp add: code_at_def)
  obtain h len where h: "pone_map_put ?d m k c s1 = Ret () (set_as m (AsMap h len) s1)"
    "class_at ?d (set_as m (AsMap h len) s1) klass m (M(name \<mapsto> (f, lx)))" "pone_type (st_heap s1 m) = PONE_MAP"
    by (rule class_put [OF cls1 fin k(3) c1])
  have "type_at s klass = PONE_OBJ" "klass \<noteq> Null" using cls by (auto simp: class_at_def type_at_def pone_type_def)
  moreover have "st_heap s m = st_heap s1 m"
    using cls by (intro frameD(6) [OF k(2), symmetric]; force simp: class_at_def methods_at_def pone_alive_iff)
  then have "type_at s m = PONE_MAP" using h(3) by (simp add: type_at_def)
  ultimately have run: "pone_add_method E w klass name c s = Ret () (set_as m (AsMap h len) s1)"
    using class_ivar [OF cls] k(1) code text_atD(1) [OF k(3)] h(1)
    by (simp add: pone_add_method_def pone_map_assign_key_def type_at_def pone_type_def code_at_def)
  have "frame w {m} s (set_as m (AsMap h len) s1)"
    by (rule frame_set_as [OF frame_mono [OF k(2)]]) (simp_all add: h(3) pone_alive_def)
  then show thesis using that run h(2) by blast
qed

section \<open>The contract of a method table\<close>

fun add_list :: "('n \<Rightarrow> 'f \<Rightarrow> 's \<Rightarrow> (unit, 's) outcome) \<Rightarrow> ('n \<times> 'f) list \<Rightarrow> 's \<Rightarrow> (unit, 's) outcome" where
  "add_list add [] s = Ret () s"
| "add_list add ((n, f) # ms) s = andthen (add n f s) (\<lambda>_. add_list add ms)"

text \<open>
  What the classes of the runtime rely on: adding a method by name updates the table as a map, finding one
  gives what the map has. \<open>code\<close> is the method that a C function is made into.
\<close>

locale method_table =
  fixes rep :: "'s \<Rightarrow> ('n \<rightharpoonup> 'c) \<Rightarrow> bool"
    and add :: "'n \<Rightarrow> 'f \<Rightarrow> 's \<Rightarrow> (unit, 's) outcome"
    and find :: "'n \<Rightarrow> 's \<Rightarrow> ('p, 's) outcome"
    and code :: "'f \<Rightarrow> 'c"
    and found :: "'s \<Rightarrow> 'p \<Rightarrow> 'c option \<Rightarrow> bool"
    and bound :: nat
  assumes add_law: "rep s M \<Longrightarrow> card (dom M) < bound \<Longrightarrow> \<exists>s'. add n f s = Ret () s' \<and> rep s' (M(n \<mapsto> code f))"
    and find_law: "rep s M \<Longrightarrow> \<exists>p s'. find n s = Ret p s' \<and> rep s' M \<and> found s' p (M n)"
begin

lemma add_list_spec:
  assumes "rep s M" "card (dom M) + length ms \<le> bound"
  shows "\<exists>s'. add_list add ms s = Ret () s' \<and> rep s' (M ++ map_of (rev (map (\<lambda>(n, f). (n, code f)) ms)))"
  using assms
proof (induction ms arbitrary: s M)
  case (Cons x ms)
  obtain n f where x: "x = (n, f)" by fastforce
  obtain s1 where s1: "add n f s = Ret () s1" "rep s1 (M(n \<mapsto> code f))"
    using add_law [OF Cons.prems(1)] Cons.prems(2) by fastforce
  have "card (dom (M(n \<mapsto> code f))) \<le> Suc (card (dom M))" by (simp add: card_insert_le_m1 card_insert_if)
  then have "card (dom (M(n \<mapsto> code f))) + length ms \<le> bound" using Cons.prems(2) by simp
  from Cons.IH [OF s1(2) this] obtain s' where "add_list add ms s1 = Ret () s'"
    "rep s' (M(n \<mapsto> code f) ++ map_of (rev (map (\<lambda>(n, f). (n, code f)) ms)))" by blast
  then show ?case using s1(1) by (intro exI [of _ s']) (simp add: x)
qed simp

lemma add_list_find:
  assumes "rep s M" "card (dom M) + length ms \<le> bound"
  shows "\<exists>s1. add_list add ms s = Ret () s1 \<and>
    (\<exists>p s2. find n s1 = Ret p s2 \<and> found s2 p ((M ++ map_of (rev (map (\<lambda>(n, f). (n, code f)) ms))) n))"
  using add_list_spec [OF assms] find_law by blast

end

definition method_found :: "pone_state \<Rightarrow> ptr \<Rightarrow> (pone_funcptr_t \<times> ptr) option \<Rightarrow> bool" where
  "method_found s p x \<longleftrightarrow> (case x of None \<Rightarrow> p = Null | Some c \<Rightarrow> code_at s p c)"

text \<open>A class that is being filled, with the state in which that began.\<close>

definition filling :: "('z pone_rt_scheme) \<Rightarrow> nat \<Rightarrow> pone_state \<Rightarrow> ptr \<Rightarrow> ptr \<Rightarrow> pone_state
     \<Rightarrow> (bytes \<rightharpoonup> pone_funcptr_t \<times> ptr) \<Rightarrow> bool" where
  "filling E w s0 klass m s M \<longleftrightarrow> e_depth E \<noteq> 0 \<and> frame w {m} s0 s \<and> val_as (st_heap s pone_nil) = AsNil \<and>
     class_at (e_depth E) s klass m M"

lemma filling_frame:
  assumes f: "filling E w s0 klass m s M" and fr: "frame w {m} s s'" and c: "class_at (e_depth E) s' klass m M'"
  shows "filling E w s0 klass m s' M'"
proof -
  have nil: "val_as (st_heap s pone_nil) = AsNil" and "class_at (e_depth E) s klass m M"
    using f by (simp_all add: filling_def)
  then have "pone_nil \<noteq> m" by (auto simp: class_at_def methods_at_def)
  then have "st_heap s' pone_nil = st_heap s pone_nil" using nil by (intro frameD(6) [OF fr]) (simp_all add: pone_alive_iff)
  then show ?thesis using assms frame_trans nil by (auto simp: filling_def)
qed

interpretation klass: method_table "filling E w s0 klass m"
  "\<lambda>name f s. andthen (pone_code_new_c w f s) (\<lambda>c. pone_add_method E w klass name c)"
  "class_method (e_depth E) w klass" "\<lambda>f. (f, Null)" method_found "2 ^ 30" for E w s0 klass m
proof
  fix s M assume f: "filling E w s0 klass m s M"
  then have s: "arena_wf w s" "e_depth E \<noteq> 0" "class_at (e_depth E) s klass m M" "val_as (st_heap s pone_nil) = AsNil"
    using frameD(1) by (auto simp: filling_def)
  show "\<exists>s'. andthen (pone_code_new_c w fp s) (\<lambda>c. pone_add_method E w klass n c) = Ret () s' \<and>
      filling E w s0 klass m s' (M(n \<mapsto> (fp, Null)))" if fin: "card (dom M) < 2 ^ 30" for n fp
  proof -
    obtain c s1 where c: "pone_obj_alloc w (AsCode fp Null) s = Ret c s1" "frame w {} s s1" "c \<noteq> Null"
      "st_heap s1 = (st_heap s)(c := \<lparr>val_flags = 0, val_as = AsCode fp Null\<rparr>)"
      by (rule alloc_frame [OF s(1), of "AsCode fp Null"]) simp_all
    have cls: "class_at (e_depth E) s1 klass m M" by (rule class_at_frame [OF c(2) _ s(3)]) simp
    have code: "code_at s1 c (fp, Null)" using c(3,4) by (simp add: code_at_def)
    obtain s2 where s2: "pone_add_method E w klass n c s1 = Ret () s2" "frame w {m} s1 s2"
      "class_at (e_depth E) s2 klass m (M(n \<mapsto> (fp, Null)))"
      using add_method_spec [OF frameD(1) [OF c(2)] cls s(2) fin code] by blast
    have "frame w {m} s s2" using frame_trans [OF frame_mono [OF c(2)] s2(2)] by simp
    from filling_frame [OF f this s2(3)] show ?thesis using c(1) s2(1) by (simp add: pone_code_new_c_def)
  qed
  show "\<exists>p s'. class_method (e_depth E) w klass n s = Ret p s' \<and> filling E w s0 klass m s' M \<and> method_found s' p (M n)" for n
  proof -
    obtain r s' where r: "class_method (e_depth E) w klass n s = Ret r s'" "frame w {} s s'"
      "case M n of None \<Rightarrow> r = Null | Some c \<Rightarrow> code_at s' r c"
      using class_method_spec [OF s(1,4,3,2)] by blast
    have "class_at (e_depth E) s' klass m M" by (rule class_at_frame [OF r(2) _ s(3)]) simp
    from filling_frame [OF f frame_mono [OF r(2)] this] show ?thesis using r(1,3) by (simp add: method_found_def)
  qed
qed

text \<open>The methods that a list of names and functions gives a class; a later one replaces an earlier.\<close>

definition methods_of :: "(string \<times> pone_funcptr_t) list \<Rightarrow> bytes \<rightharpoonup> pone_funcptr_t \<times> ptr" where
  "methods_of ms = map_of (rev (map (\<lambda>(n, f). (bs n, f, Null)) ms))"

lemma add_methods_list:
  assumes "klass \<noteq> Null"
  shows "add_methods E w klass ms s =
    add_list (\<lambda>name f s. andthen (pone_code_new_c w f s) (\<lambda>c. pone_add_method E w klass name c))
      (map (\<lambda>(n, f). (bs n, f)) ms) s"
  using assms
  by (induction ms arbitrary: s)
    (auto simp: pone_add_method_c_def split: prod.splits intro!: arg_cong [where f = "andthen _"] ext)

lemma filling_add:
  assumes f: "filling E w s0 klass m s M" and n: "card (dom M) + length ms \<le> 2 ^ 30"
  shows "\<exists>s'. add_methods E w klass ms s = Ret () s' \<and> filling E w s0 klass m s' (M ++ methods_of ms)"
proof -
  have k: "klass \<noteq> Null" using f by (simp add: filling_def class_at_def)
  have "map (\<lambda>(n, f). (n, f, Null)) (map (\<lambda>(n, f). (bs n, f)) ms) = map (\<lambda>(n, f). (bs n, f, Null)) ms"
    by (simp add: comp_def case_prod_beta)
  then show ?thesis
    using klass.add_list_spec [OF f, of "map (\<lambda>(n, f). (bs n, f)) ms"] n
    by (simp only: add_methods_list [OF k] methods_of_def length_map)
qed

section \<open>New classes\<close>

text \<open>An object with the two variables of a class and an empty table.\<close>

lemma class_new_empty:
  assumes wf: "arena_wf w s" and cc: "cc \<noteq> Null" "type_at s cc = PONE_OBJ" and d: "d \<noteq> 0"
  obtains obj nm m s1 s2 s3 s4 s5 where "pone_obj_new w cc s = Ret obj s1"
    "pone_str_new_strdup w (bs name @ [0]) (length name) s1 = Ret nm s2"
    "pone_obj_set_ivar obj (bs ''$!name'') nm s2 = Ret () s3" "pone_map_new w s3 = Ret m s4"
    "pone_obj_set_ivar obj (bs ''$!methods'') m s4 = Ret () s5"
    "frame w {} s s5" "class_at d s5 obj m Map.empty" "\<not> pone_alive (st_heap s obj)" "\<not> pone_alive (st_heap s m)"
proof -
  obtain obj s1 where obj: "pone_obj_alloc w (AsObj cc kh_init) s = Ret obj s1" "frame w {} s s1" "obj \<noteq> Null"
    "\<not> pone_alive (st_heap s obj)" "st_heap s1 = (st_heap s)(obj := \<lparr>val_flags = 0, val_as = AsObj cc kh_init\<rparr>)"
    by (rule alloc_frame [OF wf, of "AsObj cc kh_init"]) simp_all
  have wf1: "arena_wf w s1" using frameD(1) [OF obj(2)] .
  have len: "length (bs name) = length name" by (simp add: bs_def)
  obtain nm s2 where nm: "pone_str_new_strdup w (bs name @ [0]) (length name) s1 = Ret nm s2" "frame w {} s1 s2"
    by (rule new_str [OF wf1 d, of "bs name"]) (use len in simp)
  have o1: "pone_alive (st_heap s1 obj)" by (simp add: obj(5) pone_alive_iff)
  have o2: "st_heap s2 obj = \<lparr>val_flags = 0, val_as = AsObj cc kh_init\<rparr>"
    using frameD(6) [OF nm(2) o1] by (simp add: obj(5))
  have sz: "kh_size (kh_init :: ptr str_khash) = 0" by (simp add: kh_init_def)
  obtain iv where iv: "pone_obj_set_ivar obj (bs ''$!name'') nm s2 = Ret () (set_as obj (AsObj cc iv) s2)"
    "str_kh_inv iv" "kh_size iv \<le> Suc 0"
    by (rule obj_set_ivar_spec [of s2 obj cc kh_init "bs ''$!name''" nm]) (use o2 sz kh_init_inv in auto)
  let ?s3 = "set_as obj (AsObj cc iv) s2"
  have f3: "frame w {} s ?s3"
    using frame_trans [OF obj(2) nm(2)] by (rule frame_set_as) (use obj(4) in \<open>auto simp: o2 pone_alive_def pone_type_def\<close>)
  obtain m s4 where m: "pone_obj_alloc w (AsMap kh_init 0) ?s3 = Ret m s4" "frame w {} ?s3 s4" "m \<noteq> Null"
    "\<not> pone_alive (st_heap ?s3 m)" "st_heap s4 = (st_heap ?s3)(m := \<lparr>val_flags = 0, val_as = AsMap kh_init 0\<rparr>)"
    by (rule alloc_frame [OF frameD(1) [OF f3], of "AsMap kh_init 0"]) simp_all
  have mo: "m \<noteq> obj" using m(4) by (auto simp: pone_alive_iff)
  then have o4: "val_as (st_heap s4 obj) = AsObj cc iv" by (simp add: m(5))
  obtain iv' where iv': "pone_obj_set_ivar obj (bs ''$!methods'') m s4 = Ret () (set_as obj (AsObj cc iv') s4)"
    "str_kh_inv iv'" "str_kh_map iv' = (str_kh_map iv)(cstr (bs ''$!methods'') \<mapsto> m)"
    by (rule obj_set_ivar_spec [OF o4 iv(2), of "bs ''$!methods''" m]) (use iv(3) in auto)
  let ?s5 = "set_as obj (AsObj cc iv') s4"
  have "frame w {} s ?s5"
    using frame_trans [OF f3 m(2)] by (rule frame_set_as) (use obj(4) o4 in \<open>auto simp: pone_alive_def pone_type_def\<close>)
  moreover have "methods_at d ?s5 m Map.empty"
    using mo by (simp add: methods_at_def m(5) kh_init_inv kh_init_lookup) (simp add: kh_init_def kh_live_def)
  then have "class_at d ?s5 obj m Map.empty" using iv'(2,3) obj(3) by (simp add: class_at_def)
  moreover have "\<not> pone_alive (st_heap s m)"
    using frameD(6) [OF f3, of m] m(4) by auto
  ultimately show thesis
    using that obj(1,4) nm(1) iv(1) m(1) iv'(1) cc by (simp add: pone_obj_new_def pone_map_new_def)
qed

lemma class_new_spec:
  assumes wf: "arena_wf w s" and cc: "u_class_class (st_universe s) \<noteq> Null" "type_at s (u_class_class (st_universe s)) = PONE_OBJ"
    and d: "e_depth E \<noteq> 0" and nil: "val_as (st_heap s pone_nil) = AsNil"
  obtains klass m s' where "pone_class_new E w name s = Ret klass s'"
    "filling E w s klass m s' (methods_of [(''say'', ''mu_say''), (''Str'', ''mu_str'')])"
    "\<not> pone_alive (st_heap s klass)" "\<not> pone_alive (st_heap s m)"
proof -
  obtain obj nm m s1 s2 s3 s4 s5 where new: "pone_obj_new w (u_class_class (st_universe s)) s = Ret obj s1"
    "pone_str_new_strdup w (bs name @ [0]) (length name) s1 = Ret nm s2"
    "pone_obj_set_ivar obj (bs ''$!name'') nm s2 = Ret () s3" "pone_map_new w s3 = Ret m s4"
    "pone_obj_set_ivar obj (bs ''$!methods'') m s4 = Ret () s5"
    and s5: "frame w {} s s5" "class_at (e_depth E) s5 obj m Map.empty" "\<not> pone_alive (st_heap s obj)" "\<not> pone_alive (st_heap s m)"
    using class_new_empty [OF wf cc d, of name] by metis
  have "st_heap s5 pone_nil = st_heap s pone_nil" using nil by (intro frameD(6) [OF s5(1)]) (simp_all add: pone_alive_iff)
  then have "filling E w s obj m s5 Map.empty"
    using s5(1,2) d nil frame_mono [OF s5(1), of "{m}"] by (simp add: filling_def)
  then obtain s' where "add_methods E w obj [(''say'', ''mu_say''), (''Str'', ''mu_str'')] s5 = Ret () s'"
    "filling E w s obj m s' (methods_of [(''say'', ''mu_say''), (''Str'', ''mu_str'')])"
    using filling_add [of E w s obj m s5 Map.empty "[(''say'', ''mu_say''), (''Str'', ''mu_str'')]"] by fastforce
  then show thesis using that new s5(3,4) by (simp add: pone_class_new_def del: add_methods.simps)
qed


lemma instance_find:
  assumes "val_as (st_heap s obj) = AsObj klass iv" "klass \<noteq> Null" "klass \<noteq> u_class_module (st_universe s)"
  shows "pone_find_method d w obj name s = class_method d w klass name s"
  using assms by (simp add: pone_find_method_def pone_what_def Let_def)

section \<open>Properties\<close>

text \<open>
  C7: a class is a finite map from names to functions. On an instance of a new class to which any methods were added,
  the lookup of a name gives the function that was last registered for it, the two that every class starts with
  included, and NULL for every other name; no value that lived before is changed.
\<close>

theorem class_methods_refine:
  assumes wf: "arena_wf w s" and cc: "u_class_class (st_universe s) \<noteq> Null" "type_at s (u_class_class (st_universe s)) = PONE_OBJ"
    and d: "e_depth E \<noteq> 0" and nil: "val_as (st_heap s pone_nil) = AsNil"
    and md: "u_class_module (st_universe s) = Null \<or> pone_alive (st_heap s (u_class_module (st_universe s)))"
    and n: "length ms \<le> 2 ^ 30 - 2"
  shows "\<exists>klass s1 s2 obj s3. pone_class_new E w cname s = Ret klass s1 \<and> add_methods E w klass ms s1 = Ret () s2 \<and>
    pone_obj_new w klass s2 = Ret obj s3 \<and> (\<forall>p. pone_alive (st_heap s p) \<longrightarrow> st_heap s3 p = st_heap s p) \<and>
    (\<forall>name. \<exists>r s4. pone_find_method (e_depth E) w obj name s3 = Ret r s4 \<and>
       (case methods_of ([(''say'', ''mu_say''), (''Str'', ''mu_str'')] @ ms) name of
          None \<Rightarrow> r = Null
        | Some (f, lx) \<Rightarrow> r \<noteq> Null \<and> val_as (st_heap s4 r) = AsCode f lx))"
proof -
  let ?ms = "[(''say'', ''mu_say''), (''Str'', ''mu_str'')]"
  obtain klass m s1 where new: "pone_class_new E w cname s = Ret klass s1" "filling E w s klass m s1 (methods_of ?ms)"
    "\<not> pone_alive (st_heap s klass)" "\<not> pone_alive (st_heap s m)"
    by (rule class_new_spec [OF wf cc d nil, of cname])
  have "dom (methods_of ?ms) \<subseteq> {bs ''say'', bs ''Str''}" by (auto simp: methods_of_def split: if_splits)
  then have "card (dom (methods_of ?ms)) \<le> card {bs ''say'', bs ''Str''}" by (rule card_mono [rotated]) simp
  then have "card (dom (methods_of ?ms)) \<le> 2" by (simp add: bs_def)
  then have "card (dom (methods_of ?ms)) + length ms \<le> 2 ^ 30" using n by simp
  then obtain s2 where s2: "add_methods E w klass ms s1 = Ret () s2" "filling E w s klass m s2 (methods_of ?ms ++ methods_of ms)"
    using filling_add [OF new(2)] by blast
  have M: "methods_of ?ms ++ methods_of ms = methods_of (?ms @ ms)"
    unfolding methods_of_def map_append rev_append map_of_append ..
  have f2: "frame w {m} s s2" "class_at (e_depth E) s2 klass m (methods_of (?ms @ ms))"
    using s2(2) unfolding M by (simp_all add: filling_def)
  obtain k iv where k: "val_as (st_heap s2 klass) = AsObj k iv" "klass \<noteq> Null"
    using f2(2) by (auto simp: class_at_def)
  obtain obj s3 where obj: "pone_obj_alloc w (AsObj klass kh_init) s2 = Ret obj s3" "frame w {} s2 s3"
    "st_heap s3 = (st_heap s2)(obj := \<lparr>val_flags = 0, val_as = AsObj klass kh_init\<rparr>)"
    by (rule alloc_frame [OF frameD(1) [OF f2(1)], of "AsObj klass kh_init"]) simp_all
  have f3: "frame w {m} s s3" using frame_trans [OF f2(1) frame_mono [OF obj(2)]] by simp
  have "filling E w s klass m s3 (methods_of (?ms @ ms))"
    using filling_frame [OF s2(2) frame_mono [OF obj(2)] class_at_frame [OF obj(2) _ f2(2)]] by simp
  then have find: "\<exists>p s4. class_method (e_depth E) w klass name s3 = Ret p s4 \<and> method_found s4 p (methods_of (?ms @ ms) name)" for name
    using klass.find_law by blast
  have "klass \<noteq> u_class_module (st_universe s3)" using md new(3) k(2) frameD(2) [OF f3] by auto
  then have same: "pone_find_method (e_depth E) w obj name s3 = class_method (e_depth E) w klass name s3" for name
    using obj(3) k(2) by (intro instance_find) simp_all
  have "\<exists>r s4. pone_find_method (e_depth E) w obj name s3 = Ret r s4 \<and>
       (case methods_of (?ms @ ms) name of None \<Rightarrow> r = Null
        | Some (f, lx) \<Rightarrow> r \<noteq> Null \<and> val_as (st_heap s4 r) = AsCode f lx)" for name
    using find [of name] unfolding same by (auto simp: method_found_def code_at_def split: option.splits prod.splits)
  moreover have "pone_obj_new w klass s2 = Ret obj s3"
    using k obj(1) by (simp add: pone_obj_new_def type_at_def pone_type_def)
  moreover have "\<forall>p. pone_alive (st_heap s p) \<longrightarrow> st_heap s3 p = st_heap s p"
    using frameD(6) [OF f3] new(4) by auto
  ultimately show ?thesis using new(1) s2(1) by blast
qed

text \<open>A state with the class of classes, in another world.\<close>

definition class_demo :: pone_state where
  "class_demo = blank_state\<lparr>st_heap := initial_heap(Cell 9 0 0 := \<lparr>val_flags = 0, val_as = AsObj Null kh_init\<rparr>),
     st_universe := blank_universe\<lparr>u_class_class := Cell 9 0 0\<rparr>\<rparr>"

lemma class_demo_wf: "w \<noteq> 9 \<Longrightarrow> arena_wf w class_demo"
  by (rule blank_world_wf) (simp_all add: class_demo_def blank_state_def initial_heap_def)

theorem class_methods_refine_witness:
  "\<exists>klass s1 s2 obj s3 r s4. pone_class_new demo_libc 0 ''A'' class_demo = Ret klass s1 \<and>
     add_methods demo_libc 0 klass [(''f'', ''meth_f'')] s1 = Ret () s2 \<and> pone_obj_new 0 klass s2 = Ret obj s3 \<and>
     pone_find_method (e_depth demo_libc) 0 obj (bs ''f'') s3 = Ret r s4 \<and> val_as (st_heap s4 r) = AsCode ''meth_f'' Null"
proof -
  have M: "methods_of ([(''say'', ''mu_say''), (''Str'', ''mu_str'')] @ [(''f'', ''meth_f'')]) (bs ''f'') = Some (''meth_f'', Null)"
    by (simp add: methods_of_def bs_def)
  have h: "u_class_class (st_universe class_demo) \<noteq> Null" "type_at class_demo (u_class_class (st_universe class_demo)) = PONE_OBJ"
    "val_as (st_heap class_demo pone_nil) = AsNil" "u_class_module (st_universe class_demo) = Null"
    by (simp_all add: class_demo_def type_at_def pone_type_def pone_nil_def initial_heap_def blank_universe_def)
  have d: "e_depth demo_libc \<noteq> 0" by (simp add: demo_libc_def)
  obtain klass s1 s2 obj s3 where new: "pone_class_new demo_libc 0 ''A'' class_demo = Ret klass s1"
    "add_methods demo_libc 0 klass [(''f'', ''meth_f'')] s1 = Ret () s2" "pone_obj_new 0 klass s2 = Ret obj s3"
    and find: "\<forall>name. \<exists>r s4. pone_find_method (e_depth demo_libc) 0 obj name s3 = Ret r s4 \<and>
       (case methods_of ([(''say'', ''mu_say''), (''Str'', ''mu_str'')] @ [(''f'', ''meth_f'')]) name of
          None \<Rightarrow> r = Null
        | Some (f, lx) \<Rightarrow> r \<noteq> Null \<and> val_as (st_heap s4 r) = AsCode f lx)"
    using class_methods_refine [OF class_demo_wf [of 0] h(1,2) d h(3), of "[(''f'', ''meth_f'')]" "''A''"] h(4) by auto
  show ?thesis using new spec [OF find, of "bs ''f''"] unfolding M by fastforce
qed

end
