(* ===== verification/Pone_Dispatch.thy ===== *)
theory Pone_Dispatch
  imports Pone_Class_Table
begin

text \<open>
  Calls (\<^verbatim>\<open>src/code.c, class.c\<close>) and the conversion to text that goes through them (\<^verbatim>\<open>src/str.c\<close>): what a
  function finds when it is entered, what is restored when it returns, and that a text survives the round
  through the method tables.
\<close>

section \<open>Room for allocations\<close>

text \<open>So many values can be allocated before a collection is asked for.\<close>

definition room :: "nat \<Rightarrow> pone_state \<Rightarrow> nat \<Rightarrow> bool" where
  "room w s n \<longleftrightarrow> \<not> w_gc_requested (st_world s w) \<and> last (w_arenas (st_world s w)) + n \<le> PONE_ARENA_SIZE"

definition uses :: "nat \<Rightarrow> nat \<Rightarrow> pone_state \<Rightarrow> pone_state \<Rightarrow> bool" where
  "uses w n s s' \<longleftrightarrow> (\<forall>k. room w s (n + k) \<longrightarrow> room w s' k)"

lemma uses_trans: "uses w n s1 s2 \<Longrightarrow> uses w k s2 s3 \<Longrightarrow> uses w (n + k) s1 s3"
  by (simp add: uses_def ac_simps)

lemma uses_0: "w_gc_requested (st_world s' w) = w_gc_requested (st_world s w) \<Longrightarrow>
  w_arenas (st_world s' w) = w_arenas (st_world s w) \<Longrightarrow> uses w 0 s s'"
  by (simp add: uses_def room_def)

lemma usesD: "uses w n s s' \<Longrightarrow> room w s (n + k) \<Longrightarrow> room w s' k"
  by (simp add: uses_def)

lemma room_mono: "room w s n \<Longrightarrow> m \<le> n \<Longrightarrow> room w s m"
  by (simp add: room_def)

lemma room_no_gc: "room w s n \<Longrightarrow> \<not> w_gc_requested (st_world s w)"
  by (simp add: room_def)

lemma alloc_uses: "pone_obj_alloc w a s = Ret p s' \<Longrightarrow> uses w (Suc 0) s s'"
  by (auto simp: uses_def room_def pone_obj_alloc_def pone_save_tmp_def pone_take_slot_def Let_def
      split: if_splits pone_as.splits)

text \<open>A step of allocation: what \<open>frame\<close> says, and how much room it takes.\<close>

definition step :: "nat \<Rightarrow> ptr set \<Rightarrow> nat \<Rightarrow> pone_state \<Rightarrow> pone_state \<Rightarrow> bool" where
  "step w P n s s' \<longleftrightarrow> frame w P s s' \<and> uses w n s s'"

lemma step_trans: "step w P n s1 s2 \<Longrightarrow> step w P k s2 s3 \<Longrightarrow> step w P (n + k) s1 s3"
  using frame_trans uses_trans unfolding step_def by blast

lemma step_mono: "step w {} n s s' \<Longrightarrow> step w P n s s'"
  using frame_mono unfolding step_def by blast

lemma stepD:
  assumes "step w P n s s'"
  shows "frame w P s s'" "uses w n s s'" "arena_wf w s'" "st_universe s' = st_universe s"
    "w_lex (st_world s' w) = w_lex (st_world s w)"
    "w_caller_stack (st_world s' w) = w_caller_stack (st_world s w)"
    "pone_alive (st_heap s p) \<Longrightarrow> p \<notin> P \<Longrightarrow> st_heap s' p = st_heap s p"
proof -
  have f: "frame w P s s'" and u: "uses w n s s'" using assms by (simp_all add: step_def)
  show "frame w P s s'" "uses w n s s'" by (fact f, fact u)
  show "arena_wf w s'" "st_universe s' = st_universe s" "w_lex (st_world s' w) = w_lex (st_world s w)"
    "w_caller_stack (st_world s' w) = w_caller_stack (st_world s w)"
    "pone_alive (st_heap s p) \<Longrightarrow> p \<notin> P \<Longrightarrow> st_heap s' p = st_heap s p"
    by (fact frameD(1,2,4,5,6) [OF f])+
qed

lemma alloc_step:
  assumes "arena_wf w s" "as_type a \<noteq> PONE_FREE"
  obtains p s' where "pone_obj_alloc w a s = Ret p s'" "step w {} (Suc 0) s s'" "p \<noteq> Null" "\<not> pone_alive (st_heap s p)"
    "st_heap s' = (st_heap s)(p := \<lparr>val_flags = 0, val_as = a\<rparr>)"
  using alloc_frame [OF assms] alloc_uses unfolding step_def by metis

text \<open>The flags of a value that was just allocated.\<close>

lemma step_flags:
  assumes "step w {} n s s'" "\<not> pone_alive (st_heap s p)" "pone_alive (st_heap s' p)"
  shows "step w {} n s (set_flags p f s')"
proof -
  have "room w (set_flags p f s') k = room w s' k" for k by (simp add: room_def)
  then show ?thesis using assms frame_set_flags [of w "{}" s s' p f] by (simp add: step_def uses_def)
qed

lemma new_const:
  assumes "arena_wf w s"
  obtains p s' where "pone_str_lit w t s = Ret p s'" "step w {} (Suc 0) s s'" "p \<noteq> Null" "\<not> pone_alive (st_heap s p)"
    "st_heap s' = (st_heap s)(p := \<lparr>val_flags = (PONE_FLAGS_STR_CONST OR PONE_FLAGS_FROZEN) OR PONE_FLAGS_STR_UTF8,
        val_as = AsStr (StrBuf (bs t @ [0])) (length t)\<rparr>)"
proof -
  obtain p s1 where p: "pone_obj_alloc w (AsStr (StrBuf (bs t @ [0])) (length t)) s = Ret p s1" "step w {} (Suc 0) s s1"
    "p \<noteq> Null" "\<not> pone_alive (st_heap s p)"
    "st_heap s1 = (st_heap s)(p := \<lparr>val_flags = 0, val_as = AsStr (StrBuf (bs t @ [0])) (length t)\<rparr>)"
    by (rule alloc_step [OF assms, of "AsStr (StrBuf (bs t @ [0])) (length t)"]) simp_all
  let ?s2 = "or_flags (PONE_FLAGS_STR_CONST OR PONE_FLAGS_FROZEN) p s1"
  have "step w {} (Suc 0) s ?s2"
    unfolding or_flags_def by (rule step_flags [OF p(2,4)]) (simp add: p(5) pone_alive_iff)
  then have "step w {} (Suc 0) s (or_flags PONE_FLAGS_STR_UTF8 p ?s2)"
    unfolding or_flags_def by (rule step_flags [OF _ p(4)]) (simp add: p(5) pone_alive_iff)
  moreover have "pone_str_lit w t s = Ret p (or_flags PONE_FLAGS_STR_UTF8 p ?s2)"
    using p(1) by (simp add: pone_str_lit_def pone_str_new_const_def pone_bytes_new_const_def)
  ultimately show thesis using that p(3,4) by (simp add: or_flags_def p(5))
qed

lemma strdup_uses: "pone_str_new_strdup w b n s = Ret k s' \<Longrightarrow> uses w (Suc 0) s s'"
  by (auto simp: pone_str_new_strdup_def pone_bytes_new_strdup_def andthen_Ret_iff or_flags_def uses_def room_def
      dest!: alloc_uses)

lemma get_ivar_state: "pone_obj_get_ivar p name s = Ret r s' \<Longrightarrow> s' = s"
  by (auto simp: pone_obj_get_ivar_def from_option_def split: pone_as.splits option.splits)

lemma map_at_key_state: "pone_map_at_key d p k s = Ret r s' \<Longrightarrow> s' = s"
  by (auto simp: pone_map_at_key_def from_option_def andthen_Ret_iff dest!: map_key_state
      split: pone_as.splits option.splits)

lemma class_method_step:
  assumes "arena_wf w s" "val_as (st_heap s pone_nil) = AsNil" "class_at d s klass m M" "d \<noteq> 0"
  obtains r s' where "class_method d w klass name s = Ret r s'" "step w {} (Suc 0) s s'" "method_found s' r (M name)"
proof -
  obtain r s' where r: "class_method d w klass name s = Ret r s'" "frame w {} s s'"
    "case M name of None \<Rightarrow> r = Null | Some c \<Rightarrow> code_at s' r c"
    by (rule class_method_spec [OF assms, of name])
  have "uses w (Suc 0) s s'"
    using r(1) by (auto simp: class_method_def andthen_Ret_iff dest!: get_ivar_state map_at_key_state strdup_uses)
  then show thesis using that r by (simp add: step_def method_found_def)
qed

section \<open>The stack of callers\<close>

abbreviation callers :: "nat \<Rightarrow> pone_state \<Rightarrow> ptr list" where
  "callers w s \<equiv> ary_items (w_caller_stack (st_world s w)) s"

text \<open>The row that a call pushes: file, line and function.\<close>

definition caller_row :: "pone_state \<Rightarrow> ptr \<Rightarrow> call_site \<Rightarrow> bool" where
  "caller_row s row site \<longleftrightarrow> (case site of (file_name, lineno, sub) \<Rightarrow>
     \<exists>f l u. ary_items row s = [f, l, u] \<and> pone_str_bytes 1 f s = Ret (bs file_name) s \<and>
       val_as (st_heap s l) = AsInt (of_nat lineno) \<and> pone_str_bytes 1 u s = Ret (bs sub) s)"

lemma ary_push_heap: "pone_ary_push p v s = Ret () s' \<Longrightarrow> \<exists>h. s' = s\<lparr>st_heap := h\<rparr>"
  by (auto simp: pone_ary_push_def Let_def set_as_def set_val_def split: pone_as.splits if_splits)

text \<open>Pushing on an array in \<open>P\<close> is a step.\<close>

lemma ary_push_step:
  assumes "step w P n s0 s" "ary_ok p s" "v \<noteq> Null" "p \<in> P"
  obtains s' where "pone_ary_push p v s = Ret () s'" "step w P n s0 s'" "ary_ok p s'"
    "ary_items p s' = ary_items p s @ [v]" "\<And>q. q \<noteq> p \<Longrightarrow> st_heap s' q = st_heap s q"
proof -
  obtain s' where s': "pone_ary_push p v s = Ret () s'" "ary_ok p s'" "ary_items p s' = ary_items p s @ [v]"
    "\<And>q. q \<noteq> p \<Longrightarrow> st_heap s' q = st_heap s q" "st_world s' = st_world s"
    using ary_push_spec [OF assms(2,3)] by blast
  obtain h where h: "s' = s\<lparr>st_heap := h\<rparr>" using ary_push_heap [OF s'(1)] by blast
  have al: "pone_alive (st_heap s p)" "pone_alive (st_heap s' p)"
    using assms(2) s'(2) by (auto simp: ary_ok_def pone_alive_iff)
  have al_eq: "pone_alive (st_heap s' q) = pone_alive (st_heap s q)" for q
    using al s'(4) by (cases "q = p") simp_all
  have "arena_wf w s'"
    using stepD(3) [OF assms(1)] s'(5) al_eq by (rule arena_wf_heap_cong) (use al s'(4) in metis)
  moreover have "same_but_alloc w s s'" by (simp add: h)
  moreover have "\<forall>q. pone_alive (st_heap s q) \<longrightarrow> q \<notin> P \<longrightarrow> st_heap s' q = st_heap s q" using s'(4) assms(4) by metis
  ultimately have "frame w P s s'" by (simp add: frame_def)
  then have "frame w P s0 s'" by (rule frame_trans [OF stepD(1) [OF assms(1)]])
  moreover have "room w s' k = room w s k" for k using s'(5) by (simp add: room_def)
  then have "uses w n s0 s'" using stepD(2) [OF assms(1)] by (simp add: uses_def)
  ultimately show thesis using that s' by (simp add: step_def)
qed

text \<open>Kept values keep arrays.\<close>

lemma ary_kept: "st_heap s' p = st_heap s p \<Longrightarrow> ary_ok p s' = ary_ok p s \<and> ary_items p s' = ary_items p s"
  by (simp add: ary_ok_def ary_items_def)

lemma push_caller_spec:
  assumes wf: "arena_wf w s" and cs: "cs = w_caller_stack (st_world s w)" and ok: "ary_ok cs s"
  obtains row s' where "pone_push_caller w site s = Ret () s'" "step w {cs} 4 s s'" "ary_ok cs s'"
    "ary_items cs s' = ary_items cs s @ [row]" "caller_row s' row site"
proof -
  obtain file_name lineno sub where site: "site = (file_name, lineno, sub)" by (cases site)
  have ca: "pone_alive (st_heap s cs)" using ok by (auto simp: ary_ok_def pone_alive_iff)
  obtain f s1 where f: "pone_str_lit w file_name s = Ret f s1" "step w {} (Suc 0) s s1" "\<not> pone_alive (st_heap s f)"
    "st_heap s1 = (st_heap s)(f := \<lparr>val_flags = (PONE_FLAGS_STR_CONST OR PONE_FLAGS_FROZEN) OR PONE_FLAGS_STR_UTF8,
        val_as = AsStr (StrBuf (bs file_name @ [0])) (length file_name)\<rparr>)"
    by (rule new_const [OF wf, of file_name])
  obtain l s2 where l: "pone_obj_alloc w (AsInt (of_nat lineno)) s1 = Ret l s2" "step w {} (Suc 0) s1 s2"
    "\<not> pone_alive (st_heap s1 l)" "st_heap s2 = (st_heap s1)(l := \<lparr>val_flags = 0, val_as = AsInt (of_nat lineno)\<rparr>)"
    by (rule alloc_step [OF stepD(3) [OF f(2)], of "AsInt (of_nat lineno)"]) simp_all
  obtain u s3 where u: "pone_str_lit w sub s2 = Ret u s3" "step w {} (Suc 0) s2 s3" "\<not> pone_alive (st_heap s2 u)"
    "st_heap s3 = (st_heap s2)(u := \<lparr>val_flags = (PONE_FLAGS_STR_CONST OR PONE_FLAGS_FROZEN) OR PONE_FLAGS_STR_UTF8,
        val_as = AsStr (StrBuf (bs sub @ [0])) (length sub)\<rparr>)" "u \<noteq> Null"
    by (rule new_const [OF stepD(3) [OF l(2)], of sub])
  obtain r s4 where r: "pone_obj_alloc w (AsAry [f, l, u] (Suc (Suc (Suc 0))) (Suc (Suc (Suc 0)))) s3 = Ret r s4" "step w {} (Suc 0) s3 s4" "r \<noteq> Null"
    "\<not> pone_alive (st_heap s3 r)" "st_heap s4 = (st_heap s3)(r := \<lparr>val_flags = 0, val_as = AsAry [f, l, u] (Suc (Suc (Suc 0))) (Suc (Suc (Suc 0)))\<rparr>)"
    by (rule alloc_step [OF stepD(3) [OF u(2)], of "AsAry [f, l, u] (Suc (Suc (Suc 0))) (Suc (Suc (Suc 0)))"]) simp_all
  have "step w {} (Suc 0 + Suc 0 + Suc 0 + Suc 0) s s4" using step_trans f(2) l(2) u(2) r(2) by blast
  then have st4: "step w {cs} 4 s s4" "step w {} 4 s s4" using step_mono by (simp_all add: numeral_eq_Suc)
  have cs4: "st_heap s4 cs = st_heap s cs" by (rule stepD(7) [OF st4(2) ca]) simp
  have w4: "w_caller_stack (st_world s4 w) = cs" using stepD(6) [OF st4(1)] cs by simp
  have ok4: "ary_ok cs s4" using ary_kept [OF cs4] ok by simp
  obtain s5 where s5: "pone_ary_push cs r s4 = Ret () s5" "step w {cs} 4 s s5" "ary_ok cs s5"
    "ary_items cs s5 = ary_items cs s4 @ [r]" "\<And>q. q \<noteq> cs \<Longrightarrow> st_heap s5 q = st_heap s4 q"
    by (rule ary_push_step [OF st4(1) ok4 r(3)]) simp_all
  have ne: "l \<noteq> f" "u \<noteq> f" "u \<noteq> l" "r \<noteq> f" "r \<noteq> l" "r \<noteq> u"
    using l(3) u(3) r(4) by (auto simp: f(4) l(4) u(4) pone_alive_iff)
  have nc: "f \<noteq> cs" "l \<noteq> cs" "u \<noteq> cs" "r \<noteq> cs"
    using ca f(3) l(3) u(3) r(4) by (auto simp: f(4) l(4) u(4) pone_alive_iff split: if_splits)
  have fl: "((PONE_FLAGS_STR_CONST OR PONE_FLAGS_FROZEN) OR PONE_FLAGS_STR_UTF8) AND PONE_FLAGS_STR_COPY = 0"
    by (simp add: flag_defs)
  have h: "st_heap s5 r = \<lparr>val_flags = 0, val_as = AsAry [f, l, u] (Suc (Suc (Suc 0))) (Suc (Suc (Suc 0)))\<rparr>"
    "val_as (st_heap s5 l) = AsInt (of_nat lineno)" "st_heap s5 f = st_heap s1 f" "st_heap s5 u = st_heap s3 u"
    using ne nc by (simp_all add: s5(5) r(5) u(4) l(4))
  have "caller_row s5 r site"
    using ne unfolding site caller_row_def
    by (simp add: ary_items_def h pone_str_bytes_def has_flag_def f(4) u(4) fl bs_def)
  moreover have "pone_push_caller w site s = Ret () s5"
    using f(1) l(1) u(1) r(1) s5(1) w4 by (simp add: pone_push_caller_def site pone_int_new_def pone_ary_new_def)
  moreover have "ary_items cs s5 = ary_items cs s @ [r]" using s5(4) ary_kept [OF cs4] by simp
  ultimately show thesis using that s5(2,3) by blast
qed


lemma save_tmp_step:
  assumes "step w P n s0 s" "p \<noteq> Null"
  obtains s' where "pone_save_tmp w p s = Ret p s'" "step w P n s0 s'" "st_heap s' = st_heap s"
    "w_caller_stack (st_world s' w) = w_caller_stack (st_world s w)" "w_lex (st_world s' w) = w_lex (st_world s w)"
proof -
  let ?F = "\<lambda>W. W\<lparr>w_tmpstack_m := kv_grow (length (w_tmpstack W)) (w_tmpstack_m W), w_tmpstack := w_tmpstack W @ [p]\<rparr>"
  let ?s = "upd_world w ?F s"
  have F: "?F W = W\<lparr>w_tmpstack := w_tmpstack W @ [p], w_tmpstack_m := kv_grow (length (w_tmpstack W)) (w_tmpstack_m W)\<rparr>" for W
    by (cases W) simp
  have "arena_wf w ?s" using stepD(3) [OF assms(1)] by (subst arena_wf_cong [where s = s]) simp_all
  moreover have "same_but_alloc w s ?s"
    unfolding same_but_alloc_def
    by (intro conjI exI [of _ "w_arenas (st_world s w)"] exI [of _ "w_freelist (st_world s w)"]
        exI [of _ "w_gc_requested (st_world s w)"] exI [of _ "w_tmpstack (st_world s w) @ [p]"]
        exI [of _ "kv_grow (length (w_tmpstack (st_world s w))) (w_tmpstack_m (st_world s w))"])
      (simp_all add: upd_world_def F)
  ultimately have "frame w P s ?s" by (simp add: frame_def)
  then have "frame w P s0 ?s" by (rule frame_trans [OF stepD(1) [OF assms(1)]])
  moreover have "room w ?s k = room w s k" for k by (simp add: room_def)
  then have "uses w n s0 ?s" using stepD(2) [OF assms(1)] by (simp add: uses_def)
  moreover have "pone_save_tmp w p s = Ret p ?s" using assms(2) by (simp add: pone_save_tmp_def)
  ultimately show thesis using that by (simp add: step_def)
qed

text \<open>What a function leaves as it found it.\<close>

definition keeps_callers :: "nat \<Rightarrow> pone_state \<Rightarrow> pone_state \<Rightarrow> bool" where
  "keeps_callers w s s' \<longleftrightarrow> w_caller_stack (st_world s' w) = w_caller_stack (st_world s w) \<and>
     ary_ok (w_caller_stack (st_world s' w)) s' \<and> callers w s' = callers w s"

lemma pop_caller_spec:
  assumes cs: "cs = w_caller_stack (st_world s w)" and ok: "ary_ok cs s" and top: "ary_items cs s = xs @ [row]"
  obtains s' where "pone_pop_caller w s = Ret () s'" "ary_ok cs s'" "ary_items cs s' = xs"
    "\<And>q. q \<noteq> cs \<Longrightarrow> st_heap s' q = st_heap s q" "same_but_tmp w s s'"
proof -
  have ne: "ary_items cs s \<noteq> []" using top by simp
  obtain s' where s': "ary_take_last w cs s = Ret row s'" "ary_ok cs s'" "ary_items cs s' = xs"
    "\<And>q. q \<noteq> cs \<Longrightarrow> st_heap s' q = st_heap s q"
    using ary_pop_spec [OF ok ne] top by auto
  obtain a mx len where a: "val_as (st_heap s cs) = AsAry a mx len" "ary_items cs s = take len a"
    using ok by (auto elim: ary_okE)
  then have "len \<noteq> 0" using ne by auto
  then have "pone_pop_caller w s = Ret () s'" using a(1) s'(1) cs by (simp add: pone_pop_caller_def pone_ary_pop_def)
  then show thesis using that s'(2-4) take_last_same [OF s'(1)] by blast
qed

text \<open>
  The state in which the function of a code value is entered: the row of the call is on the stack of callers,
  and code with a scope runs in that scope.
\<close>

lemma vcall_enter:
  assumes wf: "arena_wf w s" and gc: "\<not> w_gc_requested (st_world s w)"
    and cs: "cs = w_caller_stack (st_world s w)" and ok: "ary_ok cs s" and code: "val_as (st_heap s code) = AsCode f lx"
  obtains s1 row where "step w {cs} 4 s s1" "ary_ok cs s1" "ary_items cs s1 = ary_items cs s @ [row]" "caller_row s1 row site"
    "pone_code_vcall E w site code self args s =
       (if lx = Null then andthen (e_call E f w self args s1) (\<lambda>r s. andthen (pone_pop_caller w s) (\<lambda>_. Ret r))
        else andthen (e_call E f w self args (set_lex w lx s1)) (\<lambda>r s.
             andthen (pone_pop_caller w (set_lex w (w_lex (st_world s1 w)) s)) (\<lambda>_. Ret r)))"
proof -
  obtain row s1 where s1: "pone_push_caller w site s = Ret () s1" "step w {cs} 4 s s1" "ary_ok cs s1"
    "ary_items cs s1 = ary_items cs s @ [row]" "caller_row s1 row site"
    by (rule push_caller_spec [OF wf cs ok])
  have "pone_alive (st_heap s code)" "code \<notin> {cs}"
    using code ok by (auto simp: pone_alive_iff ary_ok_def)
  then have c1: "st_heap s1 code = st_heap s code" by (rule stepD(7) [OF s1(2)])
  have t: "type_at s code = PONE_CODE" using code by (simp add: type_at_def pone_type_def)
  show thesis
  proof (cases "lx \<noteq> Null \<and> w_lex (st_world s1 w) \<noteq> Null")
    case True
    then obtain s2 where s2: "pone_save_tmp w (w_lex (st_world s1 w)) s1 = Ret (w_lex (st_world s1 w)) s2"
      "step w {cs} 4 s s2" "st_heap s2 = st_heap s1" "w_lex (st_world s2 w) = w_lex (st_world s1 w)"
      using save_tmp_step [OF s1(2)] by metis
    have "ary_ok cs s2 = ary_ok cs s1 \<and> ary_items cs s2 = ary_items cs s1" by (rule ary_kept) (simp add: s2(3))
    moreover have "caller_row s2 row site"
    proof -
      have b: "pone_str_bytes 1 p s1 = Ret b s1 \<Longrightarrow> pone_str_bytes 1 p s2 = Ret b s2" for p b
        by (rule str_frame) (simp_all add: s2(3))
      show ?thesis using s1(5) b by (auto simp: caller_row_def ary_items_def s2(3) split: prod.splits)
    qed
    ultimately show thesis
      using that [OF s2(2)] s1(1,3,4) s2(1,4) True gc t c1 code
      by (simp add: pone_code_vcall_def maybe_gc_def Let_def)
  next
    case no_save: False
    have "pone_code_vcall E w site code self args s =
       (if lx = Null then andthen (e_call E f w self args s1) (\<lambda>r s. andthen (pone_pop_caller w s) (\<lambda>_. Ret r))
        else andthen (e_call E f w self args (set_lex w lx s1)) (\<lambda>r s.
             andthen (pone_pop_caller w (set_lex w (w_lex (st_world s1 w)) s)) (\<lambda>_. Ret r)))"
      using no_save s1(1) gc t c1 code
      by (cases "lx = Null") (simp_all add: pone_code_vcall_def maybe_gc_def Let_def)
    then show thesis by (rule that [OF s1(2,3,4,5)])
  qed
qed


lemma step_set_as:
  assumes "step w P n s0 s" "pone_alive (st_heap s p)" "as_type a \<noteq> PONE_FREE" "p \<in> P"
  shows "step w P n s0 (set_as p a s)"
proof -
  have "room w (set_as p a s) k = room w s k" for k by (simp add: room_def)
  then show ?thesis
    using frame_set_as [OF stepD(1) [OF assms(1)] assms(2,3)] assms(4) stepD(2) [OF assms(1)]
    by (simp add: step_def uses_def)
qed

lemma pop_caller_step:
  assumes st: "step w P n s0 s" and cs: "cs = w_caller_stack (st_world s w)" "cs \<in> P" and ok: "ary_ok cs s"
    and top: "ary_items cs s = xs @ [row]"
  obtains s' where "pone_pop_caller w s = Ret () s'" "ary_ok cs s'" "ary_items cs s' = xs"
    "\<And>q. q \<noteq> cs \<Longrightarrow> st_heap s' q = st_heap s q" "step w P n s0 s'"
proof -
  obtain s' where s': "pone_pop_caller w s = Ret () s'" "ary_ok cs s'" "ary_items cs s' = xs"
    "\<And>q. q \<noteq> cs \<Longrightarrow> st_heap s' q = st_heap s q"
    by (rule pop_caller_spec [OF cs(1) ok top]) blast
  obtain a mx len where a: "val_as (st_heap s cs) = AsAry a mx len" "len \<le> length a" "Null \<notin> set (take len a)" "ary_items cs s = take len a"
    using ok by (auto elim: ary_okE)
  have len: "0 < len" using top a(4) by (cases len) auto
  then have "a ! (len - 1) \<in> set (take len a)" using a(2) by (auto simp: in_set_conv_nth intro!: exI [of _ "len - 1"])
  then have nn: "a ! (len - 1) \<noteq> Null" using a(3) by auto
  let ?s = "set_as cs (AsAry (a[len - 1 := Null]) mx (len - 1)) s"
  have "step w P n s0 ?s" by (rule step_set_as [OF st _ _ cs(2)]) (simp_all add: a(1) pone_alive_iff)
  from save_tmp_step [OF this nn] obtain s2 where "pone_save_tmp w (a ! (len - 1)) ?s = Ret (a ! (len - 1)) s2" "step w P n s0 s2"
    by blast
  moreover have "pone_pop_caller w s = andthen (pone_save_tmp w (a ! (len - 1)) ?s) (\<lambda>_. Ret ())"
    using a(1,2) len cs(1) by (simp add: pone_pop_caller_def pone_ary_pop_def ary_take_last_def)
  ultimately have "step w P n s0 s'" using s'(1) by simp
  then show thesis using that s' by blast
qed


lemma lex_of_set_lex [simp]:
  "st_heap (set_lex w lx s) = st_heap s" "w_lex (st_world (set_lex w lx s) w) = lx"
  "w_caller_stack (st_world (set_lex w lx s) w) = w_caller_stack (st_world s w)"
  by (simp_all add: set_lex_def)

lemma ary_set_lex [simp]: "ary_ok p (set_lex w lx s) = ary_ok p s" "ary_items p (set_lex w lx s) = ary_items p s"
  by (simp_all add: ary_ok_def ary_items_def)

lemma caller_row_set_lex:
  assumes "caller_row s row site"
  shows "caller_row (set_lex w lx s) row site"
proof -
  have "pone_str_bytes 1 p s = Ret b s \<Longrightarrow> pone_str_bytes 1 p (set_lex w lx s) = Ret b (set_lex w lx s)" for p b
    by (rule str_frame) simp_all
  then show ?thesis using assms by (auto simp: caller_row_def split: prod.splits)
qed

section \<open>Methods of strings\<close>

text \<open>A call of a method that is a C function without a scope and is itself a step.\<close>

lemma call_method_c:
  assumes wf: "arena_wf w s" and nil: "val_as (st_heap s pone_nil) = AsNil" and d: "e_depth E \<noteq> 0"
    and room: "room w s (Suc 0)" and cs: "cs = w_caller_stack (st_world s w)" and ok: "ary_ok cs s"
    and obj: "obj \<noteq> Null" "pone_alive (st_heap s obj)"
    and klass: "pone_what obj s = Ret klass s" "klass \<noteq> u_class_module (st_universe s)"
    and cls: "class_at (e_depth E) s klass m M" and M: "M name = Some (f, Null)"
    and run: "\<And>s1. step w {cs} 5 s s1 \<Longrightarrow> ary_ok cs s1 \<Longrightarrow>
      \<exists>r s2. e_call E f w obj args s1 = Ret r s2 \<and> step w {} n s1 s2 \<and> Q r s2"
    and Q: "\<And>r s2 s3. Q r s2 \<Longrightarrow> (\<And>q. q \<noteq> cs \<Longrightarrow> st_heap s3 q = st_heap s2 q) \<Longrightarrow> ary_ok cs s2 \<Longrightarrow> Q r s3"
  obtains r s' where "pone_call_method E w site obj name args s = Ret r s'" "step w {cs} (5 + n) s s'"
    "ary_ok cs s'" "ary_items cs s' = ary_items cs s" "Q r s'"
proof -
  have kn: "klass \<noteq> Null" using cls by (simp add: class_at_def)
  obtain c s1 where c: "class_method (e_depth E) w klass name s = Ret c s1" "step w {} (Suc 0) s s1" "method_found s1 c (M name)"
    by (rule class_method_step [OF wf nil cls d])
  have code: "c \<noteq> Null" "val_as (st_heap s1 c) = AsCode f Null" using c(3) by (simp_all add: M method_found_def code_at_def)
  have ca: "pone_alive (st_heap s cs)" using ok by (auto simp: ary_ok_def pone_alive_iff)
  have cs1: "st_heap s1 cs = st_heap s cs" using stepD(7) [OF c(2) ca] by simp
  then have a1: "ary_ok cs s1" "ary_items cs s1 = ary_items cs s" using ary_kept ok by blast+
  have w1: "cs = w_caller_stack (st_world s1 w)" using stepD(6) [OF c(2)] cs by simp
  have gc: "\<not> w_gc_requested (st_world s1 w)"
    using usesD [OF stepD(2) [OF c(2)], of 0] room room_no_gc by simp
  obtain s2 row where s2: "step w {cs} 4 s1 s2" "ary_ok cs s2" "ary_items cs s2 = ary_items cs s1 @ [row]"
    "pone_code_vcall E w site c obj args s1 =
       andthen (e_call E f w obj args s2) (\<lambda>r s. andthen (pone_pop_caller w s) (\<lambda>_. Ret r))"
    using vcall_enter [OF stepD(3) [OF c(2)] gc w1 a1(1) code(2), of site E obj args] by auto metis
  have "step w {cs} (Suc 0 + 4) s s2" using step_trans [OF step_mono [OF c(2)] s2(1)] .
  then have st2: "step w {cs} 5 s s2" by simp
  obtain r s3 where r: "e_call E f w obj args s2 = Ret r s3" "step w {} n s2 s3" "Q r s3"
    using run [OF st2 s2(2)] by blast
  have "st_heap s3 cs = st_heap s2 cs" by (rule stepD(7) [OF r(2)]) (use s2(2) in \<open>auto simp: ary_ok_def pone_alive_iff\<close>)
  then have a3: "ary_ok cs s3" "ary_items cs s3 = ary_items cs s1 @ [row]" using ary_kept s2(2,3) by metis+
  have w3: "cs = w_caller_stack (st_world s3 w)" using stepD(6) [OF r(2)] stepD(6) [OF st2] cs by simp
  obtain s4 where s4: "pone_pop_caller w s3 = Ret () s4" "ary_ok cs s4" "ary_items cs s4 = ary_items cs s1"
    "\<And>q. q \<noteq> cs \<Longrightarrow> st_heap s4 q = st_heap s3 q" "step w {cs} (5 + n) s s4"
    by (rule pop_caller_step [OF step_trans [OF st2 step_mono [OF r(2)]] w3 _ a3]) simp_all
  have "pone_call_method E w site obj name args s = Ret r s4"
    using obj klass c(1) code s2(4) r(1) s4(1) kn
    by (simp add: pone_call_method_def pone_find_method_def type_at_def pone_type_def)
  moreover have "Q r s4" by (rule Q [OF r(3) s4(4) a3(1)])
  ultimately show thesis using that s4(2,3,5) a1(2) by simp
qed


section \<open>Conversion to text\<close>

lemma str_ptr_mono: "pone_str_ptr d p s = Ret b s \<Longrightarrow> d \<le> d' \<Longrightarrow> pone_str_ptr d' p s = Ret b s"
proof (induction d arbitrary: p d')
  case (Suc d)
  then obtain e where e: "d' = Suc e" "d \<le> e" by (cases d') auto
  then show ?case using Suc by (auto split: pone_as.splits if_splits str_data.splits)
qed simp

lemma str_len_mono: "pone_str_len d p s = Ret n s \<Longrightarrow> d \<le> d' \<Longrightarrow> pone_str_len d' p s = Ret n s"
proof (induction d arbitrary: p d')
  case (Suc d)
  then obtain e where e: "d' = Suc e" "d \<le> e" by (cases d') auto
  then show ?case using Suc by (auto split: pone_as.splits if_splits str_data.splits)
qed simp

lemma str_bytesE:
  assumes "pone_str_bytes d p s = Ret b s"
  obtains x n where "pone_str_ptr d p s = Ret x s" "pone_str_len d p s = Ret n s" "n \<le> length x" "b = take n x"
proof -
  obtain x n s1 s2 where r: "pone_str_ptr d p s = Ret x s1" "pone_str_len d p s1 = Ret n s2" "n \<le> length x" "b = take n x"
    using assms by (auto simp: pone_str_bytes_def andthen_Ret_iff split: if_splits)
  have "s1 = s" "s2 = s" using str_ptr_state [OF r(1)] str_len_state [OF r(2)] by simp_all
  then show thesis using that r by simp
qed

lemma str_bytes_mono:
  assumes "pone_str_bytes d p s = Ret b s" "d \<le> d'"
  shows "pone_str_bytes d' p s = Ret b s"
  using assms(1)
proof (rule str_bytesE)
  fix x n
  assume "pone_str_ptr d p s = Ret x s" "pone_str_len d p s = Ret n s" "n \<le> length x" "b = take n x"
  then show ?thesis
    using str_ptr_mono [of d p s x, OF _ assms(2)] str_len_mono [of d p s n, OF _ assms(2)] by (simp add: pone_str_bytes_def)
qed

text \<open>
  A world in which strings convert to strings: the class of strings finds the method that copies its receiver.
\<close>

definition text_ready :: "('z pone_rt_scheme) \<Rightarrow> nat \<Rightarrow> pone_state \<Rightarrow> bool" where
  "text_ready E w s \<longleftrightarrow> arena_wf w s \<and> val_as (st_heap s pone_nil) = AsNil \<and> ary_ok (w_caller_stack (st_world s w)) s \<and>
     (\<forall>p s. e_call E ''meth_str_str'' w p [] s = meth_str_str E w p [] s) \<and>
     u_class_str (st_universe s) \<noteq> u_class_module (st_universe s) \<and>
     (\<exists>m M. class_at (e_depth E) s (u_class_str (st_universe s)) m M \<and> M (bs ''Str'') = Some (''meth_str_str'', Null))"

definition utf8_text :: "nat \<Rightarrow> pone_state \<Rightarrow> ptr \<Rightarrow> bytes \<Rightarrow> bool" where
  "utf8_text d s p b \<longleftrightarrow> p \<noteq> Null \<and> type_at s p = PONE_STRING \<and> has_flag PONE_FLAGS_STR_UTF8 (st_heap s p) \<and>
     pone_str_bytes d p s = Ret b s"

lemma text_ready_step:
  assumes "text_ready E w s" "step w {w_caller_stack (st_world s w)} n s s'" "ary_ok (w_caller_stack (st_world s w)) s'"
  shows "text_ready E w s'"
proof -
  let ?cs = "w_caller_stack (st_world s w)"
  have r: "arena_wf w s" "val_as (st_heap s pone_nil) = AsNil" "ary_ok ?cs s"
    "\<forall>p s. e_call E ''meth_str_str'' w p [] s = meth_str_str E w p [] s"
    "u_class_str (st_universe s) \<noteq> u_class_module (st_universe s)"
    using assms(1) by (simp_all add: text_ready_def)
  obtain m M where cls: "class_at (e_depth E) s (u_class_str (st_universe s)) m M" "M (bs ''Str'') = Some (''meth_str_str'', Null)"
    using assms(1) by (auto simp: text_ready_def)
  have "pone_nil \<noteq> ?cs" using r(2,3) by (auto simp: ary_ok_def)
  then have "st_heap s' pone_nil = st_heap s pone_nil"
    using r(2) by (intro stepD(7) [OF assms(2)]) (simp_all add: pone_alive_iff)
  moreover have "class_at (e_depth E) s' (u_class_str (st_universe s)) m M"
    using stepD(1) [OF assms(2)] _ cls(1)
    by (rule class_at_frame) (use r(3) in \<open>auto simp: ary_ok_def class_part_def pone_type_def\<close>)
  ultimately show ?thesis
    using r cls(2) assms(3) stepD(3,4,6) [OF assms(2)] by (auto simp: text_ready_def)
qed

lemma step_bytes:
  assumes "step w {cs} n s s'" "ary_ok cs s" "pone_str_bytes d p s = Ret b s"
  shows "pone_str_bytes d p s' = Ret b s'"
proof (rule str_frame [OF _ assms(3)])
  fix q assume "pone_type (st_heap s q) = PONE_STRING"
  then show "st_heap s' q = st_heap s q"
    using assms(2) by (intro stepD(7) [OF assms(1)]) (auto simp: pone_alive_def ary_ok_def pone_type_def)
qed

lemma utf8_text_step:
  assumes "step w {cs} n s s'" "ary_ok cs s" "utf8_text d s p b"
  shows "utf8_text d s' p b"
proof -
  have t: "type_at s p = PONE_STRING" using assms(3) by (simp add: utf8_text_def)
  then have "st_heap s' p = st_heap s p"
    using assms(2) by (intro stepD(7) [OF assms(1)]) (auto simp: type_at_def pone_alive_def ary_ok_def pone_type_def)
  moreover have "pone_str_bytes d p s' = Ret b s'"
    by (rule step_bytes [OF assms(1,2)]) (use assms(3) in \<open>simp add: utf8_text_def\<close>)
  ultimately show ?thesis using assms(3) by (simp add: utf8_text_def type_at_def)
qed

text \<open>The copy that the method makes reads the same, one link further.\<close>

lemma str_copy_step:
  assumes wf: "arena_wf w s" and p: "utf8_text d s p b"
  obtains c s' where "pone_str_copy w p s = Ret c s'" "step w {} (Suc 0) s s'" "utf8_text (Suc d) s' c b"
proof -
  obtain c s0 where c: "pone_obj_alloc w (AsStr (StrVal p) 0) s = Ret c s0" "step w {} (Suc 0) s s0" "c \<noteq> Null"
    "\<not> pone_alive (st_heap s c)" "st_heap s0 = (st_heap s)(c := \<lparr>val_flags = 0, val_as = AsStr (StrVal p) 0\<rparr>)"
    by (rule alloc_step [OF wf, of "AsStr (StrVal p) 0"]) simp_all
  let ?fl = "PONE_FLAGS_STR_COPY OR PONE_FLAGS_STR_UTF8"
  let ?s = "or_flags ?fl c s0"
  have h: "st_heap ?s = (st_heap s)(c := \<lparr>val_flags = ?fl, val_as = AsStr (StrVal p) 0\<rparr>)" by (simp add: or_flags_def c(5))
  have st: "step w {} (Suc 0) s ?s"
    unfolding or_flags_def by (rule step_flags [OF c(2,4)]) (simp add: c(5) pone_alive_iff)
  have same: "st_heap ?s q = st_heap s q" if "pone_type (st_heap s q) = PONE_STRING" for q
    using that c(4) by (auto simp: h pone_alive_def)
  have b: "pone_str_bytes d p ?s = Ret b ?s" by (rule str_frame [OF same]) (use p in \<open>simp_all add: utf8_text_def\<close>)
  have fl: "?fl AND PONE_FLAGS_STR_COPY \<noteq> 0" "?fl AND PONE_FLAGS_STR_UTF8 \<noteq> 0" by (simp_all add: flag_defs)
  obtain x n where x: "pone_str_ptr d p ?s = Ret x ?s" "pone_str_len d p ?s = Ret n ?s" "n \<le> length x" "b = take n x"
    by (rule str_bytesE [OF b])
  have "pone_str_bytes (Suc d) c ?s = Ret b ?s"
    using fl x by (simp add: pone_str_bytes_def h has_flag_def)
  then have "utf8_text (Suc d) ?s c b" using c(3) fl by (simp add: utf8_text_def h type_at_def pone_type_def has_flag_def)
  moreover have "pone_str_copy w p s = Ret c ?s" using p c(1) by (simp add: pone_str_copy_def utf8_text_def)
  ultimately show thesis using that st by blast
qed

lemma stringify_spec:
  assumes ready: "text_ready E w s" and room: "room w s (Suc 0)" and p: "utf8_text d s p b" and d: "e_depth E \<noteq> 0"
    and cs: "cs = w_caller_stack (st_world s w)"
  obtains c s' where "pone_stringify E w p s = Ret c s'" "step w {cs} 6 s s'" "ary_ok cs s'"
    "ary_items cs s' = ary_items cs s" "utf8_text (Suc d) s' c b"
proof -
  have r: "arena_wf w s" "val_as (st_heap s pone_nil) = AsNil" "ary_ok cs s"
    "e_call E ''meth_str_str'' w q [] s' = meth_str_str E w q [] s'"
    "u_class_str (st_universe s) \<noteq> u_class_module (st_universe s)" for q s'
    using ready cs by (simp_all add: text_ready_def)
  obtain m M where cls: "class_at (e_depth E) s (u_class_str (st_universe s)) m M" "M (bs ''Str'') = Some (''meth_str_str'', Null)"
    using ready by (auto simp: text_ready_def)
  have p': "p \<noteq> Null" "pone_alive (st_heap s p)" and what: "pone_what p s = Ret (u_class_str (st_universe s)) s"
    using p by (auto simp: utf8_text_def type_at_def pone_alive_def pone_what_def Let_def pone_type_def split: pone_as.splits)
  have run: "\<exists>c s2. e_call E ''meth_str_str'' w p [] s1 = Ret c s2 \<and> step w {} (Suc 0) s1 s2 \<and> utf8_text (Suc d) s2 c b"
    if st: "step w {cs} 5 s s1" for s1
  proof -
    obtain c s2 where "pone_str_copy w p s1 = Ret c s2" "step w {} (Suc 0) s1 s2" "utf8_text (Suc d) s2 c b"
      by (rule str_copy_step [OF stepD(3) [OF st] utf8_text_step [OF st r(3) p]])
    then show ?thesis by (simp add: r(4) meth_str_str_def)
  qed
  have Q: "utf8_text (Suc d) s3 c b"
    if c: "utf8_text (Suc d) s2 c b" and same: "\<And>q. q \<noteq> cs \<Longrightarrow> st_heap s3 q = st_heap s2 q" and a: "ary_ok cs s2" for c s2 s3
  proof -
    have str: "st_heap s3 q = st_heap s2 q" if "pone_type (st_heap s2 q) = PONE_STRING" for q
      using that a same [of q] by (cases "q = cs") (auto simp: ary_ok_def pone_type_def)
    have "pone_str_bytes (Suc d) c s3 = Ret b s3" by (rule str_frame [OF str]) (use c in \<open>simp_all add: utf8_text_def\<close>)
    then show ?thesis using c str [of c] by (simp add: utf8_text_def type_at_def)
  qed
  obtain c s' where "pone_call_method E w (''str.c'', 167, ''pone_stringify'') p (bs ''Str'') [] s = Ret c s'"
    "step w {cs} (5 + Suc 0) s s'" "ary_ok cs s'" "ary_items cs s' = ary_items cs s" "utf8_text (Suc d) s' c b"
    by (rule call_method_c [where Q = "\<lambda>c s. utf8_text (Suc d) s c b" and n = "Suc 0" and f = "''meth_str_str''",
          OF r(1,2) d room cs r(3) p' what r(5) cls run Q])
  then show thesis using that by (simp add: pone_stringify_def utf8_text_def)
qed


text \<open>\<open>pone_str_concat\<close> of a text and the string of one NUL.\<close>

lemma concat_nul:
  assumes ready: "text_ready E w s" and room: "room w s 8" and p: "utf8_text d s p b" and d: "d < e_depth E"
    and two: "Suc 0 < e_depth E" and cs: "cs = w_caller_stack (st_world s w)"
  obtains c s' where "andthen (pone_str_new_strdup w [0] 1 s) (\<lambda>z. pone_str_concat E w p z) = Ret c s'"
    "step w {cs} 14 s s'" "ary_ok cs s'" "ary_items cs s' = ary_items cs s" "c \<noteq> Null"
    "st_heap s' c = \<lparr>val_flags = PONE_FLAGS_STR_UTF8, val_as = AsStr (StrBuf (b @ [0])) (Suc (length b))\<rparr>"
proof -
  have wf: "arena_wf w s" and ok: "ary_ok cs s" using ready cs by (simp_all add: text_ready_def)
  have ca: "pone_alive (st_heap s cs)" using ok by (auto simp: ary_ok_def pone_alive_iff)
  have dn: "e_depth E \<noteq> 0" using d by simp
  obtain z s1 where z: "pone_str_new_strdup w ([0] @ [0]) (length [0 :: byte]) s = Ret z s1" "frame w {} s s1" "z \<noteq> Null"
    "\<not> pone_alive (st_heap s z)" "st_heap s1 = (st_heap s)(z := \<lparr>val_flags = PONE_FLAGS_STR_UTF8, val_as = AsStr (StrBuf ([0] @ [0])) (length [0 :: byte])\<rparr>)"
    by (rule new_str [OF wf dn, of "[0]"])
  have st1: "step w {cs} (Suc 0) s s1" using frame_mono [OF z(2), of "{cs}"] strdup_uses [OF z(1)] by (simp add: step_def)
  have z1: "pone_str_new_strdup w [0] 1 s = Ret z s1"
    using z(1) by (simp add: pone_str_new_strdup_def pone_bytes_new_strdup_def pone_strdup_def)
  have "z \<noteq> cs" using z(4) ca by auto
  then have ok1: "ary_ok cs s1" "ary_items cs s1 = ary_items cs s" using ok ary_kept [of s1 cs s] by (simp_all add: z(5))
  have fl: "PONE_FLAGS_STR_UTF8 AND PONE_FLAGS_STR_COPY = 0" "PONE_FLAGS_STR_UTF8 \<noteq> 0" by (simp_all add: flag_defs)
  have tz: "utf8_text 1 s1 z [0]"
    using z(3) fl by (simp add: utf8_text_def z(5) type_at_def pone_type_def has_flag_def pone_str_bytes_def)
  have w1: "cs = w_caller_stack (st_world s1 w)" using stepD(6) [OF st1] cs by simp
  have ready1: "text_ready E w s1" using text_ready_step [OF ready] st1 ok1(1) cs by simp
  have room1: "room w s1 (Suc 0)" "room w s1 (6 + Suc 0)"
    by (rule usesD [OF stepD(2) [OF st1]], rule room_mono [OF room], simp)+
  obtain c1 s2 where c1: "pone_stringify E w p s1 = Ret c1 s2" "step w {cs} 6 s1 s2" "ary_ok cs s2"
    "ary_items cs s2 = ary_items cs s1" "utf8_text (Suc d) s2 c1 b"
    by (rule stringify_spec [OF ready1 room1(1) utf8_text_step [OF st1 ok p] dn w1])
  have w2: "cs = w_caller_stack (st_world s2 w)" using stepD(6) [OF c1(2)] w1 by simp
  have ready2: "text_ready E w s2" using text_ready_step [OF ready1] c1(2,3) w1 by simp
  have room2: "room w s2 (Suc 0)" using usesD [OF stepD(2) [OF c1(2)] room1(2)] .
  obtain c2 s3 where c2: "pone_stringify E w z s2 = Ret c2 s3" "step w {cs} 6 s2 s3" "ary_ok cs s3"
    "ary_items cs s3 = ary_items cs s2" "utf8_text (Suc 1) s3 c2 [0]"
    by (rule stringify_spec [OF ready2 room2 utf8_text_step [OF c1(2) ok1(1) tz] dn w2])
  have b1: "pone_str_bytes (e_depth E) c1 s3 = Ret b s3"
    using utf8_text_step [OF c2(2) c1(3,5)] d by (auto simp: utf8_text_def intro: str_bytes_mono)
  have b2: "pone_str_bytes (e_depth E) c2 s3 = Ret [0] s3"
    using c2(5) two by (auto simp: utf8_text_def intro: str_bytes_mono)
  obtain c s4 where c: "pone_obj_alloc w (AsStr (StrBuf (b @ [0])) (Suc (length b))) s3 = Ret c s4" "step w {} (Suc 0) s3 s4" "c \<noteq> Null"
    "\<not> pone_alive (st_heap s3 c)" "st_heap s4 = (st_heap s3)(c := \<lparr>val_flags = 0, val_as = AsStr (StrBuf (b @ [0])) (Suc (length b))\<rparr>)"
    by (rule alloc_step [OF stepD(3) [OF c2(2)], of "AsStr (StrBuf (b @ [0])) (Suc (length b))"]) simp_all
  let ?s = "set_flags c PONE_FLAGS_STR_UTF8 s4"
  have st4: "step w {} (Suc 0) s3 ?s" by (rule step_flags [OF c(2,4)]) (simp add: c(5) pone_alive_iff)
  have "step w {cs} (Suc 0 + 6 + 6 + Suc 0) s ?s"
    using step_trans [OF step_trans [OF step_trans [OF st1 c1(2)] c2(2)] step_mono [OF st4]] .
  then have st: "step w {cs} 14 s ?s" by simp
  have "c \<noteq> cs" using c(4) c2(3) by (auto simp: ary_ok_def pone_alive_iff)
  then have "ary_ok cs ?s" "ary_items cs ?s = ary_items cs s3"
    using c2(3) ary_kept [of ?s cs s3] by (simp_all add: c(5))
  moreover have "andthen (pone_str_new_strdup w [0] 1 s) (\<lambda>z. pone_str_concat E w p z) = Ret c ?s"
    using z1 c1(1) c2(1) b1 b2 c(1) by (simp add: pone_str_concat_def pone_str_join_def)
  ultimately show thesis
    using that [of c ?s] st c(3) c1(4) c2(4) ok1(2) by (simp add: c(5))
qed


section \<open>Properties\<close>

text \<open>
  C8: what a call does around the function of a code value. The function is entered with the caller's row of file, line
  and name on top of the stack of callers, in the scope of the code if it has one, with every other value
  unchanged; when it returns with the callers as it found them the row is gone and the caller's scope is back; an
  exception is passed on, and the handler restores both.
\<close>

theorem code_call_frames:
  assumes wf: "arena_wf w s" and gc: "\<not> w_gc_requested (st_world s w)" and cs: "cs = w_caller_stack (st_world s w)"
    and ok: "ary_ok cs s" and code: "val_as (st_heap s code) = AsCode f lx"
  shows "\<exists>s1 row. w_caller_stack (st_world s1 w) = cs \<and> ary_ok cs s1 \<and> callers w s1 = callers w s @ [row] \<and> caller_row s1 row site \<and>
    w_lex (st_world s1 w) = (if lx = Null then w_lex (st_world s w) else lx) \<and>
    (\<forall>p. pone_alive (st_heap s p) \<longrightarrow> p \<noteq> cs \<longrightarrow> st_heap s1 p = st_heap s p) \<and>
    (\<forall>r s2. e_call E f w self args s1 = Ret r s2 \<longrightarrow> keeps_callers w s1 s2 \<longrightarrow>
       (\<exists>s3. pone_code_vcall E w site code self args s = Ret r s3 \<and> callers w s3 = callers w s \<and>
          w_lex (st_world s3 w) = (if lx = Null then w_lex (st_world s2 w) else w_lex (st_world s w)))) \<and>
    (\<forall>j s2. e_call E f w self args s1 = Jump j s2 \<longrightarrow> pone_code_vcall E w site code self args s = Jump j s2)"
proof -
  obtain s0 row where s0: "step w {cs} 4 s s0" "ary_ok cs s0" "ary_items cs s0 = ary_items cs s @ [row]" "caller_row s0 row site"
    and run: "pone_code_vcall E w site code self args s =
       (if lx = Null then andthen (e_call E f w self args s0) (\<lambda>r s. andthen (pone_pop_caller w s) (\<lambda>_. Ret r))
        else andthen (e_call E f w self args (set_lex w lx s0)) (\<lambda>r s.
             andthen (pone_pop_caller w (set_lex w (w_lex (st_world s0 w)) s)) (\<lambda>_. Ret r)))"
    by (rule vcall_enter [OF wf gc cs ok code, of site E self args])
  let ?s1 = "if lx = Null then s0 else set_lex w lx s0"
  have w0: "w_caller_stack (st_world s0 w) = cs" "w_lex (st_world s0 w) = w_lex (st_world s w)"
    using stepD(5,6) [OF s0(1)] cs by simp_all
  have "\<exists>s3. pone_code_vcall E w site code self args s = Ret r s3 \<and> callers w s3 = callers w s \<and>
      w_lex (st_world s3 w) = (if lx = Null then w_lex (st_world s2 w) else w_lex (st_world s w))"
    if call: "e_call E f w self args ?s1 = Ret r s2" and keep: "keeps_callers w ?s1 s2" for r s2
  proof -
    let ?s2 = "if lx = Null then s2 else set_lex w (w_lex (st_world s0 w)) s2"
    have k: "cs = w_caller_stack (st_world ?s2 w)" "ary_ok cs ?s2" "ary_items cs ?s2 = ary_items cs s @ [row]"
      using keep w0(1) s0(3) by (auto simp: keeps_callers_def split: if_splits)
    obtain s3 where s3: "pone_pop_caller w ?s2 = Ret () s3" "ary_items cs s3 = ary_items cs s" "same_but_tmp w ?s2 s3"
      by (rule pop_caller_spec [OF k]) blast
    have "w_caller_stack (st_world s3 w) = cs" "w_lex (st_world s3 w) = w_lex (st_world ?s2 w)"
      using s3(3) k(1) by (auto simp: same_but_tmp_def)
    then show ?thesis
      using call s3(1,2) run w0(2) cs by (cases "lx = Null") simp_all
  qed
  moreover have "pone_code_vcall E w site code self args s = Jump j s2" if "e_call E f w self args ?s1 = Jump j s2" for j s2
    using that run by (cases "lx = Null") simp_all
  moreover have "caller_row ?s1 row site" using s0(4) caller_row_set_lex by simp
  moreover have "st_heap ?s1 p = st_heap s p" if "pone_alive (st_heap s p)" "p \<noteq> cs" for p
    using stepD(7) [OF s0(1) that(1)] that(2) by simp
  ultimately show ?thesis
    using w0 s0(2,3) cs by (intro exI [of _ ?s1] exI [of _ row]) simp
qed

text \<open>A world with a stack of callers, and a code value with a scope.\<close>

definition call_demo :: pone_state where
  "call_demo = blank_state\<lparr>st_heap := initial_heap
       (Cell 9 0 0 := \<lparr>val_flags = 0, val_as = AsAry [] 0 0\<rparr>,
        Cell 9 0 1 := \<lparr>val_flags = 0, val_as = AsCode ''f'' (Cell 9 0 2)\<rparr>),
     st_world := (\<lambda>_. blank_world)(0 := blank_world\<lparr>w_caller_stack := Cell 9 0 0, w_lex := Cell 9 0 3\<rparr>)\<rparr>"

theorem code_call_frames_witness:
  "\<exists>s3. pone_code_vcall demo_libc 0 (''a'', 1, ''b'') (Cell 9 0 1) NilP [] call_demo = Ret NilP s3 \<and>
     callers 0 s3 = [] \<and> w_lex (st_world s3 0) = Cell 9 0 3"
proof -
  let ?cs = "w_caller_stack (st_world call_demo 0)"
  have cs: "?cs = Cell 9 0 0" by (simp add: call_demo_def)
  have wf: "arena_wf 0 call_demo"
    using blank_world_wf [of blank_state 0]
    by (simp add: arena_wf_def call_demo_def blank_state_def blank_world_def arenas_ok_def world_cells_def initial_heap_def pone_alive_iff)
  have ok: "ary_ok ?cs call_demo" and items: "ary_items ?cs call_demo = []"
    by (simp_all add: call_demo_def ary_ok_def ary_items_def)
  have gc: "\<not> w_gc_requested (st_world call_demo 0)" and code: "val_as (st_heap call_demo (Cell 9 0 1)) = AsCode ''f'' (Cell 9 0 2)"
    by (simp_all add: call_demo_def blank_world_def)
  have call: "e_call demo_libc ''f'' 0 NilP [] s = Ret NilP s" for s by (simp add: demo_libc_def pone_nil_def)
  obtain s1 row where s1: "w_caller_stack (st_world s1 0) = ?cs" "ary_ok ?cs s1" "callers 0 s1 = callers 0 call_demo @ [row]" "caller_row s1 row (''a'', 1, ''b'')"
    and ret: "\<forall>r s2. e_call demo_libc ''f'' 0 NilP [] s1 = Ret r s2 \<longrightarrow> keeps_callers 0 s1 s2 \<longrightarrow>
       (\<exists>s3. pone_code_vcall demo_libc 0 (''a'', 1, ''b'') (Cell 9 0 1) NilP [] call_demo = Ret r s3 \<and>
          callers 0 s3 = callers 0 call_demo \<and>
          w_lex (st_world s3 0) = (if Cell 9 0 2 = Null then w_lex (st_world s2 0) else w_lex (st_world call_demo 0)))"
    using code_call_frames [OF wf gc refl ok code, of "(''a'', 1, ''b'')" demo_libc NilP "[]"] by blast
  have "keeps_callers 0 s1 s1" using s1(1,2) by (simp add: keeps_callers_def)
  then obtain s3 where "pone_code_vcall demo_libc 0 (''a'', 1, ''b'') (Cell 9 0 1) NilP [] call_demo = Ret NilP s3"
    "callers 0 s3 = callers 0 call_demo" "w_lex (st_world s3 0) = w_lex (st_world call_demo 0)"
    using ret call by auto
  then show ?thesis using items by (simp add: call_demo_def)
qed


text \<open>
  C24: the C string of a text, by way of the method table of the class of strings. A NUL before the last byte is an
  exception; otherwise the result holds the bytes of the text and a NUL, the stack of callers is as it was, and no other
  value has changed.
\<close>

theorem c_str_of_text:
  assumes ready: "text_ready E w s" and room: "room w s 8" and p: "utf8_text d s p b" and d: "d < e_depth E"
  shows "if 0 \<in> set (butlast b)
    then pone_str_c_str E w p s = pone_throw_str w (bs ''You can't convert string to c-string. Since it contains '' @ [92] @ bs ''0.'') s
    else \<exists>c s'. pone_str_c_str E w p s = Ret c s' \<and> pone_str_ptr (e_depth E) c s' = Ret (b @ [0]) s' \<and>
      callers w s' = callers w s \<and>
      (\<forall>q. pone_alive (st_heap s q) \<longrightarrow> q \<noteq> w_caller_stack (st_world s w) \<longrightarrow> st_heap s' q = st_heap s q)"
proof -
  have t: "type_at s p = PONE_STRING" and b: "pone_str_bytes (e_depth E) p s = Ret b s"
    using p d by (auto simp: utf8_text_def intro: str_bytes_mono)
  have nul: "pone_str_contains_null (e_depth E) p s = Ret (0 \<in> set (butlast b)) s"
    using b by (cases b) (simp_all add: pone_str_contains_null_def)
  have "d \<noteq> 0" using p by (cases d) (auto simp: utf8_text_def pone_str_bytes_def)
  then have two: "Suc 0 < e_depth E" using d by simp
  show ?thesis
  proof (cases "0 \<in> set (butlast b)")
    case True
    then show ?thesis using t nul by (simp add: pone_str_c_str_def)
  next
    case False
    obtain c s' where c: "andthen (pone_str_new_strdup w [0] 1 s) (\<lambda>z. pone_str_concat E w p z) = Ret c s'"
      "step w {w_caller_stack (st_world s w)} 14 s s'" "ary_items (w_caller_stack (st_world s w)) s' = callers w s"
      "st_heap s' c = \<lparr>val_flags = PONE_FLAGS_STR_UTF8, val_as = AsStr (StrBuf (b @ [0])) (Suc (length b))\<rparr>"
      by (rule concat_nul [OF ready room p d two refl])
    have "PONE_FLAGS_STR_UTF8 AND PONE_FLAGS_STR_COPY = 0" by (simp add: flag_defs)
    then have "pone_str_ptr (e_depth E) c s' = Ret (b @ [0]) s'"
      using d by (cases "e_depth E") (simp_all add: c(4) has_flag_def)
    moreover have "pone_str_c_str E w p s = Ret c s'" using t nul False c(1) by (simp add: pone_str_c_str_def)
    ultimately show ?thesis using False c(3) stepD(6,7) [OF c(2)] by auto
  qed
qed

text \<open>
  A world with the class of strings, its table, the name and the function of its only method, and a text; the table is
  still empty.
\<close>

definition text_demo :: "ptr str_khash \<Rightarrow> pone_state" where
  "text_demo iv = blank_state\<lparr>st_heap := initial_heap
       (Cell 9 0 0 := \<lparr>val_flags = 0, val_as = AsAry [] 0 0\<rparr>,
        Cell 9 0 1 := \<lparr>val_flags = 0, val_as = AsObj Null iv\<rparr>,
        Cell 9 0 2 := \<lparr>val_flags = 0, val_as = AsMap kh_init 0\<rparr>,
        Cell 9 0 3 := \<lparr>val_flags = 0, val_as = AsStr (StrBuf (bs ''Str'' @ [0])) 3\<rparr>,
        Cell 9 0 4 := \<lparr>val_flags = 0, val_as = AsCode ''meth_str_str'' Null\<rparr>,
        Cell 9 0 5 := \<lparr>val_flags = PONE_FLAGS_STR_UTF8, val_as = AsStr (StrBuf [97, 98]) 2\<rparr>),
     st_world := (\<lambda>_. blank_world)(0 := blank_world\<lparr>w_caller_stack := Cell 9 0 0\<rparr>),
     st_universe := blank_universe\<lparr>u_class_str := Cell 9 0 1\<rparr>\<rparr>"

lemma text_demo_ready:
  assumes "e_depth E = 2" "\<And>p s. e_call E ''meth_str_str'' 0 p [] s = pone_str_copy 0 p s"
  obtains s where "text_ready E 0 s" "room 0 s 100" "utf8_text 1 s (Cell 9 0 5) [97, 98]" "st_os s = blank_os"
proof -
  let ?m = "Cell 9 0 2"
  have sz: "kh_size (kh_init :: ptr str_khash) < 2 ^ 30" by (simp add: kh_init_def)
  obtain iv where iv: "str_kh_inv iv" "str_kh_map iv = [cstr (bs ''$!methods'') \<mapsto> ?m]"
    using str_table.table.store_look [OF kh_init_inv, of "bs ''$!methods''" ?m] sz unfolding kh_init_lookup by auto
  let ?s0 = "text_demo iv"
  have fl: "PONE_FLAGS_STR_UTF8 AND PONE_FLAGS_STR_COPY = 0" "PONE_FLAGS_STR_UTF8 \<noteq> 0" by (simp_all add: flag_defs)
  have "methods_at 2 ?s0 ?m Map.empty"
    by (simp add: methods_at_def text_demo_def kh_init_inv kh_init_lookup) (simp add: kh_init_def kh_live_def)
  then have cls: "class_at 2 ?s0 (Cell 9 0 1) ?m Map.empty" using iv by (simp add: class_at_def text_demo_def)
  have key: "text_at 2 ?s0 (Cell 9 0 3) (bs ''Str'')"
    by (simp add: text_at_def map_key_def pone_str_bytes_def text_demo_def type_at_def pone_type_def has_flag_def bs_def numeral_2_eq_2)
  have code: "code_at ?s0 (Cell 9 0 4) (''meth_str_str'', Null)" by (simp add: code_at_def text_demo_def)
  obtain h len where s: "class_at 2 (set_as ?m (AsMap h len) ?s0) (Cell 9 0 1) ?m [bs ''Str'' \<mapsto> (''meth_str_str'', Null)]"
    by (rule class_put [OF cls _ key code]) simp_all
  let ?s = "set_as ?m (AsMap h len) ?s0"
  have wf: "arena_wf 0 ?s"
    using blank_world_wf [of blank_state 0]
    by (simp add: arena_wf_def text_demo_def blank_state_def blank_world_def arenas_ok_def world_cells_def initial_heap_def pone_alive_iff)
  have ok: "ary_ok (Cell 9 0 0) ?s" by (simp add: ary_ok_def text_demo_def)
  have w: "w_caller_stack (st_world ?s 0) = Cell 9 0 0" by (simp add: text_demo_def)
  have u: "u_class_str (st_universe ?s) = Cell 9 0 1" "u_class_module (st_universe ?s) = Null"
    "val_as (st_heap ?s pone_nil) = AsNil"
    by (simp_all add: text_demo_def blank_universe_def pone_nil_def initial_heap_def)
  have "e_call E ''meth_str_str'' 0 p [] s = meth_str_str E 0 p [] s" for p s
    by (simp add: assms(2) meth_str_str_def)
  moreover have "\<exists>m M. class_at 2 ?s (Cell 9 0 1) m M \<and> M (bs ''Str'') = Some (''meth_str_str'', Null)"
    by (intro exI conjI) (rule s, simp)
  ultimately have "text_ready E 0 ?s"
    unfolding text_ready_def w u(1,2) using wf u(3) ok assms(1) by simp
  moreover have "room 0 ?s 100" by (simp add: room_def text_demo_def blank_world_def PONE_ARENA_SIZE_def)
  moreover have "utf8_text 1 ?s (Cell 9 0 5) [97, 98]"
    using fl by (simp add: utf8_text_def text_demo_def type_at_def pone_type_def has_flag_def pone_str_bytes_def)
  moreover have "st_os ?s = blank_os" by (simp add: text_demo_def blank_state_def set_as_def set_val_def)
  ultimately show thesis using that by metis
qed

definition demo_text_env :: pone_libc where
  "demo_text_env = demo_libc\<lparr>e_call := (\<lambda>f w self args s. pone_str_copy w self s)\<rparr>"

theorem c_str_of_text_witness:
  "\<exists>s c s'. pone_str_c_str demo_text_env 0 (Cell 9 0 5) s = Ret c s' \<and> pone_str_ptr 2 c s' = Ret [97, 98, 0] s'"
proof -
  have E: "e_depth demo_text_env = 2" "e_call demo_text_env ''meth_str_str'' 0 p [] s = pone_str_copy 0 p s" for p s
    by (simp_all add: demo_text_env_def demo_libc_def)
  obtain s where s: "text_ready demo_text_env 0 s" "room 0 s 100" "utf8_text 1 s (Cell 9 0 5) [97, 98]"
    by (rule text_demo_ready [OF E])
  have "room 0 s 8" by (rule room_mono [OF s(2)]) simp
  then show ?thesis using c_str_of_text [OF s(1) _ s(3)] E(1) by auto
qed

end
