(* ===== verification/Pvip_String.thy ===== *)
theory Pvip_String
  imports Pone_Builtin
begin

text \<open>
  The growing byte buffer of the compiler front end (\<^verbatim>\<open>src/pvip_string.c\<close>) and the interface through
  which its clients see it: a text that every operation extends at its end.
\<close>

section \<open>Buffers\<close>

text \<open>
  \<open>p_buf\<close> is the allocated block; bytes that were never written are taken as zero, and no operation
  reads them. Memory is always available, so every operation returns \<open>PVIP_TRUE\<close>.
\<close>

record PVIPString =
  p_buf :: bytes
  p_len :: nat
  p_buflen :: nat

definition PVIP_string_new :: PVIPString where
  "PVIP_string_new = \<lparr>p_buf = replicate 256 0, p_len = 0, p_buflen = 256\<rparr>"

definition realloc_bytes :: "nat \<Rightarrow> bytes \<Rightarrow> bytes" where
  "realloc_bytes n b = take n b @ replicate (n - length b) 0"

definition write_at :: "nat \<Rightarrow> bytes \<Rightarrow> bytes \<Rightarrow> bytes" where
  "write_at i src b = take i b @ src @ drop (i + length src) b"

definition PVIP_string_grow :: "nat \<Rightarrow> PVIPString \<Rightarrow> PVIPString" where
  "PVIP_string_grow n str = str\<lparr>p_buf := realloc_bytes n (p_buf str), p_buflen := n\<rparr>"

definition PVIP_string_concat :: "bytes \<Rightarrow> PVIPString \<Rightarrow> PVIPString" where
  "PVIP_string_concat src str =
     (let n = p_len str + length src;
          str = (if n > p_buflen str then PVIP_string_grow (n * 2) str else str)
      in str\<lparr>p_buf := write_at (p_len str) src (p_buf str), p_len := n\<rparr>)"

definition PVIP_string_concat_int :: "pone_int_t \<Rightarrow> PVIPString \<Rightarrow> PVIPString" where
  "PVIP_string_concat_int n = PVIP_string_concat (dec_of_int (sint n))"

text \<open>Trailing zeros of the text that \<open>"%f"\<close> prints are dropped, down to the first character.\<close>

function trim_zeros :: "bytes \<Rightarrow> nat \<Rightarrow> nat" where
  "trim_zeros b res = (if res > 1 \<and> b ! (res - 1) = 48 then trim_zeros b (res - 1) else res)"
  by pat_completeness auto
termination by (relation "measure snd") auto

declare trim_zeros.simps [simp del]

definition PVIP_string_concat_number :: "bytes \<Rightarrow> PVIPString \<Rightarrow> PVIPString" where
  "PVIP_string_concat_number txt = PVIP_string_concat (take (trim_zeros txt (length txt)) txt)"

definition PVIP_string_concat_char :: "byte \<Rightarrow> PVIPString \<Rightarrow> PVIPString" where
  "PVIP_string_concat_char c = PVIP_string_concat [c]"

text \<open>
  \<open>txt\<close> is the formatted text. \<open>vsnprintf\<close> writes what fits, with a NUL, and returns the full length; when
  it did not fit, the buffer grows and the text is formatted again.
\<close>

definition vsnprintf_into :: "bytes \<Rightarrow> PVIPString \<Rightarrow> PVIPString" where
  "vsnprintf_into txt str =
     (let room = p_buflen str - p_len str in
      if room = 0 then str
      else str\<lparr>p_buf := write_at (p_len str) (take (room - 1) txt @ [0]) (p_buf str)\<rparr>)"

lemma vsnprintf_into_fields [simp]:
  "p_len (vsnprintf_into txt str) = p_len str" "p_buflen (vsnprintf_into txt str) = p_buflen str"
  by (simp_all add: vsnprintf_into_def Let_def)

function PVIP_string_vprintf :: "bytes \<Rightarrow> PVIPString \<Rightarrow> PVIPString" where
  "PVIP_string_vprintf txt str =
     (let str' = vsnprintf_into txt str in
      if length txt + 1 > p_buflen str - p_len str
      then PVIP_string_vprintf txt (PVIP_string_grow (p_buflen str + length txt + 1) str')
      else str'\<lparr>p_len := p_len str + length txt\<rparr>)"
  by pat_completeness auto
termination
  by (relation "measure (\<lambda>(txt, str). p_len str + length txt + 1 - p_buflen str)")
    (auto simp: PVIP_string_grow_def)

declare PVIP_string_vprintf.simps [simp del]

definition PVIP_string_printf :: "bytes \<Rightarrow> PVIPString \<Rightarrow> PVIPString" where
  "PVIP_string_printf = PVIP_string_vprintf"

definition PVIP_string_c_str :: "PVIPString \<Rightarrow> bytes \<times> PVIPString" where
  "PVIP_string_c_str str =
     (let str = (if p_buflen str = p_len str then PVIP_string_grow (p_buflen str + 1) str else str);
          str = str\<lparr>p_buf := write_at (p_len str) [0] (p_buf str)\<rparr>
      in (p_buf str, str))"

text \<open>What \<open>PVIP_string_say\<close> writes to the output.\<close>

definition PVIP_string_say :: "PVIPString \<Rightarrow> bytes" where
  "PVIP_string_say str = take (p_len str) (p_buf str) @ [10]"

section \<open>The interface\<close>

text \<open>A buffer is seen as its text; an operation that puts bytes extends it and keeps it sound.\<close>

locale text_buffer =
  fixes ok :: "'b \<Rightarrow> bool"
    and content :: "'b \<Rightarrow> bytes"
    and put :: "bytes \<Rightarrow> 'b \<Rightarrow> 'b"
  assumes put_ok: "ok s \<Longrightarrow> ok (put b s)"
    and put_content: "ok s \<Longrightarrow> content (put b s) = content s @ b"
begin

lemma put_all: "ok s \<Longrightarrow> ok (fold put chunks s) \<and> content (fold put chunks s) = content s @ concat chunks"
  by (induction chunks arbitrary: s) (simp_all add: put_ok put_content)

lemma put_all_txt: "ok s \<Longrightarrow> content (fold put chunks s) = content (put (concat chunks) s)"
  by (simp add: put_all put_content)

end

definition pvip_ok :: "PVIPString \<Rightarrow> bool" where
  "pvip_ok str \<longleftrightarrow> length (p_buf str) = p_buflen str \<and> p_len str \<le> p_buflen str"

definition pvip_text :: "PVIPString \<Rightarrow> bytes" where
  "pvip_text str = take (p_len str) (p_buf str)"

lemma pvip_new_ok: "pvip_ok PVIP_string_new" "pvip_text PVIP_string_new = []"
  by (simp_all add: pvip_ok_def pvip_text_def PVIP_string_new_def)

lemma pvip_grow:
  assumes "pvip_ok str" "p_buflen str \<le> n"
  shows "pvip_ok (PVIP_string_grow n str)" "pvip_text (PVIP_string_grow n str) = pvip_text str"
    "p_len (PVIP_string_grow n str) = p_len str" "p_buflen (PVIP_string_grow n str) = n"
  using assms by (simp_all add: pvip_ok_def pvip_text_def PVIP_string_grow_def realloc_bytes_def)

lemma pvip_write:
  assumes "pvip_ok str" "p_len str + length src \<le> p_buflen str"
  shows "length (write_at (p_len str) src (p_buf str)) = p_buflen str"
    "take (p_len str + length src) (write_at (p_len str) src (p_buf str)) = pvip_text str @ src"
    "take (p_len str) (write_at (p_len str) src (p_buf str)) = pvip_text str"
  using assms by (simp_all add: pvip_ok_def pvip_text_def write_at_def min_absorb2)

lemma concat_spec:
  assumes ok: "pvip_ok str"
  shows "pvip_ok (PVIP_string_concat src str)" "pvip_text (PVIP_string_concat src str) = pvip_text str @ src"
proof -
  define str1 where "str1 = (if p_len str + length src > p_buflen str
    then PVIP_string_grow ((p_len str + length src) * 2) str else str)"
  have one: "pvip_ok str1" "pvip_text str1 = pvip_text str" "p_len str1 = p_len str"
    "p_len str + length src \<le> p_buflen str1"
    using pvip_grow [OF ok, of "(p_len str + length src) * 2"] ok by (auto simp: str1_def)
  have "PVIP_string_concat src str =
      str1\<lparr>p_buf := write_at (p_len str1) src (p_buf str1), p_len := p_len str1 + length src\<rparr>"
    using one(3) by (simp add: PVIP_string_concat_def str1_def Let_def)
  then show "pvip_ok (PVIP_string_concat src str)" "pvip_text (PVIP_string_concat src str) = pvip_text str @ src"
    using pvip_write [of str1 src] one by (simp_all add: pvip_ok_def pvip_text_def)
qed

lemma vsnprintf_into_spec:
  assumes ok: "pvip_ok str"
  shows "pvip_ok (vsnprintf_into t str)" "pvip_text (vsnprintf_into t str) = pvip_text str"
    "length t + 1 \<le> p_buflen str - p_len str \<Longrightarrow>
       take (p_len str + length t) (p_buf (vsnprintf_into t str)) = pvip_text str @ t"
proof -
  define room where "room = p_buflen str - p_len str"
  have fit: "room \<noteq> 0 \<Longrightarrow> p_len str + length (take (room - 1) t @ [0]) \<le> p_buflen str"
    using ok by (auto simp: room_def pvip_ok_def)
  have eq: "vsnprintf_into t str = (if room = 0 then str else
      str\<lparr>p_buf := write_at (p_len str) (take (room - 1) t @ [0]) (p_buf str)\<rparr>)"
    by (simp add: vsnprintf_into_def room_def Let_def)
  show "pvip_ok (vsnprintf_into t str)" "pvip_text (vsnprintf_into t str) = pvip_text str"
    using pvip_write [OF ok fit] ok by (auto simp: eq pvip_ok_def pvip_text_def)
  assume "length t + 1 \<le> p_buflen str - p_len str"
  then have "room \<noteq> 0" "take (room - 1) t = t" "p_len str + Suc (length t) \<le> p_buflen str"
    by (auto simp: room_def)
  then show "take (p_len str + length t) (p_buf (vsnprintf_into t str)) = pvip_text str @ t"
    using ok by (simp add: eq write_at_def pvip_text_def pvip_ok_def min_def)
qed

lemma vprintf_spec:
  "pvip_ok str \<Longrightarrow> pvip_ok (PVIP_string_vprintf t str) \<and>
     pvip_text (PVIP_string_vprintf t str) = pvip_text str @ t"
proof (induction t str rule: PVIP_string_vprintf.induct)
  case (1 t str)
  note into = vsnprintf_into_spec [OF 1(2), of t]
  show ?case
  proof (cases "length t + 1 > p_buflen str - p_len str")
    case True
    have "pvip_ok (PVIP_string_grow (p_buflen str + length t + 1) (vsnprintf_into t str))"
      "pvip_text (PVIP_string_grow (p_buflen str + length t + 1) (vsnprintf_into t str)) = pvip_text str"
      using pvip_grow [OF into(1), of "p_buflen str + length t + 1"] into(2) by simp_all
    then show ?thesis using 1(1) True by (subst PVIP_string_vprintf.simps) (simp add: Let_def PVIP_string_vprintf.simps)
  next
    case False
    then show ?thesis using into 1(2)
      by (subst (1 2) PVIP_string_vprintf.simps) (simp add: Let_def pvip_text_def pvip_ok_def)
  qed
qed

interpretation concat_buffer: text_buffer pvip_ok pvip_text PVIP_string_concat
  by unfold_locales (simp_all add: concat_spec)

interpretation printf_buffer: text_buffer pvip_ok pvip_text PVIP_string_printf
  by unfold_locales (simp_all add: PVIP_string_printf_def vprintf_spec)

lemma c_str_spec:
  assumes ok: "pvip_ok str"
  shows "pvip_ok (snd (PVIP_string_c_str str))" "pvip_text (snd (PVIP_string_c_str str)) = pvip_text str"
    "take (Suc (length (pvip_text str))) (fst (PVIP_string_c_str str)) = pvip_text str @ [0]"
proof -
  define str1 where "str1 = (if p_buflen str = p_len str then PVIP_string_grow (p_buflen str + 1) str else str)"
  have one: "pvip_ok str1" "pvip_text str1 = pvip_text str" "p_len str1 = p_len str" "p_len str1 + 1 \<le> p_buflen str1"
    using pvip_grow [OF ok, of "p_buflen str + 1"] ok by (auto simp: str1_def pvip_ok_def)
  have len: "length (pvip_text str) = p_len str" using ok by (simp add: pvip_text_def pvip_ok_def)
  have eq: "PVIP_string_c_str str = (write_at (p_len str1) [0] (p_buf str1),
      str1\<lparr>p_buf := write_at (p_len str1) [0] (p_buf str1)\<rparr>)"
    by (simp add: PVIP_string_c_str_def str1_def Let_def)
  show "pvip_ok (snd (PVIP_string_c_str str))" "pvip_text (snd (PVIP_string_c_str str)) = pvip_text str"
    "take (Suc (length (pvip_text str))) (fst (PVIP_string_c_str str)) = pvip_text str @ [0]"
    using pvip_write [of str1 "[0]"] one len by (simp_all add: eq pvip_ok_def pvip_text_def)
qed

end
