(* ===== verification/Pvip_Node.thy ===== *)
theory Pvip_Node
  imports Pvip_String
begin

text \<open>
  Syntax trees (\<^verbatim>\<open>src/pvip.h\<close>, \<^verbatim>\<open>src/pvip_node.c\<close>): the kinds of nodes, the constructors that the
  grammar calls, and the printer of S-expressions.
\<close>

section \<open>Kinds of nodes\<close>

text \<open>The enumeration, with the values that its order gives.\<close>

type_synonym PVIP_node_type_t = nat

definition PVIP_NODE_UNDEF :: PVIP_node_type_t where "PVIP_NODE_UNDEF = 0"
definition PVIP_NODE_RANGE :: PVIP_node_type_t where "PVIP_NODE_RANGE = 1"
definition PVIP_NODE_REDUCE :: PVIP_node_type_t where "PVIP_NODE_REDUCE = 2"
definition PVIP_NODE_INT :: PVIP_node_type_t where "PVIP_NODE_INT = 3"
definition PVIP_NODE_NUMBER :: PVIP_node_type_t where "PVIP_NODE_NUMBER = 4"
definition PVIP_NODE_STATEMENTS :: PVIP_node_type_t where "PVIP_NODE_STATEMENTS = 5"
definition PVIP_NODE_DIV :: PVIP_node_type_t where "PVIP_NODE_DIV = 6"
definition PVIP_NODE_MUL :: PVIP_node_type_t where "PVIP_NODE_MUL = 7"
definition PVIP_NODE_ADD :: PVIP_node_type_t where "PVIP_NODE_ADD = 8"
definition PVIP_NODE_SUB :: PVIP_node_type_t where "PVIP_NODE_SUB = 9"
definition PVIP_NODE_IDENT :: PVIP_node_type_t where "PVIP_NODE_IDENT = 10"
definition PVIP_NODE_FUNCALL :: PVIP_node_type_t where "PVIP_NODE_FUNCALL = 11"
definition PVIP_NODE_ARGS :: PVIP_node_type_t where "PVIP_NODE_ARGS = 12"
definition PVIP_NODE_STRING :: PVIP_node_type_t where "PVIP_NODE_STRING = 13"
definition PVIP_NODE_MOD :: PVIP_node_type_t where "PVIP_NODE_MOD = 14"
definition PVIP_NODE_NIL :: PVIP_node_type_t where "PVIP_NODE_NIL = 15"
definition PVIP_NODE_VARIABLE :: PVIP_node_type_t where "PVIP_NODE_VARIABLE = 16"
definition PVIP_NODE_MY :: PVIP_node_type_t where "PVIP_NODE_MY = 17"
definition PVIP_NODE_OUR :: PVIP_node_type_t where "PVIP_NODE_OUR = 18"
definition PVIP_NODE_BIND :: PVIP_node_type_t where "PVIP_NODE_BIND = 19"
definition PVIP_NODE_STRING_CONCAT :: PVIP_node_type_t where "PVIP_NODE_STRING_CONCAT = 20"
definition PVIP_NODE_IF :: PVIP_node_type_t where "PVIP_NODE_IF = 21"
definition PVIP_NODE_EQV :: PVIP_node_type_t where "PVIP_NODE_EQV = 22"
definition PVIP_NODE_EQ :: PVIP_node_type_t where "PVIP_NODE_EQ = 23"
definition PVIP_NODE_NE :: PVIP_node_type_t where "PVIP_NODE_NE = 24"
definition PVIP_NODE_LT :: PVIP_node_type_t where "PVIP_NODE_LT = 25"
definition PVIP_NODE_LE :: PVIP_node_type_t where "PVIP_NODE_LE = 26"
definition PVIP_NODE_GT :: PVIP_node_type_t where "PVIP_NODE_GT = 27"
definition PVIP_NODE_GE :: PVIP_node_type_t where "PVIP_NODE_GE = 28"
definition PVIP_NODE_ARRAY :: PVIP_node_type_t where "PVIP_NODE_ARRAY = 29"
definition PVIP_NODE_ATPOS :: PVIP_node_type_t where "PVIP_NODE_ATPOS = 30"
definition PVIP_NODE_METHODCALL :: PVIP_node_type_t where "PVIP_NODE_METHODCALL = 31"
definition PVIP_NODE_FUNC :: PVIP_node_type_t where "PVIP_NODE_FUNC = 32"
definition PVIP_NODE_PARAMS :: PVIP_node_type_t where "PVIP_NODE_PARAMS = 33"
definition PVIP_NODE_RETURN :: PVIP_node_type_t where "PVIP_NODE_RETURN = 34"
definition PVIP_NODE_ELSE :: PVIP_node_type_t where "PVIP_NODE_ELSE = 35"
definition PVIP_NODE_WHILE :: PVIP_node_type_t where "PVIP_NODE_WHILE = 36"
definition PVIP_NODE_DIE :: PVIP_node_type_t where "PVIP_NODE_DIE = 37"
definition PVIP_NODE_ELSIF :: PVIP_node_type_t where "PVIP_NODE_ELSIF = 38"
definition PVIP_NODE_LIST :: PVIP_node_type_t where "PVIP_NODE_LIST = 39"
definition PVIP_NODE_FOR :: PVIP_node_type_t where "PVIP_NODE_FOR = 40"
definition PVIP_NODE_UNLESS :: PVIP_node_type_t where "PVIP_NODE_UNLESS = 41"
definition PVIP_NODE_NOT :: PVIP_node_type_t where "PVIP_NODE_NOT = 42"
definition PVIP_NODE_CONDITIONAL :: PVIP_node_type_t where "PVIP_NODE_CONDITIONAL = 43"
definition PVIP_NODE_NOP :: PVIP_node_type_t where "PVIP_NODE_NOP = 44"
definition PVIP_NODE_STREQ :: PVIP_node_type_t where "PVIP_NODE_STREQ = 45"
definition PVIP_NODE_STRNE :: PVIP_node_type_t where "PVIP_NODE_STRNE = 46"
definition PVIP_NODE_STRGT :: PVIP_node_type_t where "PVIP_NODE_STRGT = 47"
definition PVIP_NODE_STRGE :: PVIP_node_type_t where "PVIP_NODE_STRGE = 48"
definition PVIP_NODE_STRLT :: PVIP_node_type_t where "PVIP_NODE_STRLT = 49"
definition PVIP_NODE_STRLE :: PVIP_node_type_t where "PVIP_NODE_STRLE = 50"
definition PVIP_NODE_POW :: PVIP_node_type_t where "PVIP_NODE_POW = 51"
definition PVIP_NODE_TWVAR :: PVIP_node_type_t where "PVIP_NODE_TWVAR = 52"
definition PVIP_NODE_HASH :: PVIP_node_type_t where "PVIP_NODE_HASH = 53"
definition PVIP_NODE_PAIR :: PVIP_node_type_t where "PVIP_NODE_PAIR = 54"
definition PVIP_NODE_ATKEY :: PVIP_node_type_t where "PVIP_NODE_ATKEY = 55"
definition PVIP_NODE_LOGICAL_AND :: PVIP_node_type_t where "PVIP_NODE_LOGICAL_AND = 56"
definition PVIP_NODE_LOGICAL_OR :: PVIP_node_type_t where "PVIP_NODE_LOGICAL_OR = 57"
definition PVIP_NODE_DOR :: PVIP_node_type_t where "PVIP_NODE_DOR = 58"
definition PVIP_NODE_BLOCK :: PVIP_node_type_t where "PVIP_NODE_BLOCK = 59"
definition PVIP_NODE_LAMBDA :: PVIP_node_type_t where "PVIP_NODE_LAMBDA = 60"
definition PVIP_NODE_USE :: PVIP_node_type_t where "PVIP_NODE_USE = 61"
definition PVIP_NODE_MODULE :: PVIP_node_type_t where "PVIP_NODE_MODULE = 62"
definition PVIP_NODE_CLASS :: PVIP_node_type_t where "PVIP_NODE_CLASS = 63"
definition PVIP_NODE_METHOD :: PVIP_node_type_t where "PVIP_NODE_METHOD = 64"
definition PVIP_NODE_UNARY_PLUS :: PVIP_node_type_t where "PVIP_NODE_UNARY_PLUS = 65"
definition PVIP_NODE_UNARY_MINUS :: PVIP_node_type_t where "PVIP_NODE_UNARY_MINUS = 66"
definition PVIP_NODE_IT_METHODCALL :: PVIP_node_type_t where "PVIP_NODE_IT_METHODCALL = 67"
definition PVIP_NODE_LAST :: PVIP_node_type_t where "PVIP_NODE_LAST = 68"
definition PVIP_NODE_NEXT :: PVIP_node_type_t where "PVIP_NODE_NEXT = 69"
definition PVIP_NODE_REDO :: PVIP_node_type_t where "PVIP_NODE_REDO = 70"
definition PVIP_NODE_POSTINC :: PVIP_node_type_t where "PVIP_NODE_POSTINC = 71"
definition PVIP_NODE_POSTDEC :: PVIP_node_type_t where "PVIP_NODE_POSTDEC = 72"
definition PVIP_NODE_PREINC :: PVIP_node_type_t where "PVIP_NODE_PREINC = 73"
definition PVIP_NODE_PREDEC :: PVIP_node_type_t where "PVIP_NODE_PREDEC = 74"
definition PVIP_NODE_BRSHIFT :: PVIP_node_type_t where "PVIP_NODE_BRSHIFT = 75"
definition PVIP_NODE_BLSHIFT :: PVIP_node_type_t where "PVIP_NODE_BLSHIFT = 76"
definition PVIP_NODE_CHAIN :: PVIP_node_type_t where "PVIP_NODE_CHAIN = 77"
definition PVIP_NODE_INPLACE_ADD :: PVIP_node_type_t where "PVIP_NODE_INPLACE_ADD = 78"
definition PVIP_NODE_INPLACE_SUB :: PVIP_node_type_t where "PVIP_NODE_INPLACE_SUB = 79"
definition PVIP_NODE_INPLACE_MUL :: PVIP_node_type_t where "PVIP_NODE_INPLACE_MUL = 80"
definition PVIP_NODE_INPLACE_DIV :: PVIP_node_type_t where "PVIP_NODE_INPLACE_DIV = 81"
definition PVIP_NODE_INPLACE_POW :: PVIP_node_type_t where "PVIP_NODE_INPLACE_POW = 82"
definition PVIP_NODE_INPLACE_MOD :: PVIP_node_type_t where "PVIP_NODE_INPLACE_MOD = 83"
definition PVIP_NODE_INPLACE_BIN_OR :: PVIP_node_type_t where "PVIP_NODE_INPLACE_BIN_OR = 84"
definition PVIP_NODE_INPLACE_BIN_AND :: PVIP_node_type_t where "PVIP_NODE_INPLACE_BIN_AND = 85"
definition PVIP_NODE_INPLACE_BIN_XOR :: PVIP_node_type_t where "PVIP_NODE_INPLACE_BIN_XOR = 86"
definition PVIP_NODE_INPLACE_BLSHIFT :: PVIP_node_type_t where "PVIP_NODE_INPLACE_BLSHIFT = 87"
definition PVIP_NODE_INPLACE_BRSHIFT :: PVIP_node_type_t where "PVIP_NODE_INPLACE_BRSHIFT = 88"
definition PVIP_NODE_INPLACE_CONCAT_S :: PVIP_node_type_t where "PVIP_NODE_INPLACE_CONCAT_S = 89"
definition PVIP_NODE_REPEAT_S :: PVIP_node_type_t where "PVIP_NODE_REPEAT_S = 90"
definition PVIP_NODE_STRINGIFY :: PVIP_node_type_t where "PVIP_NODE_STRINGIFY = 91"
definition PVIP_NODE_TRY :: PVIP_node_type_t where "PVIP_NODE_TRY = 92"
definition PVIP_NODE_REF :: PVIP_node_type_t where "PVIP_NODE_REF = 93"
definition PVIP_NODE_UNARY_BOOLEAN :: PVIP_node_type_t where "PVIP_NODE_UNARY_BOOLEAN = 94"
definition PVIP_NODE_UNARY_UPTO :: PVIP_node_type_t where "PVIP_NODE_UNARY_UPTO = 95"
definition PVIP_NODE_STDOUT :: PVIP_node_type_t where "PVIP_NODE_STDOUT = 96"
definition PVIP_NODE_STDERR :: PVIP_node_type_t where "PVIP_NODE_STDERR = 97"
definition PVIP_NODE_META_METHOD_CALL :: PVIP_node_type_t where "PVIP_NODE_META_METHOD_CALL = 98"
definition PVIP_NODE_REGEXP :: PVIP_node_type_t where "PVIP_NODE_REGEXP = 99"
definition PVIP_NODE_SMART_MATCH :: PVIP_node_type_t where "PVIP_NODE_SMART_MATCH = 100"
definition PVIP_NODE_NOT_SMART_MATCH :: PVIP_node_type_t where "PVIP_NODE_NOT_SMART_MATCH = 101"
definition PVIP_NODE_TRUE :: PVIP_node_type_t where "PVIP_NODE_TRUE = 102"
definition PVIP_NODE_FALSE :: PVIP_node_type_t where "PVIP_NODE_FALSE = 103"
definition PVIP_NODE_HAS :: PVIP_node_type_t where "PVIP_NODE_HAS = 104"
definition PVIP_NODE_ATTRIBUTE_VARIABLE :: PVIP_node_type_t where "PVIP_NODE_ATTRIBUTE_VARIABLE = 105"
definition PVIP_NODE_FUNCREF :: PVIP_node_type_t where "PVIP_NODE_FUNCREF = 106"
definition PVIP_NODE_VALUE_IDENTITY :: PVIP_node_type_t where "PVIP_NODE_VALUE_IDENTITY = 107"
definition PVIP_NODE_CMP :: PVIP_node_type_t where "PVIP_NODE_CMP = 108"
definition PVIP_NODE_SPECIAL_VARIABLE_REGEXP_MATCH :: PVIP_node_type_t where "PVIP_NODE_SPECIAL_VARIABLE_REGEXP_MATCH = 109"
definition PVIP_NODE_SPECIAL_VARIABLE_EXCEPTIONS :: PVIP_node_type_t where "PVIP_NODE_SPECIAL_VARIABLE_EXCEPTIONS = 110"
definition PVIP_NODE_SPECIAL_VARIABLE_ERRNO :: PVIP_node_type_t where "PVIP_NODE_SPECIAL_VARIABLE_ERRNO = 111"
definition PVIP_NODE_SPECIAL_VARIABLE_PID :: PVIP_node_type_t where "PVIP_NODE_SPECIAL_VARIABLE_PID = 112"
definition PVIP_NODE_ENUM :: PVIP_node_type_t where "PVIP_NODE_ENUM = 113"
definition PVIP_NODE_NUM_CMP :: PVIP_node_type_t where "PVIP_NODE_NUM_CMP = 114"
definition PVIP_NODE_COMPLEX :: PVIP_node_type_t where "PVIP_NODE_COMPLEX = 115"
definition PVIP_NODE_ROLE :: PVIP_node_type_t where "PVIP_NODE_ROLE = 116"
definition PVIP_NODE_IS :: PVIP_node_type_t where "PVIP_NODE_IS = 117"
definition PVIP_NODE_DOES :: PVIP_node_type_t where "PVIP_NODE_DOES = 118"
definition PVIP_NODE_UNICODE_CHAR :: PVIP_node_type_t where "PVIP_NODE_UNICODE_CHAR = 119"
definition PVIP_NODE_STUB :: PVIP_node_type_t where "PVIP_NODE_STUB = 120"
definition PVIP_NODE_PARAM :: PVIP_node_type_t where "PVIP_NODE_PARAM = 121"
definition PVIP_NODE_BITWISE_OR :: PVIP_node_type_t where "PVIP_NODE_BITWISE_OR = 122"
definition PVIP_NODE_BITWISE_AND :: PVIP_node_type_t where "PVIP_NODE_BITWISE_AND = 123"
definition PVIP_NODE_BITWISE_XOR :: PVIP_node_type_t where "PVIP_NODE_BITWISE_XOR = 124"
definition PVIP_NODE_VARGS :: PVIP_node_type_t where "PVIP_NODE_VARGS = 125"
definition PVIP_NODE_WHATEVER :: PVIP_node_type_t where "PVIP_NODE_WHATEVER = 126"
definition PVIP_NODE_END :: PVIP_node_type_t where "PVIP_NODE_END = 127"
definition PVIP_NODE_BEGIN :: PVIP_node_type_t where "PVIP_NODE_BEGIN = 128"
definition PVIP_NODE_BINDAND_MAKE_READONLY :: PVIP_node_type_t where "PVIP_NODE_BINDAND_MAKE_READONLY = 129"
definition PVIP_NODE_LIST_ASSIGNMENT :: PVIP_node_type_t where "PVIP_NODE_LIST_ASSIGNMENT = 130"
definition PVIP_NODE_TW_A :: PVIP_node_type_t where "PVIP_NODE_TW_A = 131"
definition PVIP_NODE_TW_B :: PVIP_node_type_t where "PVIP_NODE_TW_B = 132"
definition PVIP_NODE_TW_C :: PVIP_node_type_t where "PVIP_NODE_TW_C = 133"
definition PVIP_NODE_BYTES :: PVIP_node_type_t where "PVIP_NODE_BYTES = 134"

lemmas node_type_defs =
  PVIP_NODE_UNDEF_def PVIP_NODE_RANGE_def PVIP_NODE_REDUCE_def PVIP_NODE_INT_def PVIP_NODE_NUMBER_def
  PVIP_NODE_STATEMENTS_def PVIP_NODE_DIV_def PVIP_NODE_MUL_def PVIP_NODE_ADD_def PVIP_NODE_SUB_def
  PVIP_NODE_IDENT_def PVIP_NODE_FUNCALL_def PVIP_NODE_ARGS_def PVIP_NODE_STRING_def PVIP_NODE_MOD_def
  PVIP_NODE_NIL_def PVIP_NODE_VARIABLE_def PVIP_NODE_MY_def PVIP_NODE_OUR_def PVIP_NODE_BIND_def
  PVIP_NODE_STRING_CONCAT_def PVIP_NODE_IF_def PVIP_NODE_EQV_def PVIP_NODE_EQ_def PVIP_NODE_NE_def
  PVIP_NODE_LT_def PVIP_NODE_LE_def PVIP_NODE_GT_def PVIP_NODE_GE_def PVIP_NODE_ARRAY_def
  PVIP_NODE_ATPOS_def PVIP_NODE_METHODCALL_def PVIP_NODE_FUNC_def PVIP_NODE_PARAMS_def
  PVIP_NODE_RETURN_def PVIP_NODE_ELSE_def PVIP_NODE_WHILE_def PVIP_NODE_DIE_def PVIP_NODE_ELSIF_def
  PVIP_NODE_LIST_def PVIP_NODE_FOR_def PVIP_NODE_UNLESS_def PVIP_NODE_NOT_def
  PVIP_NODE_CONDITIONAL_def PVIP_NODE_NOP_def PVIP_NODE_STREQ_def PVIP_NODE_STRNE_def
  PVIP_NODE_STRGT_def PVIP_NODE_STRGE_def PVIP_NODE_STRLT_def PVIP_NODE_STRLE_def PVIP_NODE_POW_def
  PVIP_NODE_TWVAR_def PVIP_NODE_HASH_def PVIP_NODE_PAIR_def PVIP_NODE_ATKEY_def
  PVIP_NODE_LOGICAL_AND_def PVIP_NODE_LOGICAL_OR_def PVIP_NODE_DOR_def PVIP_NODE_BLOCK_def
  PVIP_NODE_LAMBDA_def PVIP_NODE_USE_def PVIP_NODE_MODULE_def PVIP_NODE_CLASS_def
  PVIP_NODE_METHOD_def PVIP_NODE_UNARY_PLUS_def PVIP_NODE_UNARY_MINUS_def PVIP_NODE_IT_METHODCALL_def
  PVIP_NODE_LAST_def PVIP_NODE_NEXT_def PVIP_NODE_REDO_def PVIP_NODE_POSTINC_def
  PVIP_NODE_POSTDEC_def PVIP_NODE_PREINC_def PVIP_NODE_PREDEC_def PVIP_NODE_BRSHIFT_def
  PVIP_NODE_BLSHIFT_def PVIP_NODE_CHAIN_def PVIP_NODE_INPLACE_ADD_def PVIP_NODE_INPLACE_SUB_def
  PVIP_NODE_INPLACE_MUL_def PVIP_NODE_INPLACE_DIV_def PVIP_NODE_INPLACE_POW_def
  PVIP_NODE_INPLACE_MOD_def PVIP_NODE_INPLACE_BIN_OR_def PVIP_NODE_INPLACE_BIN_AND_def
  PVIP_NODE_INPLACE_BIN_XOR_def PVIP_NODE_INPLACE_BLSHIFT_def PVIP_NODE_INPLACE_BRSHIFT_def
  PVIP_NODE_INPLACE_CONCAT_S_def PVIP_NODE_REPEAT_S_def PVIP_NODE_STRINGIFY_def PVIP_NODE_TRY_def
  PVIP_NODE_REF_def PVIP_NODE_UNARY_BOOLEAN_def PVIP_NODE_UNARY_UPTO_def PVIP_NODE_STDOUT_def
  PVIP_NODE_STDERR_def PVIP_NODE_META_METHOD_CALL_def PVIP_NODE_REGEXP_def PVIP_NODE_SMART_MATCH_def
  PVIP_NODE_NOT_SMART_MATCH_def PVIP_NODE_TRUE_def PVIP_NODE_FALSE_def PVIP_NODE_HAS_def
  PVIP_NODE_ATTRIBUTE_VARIABLE_def PVIP_NODE_FUNCREF_def PVIP_NODE_VALUE_IDENTITY_def
  PVIP_NODE_CMP_def PVIP_NODE_SPECIAL_VARIABLE_REGEXP_MATCH_def
  PVIP_NODE_SPECIAL_VARIABLE_EXCEPTIONS_def PVIP_NODE_SPECIAL_VARIABLE_ERRNO_def
  PVIP_NODE_SPECIAL_VARIABLE_PID_def PVIP_NODE_ENUM_def PVIP_NODE_NUM_CMP_def PVIP_NODE_COMPLEX_def
  PVIP_NODE_ROLE_def PVIP_NODE_IS_def PVIP_NODE_DOES_def PVIP_NODE_UNICODE_CHAR_def
  PVIP_NODE_STUB_def PVIP_NODE_PARAM_def PVIP_NODE_BITWISE_OR_def PVIP_NODE_BITWISE_AND_def
  PVIP_NODE_BITWISE_XOR_def PVIP_NODE_VARGS_def PVIP_NODE_WHATEVER_def PVIP_NODE_END_def
  PVIP_NODE_BEGIN_def PVIP_NODE_BINDAND_MAKE_READONLY_def PVIP_NODE_LIST_ASSIGNMENT_def
  PVIP_NODE_TW_A_def PVIP_NODE_TW_B_def PVIP_NODE_TW_C_def PVIP_NODE_BYTES_def

datatype PVIP_category_t =
  PVIP_CATEGORY_UNKNOWN | PVIP_CATEGORY_STRING | PVIP_CATEGORY_INT | PVIP_CATEGORY_NUMBER | PVIP_CATEGORY_CHILDREN

definition PVIP_node_category :: "PVIP_node_type_t \<Rightarrow> PVIP_category_t" where
  "PVIP_node_category t =
     (if t \<in> {PVIP_NODE_STRING, PVIP_NODE_VARIABLE, PVIP_NODE_IDENT, PVIP_NODE_REGEXP,
              PVIP_NODE_ATTRIBUTE_VARIABLE, PVIP_NODE_UNICODE_CHAR, PVIP_NODE_BYTES} then PVIP_CATEGORY_STRING
      else if t = PVIP_NODE_INT then PVIP_CATEGORY_INT
      else if t = PVIP_NODE_NUMBER \<or> t = PVIP_NODE_COMPLEX then PVIP_CATEGORY_NUMBER
      else PVIP_CATEGORY_CHILDREN)"

section \<open>Nodes\<close>

text \<open>
  A node has a kind, a line number and one member of a union: an integer, a number, a string or its
  children. The constructor tells which member was stored; reading another one is undefined. Trees
  are built without sharing, so a node is the tree below it.
\<close>

datatype pone_node =
  NInt PVIP_node_type_t int pone_int_t
| NNum PVIP_node_type_t int pone_num_t
| NStr PVIP_node_type_t int bytes
| NKids PVIP_node_type_t int "pone_node list"

fun node_type :: "pone_node \<Rightarrow> PVIP_node_type_t" where
  "node_type (NInt t l i) = t"
| "node_type (NNum t l x) = t"
| "node_type (NStr t l b) = t"
| "node_type (NKids t l cs) = t"

fun node_line :: "pone_node \<Rightarrow> int" where
  "node_line (NInt t l i) = l"
| "node_line (NNum t l x) = l"
| "node_line (NStr t l b) = l"
| "node_line (NKids t l cs) = l"

fun with_type :: "PVIP_node_type_t \<Rightarrow> pone_node \<Rightarrow> pone_node" where
  "with_type t (NInt _ l i) = NInt t l i"
| "with_type t (NNum _ l x) = NNum t l x"
| "with_type t (NStr _ l b) = NStr t l b"
| "with_type t (NKids _ l cs) = NKids t l cs"

fun node_kids :: "pone_node \<Rightarrow> pone_node list" where
  "node_kids (NKids t l cs) = cs"
| "node_kids _ = []"

text \<open>The member that is stored is the one that the category of the kind names, in the whole tree.\<close>

fun node_wf :: "pone_node \<Rightarrow> bool" where
  "node_wf (NInt t l i) \<longleftrightarrow> PVIP_node_category t = PVIP_CATEGORY_INT"
| "node_wf (NNum t l x) \<longleftrightarrow> PVIP_node_category t = PVIP_CATEGORY_NUMBER"
| "node_wf (NStr t l b) \<longleftrightarrow> PVIP_node_category t = PVIP_CATEGORY_STRING"
| "node_wf (NKids t l cs) \<longleftrightarrow> PVIP_node_category t = PVIP_CATEGORY_CHILDREN \<and> list_all node_wf cs"

section \<open>The pool of nodes\<close>

text \<open>
  The next free index of each arena, newest first. The block for a new arena comes from \<open>malloc\<close> and
  its index is not set: \<open>junk\<close> is what the memory holds.
\<close>

definition PVIP_ARENA_SIZE :: nat where "PVIP_ARENA_SIZE = 1024"

definition pvip_new :: "int list" where "pvip_new = [0]"

definition pvip_node_alloc :: "int \<Rightarrow> int list \<Rightarrow> (nat \<times> nat, int list) outcome" where
  "pvip_node_alloc junk arenas =
     (let arenas = (case arenas of i # _ \<Rightarrow> if i = int PVIP_ARENA_SIZE then junk # arenas else arenas | [] \<Rightarrow> [])
      in case arenas of
           [] \<Rightarrow> Undef
         | i # rest \<Rightarrow>
             if 0 \<le> i \<and> i < int PVIP_ARENA_SIZE then Ret (length rest, nat i) ((i + 1) # rest) else Undef)"

section \<open>Constructors\<close>

text \<open>
  The part of the parser context they read. The results are nodes, failed assertions and aborts.
\<close>

record PVIPParserContext =
  line_number :: int
  line_number_stack :: "int list"

definition SET_LINENUMBER :: "PVIPParserContext \<Rightarrow> int" where
  "SET_LINENUMBER parser =
     (if line_number_stack parser \<noteq> [] then List.last (line_number_stack parser) else line_number parser)"

type_synonym 'a parse = "('a, unit) outcome"

definition yields :: "'a \<Rightarrow> 'a parse" where
  "yields n = Ret n ()"

definition PVIP_node_new_int :: "PVIPParserContext \<Rightarrow> PVIP_node_type_t \<Rightarrow> pone_int_t \<Rightarrow> pone_node parse" where
  "PVIP_node_new_int parser t n =
     (if PVIP_node_category t = PVIP_CATEGORY_INT then yields (NInt t (SET_LINENUMBER parser) n) else Abort)"

text \<open>
  Underscores are dropped. \<open>erange\<close> tells whether \<open>errno\<close> was \<open>ERANGE\<close> before: it is not reset.
\<close>

definition PVIP_node_new_intf ::
  "PVIPParserContext \<Rightarrow> bool \<Rightarrow> PVIP_node_type_t \<Rightarrow> bytes \<Rightarrow> int \<Rightarrow> pone_node parse" where
  "PVIP_node_new_intf parser erange t str base =
     (case c_strtol (filter (\<lambda>c. c \<noteq> 95) str @ [0]) base of
        None \<Rightarrow> Undef
      | Some (n, over) \<Rightarrow>
          if sint n = 2 ^ 63 - 1 \<and> (over \<or> erange) then Abort else PVIP_node_new_int parser t n)"

text \<open>The assertion of this function holds for every kind.\<close>

definition PVIP_node_new_string :: "PVIPParserContext \<Rightarrow> PVIP_node_type_t \<Rightarrow> bytes \<Rightarrow> pone_node" where
  "PVIP_node_new_string parser t str = NStr t (SET_LINENUMBER parser) str"

definition PVIP_node_new_number ::
  "PVIPParserContext \<Rightarrow> (bytes \<Rightarrow> pone_num_t) \<Rightarrow> PVIP_node_type_t \<Rightarrow> bytes \<Rightarrow> pone_node parse" where
  "PVIP_node_new_number parser strtod t str =
     (if PVIP_node_category t = PVIP_CATEGORY_NUMBER then yields (NNum t (SET_LINENUMBER parser) (strtod str)) else Abort)"

definition PVIP_node_new_children :: "PVIPParserContext \<Rightarrow> PVIP_node_type_t \<Rightarrow> pone_node parse" where
  "PVIP_node_new_children parser t =
     (if t = PVIP_NODE_NUMBER \<or> t = PVIP_NODE_INT then Abort else yields (NKids t (SET_LINENUMBER parser) []))"

fun PVIP_node_push_child :: "pone_node \<Rightarrow> pone_node \<Rightarrow> pone_node parse" where
  "PVIP_node_push_child (NKids t l cs) child = yields (NKids t l (cs @ [child]))"
| "PVIP_node_push_child _ child = Undef"

text \<open>\<open>PVIP_node_new_children1\<close> to \<open>5\<close>: the children in order.\<close>

definition PVIP_node_new_childrenN ::
  "PVIPParserContext \<Rightarrow> PVIP_node_type_t \<Rightarrow> pone_node list \<Rightarrow> pone_node parse" where
  "PVIP_node_new_childrenN parser t ns =
     fold (\<lambda>c r. andthen r (\<lambda>n _. PVIP_node_push_child n c)) ns (PVIP_node_new_children parser t)"

text \<open>The last child of a concatenation takes the text when it is a string.\<close>

definition PVIP_node_append_string :: "PVIPParserContext \<Rightarrow> pone_node \<Rightarrow> bytes \<Rightarrow> pone_node parse" where
  "PVIP_node_append_string parser node str =
     (if node_type node = PVIP_NODE_STRING_CONCAT
      then case node of
             NKids t l cs \<Rightarrow>
               if cs = [] then Undef
               else if node_type (List.last cs) = PVIP_NODE_STRING
               then (case List.last cs of
                       NStr t' l' b \<Rightarrow> yields (NKids t l (butlast cs @ [NStr t' l' (b @ str)]))
                     | _ \<Rightarrow> Undef)
               else PVIP_node_new_childrenN parser PVIP_NODE_STRING_CONCAT
                      [node, PVIP_node_new_string parser PVIP_NODE_STRING str]
           | _ \<Rightarrow> Undef
      else if PVIP_node_category (node_type node) \<noteq> PVIP_CATEGORY_STRING then Abort
      else case node of NStr t l b \<Rightarrow> yields (NStr t l (b @ str)) | _ \<Rightarrow> Undef)"

text \<open>The byte that two digits in a base denote: \<open>\x\<close>, \<open>\c\<close> and \<open>\o\<close> escapes.\<close>

definition append_code :: "int \<Rightarrow> PVIPParserContext \<Rightarrow> pone_node \<Rightarrow> bytes \<Rightarrow> pone_node parse" where
  "append_code base parser node str =
     (if PVIP_node_category (node_type node) \<noteq> PVIP_CATEGORY_STRING \<or> length str \<noteq> 2 then Abort
      else case c_strtol (str @ [0]) base of
             None \<Rightarrow> Undef
           | Some (n, over) \<Rightarrow> PVIP_node_append_string parser node [ucast n])"

definition PVIP_node_append_string_from_hex ::
  "PVIPParserContext \<Rightarrow> pone_node \<Rightarrow> bytes \<Rightarrow> pone_node parse" where
  "PVIP_node_append_string_from_hex = append_code 16"

definition PVIP_node_append_string_from_dec ::
  "PVIPParserContext \<Rightarrow> pone_node \<Rightarrow> bytes \<Rightarrow> pone_node parse" where
  "PVIP_node_append_string_from_dec = append_code 10"

definition PVIP_node_append_string_from_oct ::
  "PVIPParserContext \<Rightarrow> pone_node \<Rightarrow> bytes \<Rightarrow> pone_node parse" where
  "PVIP_node_append_string_from_oct = append_code 8"

definition PVIP_node_append_string_node ::
  "PVIPParserContext \<Rightarrow> pone_node \<Rightarrow> pone_node \<Rightarrow> pone_node parse" where
  "PVIP_node_append_string_node parser node stuff =
     (if node_type node = PVIP_NODE_STRING \<or> node_type node = PVIP_NODE_STRING_CONCAT
      then PVIP_node_new_childrenN parser PVIP_NODE_STRING_CONCAT [node, stuff]
      else Abort)"

definition PVIP_node_change_type :: "pone_node \<Rightarrow> PVIP_node_type_t \<Rightarrow> pone_node parse" where
  "PVIP_node_change_type node t =
     (if PVIP_node_category (node_type node) = PVIP_node_category t then yields (with_type t node) else Abort)"

section \<open>S-expressions\<close>

definition sexp_escape :: "byte \<Rightarrow> bytes" where
  "sexp_escape c =
     (if c = 92 then [92, 92] else if c = 34 then [92, 34] else if c = 47 then [92, 47]
      else if c = 8 then bs [CHR 0x5C, CHR ''b''] else if c = 12 then bs [CHR 0x5C, CHR ''f'']
      else if c = 10 then bs [CHR 0x5C, CHR ''n''] else if c = 13 then bs [CHR 0x5C, CHR ''r'']
      else if c = 9 then bs [CHR 0x5C, CHR ''t''] else if c = 7 then bs [CHR 0x5C, CHR ''u'', CHR ''0'', CHR ''0'', CHR ''0'', CHR ''7'']
      else if c = 0 then bs [CHR 0x5C, CHR ''0''] else [c])"


text \<open>\<open>nm\<close> is the generated function \<open>PVIP_node_name\<close>, \<open>ff\<close> the text that \<open>"%f"\<close> prints.\<close>

definition put_chunks :: "bytes list \<Rightarrow> PVIPString \<Rightarrow> (unit, PVIPString) outcome" where
  "put_chunks chunks buf = Ret () (fold PVIP_string_concat chunks buf)"

fun as_sexp ::
  "(PVIP_node_type_t \<Rightarrow> bytes) \<Rightarrow> (pone_num_t \<Rightarrow> bytes) \<Rightarrow> pone_node \<Rightarrow> PVIPString \<Rightarrow> (unit, PVIPString) outcome"
and as_sexp_kids ::
  "(PVIP_node_type_t \<Rightarrow> bytes) \<Rightarrow> (pone_num_t \<Rightarrow> bytes) \<Rightarrow> pone_node list \<Rightarrow> PVIPString \<Rightarrow> (unit, PVIPString) outcome"
where
  "as_sexp nm ff (NStr t l b) buf =
     (if PVIP_node_category t = PVIP_CATEGORY_STRING
      then put_chunks ([[40], nm t, [32], [34]] @ map sexp_escape b @ [[34], [41]]) buf else Undef)"
| "as_sexp nm ff (NInt t l i) buf =
     (if PVIP_node_category t = PVIP_CATEGORY_INT
      then Ret () (PVIP_string_concat [41] (PVIP_string_concat_int i (fold PVIP_string_concat [[40], nm t, [32]] buf)))
      else Undef)"
| "as_sexp nm ff (NNum t l x) buf =
     (if PVIP_node_category t = PVIP_CATEGORY_NUMBER
      then Ret () (PVIP_string_concat [41] (PVIP_string_concat_number (ff x) (fold PVIP_string_concat [[40], nm t, [32]] buf)))
      else Undef)"
| "as_sexp nm ff (NKids t l cs) buf =
     (if PVIP_node_category t = PVIP_CATEGORY_CHILDREN
      then andthen (put_chunks ([[40], nm t] @ (if cs \<noteq> [] then [[32]] else [])) buf) (\<lambda>_ buf.
           andthen (as_sexp_kids nm ff cs buf) (\<lambda>_. put_chunks [[41]]))
      else Undef)"
| "as_sexp_kids nm ff [] buf = Ret () buf"
| "as_sexp_kids nm ff (c # cs) buf =
     andthen (as_sexp nm ff c buf) (\<lambda>_ buf.
     andthen (put_chunks (if cs \<noteq> [] then [[32]] else []) buf) (\<lambda>_. as_sexp_kids nm ff cs))"

definition PVIP_node_as_sexp ::
  "(PVIP_node_type_t \<Rightarrow> bytes) \<Rightarrow> (pone_num_t \<Rightarrow> bytes) \<Rightarrow> pone_node \<Rightarrow> PVIPString \<Rightarrow> (unit, PVIPString) outcome" where
  "PVIP_node_as_sexp nm ff node buf = as_sexp nm ff node buf"

text \<open>What \<open>pone_node_dump_sexp\<close> prints.\<close>

definition pone_node_dump_sexp ::
  "(PVIP_node_type_t \<Rightarrow> bytes) \<Rightarrow> (pone_num_t \<Rightarrow> bytes) \<Rightarrow> pone_node \<Rightarrow> (bytes, unit) outcome" where
  "pone_node_dump_sexp nm ff node =
     (case PVIP_node_as_sexp nm ff node PVIP_string_new of
        Ret _ buf \<Rightarrow> Ret (PVIP_string_say buf) () | Abort \<Rightarrow> Abort | _ \<Rightarrow> Undef)"

section \<open>Properties\<close>

text \<open>The S-expression of a tree as a text of its own.\<close>

fun sexp_text :: "(PVIP_node_type_t \<Rightarrow> bytes) \<Rightarrow> (pone_num_t \<Rightarrow> bytes) \<Rightarrow> pone_node \<Rightarrow> bytes"
and sexp_texts :: "(PVIP_node_type_t \<Rightarrow> bytes) \<Rightarrow> (pone_num_t \<Rightarrow> bytes) \<Rightarrow> pone_node list \<Rightarrow> bytes"
where
  "sexp_text nm ff (NStr t l b) = [40] @ nm t @ [32, 34] @ concat (map sexp_escape b) @ [34, 41]"
| "sexp_text nm ff (NInt t l i) = [40] @ nm t @ [32] @ dec_of_int (sint i) @ [41]"
| "sexp_text nm ff (NNum t l x) = [40] @ nm t @ [32] @ take (trim_zeros (ff x) (length (ff x))) (ff x) @ [41]"
| "sexp_text nm ff (NKids t l cs) = [40] @ nm t @ (if cs = [] then [] else 32 # sexp_texts nm ff cs) @ [41]"
| "sexp_texts nm ff [] = []"
| "sexp_texts nm ff (c # cs) = sexp_text nm ff c @ (if cs = [] then [] else 32 # sexp_texts nm ff cs)"

lemma put_chunks_spec:
  "pvip_ok buf \<Longrightarrow> \<exists>buf'. put_chunks chunks buf = Ret () buf' \<and> pvip_ok buf' \<and> pvip_text buf' = pvip_text buf @ concat chunks"
  by (simp add: put_chunks_def concat_buffer.put_all)

lemma as_sexp_spec:
  "node_wf n \<Longrightarrow> pvip_ok buf \<Longrightarrow>
     \<exists>buf'. as_sexp nm ff n buf = Ret () buf' \<and> pvip_ok buf' \<and> pvip_text buf' = pvip_text buf @ sexp_text nm ff n"
  "list_all node_wf ns \<Longrightarrow> pvip_ok buf \<Longrightarrow>
     \<exists>buf'. as_sexp_kids nm ff ns buf = Ret () buf' \<and> pvip_ok buf' \<and> pvip_text buf' = pvip_text buf @ sexp_texts nm ff ns"
proof (induction nm ff n buf and nm ff ns buf rule: as_sexp_as_sexp_kids.induct)
  case (1 nm ff t l b buf)
  then show ?case using put_chunks_spec [of buf] by force
next
  case (2 nm ff t l i buf)
  then show ?case by (simp add: PVIP_string_concat_int_def concat_spec)
next
  case (3 nm ff t l x buf)
  then show ?case by (simp add: PVIP_string_concat_number_def concat_spec)
next
  case (4 nm ff t l cs buf)
  then obtain b1 where b1: "put_chunks ([[40], nm t] @ (if cs \<noteq> [] then [[32]] else [])) buf = Ret () b1"
    "pvip_ok b1" "pvip_text b1 = pvip_text buf @ concat ([[40], nm t] @ (if cs \<noteq> [] then [[32]] else []))"
    using put_chunks_spec by blast
  with 4 obtain b2 where b2: "as_sexp_kids nm ff cs b1 = Ret () b2" "pvip_ok b2"
    "pvip_text b2 = pvip_text b1 @ sexp_texts nm ff cs" by fastforce
  obtain b3 where b3: "put_chunks [[41]] b2 = Ret () b3" "pvip_ok b3" "pvip_text b3 = pvip_text b2 @ [41]"
    using put_chunks_spec [OF b2(2), of "[[41]]"] by auto
  show ?case using 4(2) b1 b2 b3 by auto
next
  case (5 nm ff buf)
  then show ?case by simp
next
  case (6 nm ff c cs buf)
  then obtain b1 where b1: "as_sexp nm ff c buf = Ret () b1" "pvip_ok b1"
    "pvip_text b1 = pvip_text buf @ sexp_text nm ff c" by auto
  obtain b2 where b2: "put_chunks (if cs \<noteq> [] then [[32]] else []) b1 = Ret () b2" "pvip_ok b2"
    "pvip_text b2 = pvip_text b1 @ concat (if cs \<noteq> [] then [[32]] else [])"
    using put_chunks_spec [OF b1(2)] by blast
  obtain b3 where b3: "as_sexp_kids nm ff cs b2 = Ret () b3" "pvip_ok b3"
    "pvip_text b3 = pvip_text b2 @ sexp_texts nm ff cs" using 6 b1 b2 by fastforce
  show ?case using b1 b2 b3 by auto
qed

text \<open>
  C27: printing a well-formed tree returns and appends exactly its S-expression to the buffer, however
  often the buffer grows on the way.
\<close>

theorem PVIP_node_as_sexp_text:
  assumes "node_wf n" "pvip_ok buf"
  shows "\<exists>buf'. PVIP_node_as_sexp nm ff n buf = Ret () buf' \<and> pvip_ok buf' \<and>
    pvip_text buf' = pvip_text buf @ sexp_text nm ff n"
  unfolding PVIP_node_as_sexp_def by (rule as_sexp_spec(1) [OF assms])

theorem PVIP_node_as_sexp_text_witness:
  "\<exists>buf'. PVIP_node_as_sexp (\<lambda>_. bs ''not'') (\<lambda>_. []) (NKids PVIP_NODE_NOT 1 [NInt PVIP_NODE_INT 1 7]) PVIP_string_new =
     Ret () buf' \<and> pvip_text buf' = bs ''(not (not 7))''"
proof -
  have wf: "node_wf (NKids PVIP_NODE_NOT 1 [NInt PVIP_NODE_INT 1 7])"
    by (simp add: PVIP_node_category_def node_type_defs)
  show ?thesis
    using PVIP_node_as_sexp_text [OF wf pvip_new_ok(1), of "\<lambda>_. bs ''not''" "\<lambda>_. []"]
    by (auto simp: pvip_new_ok(2) dec_of_int_def bs_def dec_of_nat.simps [of 7])
qed

text \<open>The kinds that the tests of the constructors mention.\<close>

lemma category_simps [simp]:
  "PVIP_node_category PVIP_NODE_STRING_CONCAT = PVIP_CATEGORY_CHILDREN"
  "PVIP_node_category PVIP_NODE_STRING = PVIP_CATEGORY_STRING"
  "PVIP_NODE_STRING_CONCAT \<noteq> PVIP_NODE_NUMBER" "PVIP_NODE_STRING_CONCAT \<noteq> PVIP_NODE_INT"
  by (simp_all add: PVIP_node_category_def node_type_defs)

lemma childrenN_eq:
  "t \<noteq> PVIP_NODE_NUMBER \<Longrightarrow> t \<noteq> PVIP_NODE_INT \<Longrightarrow>
     PVIP_node_new_childrenN parser t ns = yields (NKids t (SET_LINENUMBER parser) ns)"
proof -
  have "fold (\<lambda>c r. andthen r (\<lambda>n _. PVIP_node_push_child n c)) ns (yields (NKids t l cs)) = yields (NKids t l (cs @ ns))"
    for l cs by (induction ns arbitrary: cs) (simp_all add: yields_def)
  from this [of _ "[]"] show "t \<noteq> PVIP_NODE_NUMBER \<Longrightarrow> t \<noteq> PVIP_NODE_INT \<Longrightarrow> ?thesis"
    by (simp add: PVIP_node_new_childrenN_def PVIP_node_new_children_def)
qed

text \<open>Adding text to a literal, or a node to an interpolated one, keeps trees well formed.\<close>

lemma append_string_wf:
  assumes "node_wf n" "PVIP_node_append_string parser n str = Ret n' ()"
  shows "node_wf n'"
proof (cases n)
  case (NKids t l cs)
  show ?thesis
  proof (cases "t = PVIP_NODE_STRING_CONCAT \<and> cs \<noteq> []")
    case True
    then obtain ds d where cs: "cs = ds @ [d]" by (metis append_butlast_last_id)
    show ?thesis using assms True
      by (cases d) (auto simp: NKids cs PVIP_node_append_string_def childrenN_eq yields_def
          PVIP_node_new_string_def split: if_splits)
  qed (use assms NKids in \<open>auto simp: PVIP_node_append_string_def split: if_splits\<close>)
qed (use assms in \<open>auto simp: PVIP_node_append_string_def yields_def split: if_splits\<close>)

text \<open>
  A numeric escape behind an interpolated part of a string fails an assertion: the literal is a
  concatenation by then, and only plain strings are accepted.
\<close>

lemma escape_after_interpolation:
  "PVIP_node_append_string_from_hex parser (NKids PVIP_NODE_STRING_CONCAT l cs) digits = Abort"
  by (simp add: PVIP_node_append_string_from_hex_def append_code_def)

text \<open>The node after the first arena comes from whatever index the memory of the second one holds.\<close>

lemma second_arena_junk:
  "pvip_node_alloc junk [1024] = (if 0 \<le> junk \<and> junk < 1024 then Ret (1, nat junk) [junk + 1, 1024] else Undef)"
  by (simp add: pvip_node_alloc_def PVIP_ARENA_SIZE_def)

section \<open>Types\<close>

text \<open>
  The trees that the actions of the parser build: with the constructor of the member that the category of the kind
  names, and whatever the operations make of such trees.
\<close>

inductive built :: "pone_node \<Rightarrow> bool" where
  "PVIP_node_new_int parser t i = Ret n () \<Longrightarrow> built n"
| "PVIP_node_new_intf parser erange t str base = Ret n () \<Longrightarrow> built n"
| "PVIP_node_new_number parser strtod t str = Ret n () \<Longrightarrow> built n"
| "PVIP_node_category t = PVIP_CATEGORY_STRING \<Longrightarrow> built (PVIP_node_new_string parser t str)"
| "PVIP_node_category t = PVIP_CATEGORY_CHILDREN \<Longrightarrow> \<forall>c \<in> set ns. built c \<Longrightarrow>
     PVIP_node_new_childrenN parser t ns = Ret n () \<Longrightarrow> built n"
| "built n \<Longrightarrow> built c \<Longrightarrow> PVIP_node_push_child n c = Ret n' () \<Longrightarrow> built n'"
| "built n \<Longrightarrow> PVIP_node_append_string parser n str = Ret n' () \<Longrightarrow> built n'"
| "built n \<Longrightarrow> append_code base parser n str = Ret n' () \<Longrightarrow> built n'"
| "built n \<Longrightarrow> built c \<Longrightarrow> PVIP_node_append_string_node parser n c = Ret n' () \<Longrightarrow> built n'"
| "built n \<Longrightarrow> PVIP_node_change_type n t = Ret n' () \<Longrightarrow> built n'"

lemma new_int_wf: "PVIP_node_new_int parser t i = Ret n () \<Longrightarrow> node_wf n"
  by (auto simp: PVIP_node_new_int_def yields_def split: if_splits)

lemma new_intf_wf: "PVIP_node_new_intf parser erange t str base = Ret n () \<Longrightarrow> node_wf n"
  by (auto simp: PVIP_node_new_intf_def split: option.splits prod.splits if_splits dest: new_int_wf)

lemma children_kinds:
  "PVIP_node_category t = PVIP_CATEGORY_CHILDREN \<Longrightarrow> t \<noteq> PVIP_NODE_NUMBER \<and> t \<noteq> PVIP_NODE_INT"
  by (auto simp: PVIP_node_category_def node_type_defs)

lemma childrenN_wf:
  assumes "PVIP_node_category t = PVIP_CATEGORY_CHILDREN" "\<forall>c \<in> set ns. node_wf c"
    "PVIP_node_new_childrenN parser t ns = Ret n ()"
  shows "node_wf n"
  using assms children_kinds [OF assms(1)] by (auto simp: childrenN_eq yields_def list_all_iff)

lemma push_child_wf: "node_wf n \<Longrightarrow> node_wf c \<Longrightarrow> PVIP_node_push_child n c = Ret n' () \<Longrightarrow> node_wf n'"
  by (cases n) (auto simp: yields_def)

lemma append_code_wf: "node_wf n \<Longrightarrow> append_code base parser n str = Ret n' () \<Longrightarrow> node_wf n'"
  by (auto simp: append_code_def split: if_splits option.splits dest: append_string_wf)

lemma append_node_wf:
  "node_wf n \<Longrightarrow> node_wf c \<Longrightarrow> PVIP_node_append_string_node parser n c = Ret n' () \<Longrightarrow> node_wf n'"
  by (auto simp: PVIP_node_append_string_node_def split: if_splits intro: childrenN_wf [rotated 2])

lemma change_type_wf: "node_wf n \<Longrightarrow> PVIP_node_change_type n t = Ret n' () \<Longrightarrow> node_wf n'"
  by (cases n) (auto simp: PVIP_node_change_type_def yields_def split: if_splits)



end
