(* ===== verification/Pone_Compile.thy ===== *)
theory Pone_Compile
  imports Pvip_Node
begin

text \<open>
  The compiler (\<^verbatim>\<open>src/compile.c\<close>): from a syntax tree to the text of a C program that builds and runs it
  with the runtime. Reading and writing files and running the C compiler are not modelled.
\<close>

section \<open>The context\<close>

text \<open>
  \<open>buf\<close> points to the main text or to one of the function texts: \<open>cc_cur\<close> tells which. The stacks have
  their top first. The tables of variable names are sets here: they only answer whether a name was
  put in. The table of integer constants is a hash table, since its order shows in the output.
\<close>

record pone_compile_ctx =
  cc_cur :: "nat option"
  cc_buf :: bytes
  cc_subs :: "bytes list"
  cc_vars :: "bytes set list"
  cc_ints :: "(64 word, unit) khash"
  cc_loops :: "nat list"
  cc_logical :: nat
  cc_in_class :: bool
  cc_param_no :: nat
  cc_subnames :: "bytes list"
  cc_anon :: nat

type_synonym cg = "pone_compile_ctx \<Rightarrow> (unit, pone_compile_ctx) outcome"

fun run_all :: "cg list \<Rightarrow> cg" where
  "run_all [] s = Ret () s"
| "run_all (m # ms) s = andthen (m s) (\<lambda>_. run_all ms)"

definition emit :: "bytes \<Rightarrow> cg" where
  "emit b s =
     (case cc_cur s of
        None \<Rightarrow> Ret () (s\<lparr>cc_buf := cc_buf s @ b\<rparr>)
      | Some i \<Rightarrow> if i < length (cc_subs s) then Ret () (s\<lparr>cc_subs := (cc_subs s)[i := cc_subs s ! i @ b]\<rparr>) else Undef)"

text \<open>Literal text, text that ends a line, text in double quotes, and decimal numbers.\<close>

definition say :: "string \<Rightarrow> cg" where "say t = emit (bs t)"

definition sayln :: "string \<Rightarrow> cg" where "sayln t = emit (bs t @ [10])"

definition quote :: "bytes \<Rightarrow> cg" where "quote b = emit (34 # b @ [34])"

definition dec :: "nat \<Rightarrow> cg" where "dec n = emit (dec_of_nat n)"

definition undefined_c :: cg where "undefined_c s = Undef"

definition abort_c :: cg where "abort_c s = Abort"

text \<open>Access to the members of a node and to its first children, or to the code for them.\<close>

definition with_pv :: "pone_node \<Rightarrow> (bytes \<Rightarrow> cg) \<Rightarrow> cg" where
  "with_pv n k = (case n of NStr t l b \<Rightarrow> k b | _ \<Rightarrow> undefined_c)"

definition with_kids :: "pone_node \<Rightarrow> (pone_node list \<Rightarrow> cg) \<Rightarrow> cg" where
  "with_kids n k = (case n of NKids t l cs \<Rightarrow> k cs | _ \<Rightarrow> undefined_c)"

definition nth_c :: "nat \<Rightarrow> 'x list \<Rightarrow> ('x \<Rightarrow> cg) \<Rightarrow> cg" where
  "nth_c i xs k = (if i < length xs then k (xs ! i) else undefined_c)"

definition with_ctx :: "(pone_compile_ctx \<Rightarrow> cg) \<Rightarrow> cg" where
  "with_ctx k s = k s s"

definition modify :: "(pone_compile_ctx \<Rightarrow> pone_compile_ctx) \<Rightarrow> cg" where
  "modify f s = Ret () (f s)"

section \<open>Scopes of variables\<close>

definition push_vars_stack :: cg where
  "push_vars_stack = modify (cc_vars_update (\<lambda>vs. {} # vs))"

definition pop_vars_stack :: cg where
  "pop_vars_stack s = (if cc_vars s = [] then Undef else Ret () (s\<lparr>cc_vars := tl (cc_vars s)\<rparr>))"

text \<open>Names are compared as C strings.\<close>

definition def_lex :: "bytes \<Rightarrow> cg" where
  "def_lex name s =
     (case cc_vars s of v # vs \<Rightarrow> Ret () (s\<lparr>cc_vars := insert (cstr name) v # vs\<rparr>) | [] \<Rightarrow> Undef)"

fun find_lex :: "bytes set list \<Rightarrow> bytes \<Rightarrow> nat option" where
  "find_lex [] name = None"
| "find_lex (v # vs) name = (if cstr name \<in> v then Some 0 else map_option Suc (find_lex vs name))"

definition with_lex :: "bytes \<Rightarrow> (nat \<Rightarrow> cg) \<Rightarrow> cg" where
  "with_lex name k s = (case find_lex (cc_vars s) name of Some i \<Rightarrow> k i s | None \<Rightarrow> Abort)"

definition PUSH_SCOPE :: cg where
  "PUSH_SCOPE = run_all [sayln ''  pone_push_scope(world);'', push_vars_stack]"

definition POP_SCOPE :: cg where
  "POP_SCOPE = run_all [sayln ''  pone_pop_scope(world);'', pop_vars_stack]"

text \<open>Code between the two; every use in the compiler is of this form.\<close>

definition scoped :: "cg list \<Rightarrow> cg" where
  "scoped ms = run_all (PUSH_SCOPE # ms @ [POP_SCOPE])"

definition PUSH_LOOP_STACK :: cg where
  "PUSH_LOOP_STACK = modify (\<lambda>s. s\<lparr>cc_loops := length (cc_vars s) # cc_loops s\<rparr>)"

definition POP_LOOP_STACK :: cg where
  "POP_LOOP_STACK s = (if cc_loops s = [] then Abort else Ret () (s\<lparr>cc_loops := tl (cc_loops s)\<rparr>))"

definition looped :: "cg list \<Rightarrow> cg" where
  "looped ms = run_all (PUSH_LOOP_STACK # ms @ [POP_LOOP_STACK])"

section \<open>Implicit return\<close>

text \<open>Kinds whose value is returned when they are the last statement of a function.\<close>

definition returned_kinds :: "PVIP_node_type_t set" where
  "returned_kinds = {
      PVIP_NODE_UNDEF, PVIP_NODE_RANGE, PVIP_NODE_REDUCE, PVIP_NODE_INT, PVIP_NODE_NUMBER,
      PVIP_NODE_DIV, PVIP_NODE_MUL, PVIP_NODE_ADD, PVIP_NODE_SUB, PVIP_NODE_IDENT,
      PVIP_NODE_FUNCALL, PVIP_NODE_STRING, PVIP_NODE_BYTES, PVIP_NODE_MOD, PVIP_NODE_VARIABLE,
      PVIP_NODE_MY, PVIP_NODE_STRING_CONCAT, PVIP_NODE_EQV, PVIP_NODE_EQ, PVIP_NODE_NE,
      PVIP_NODE_LT, PVIP_NODE_LE, PVIP_NODE_GT, PVIP_NODE_GE, PVIP_NODE_ARRAY, PVIP_NODE_ATPOS,
      PVIP_NODE_METHODCALL, PVIP_NODE_FUNC, PVIP_NODE_NOT, PVIP_NODE_CONDITIONAL,
      PVIP_NODE_NOP, PVIP_NODE_STREQ, PVIP_NODE_STRNE, PVIP_NODE_STRGT, PVIP_NODE_STRGE,
      PVIP_NODE_STRLT, PVIP_NODE_STRLE, PVIP_NODE_POW, PVIP_NODE_UNARY_BOOLEAN,
      PVIP_NODE_UNARY_UPTO, PVIP_NODE_STDOUT, PVIP_NODE_STDERR, PVIP_NODE_TWVAR,
      PVIP_NODE_META_METHOD_CALL, PVIP_NODE_REGEXP, PVIP_NODE_SMART_MATCH,
      PVIP_NODE_NOT_SMART_MATCH, PVIP_NODE_TRUE, PVIP_NODE_FALSE, PVIP_NODE_HAS,
      PVIP_NODE_ATTRIBUTE_VARIABLE, PVIP_NODE_FUNCREF, PVIP_NODE_CMP,
      PVIP_NODE_SPECIAL_VARIABLE_REGEXP_MATCH, PVIP_NODE_SPECIAL_VARIABLE_EXCEPTIONS,
      PVIP_NODE_SPECIAL_VARIABLE_ERRNO, PVIP_NODE_SPECIAL_VARIABLE_PID, PVIP_NODE_HASH,
      PVIP_NODE_PAIR, PVIP_NODE_ATKEY, PVIP_NODE_LOGICAL_AND, PVIP_NODE_LOGICAL_OR,
      PVIP_NODE_DOR, PVIP_NODE_LAMBDA, PVIP_NODE_MODULE, PVIP_NODE_CLASS, PVIP_NODE_METHOD,
      PVIP_NODE_UNARY_PLUS, PVIP_NODE_UNARY_MINUS, PVIP_NODE_IT_METHODCALL, PVIP_NODE_POSTINC,
      PVIP_NODE_POSTDEC, PVIP_NODE_PREINC, PVIP_NODE_PREDEC, PVIP_NODE_BRSHIFT,
      PVIP_NODE_BLSHIFT, PVIP_NODE_CHAIN, PVIP_NODE_INPLACE_ADD, PVIP_NODE_INPLACE_SUB,
      PVIP_NODE_INPLACE_MUL, PVIP_NODE_INPLACE_DIV, PVIP_NODE_INPLACE_POW,
      PVIP_NODE_INPLACE_MOD, PVIP_NODE_INPLACE_BIN_OR, PVIP_NODE_INPLACE_BIN_AND,
      PVIP_NODE_INPLACE_BIN_XOR, PVIP_NODE_INPLACE_BLSHIFT, PVIP_NODE_INPLACE_BRSHIFT,
      PVIP_NODE_INPLACE_CONCAT_S, PVIP_NODE_REPEAT_S, PVIP_NODE_STRINGIFY, PVIP_NODE_NUM_CMP,
      PVIP_NODE_UNICODE_CHAR, PVIP_NODE_BITWISE_OR, PVIP_NODE_BITWISE_AND,
      PVIP_NODE_BITWISE_XOR, PVIP_NODE_WHATEVER, PVIP_NODE_NIL, PVIP_NODE_ROLE}"

function inject_return :: "pone_node \<Rightarrow> pone_node option" where
  "inject_return n =
     (let t = node_type n in
      if t = PVIP_NODE_IF
      then case n of
             NKids _ l (c # b # rest) \<Rightarrow>
               Option.bind (inject_return b) (\<lambda>b'.
                 case rest of
                   [] \<Rightarrow> Some (NKids t l [c, b'])
                 | e # es \<Rightarrow> map_option (\<lambda>e'. NKids t l (c # b' # e' # es)) (inject_return e))
           | _ \<Rightarrow> None
      else if t \<in> {PVIP_NODE_ELSE, PVIP_NODE_BLOCK, PVIP_NODE_STATEMENTS}
      then case n of
             NKids _ l cs \<Rightarrow>
               if cs = [] then Some n
               else map_option (\<lambda>d. NKids t l (butlast cs @ [d])) (inject_return (List.last cs))
           | _ \<Rightarrow> None
      else if t \<in> returned_kinds then Some (NKids PVIP_NODE_RETURN (node_line n) [n])
      else Some n)"
  by pat_completeness auto
termination
proof (relation "measure size", goal_cases)
  case (4 n t t' l cs)
  then have "size (List.last cs) < size_list size cs + 1"
    by (metis last_in_set less_add_one size_list_estimation' order_le_less_trans order_refl)
  with 4 show ?case by simp
qed auto

declare inject_return.simps [simp del]

section \<open>Literals\<close>

text \<open>
  A byte inside a C string literal. The three literals differ in what they print for a double quote:
  strings escape it, bytes and regular expressions do not.
\<close>

definition escape_with :: "bytes \<Rightarrow> byte \<Rightarrow> bytes" where
  "escape_with dq c =
     (if c = 7 then [92, 97] else if c = 8 then [92, 98] else if c = 9 then [92, 116]
      else if c = 10 then [92, 110] else if c = 11 then [92, 118] else if c = 12 then [92, 102]
      else if c = 13 then [92, 114] else if c = 92 then [92, 92] else if c = 34 then dq else [c])"

definition str_escape :: "byte \<Rightarrow> bytes" where "str_escape = escape_with [92, 34]"

definition raw_escape :: "byte \<Rightarrow> bytes" where "raw_escape = escape_with [34]"

definition emit_literal :: "string \<Rightarrow> (byte \<Rightarrow> bytes) \<Rightarrow> bytes \<Rightarrow> cg" where
  "emit_literal ctor esc b = run_all
     [say ctor, say ''(world, '', quote (concat (map esc b)), say '', '', dec (length b), say '')'']"

definition emit_regexp :: "bytes \<Rightarrow> cg" where "emit_regexp = emit_literal ''pone_regex_new'' raw_escape"

definition emit_bytes :: "bytes \<Rightarrow> cg" where "emit_bytes = emit_literal ''pone_bytes_new_const'' raw_escape"

definition emit_string :: "bytes \<Rightarrow> cg" where "emit_string = emit_literal ''pone_str_new_const'' str_escape"

definition emit_int :: "pone_int_t \<Rightarrow> cg" where
  "emit_int i s =
     (case kh_put kh_int64_hash_func kh_int64_hash_equal (cc_ints s) i of
        None \<Rightarrow> Undef
      | Some (h, k, ret) \<Rightarrow>
          run_all [say ''((pone_val*)&(pone_const_int_'', emit (dec_of_int (sint i)), say ''))''] (s\<lparr>cc_ints := h\<rparr>))"

text \<open>\<open>txt\<close> is the text of \<open>"%f"\<close>.\<close>

definition emit_number :: "bytes \<Rightarrow> cg" where
  "emit_number txt = run_all [say ''pone_num_new(world, '', emit txt, say '')'']"

definition get_lex :: "bytes \<Rightarrow> cg" where
  "get_lex b = run_all [say ''pone_get_lex(world, '', quote b, say '')'']"

definition emit_ident :: "bytes \<Rightarrow> cg" where
  "emit_ident b = (if b = bs ''self'' then say ''(self)'' else get_lex b)"

definition emit_attribute :: "bytes \<Rightarrow> cg" where
  "emit_attribute b = run_all [say ''pone_obj_get_ivar(world, self, '', quote b, say '')'']"

section \<open>Operators\<close>

definition inplace_func :: "PVIP_node_type_t \<Rightarrow> string option" where
  "inplace_func = map_of
     [(PVIP_NODE_INPLACE_ADD, ''pone_inplace_add''),
      (PVIP_NODE_INPLACE_SUB, ''pone_inplace_sub''),
      (PVIP_NODE_INPLACE_MUL, ''pone_inplace_mul''),
      (PVIP_NODE_INPLACE_DIV, ''pone_inplace_div''),
      (PVIP_NODE_INPLACE_MOD, ''pone_inplace_mod''),
      (PVIP_NODE_INPLACE_POW, ''pone_inplace_pow''),
      (PVIP_NODE_INPLACE_BIN_OR, ''pone_inplace_bin_or''),
      (PVIP_NODE_INPLACE_BIN_AND, ''pone_inplace_bin_and''),
      (PVIP_NODE_INPLACE_BIN_XOR, ''pone_inplace_bin_xor''),
      (PVIP_NODE_INPLACE_BLSHIFT, ''pone_inplace_blshift''),
      (PVIP_NODE_INPLACE_BRSHIFT, ''pone_inplace_brshift''),
      (PVIP_NODE_INPLACE_CONCAT_S, ''pone_inplace_concat_s'')]"

definition infix_func :: "PVIP_node_type_t \<Rightarrow> string option" where
  "infix_func = map_of
     [(PVIP_NODE_ADD, ''pone_add''),
      (PVIP_NODE_SUB, ''pone_subtract''),
      (PVIP_NODE_MUL, ''pone_multiply''),
      (PVIP_NODE_DIV, ''pone_divide''),
      (PVIP_NODE_MOD, ''pone_mod''),
      (PVIP_NODE_POW, ''pone_pow''),
      (PVIP_NODE_STRING_CONCAT, ''pone_str_concat''),
      (PVIP_NODE_BITWISE_OR, ''pone_bitwise_or''),
      (PVIP_NODE_BITWISE_AND, ''pone_bitwise_and''),
      (PVIP_NODE_BITWISE_XOR, ''pone_bitwise_xor''),
      (PVIP_NODE_BRSHIFT, ''pone_brshift''),
      (PVIP_NODE_BLSHIFT, ''pone_blshift'')]"

text \<open>Other nodes that become a call with their two children.\<close>

definition pair_func :: "PVIP_node_type_t \<Rightarrow> string option" where
  "pair_func = map_of
     [(PVIP_NODE_RANGE, ''pone_range_new''), (PVIP_NODE_ATPOS, ''pone_at_pos''), (PVIP_NODE_ATKEY, ''pone_at_key'')]"

definition chain_func :: "PVIP_node_type_t \<Rightarrow> string option" where
  "chain_func = map_of
     [(PVIP_NODE_EQ, ''pone_eq''),
      (PVIP_NODE_NE, ''pone_ne''),
      (PVIP_NODE_LE, ''pone_le''),
      (PVIP_NODE_LT, ''pone_lt''),
      (PVIP_NODE_GT, ''pone_gt''),
      (PVIP_NODE_GE, ''pone_ge''),
      (PVIP_NODE_STREQ, ''pone_str_eq''),
      (PVIP_NODE_STRNE, ''pone_str_ne''),
      (PVIP_NODE_STRLE, ''pone_str_le''),
      (PVIP_NODE_STRLT, ''pone_str_lt''),
      (PVIP_NODE_STRGT, ''pone_str_gt''),
      (PVIP_NODE_STRGE, ''pone_str_ge'')]"

definition INFIX :: "string \<Rightarrow> cg \<Rightarrow> cg \<Rightarrow> cg" where
  "INFIX f a b = run_all [say f, say ''(world, '', a, say '','', b, say '')'']"

definition INPLACE :: "string \<Rightarrow> pone_node \<Rightarrow> cg \<Rightarrow> cg" where
  "INPLACE f v b =
     (if node_type v \<noteq> PVIP_NODE_VARIABLE then abort_c
      else with_pv v (\<lambda>var. with_lex var (\<lambda>idx.
        run_all [say f, say ''(world, '', dec idx, say '', '', quote var, say '','', b, say '')''])))"

definition emit_pair :: "pone_node \<Rightarrow> cg \<Rightarrow> cg \<Rightarrow> cg" where
  "emit_pair key a b = run_all
     [say ''pone_pair_new(world, '', if node_type key = PVIP_NODE_IDENT then with_pv key emit_string else a,
      say '','', b, say '')'']"

definition emit_conditional :: "cg \<Rightarrow> cg \<Rightarrow> cg \<Rightarrow> cg" where
  "emit_conditional a b c = run_all [say ''pone_so('', a, say '') ? ('', b, say '') : ('', c, say '')'']"

text \<open>Every logical operator has a number of its own for the variable that keeps its value.\<close>

definition emit_logical :: "string \<Rightarrow> string \<Rightarrow> string \<Rightarrow> cg \<Rightarrow> cg \<Rightarrow> cg" where
  "emit_logical test op name a b = with_ctx (\<lambda>s.
     let var = quote (bs ''$<'' @ bs name @ dec_of_nat (cc_logical s)) in
     run_all [modify (cc_logical_update Suc),
       say ''('', say test, say ''(pone_assign(world, 0, '', var, say '', '', a,
       say '')) '', say op, say '' pone_assign(world, 0, '', var, say '', '', b,
       say ''), pone_get_lex(world, '', var, say ''))''])"

definition emit_chain :: "pone_node list \<Rightarrow> cg list \<Rightarrow> cg list list \<Rightarrow> cg" where
  "emit_chain cs ms gs =
     (if length cs > 2 then abort_c
      else nth_c 1 cs (\<lambda>c. nth_c 0 ms (\<lambda>a.
        case chain_func (node_type c) of
          Some f \<Rightarrow> nth_c 1 gs (\<lambda>g. nth_c 0 g (\<lambda>b.
            run_all [say ''('', say f, say ''(world,'', a, say '','', b, say '') ? pone_true() : pone_false())'']))
        | None \<Rightarrow>
            if node_type c = PVIP_NODE_SMART_MATCH
            then nth_c 1 gs (\<lambda>g. nth_c 0 g (\<lambda>b. run_all [say ''pone_smart_match(world,'', a, say '','', b, say '')'']))
            else abort_c)))"

section \<open>Calls\<close>

text \<open>The code for arguments, with something before each, or with commas between.\<close>

definition each_after :: "cg \<Rightarrow> cg list \<Rightarrow> cg" where
  "each_after sep ms = run_all (concat (map (\<lambda>m. [sep, m]) ms))"

definition each_before :: "cg list \<Rightarrow> cg \<Rightarrow> cg" where
  "each_before ms sep = run_all (concat (map (\<lambda>m. [m, sep]) ms))"

fun comma_sep :: "cg list \<Rightarrow> cg list" where
  "comma_sep [] = []"
| "comma_sep [m] = [m]"
| "comma_sep (m # ms) = m # say '','' # comma_sep ms"

definition emit_it_methodcall :: "int \<Rightarrow> pone_node list \<Rightarrow> cg list list \<Rightarrow> cg" where
  "emit_it_methodcall line cs gs =
     nth_c 0 cs (\<lambda>c. with_pv c (\<lambda>name. run_all
       [say ''pone_call_method(world, __FILE__, '', emit (dec_of_int line), say '', FUNC_NAME, '',
        get_lex (bs ''$_''), say '', '', quote name,
        if length cs > 1
        then nth_c 1 cs (\<lambda>c. with_kids c (\<lambda>ks. nth_c 1 gs (\<lambda>g. run_all ([say '', '', dec (length ks)] @ g))))
        else say '', 0'',
        say '')'']))"

definition emit_meta_method_call :: "pone_node list \<Rightarrow> cg list \<Rightarrow> cg list list \<Rightarrow> cg" where
  "emit_meta_method_call cs ms gs =
     nth_c 0 ms (\<lambda>a. nth_c 1 cs (\<lambda>c. with_pv c (\<lambda>name. run_all
       [say ''pone_call_meta_method(world, '', a, say '', '', quote name,
        if length cs > 2
        then nth_c 2 cs (\<lambda>c. with_kids c (\<lambda>ks.
               if ks \<noteq> [] then nth_c 2 gs (\<lambda>g. run_all ([say '', '', dec (length ks), say '', ''] @ g)) else say '', 0''))
        else say '', 0'',
        say '')''])))"

definition emit_methodcall :: "int \<Rightarrow> pone_node list \<Rightarrow> cg list \<Rightarrow> cg list list \<Rightarrow> cg" where
  "emit_methodcall line cs ms gs =
     nth_c 0 ms (\<lambda>a. nth_c 1 cs (\<lambda>c. with_pv c (\<lambda>name. run_all
       [say ''pone_call_method(world, __FILE__, '', emit (dec_of_int line), say '', FUNC_NAME, '', a,
        say '', '', quote name,
        if length cs > 2
        then nth_c 2 cs (\<lambda>c. with_kids c (\<lambda>ks. nth_c 2 gs (\<lambda>g.
               run_all [say '', '', dec (length ks), each_after (say '','') g])))
        else say '', 0'',
        say '')''])))"

definition emit_funcall :: "int \<Rightarrow> pone_node list \<Rightarrow> cg list \<Rightarrow> cg" where
  "emit_funcall line cs ms =
     nth_c 0 cs (\<lambda>f.
       if node_type f \<noteq> PVIP_NODE_IDENT \<and> node_type f \<noteq> PVIP_NODE_VARIABLE then abort_c
       else with_pv f (\<lambda>name. nth_c 1 cs (\<lambda>c. with_kids c (\<lambda>ks. nth_c 1 ms (\<lambda>b. run_all
         [say ''pone_code_call(world, __FILE__, '', emit (dec_of_int line), say '', FUNC_NAME, '',
          get_lex (cstr name), say '', pone_nil(), '', dec (length ks),
          if ks \<noteq> [] then say '','' else run_all [], b, say '')''])))))"

definition emit_array :: "cg list \<Rightarrow> cg" where
  "emit_array ms = run_all [say ''pone_ary_new(world, '', dec (length ms), each_after (say '','') ms, say '')'']"

text \<open>An identifier as a key is written as it is, without quotes.\<close>

fun hash_entries :: "pone_node list \<Rightarrow> cg list list \<Rightarrow> cg list" where
  "hash_entries (c # cs) (g # gs) =
     with_kids c (\<lambda>ks. nth_c 0 ks (\<lambda>k. nth_c 0 g (\<lambda>a. nth_c 1 g (\<lambda>b.
       run_all [say '','', if node_type k = PVIP_NODE_IDENT then with_pv k emit else a, say '','', b]))))
     # hash_entries cs gs"
| "hash_entries _ _ = []"

definition emit_hash :: "pone_node list \<Rightarrow> cg list list \<Rightarrow> cg" where
  "emit_hash cs gs = run_all
     ([say ''pone_map_assign_keys(world, pone_map_new(world), '', dec (length cs * 2)] @
      hash_entries cs gs @ [say '')''])"

section \<open>Statements\<close>

definition emit_statements :: "cg list \<Rightarrow> cg" where
  "emit_statements ms = each_before ms (sayln '';'')"

text \<open>
  \<open>next\<close> and \<open>last\<close> leave the scopes that were opened since the innermost loop began. Outside of a loop
  the element before the stack is read.
\<close>

definition emit_leave :: "string \<Rightarrow> cg" where
  "emit_leave how = with_ctx (\<lambda>s.
     case cc_loops s of
       [] \<Rightarrow> undefined_c
     | l # _ \<Rightarrow> run_all (replicate (length (cc_vars s) - l) (sayln ''  pone_pop_scope(world);'') @ [say how]))"

definition emit_for :: "cg \<Rightarrow> cg \<Rightarrow> cg" where
  "emit_for a b = run_all
     [sayln ''{'', say ''    pone_val* iter = pone_iter_init(world, '', a, sayln '');'',
      sayln ''    while (true) {'',
      looped [scoped
        [sayln ''        pone_val* next = pone_iter_next(world, iter);'',
         sayln ''        if (next == world->universe->instance_iteration_end) {'',
         sayln ''            break;'', sayln ''        }'',
         def_lex (bs ''$_''), say ''        pone_assign(world, 0, '', quote (bs ''$_''), sayln '', next);'',
         b, sayln '';'']],
      sayln ''    }'', sayln ''}'']"

definition emit_while :: "cg \<Rightarrow> cg \<Rightarrow> cg" where
  "emit_while a b = run_all
     [say ''while (pone_so('', a, sayln '')) {'', looped [b], sayln ''}'']"

definition emit_if :: "pone_node list \<Rightarrow> cg list \<Rightarrow> cg" where
  "emit_if cs ms =
     nth_c 1 cs (\<lambda>c. nth_c 0 ms (\<lambda>a. nth_c 1 ms (\<lambda>b. run_all
       ([say ''if (pone_so('', a, sayln '')) {'', if node_type c \<noteq> PVIP_NODE_NOP then b else run_all [], sayln ''}'']
        @ drop 2 ms))))"

definition emit_elsif :: "cg \<Rightarrow> cg \<Rightarrow> cg" where
  "emit_elsif a b = run_all [say '' else if (pone_so('', a, sayln '')) {'', b, sayln ''}'']"

definition emit_else :: "cg list \<Rightarrow> cg" where
  "emit_else ms = run_all [sayln '' else {'', each_before ms (sayln '';''), sayln ''}'']"

definition emit_class :: "pone_node \<Rightarrow> cg \<Rightarrow> cg" where
  "emit_class c body = with_pv c (\<lambda>name. run_all
     [say ''{pone_val* klass=pone_class_new(world, '', quote name, say '', sizeof('', quote name, say '')-1);'',
      say ''pone_assign(world, 0, '', quote name, say '', klass);'',
      modify (cc_in_class_update (\<lambda>_. True)), body, modify (cc_in_class_update (\<lambda>_. False)), say ''}''])"

definition emit_return :: "cg \<Rightarrow> cg" where
  "emit_return a = run_all [say ''return '', a, sayln '';'']"

definition emit_block :: "cg list \<Rightarrow> cg" where
  "emit_block ms = run_all
     [sayln ''{'', scoped [case ms of [] \<Rightarrow> run_all [] | m # _ \<Rightarrow> m], sayln ''}'']"

definition emit_my :: "pone_node \<Rightarrow> cg" where
  "emit_my c = with_pv c (\<lambda>var. run_all
     [def_lex var, say ''    pone_assign(world, 0, '', quote var, sayln '', pone_nil());''])"

section \<open>Assignment\<close>

definition assign_var :: "bytes \<Rightarrow> cg \<Rightarrow> cg" where
  "assign_var var b = with_lex var (\<lambda>idx. run_all
     [say ''pone_assign(world, '', dec idx, say '', '', quote var, say '', '', b, say '')''])"

definition assign_list :: "pone_node list \<Rightarrow> cg \<Rightarrow> cg" where
  "assign_list vs b = run_all
     (map (\<lambda>v. with_pv v def_lex) vs @
      [say ''pone_assign_list(world, '', b, say '', '', dec (length vs), say '', ''] @
      comma_sep (map (\<lambda>v. with_pv v quote) vs) @ [say '')''])"

definition assign_at :: "string \<Rightarrow> pone_node list \<Rightarrow> cg list \<Rightarrow> cg \<Rightarrow> cg" where
  "assign_at f ks g b =
     nth_c 0 ks (\<lambda>v. with_pv v (\<lambda>var. nth_c 1 g (\<lambda>pos. run_all
       [say f, say ''(world, '', get_lex var, say '', '', pos, say '', '', b, say '')''])))"

definition emit_list_assignment :: "pone_node list \<Rightarrow> cg list \<Rightarrow> cg list list \<Rightarrow> cg" where
  "emit_list_assignment cs ms gs =
     nth_c 0 cs (\<lambda>v. nth_c 1 ms (\<lambda>b. nth_c 0 gs (\<lambda>g.
       if node_type v = PVIP_NODE_MY
       then with_kids v (\<lambda>ks. nth_c 1 ks (\<lambda>d.
              if node_type d = PVIP_NODE_VARIABLE
              then with_pv d (\<lambda>var. run_all [def_lex var, assign_var var b])
              else if node_type d = PVIP_NODE_LIST then with_kids d (\<lambda>vs. assign_list vs b)
              else abort_c))
       else if node_type v = PVIP_NODE_VARIABLE then with_pv v (\<lambda>var. assign_var var b)
       else if node_type v = PVIP_NODE_ATPOS then with_kids v (\<lambda>ks. assign_at ''pone_assign_pos'' ks g b)
       else if node_type v = PVIP_NODE_ATKEY then with_kids v (\<lambda>ks. assign_at ''pone_assign_key'' ks g b)
       else if node_type v = PVIP_NODE_ATTRIBUTE_VARIABLE
       then with_pv v (\<lambda>var. run_all
              [say ''pone_obj_set_ivar(world, self, '', quote var, say '', '', b, say '')''])
       else abort_c)))"

section \<open>Functions\<close>

text \<open>\<open>SAVE_BUF\<close> and \<open>RESTORE_BUF\<close> around the text of a new function.\<close>

definition in_new_sub :: "cg \<Rightarrow> cg" where
  "in_new_sub body s =
     andthen (body (s\<lparr>cc_subs := cc_subs s @ [[]], cc_cur := Some (length (cc_subs s))\<rparr>)) (\<lambda>_ s'.
     Ret () (s'\<lparr>cc_cur := cc_cur s\<rparr>))"

definition dec_anon :: cg where
  "dec_anon = with_ctx (\<lambda>s. dec (cc_anon s))"

definition fun_params :: cg where
  "fun_params = sayln ''pone_world* world, pone_val* self, int n, va_list args) {''"

definition emit_try :: "cg \<Rightarrow> cg" where
  "emit_try body = run_all
     [modify (cc_anon_update Suc),
      in_new_sub (run_all
        [say ''pone_val* pone_try_'', dec_anon, say ''('', fun_params,
         scoped [say ''  const char* FUNC_NAME='', quote (bs ''<try>''), sayln '';'', body],
         sayln ''  return pone_nil();'', sayln ''}'']),
      say ''pone_try(world, pone_code_new(world, pone_try_'', dec_anon, say ''))'']"

text \<open>The text of a function; \<open>emit_name\<close> writes what follows \<open>pone_user_func_\<close>.\<close>

definition func_text :: "cg \<Rightarrow> bytes \<Rightarrow> cg \<Rightarrow> cg \<Rightarrow> cg" where
  "func_text emit_name shown params body = in_new_sub (run_all
     [say ''pone_val* pone_user_func_'', emit_name, say ''('', fun_params,
      scoped [say ''    const char* FUNC_NAME='', quote shown, sayln '';'', params, body],
      sayln ''  return pone_nil();'', sayln ''}''])"

definition emit_anon_func :: "cg \<Rightarrow> cg \<Rightarrow> cg" where
  "emit_anon_func params body = run_all
     [modify (cc_anon_update Suc),
      modify (\<lambda>s. s\<lparr>cc_subnames := cc_subnames s @ [bs ''pone_user_func_anon_'' @ dec_of_nat (cc_anon s)]\<rparr>),
      func_text (run_all [say ''anon_'', dec_anon]) (bs ''<ANON>'') params body,
      say ''pone_code_new(world, pone_user_func_anon_'', dec_anon, say '')'']"

definition emit_named_func :: "bytes \<Rightarrow> cg \<Rightarrow> cg \<Rightarrow> cg" where
  "emit_named_func name params body = run_all
     [modify (\<lambda>s. s\<lparr>cc_subnames := cc_subnames s @ [bs ''pone_user_func_'' @ cstr name]\<rparr>),
      func_text (emit name) name params body,
      with_ctx (\<lambda>s.
        if cc_in_class s
        then run_all [say ''pone_add_method(world, klass, '', quote (cstr name), say '', strlen('', quote (cstr name),
               say ''), pone_code_new_c(world, pone_user_func_'', emit (cstr name), say ''))'']
        else run_all [say ''pone_assign(world, 0, '', quote (cstr name),
               say '', pone_code_new(world, pone_user_func_'', emit (cstr name), say ''))''])]"

definition emit_func :: "pone_node list \<Rightarrow> cg list \<Rightarrow> cg list \<Rightarrow> cg" where
  "emit_func cs ms rs =
     nth_c 0 cs (\<lambda>c. nth_c 1 ms (\<lambda>params. nth_c 3 rs (\<lambda>body.
       if node_type c = PVIP_NODE_NOP then emit_anon_func params body
       else with_pv c (\<lambda>name. emit_named_func name params body))))"

definition emit_param :: "pone_node list \<Rightarrow> cg list \<Rightarrow> cg" where
  "emit_param cs ms =
     nth_c 1 cs (\<lambda>c.
       if node_type c = PVIP_NODE_VARIABLE
       then with_pv c (\<lambda>var. nth_c 2 ms (\<lambda>dflt. run_all
         [say ''if (n>'', with_ctx (\<lambda>s. dec (cc_param_no s)), say '') {'',
          say ''pone_assign(world, 0, '', quote var, say '', va_arg(args, pone_val*)'', sayln '');'',
          say ''} else {'', say ''pone_assign(world, 0, '', quote var, say '', '', dflt, sayln '');'', say ''}'']))
       else if node_type c = PVIP_NODE_LIST then run_all []
       else abort_c)"

text \<open>A parameter without a default value; \<open>None\<close> when the node lacks the children that are read.\<close>

definition required_param :: "pone_node \<Rightarrow> bool option" where
  "required_param n =
     (case n of
        NKids t l (_ # v # d # _) \<Rightarrow> Some (node_type v = PVIP_NODE_VARIABLE \<and> node_type d = PVIP_NODE_NOP)
      | _ \<Rightarrow> None)"

fun params_from :: "nat \<Rightarrow> cg list \<Rightarrow> cg list" where
  "params_from i [] = []"
| "params_from i (m # ms) = modify (cc_param_no_update (\<lambda>_. i)) # m # params_from (Suc i) ms"

definition emit_params :: "pone_node list \<Rightarrow> cg list \<Rightarrow> cg" where
  "emit_params cs ms =
     (if None \<in> set (map required_param cs) then undefined_c
      else let least = length (filter (\<lambda>c. required_param c = Some True) cs) in
        run_all ([say ''if (n<'', dec least, say '') { pone_throw_str(world, '',
          quote (bs ''Expect '' @ dec_of_nat least @ bs ''..'' @ dec_of_nat (length cs) @
                 bs '' parameters but you passed %d.''),
          say '', n); }''] @ params_from 0 ms))"

text \<open>What follows the last slash.\<close>

definition base_name :: "bytes \<Rightarrow> bytes" where
  "base_name p = rev (takeWhile (\<lambda>c. c \<noteq> 47) (rev p))"

definition emit_use :: "pone_node list \<Rightarrow> cg" where
  "emit_use cs =
     nth_c 0 cs (\<lambda>c0. nth_c 1 cs (\<lambda>c1. with_pv c1 (\<lambda>name.
       let out = (\<lambda>b. run_all [say ''pone_use(world, '', quote name, say '','', quote b,
                    say '', sizeof('', quote b, say '')-1'', say '')'']) in
       if node_type c0 = PVIP_NODE_NOP then out (base_name (cstr name)) else with_pv c0 out)))"

section \<open>All kinds of nodes\<close>

text \<open>Kinds that print a fixed text.\<close>

definition plain_text :: "PVIP_node_type_t \<Rightarrow> string option" where
  "plain_text = map_of
     [(PVIP_NODE_TRUE, ''pone_true()''), (PVIP_NODE_FALSE, ''pone_false()''), (PVIP_NODE_HAS, ''''),
      (PVIP_NODE_SPECIAL_VARIABLE_EXCEPTIONS, ''pone_errvar(world)''),
      (PVIP_NODE_SPECIAL_VARIABLE_ERRNO, ''pone_errno(world)''),
      (PVIP_NODE_SPECIAL_VARIABLE_PID, ''pone_int_new(world, getpid())''),
      (PVIP_NODE_NOP, ''pone_nil()''), (PVIP_NODE_NIL, ''pone_nil()'')]"

text \<open>Kinds that read their string.\<close>

definition string_code :: "PVIP_node_type_t \<Rightarrow> (bytes \<Rightarrow> cg) option" where
  "string_code = map_of
     [(PVIP_NODE_REGEXP, emit_regexp), (PVIP_NODE_BYTES, emit_bytes), (PVIP_NODE_STRING, emit_string),
      (PVIP_NODE_TWVAR, get_lex), (PVIP_NODE_ATTRIBUTE_VARIABLE, emit_attribute),
      (PVIP_NODE_IDENT, emit_ident), (PVIP_NODE_VARIABLE, get_lex)]"

text \<open>Logical operators: the test of the left operand, the C operator and the variable.\<close>

definition logical_func :: "PVIP_node_type_t \<Rightarrow> (string \<times> string \<times> string) option" where
  "logical_func = map_of
     [(PVIP_NODE_LOGICAL_OR, (''pone_so'', ''||'', ''LOGICAL_OR'')),
      (PVIP_NODE_DOR, (''pone_defined'', ''||'', ''LOGICAL_DOR'')),
      (PVIP_NODE_LOGICAL_AND, (''pone_so'', ''&&'', ''LOGICAL_AND''))]"

definition prefix_text :: "PVIP_node_type_t \<Rightarrow> string option" where
  "prefix_text = map_of
     [(PVIP_NODE_NOT, ''pone_not(world, ''),
      (PVIP_NODE_UNARY_MINUS, ''pone_subtract(world, pone_int_new(world, 0),''),
      (PVIP_NODE_UNARY_PLUS, ''pone_add(world, pone_int_new(world, 0),'')]"

text \<open>
  The remaining kinds that read their children. \<open>ms\<close> is the code for the children, \<open>gs\<close> for their
  children, and \<open>rs\<close> for the children with an implicit return; no kind here is printed otherwise.
\<close>

definition kids_code ::
  "PVIP_node_type_t \<Rightarrow> int \<Rightarrow> pone_node list \<Rightarrow> cg list \<Rightarrow> cg list list \<Rightarrow> cg list \<Rightarrow> cg option" where
  "kids_code t line cs ms gs rs = map_of
     [(PVIP_NODE_STATEMENTS, emit_statements ms),
      (PVIP_NODE_PAIR, nth_c 0 cs (\<lambda>k. nth_c 0 ms (\<lambda>a. nth_c 1 ms (emit_pair k a)))),
      (PVIP_NODE_MY, nth_c 1 cs emit_my),
      (PVIP_NODE_CONDITIONAL, nth_c 0 ms (\<lambda>a. nth_c 1 ms (\<lambda>b. nth_c 2 ms (emit_conditional a b)))),
      (PVIP_NODE_CHAIN, emit_chain cs ms gs),
      (PVIP_NODE_IT_METHODCALL, emit_it_methodcall line cs gs),
      (PVIP_NODE_META_METHOD_CALL, emit_meta_method_call cs ms gs),
      (PVIP_NODE_METHODCALL, emit_methodcall line cs ms gs),
      (PVIP_NODE_FOR, nth_c 0 ms (\<lambda>a. nth_c 1 ms (emit_for a))),
      (PVIP_NODE_WHILE, nth_c 0 ms (\<lambda>a. nth_c 1 ms (emit_while a))),
      (PVIP_NODE_FUNCALL, emit_funcall line cs ms),
      (PVIP_NODE_IF, emit_if cs ms),
      (PVIP_NODE_ELSIF, nth_c 0 ms (\<lambda>a. nth_c 1 ms (emit_elsif a))),
      (PVIP_NODE_ELSE, emit_else ms),
      (PVIP_NODE_CLASS, nth_c 0 cs (\<lambda>c. nth_c 2 ms (emit_class c))),
      (PVIP_NODE_ARRAY, emit_array ms),
      (PVIP_NODE_LIST, emit_array ms),
      (PVIP_NODE_LIST_ASSIGNMENT, emit_list_assignment cs ms gs),
      (PVIP_NODE_ARGS, run_all (comma_sep ms)),
      (PVIP_NODE_HASH, emit_hash cs gs),
      (PVIP_NODE_RETURN, nth_c 0 ms emit_return),
      (PVIP_NODE_BLOCK, emit_block ms),
      (PVIP_NODE_TRY, nth_c 0 rs emit_try),
      (PVIP_NODE_FUNC, emit_func cs ms rs),
      (PVIP_NODE_PARAM, emit_param cs ms),
      (PVIP_NODE_PARAMS, emit_params cs ms),
      (PVIP_NODE_USE, emit_use cs)] t"

definition operator_code :: "PVIP_node_type_t \<Rightarrow> pone_node list \<Rightarrow> cg list \<Rightarrow> cg option" where
  "operator_code t cs ms =
     (case inplace_func t of
        Some f \<Rightarrow> Some (nth_c 0 cs (\<lambda>v. nth_c 1 ms (INPLACE f v)))
      | None \<Rightarrow>
     (case infix_func t of
        Some f \<Rightarrow> Some (nth_c 0 ms (\<lambda>a. nth_c 1 ms (INFIX f a)))
      | None \<Rightarrow>
     (case pair_func t of
        Some f \<Rightarrow> Some (nth_c 0 ms (\<lambda>a. nth_c 1 ms (INFIX f a)))
      | None \<Rightarrow>
     (case logical_func t of
        Some (test, op, name) \<Rightarrow> Some (nth_c 0 ms (\<lambda>a. nth_c 1 ms (emit_logical test op name a)))
      | None \<Rightarrow>
      map_option (\<lambda>txt. nth_c 0 ms (\<lambda>a. run_all [say txt, a, say '')''])) (prefix_text t)))))"

text \<open>
  The whole switch. A node that does not store the member its kind reads is undefined; kinds
  that are not listed abort.
\<close>

definition compile_node ::
  "(pone_num_t \<Rightarrow> bytes) \<Rightarrow> pone_node \<Rightarrow> cg list \<Rightarrow> cg list list \<Rightarrow> cg list \<Rightarrow> cg" where
  "compile_node ff n ms gs rs =
     (let t = node_type n; cs = node_kids n in
      case plain_text t of
        Some txt \<Rightarrow> say txt
      | None \<Rightarrow>
          if t = PVIP_NODE_NEXT then emit_leave ''continue;''
          else if t = PVIP_NODE_LAST then emit_leave ''break;''
          else if t = PVIP_NODE_INT then (case n of NInt _ _ i \<Rightarrow> emit_int i | _ \<Rightarrow> undefined_c)
          else if t = PVIP_NODE_NUMBER then (case n of NNum _ _ x \<Rightarrow> emit_number (ff x) | _ \<Rightarrow> undefined_c)
          else case string_code t of
            Some f \<Rightarrow> with_pv n f
          | None \<Rightarrow>
              (case operator_code t cs ms of
                 Some m \<Rightarrow> with_kids n (\<lambda>_. m)
               | None \<Rightarrow>
                   (case kids_code t (node_line n) cs ms gs rs of
                      Some m \<Rightarrow> with_kids n (\<lambda>_. m)
                    | None \<Rightarrow> abort_c)))"

text \<open>
  The recursion ends although functions and \<open>try\<close> are compiled with returns added: a tree grows by
  at most this weight.
\<close>

function weight :: "pone_node \<Rightarrow> nat" where
  "weight n = (if node_type n = PVIP_NODE_TRY \<or> node_type n = PVIP_NODE_FUNC then 2 else 1) +
     2 * sum_list (map weight (node_kids n))"
  by pat_completeness auto
termination
proof (relation "measure size", goal_cases)
  case (2 n c)
  then show ?case by (cases n) (auto simp: less_Suc_eq_le size_list_estimation')
qed simp

declare weight.simps [simp del]

lemma weight_pos: "0 < weight n"
  by (subst weight.simps) simp

lemma weight_kid: "c \<in> set (node_kids n) \<Longrightarrow> 2 * weight c < weight n"
proof -
  assume "c \<in> set (node_kids n)"
  then have "weight c \<le> sum_list (map weight (node_kids n))" by (intro member_le_sum_list) simp_all
  then show ?thesis by (subst (2) weight.simps) simp
qed


lemma not_special:
  "t = PVIP_NODE_IF \<or> t \<in> {PVIP_NODE_ELSE, PVIP_NODE_BLOCK, PVIP_NODE_STATEMENTS} \<or> t = PVIP_NODE_RETURN \<Longrightarrow>
     t \<noteq> PVIP_NODE_TRY \<and> t \<noteq> PVIP_NODE_FUNC"
  by (auto simp: node_type_defs)

lemma weight_plain:
  "t = PVIP_NODE_IF \<or> t \<in> {PVIP_NODE_ELSE, PVIP_NODE_BLOCK, PVIP_NODE_STATEMENTS} \<or> t = PVIP_NODE_RETURN \<Longrightarrow>
     weight (NKids t l cs) = 1 + 2 * sum_list (map weight cs)"
  using not_special [of t] by (subst weight.simps) simp

text \<open>The shapes of a tree to which returns were added.\<close>

lemma inject_return_cases [consumes 1, case_names if_then if_else seq ret same]:
  assumes "inject_return n = Some n'"
  obtains
    l c b b' where "n = NKids PVIP_NODE_IF l [c, b]" "inject_return b = Some b'" "n' = NKids PVIP_NODE_IF l [c, b']"
  | l c b b' e e' es where "n = NKids PVIP_NODE_IF l (c # b # e # es)" "inject_return b = Some b'"
      "inject_return e = Some e'" "n' = NKids PVIP_NODE_IF l (c # b' # e' # es)"
  | t l cs d d' where "t \<in> {PVIP_NODE_ELSE, PVIP_NODE_BLOCK, PVIP_NODE_STATEMENTS}" "n = NKids t l (cs @ [d])"
      "inject_return d = Some d'" "n' = NKids t l (cs @ [d'])"
  | "n' = NKids PVIP_NODE_RETURN (node_line n) [n]"
  | "n' = n"
proof -
  let ?seq = "{PVIP_NODE_ELSE, PVIP_NODE_BLOCK, PVIP_NODE_STATEMENTS}"
  consider (i) "node_type n = PVIP_NODE_IF" | (s) "node_type n \<noteq> PVIP_NODE_IF" "node_type n \<in> ?seq"
    | (o) "node_type n \<noteq> PVIP_NODE_IF" "node_type n \<notin> ?seq" by blast
  then show thesis
  proof cases
    case i
    then obtain l c b rest where n: "n = NKids PVIP_NODE_IF l (c # b # rest)"
      using assms by (subst (asm) inject_return.simps) (auto split: pone_node.splits list.splits)
    show thesis
    proof (cases rest)
      case Nil
      then show thesis using assms n that(1)
        by (subst (asm) inject_return.simps) (auto simp: bind_eq_Some_conv)
    next
      case (Cons e es)
      then show thesis using assms n that(2)
        by (subst (asm) inject_return.simps) (auto simp: bind_eq_Some_conv)
    qed
  next
    case s
    then obtain t l cs where n: "n = NKids t l cs" "t \<noteq> PVIP_NODE_IF" "t \<in> ?seq"
      using assms by (subst (asm) inject_return.simps) (auto split: pone_node.splits)
    show thesis
    proof (cases "cs = []")
      case True
      then show thesis using assms n that(5) by (subst (asm) inject_return.simps) auto
    next
      case False
      then obtain d' where "inject_return (List.last cs) = Some d'" "n' = NKids t l (butlast cs @ [d'])"
        using assms n by (subst (asm) inject_return.simps) auto
      then show thesis using that(3) [of t l "butlast cs" "List.last cs" d'] n False by simp
    qed
  next
    case o
    then show thesis using assms that(4,5) by (subst (asm) inject_return.simps) (auto simp: Let_def split: if_splits)
  qed
qed

lemma inject_return_weight: "inject_return n = Some n' \<Longrightarrow> weight n' \<le> 2 * weight n + 1"
proof (induction n arbitrary: n' rule: measure_induct_rule [of size])
  case (less n)
  from less(2) show ?case
  proof (cases rule: inject_return_cases)
    case (if_then l c b b')
    then have "weight b' \<le> 2 * weight b + 1" by (intro less(1)) simp_all
    then show ?thesis using weight_pos [of c] by (simp add: if_then weight_plain)
  next
    case (if_else l c b b' e e' es)
    then have "weight b' \<le> 2 * weight b + 1" "weight e' \<le> 2 * weight e + 1"
      using less(1) [of b b'] less(1) [of e e'] by simp_all
    then show ?thesis using weight_pos [of c] by (simp add: if_else weight_plain)
  next
    case (seq t l cs d d')
    then have "weight d' \<le> 2 * weight d + 1" using less(1) [of d d'] by (simp add: size_list_append)
    then show ?thesis using seq(1) by (simp add: seq weight_plain)
  qed (simp_all add: weight_plain)
qed

text \<open>
  The compiler. The code for a child that cannot be rewritten is undefined.
\<close>

definition compiled_return :: "(pone_node \<Rightarrow> cg) \<Rightarrow> pone_node \<Rightarrow> cg" where
  "compiled_return f c = (case inject_return c of Some c' \<Rightarrow> f c' | None \<Rightarrow> undefined_c)"

lemma compiled_return_cong [fundef_cong]:
  "c = d \<Longrightarrow> (\<And>c'. inject_return d = Some c' \<Longrightarrow> f c' = g c') \<Longrightarrow> compiled_return f c = compiled_return g d"
  by (simp add: compiled_return_def split: option.splits)

function pone_compile_tree :: "(pone_num_t \<Rightarrow> bytes) \<Rightarrow> pone_node \<Rightarrow> cg" where
  "pone_compile_tree ff n = compile_node ff n
     (map (pone_compile_tree ff) (node_kids n))
     (map (\<lambda>c. map (pone_compile_tree ff) (node_kids c)) (node_kids n))
     (if node_type n = PVIP_NODE_TRY \<or> node_type n = PVIP_NODE_FUNC
      then map (compiled_return (pone_compile_tree ff)) (node_kids n) else [])"
  by pat_completeness auto
termination
proof (relation "measure (\<lambda>(ff, n). weight n)", goal_cases)
  case (2 ff n c)
  then show ?case using weight_kid [of c n] by simp
next
  case (3 ff n c d)
  then show ?case using weight_kid [of c n] weight_kid [of d c] by simp
next
  case (4 ff n c d)
  then have "weight c \<le> sum_list (map weight (node_kids n))" by (intro member_le_sum_list) simp_all
  then show ?case using 4 inject_return_weight [of c d] weight.simps [of n] by auto
qed simp

declare pone_compile_tree.simps [simp del]


section \<open>Whole programs\<close>

text \<open>The text of the C file for a tree; \<open>fwrite\<close> and \<open>fprintf\<close> are concatenation.\<close>

definition int_constant :: "pone_int_t \<Rightarrow> bytes" where
  "int_constant i = bs ''static pone_int pone_const_int_'' @ dec_of_int (sint i) @
     bs '' = { .type=PONE_INT, .flags=PONE_FLAGS_FROZEN, .i='' @ dec_of_int (sint i) @ bs '' };'' @ [10]"

definition prototype :: "bytes \<Rightarrow> bytes" where
  "prototype name = bs ''pone_val* '' @ name @ bs ''(pone_world* world, pone_val* self, int n, va_list args);'' @ [10]"

definition c_program :: "pone_compile_ctx \<Rightarrow> bytes \<Rightarrow> bytes \<Rightarrow> bytes" where
  "c_program s so_funcname module_name =
     bs ''#include '' @ [34] @ bs ''pone.h'' @ [34, 10] @
     bs ''#include '' @ [34] @ bs ''pone_module.h'' @ [34, 10] @
     bs ''#include '' @ [34] @ bs ''pone_exc.h'' @ [34, 10] @ [10] @
     bs ''// --------------- vvvv ints          vvvv -------------------'' @ [10] @
     concat (map (\<lambda>k. int_constant (kh_key (cc_ints s) k)) (filter (kh_exist (cc_ints s)) [0..<n_buckets (cc_ints s)])) @
     bs ''// --------------- vvvv function prototypes    vvvv -------------------'' @ [10] @
     concat (map prototype (cc_subnames s)) @
     bs ''// --------------- vvvv functions     vvvv -------------------'' @ [10] @
     concat (cc_subs s) @
     bs ''// --------------- vvvv loader point vvvv -------------------'' @ [10] @
     bs ''pone_val* '' @ so_funcname @ bs ''(pone_world* world, pone_val* self, int n, va_list args) {'' @ [10] @
     bs ''    const char* FUNC_NAME='' @ [34] @ module_name @ [34] @ bs '';'' @ [10] @
     cc_buf s @
     bs ''    return pone_module_from_lex(world, '' @ [34] @ module_name @ [34] @ bs '');'' @ [10] @
     bs ''}'' @ [10]"

definition pone_compile ::
  "(pone_num_t \<Rightarrow> bytes) \<Rightarrow> pone_node \<Rightarrow> bytes \<Rightarrow> bytes \<Rightarrow> pone_compile_ctx \<Rightarrow> (bytes, pone_compile_ctx) outcome" where
  "pone_compile ff node so_funcname module_name s =
     andthen (pone_compile_tree ff node s) (\<lambda>_ s. Ret (c_program s so_funcname module_name) s)"

definition pone_compile_ctx_new :: pone_compile_ctx where
  "pone_compile_ctx_new = \<lparr>cc_cur = None, cc_buf = [], cc_subs = [], cc_vars = [], cc_ints = kh_init, cc_loops = [],
     cc_logical = 0, cc_in_class = False, cc_param_no = 0, cc_subnames = [], cc_anon = 0\<rparr>"

definition pone_compile_node :: "(pone_num_t \<Rightarrow> bytes) \<Rightarrow> pone_node \<Rightarrow> bytes \<Rightarrow> pone_compile_ctx \<Rightarrow> (bytes, pone_compile_ctx) outcome" where
  "pone_compile_node ff node so_funcname s =
     andthen (push_vars_stack s) (\<lambda>_ s.
     andthen (pone_compile ff node so_funcname (bs ''main'') s) (\<lambda>out s.
     andthen (pop_vars_stack s) (\<lambda>_. Ret out)))"

end
