(* ===== verification/Pone_Compile_Correct.thy ===== *)
theory Pone_Compile_Correct
  imports Pone_Compile
begin

text \<open>
  What the compiler guarantees: it only ever appends to the texts it writes and leaves its stacks as it
  found them; string literals read back as the bytes they were made from; the index of a variable
  is the distance to the scope that holds it at run time.
\<close>

section \<open>Compilation extends the context\<close>

text \<open>
  The text being written grows, all others stay; the stacks are as before, but for new names in the
  innermost scope; functions and numbers are only added.
\<close>

definition grows :: "bool \<Rightarrow> bytes \<Rightarrow> bytes \<Rightarrow> bool" where
  "grows cur old new \<longleftrightarrow> (\<exists>b. new = old @ b \<and> (\<not> cur \<longrightarrow> b = []))"

definition vars_grow :: "bytes set list \<Rightarrow> bytes set list \<Rightarrow> bool" where
  "vars_grow vs vs' \<longleftrightarrow> (vs = [] \<and> vs' = []) \<or> (\<exists>v v' us. vs = v # us \<and> vs' = v' # us \<and> v \<subseteq> v')"

definition extends :: "pone_compile_ctx \<Rightarrow> pone_compile_ctx \<Rightarrow> bool" where
  "extends s s' \<longleftrightarrow>
     cc_cur s' = cc_cur s \<and> cc_loops s' = cc_loops s \<and> vars_grow (cc_vars s) (cc_vars s') \<and>
     grows (cc_cur s = None) (cc_buf s) (cc_buf s') \<and>
     length (cc_subs s) \<le> length (cc_subs s') \<and>
     (\<forall>i < length (cc_subs s). grows (cc_cur s = Some i) (cc_subs s ! i) (cc_subs s' ! i)) \<and>
     (\<exists>ns. cc_subnames s' = cc_subnames s @ ns) \<and> cc_anon s \<le> cc_anon s' \<and> cc_logical s \<le> cc_logical s'"

lemma grows_refl [simp]: "grows c b b"
  by (simp add: grows_def)

lemma grows_trans: "grows c a b \<Longrightarrow> grows c b d \<Longrightarrow> grows c a d"
  by (auto simp: grows_def)

lemma grows_append [simp]: "grows True a (a @ b)"
  by (simp add: grows_def)

lemma vars_grow_refl [simp]: "vars_grow vs vs"
  by (cases vs) (simp_all add: vars_grow_def)

lemma vars_grow_trans: "vars_grow a b \<Longrightarrow> vars_grow b c \<Longrightarrow> vars_grow a c"
  by (auto simp: vars_grow_def)

lemma extends_refl: "extends s s"
  by (simp add: extends_def)

lemma extends_trans:
  assumes a: "extends s1 s2" and b: "extends s2 s3"
  shows "extends s1 s3"
proof -
  have "vars_grow (cc_vars s1) (cc_vars s3)"
    using a b vars_grow_trans unfolding extends_def by blast
  moreover have "grows (cc_cur s1 = None) (cc_buf s1) (cc_buf s3)"
    using a b grows_trans unfolding extends_def by metis
  moreover have "grows (cc_cur s1 = Some i) (cc_subs s1 ! i) (cc_subs s3 ! i)" if "i < length (cc_subs s1)" for i
  proof -
    have "grows (cc_cur s1 = Some i) (cc_subs s1 ! i) (cc_subs s2 ! i)" using a that by (simp add: extends_def)
    moreover have "grows (cc_cur s1 = Some i) (cc_subs s2 ! i) (cc_subs s3 ! i)"
      using a b that by (simp add: extends_def)
    ultimately show ?thesis by (rule grows_trans)
  qed
  ultimately show ?thesis using a b by (auto simp: extends_def)
qed

definition keeps :: "cg \<Rightarrow> bool" where
  "keeps m \<longleftrightarrow> (\<forall>s s'. m s = Ret () s' \<longrightarrow> extends s s')"

named_theorems keeps_intros \<open>actions that extend the context\<close>

lemma keepsD: "keeps m \<Longrightarrow> m s = Ret () s' \<Longrightarrow> extends s s'"
  by (simp add: keeps_def)

lemma keeps_run_all [keeps_intros]: "\<forall>m \<in> set ms. keeps m \<Longrightarrow> keeps (run_all ms)"
proof (induction ms)
  case Nil
  then show ?case by (simp add: keeps_def extends_refl)
next
  case (Cons m ms)
  show ?case unfolding keeps_def
  proof (intro allI impI)
    fix s s' assume "run_all (m # ms) s = Ret () s'"
    then obtain s1 where "m s = Ret () s1" "run_all ms s1 = Ret () s'" by (auto simp: andthen_Ret_iff)
    then show "extends s s'" using Cons keepsD extends_trans by (metis list.set_intros)
  qed
qed

lemma keeps_emit: "keeps (emit b)"
  unfolding keeps_def emit_def
  by (auto simp: extends_def grows_def nth_list_update split: option.splits if_splits)

lemma keeps_texts [keeps_intros]:
  "keeps (emit b)" "keeps (say t)" "keeps (sayln t)" "keeps (quote b)" "keeps (dec n)"
  by (simp_all add: say_def sayln_def quote_def dec_def keeps_emit)

lemma keeps_undefined [keeps_intros]: "keeps undefined_c" "keeps abort_c"
  by (simp_all add: keeps_def undefined_c_def abort_c_def)

lemma keeps_with_pv [keeps_intros]: "(\<And>b. keeps (k b)) \<Longrightarrow> keeps (with_pv n k)"
  by (cases n) (simp_all add: with_pv_def keeps_undefined)

lemma keeps_with_kids [keeps_intros]: "(\<And>cs. keeps (k cs)) \<Longrightarrow> keeps (with_kids n k)"
  by (cases n) (simp_all add: with_kids_def keeps_undefined)

lemma keeps_nth_c [keeps_intros]: "(\<And>x. x \<in> set xs \<Longrightarrow> keeps (k x)) \<Longrightarrow> keeps (nth_c i xs k)"
  by (simp add: nth_c_def keeps_undefined)

lemma keeps_with_ctx [keeps_intros]: "(\<And>s. keeps (k s)) \<Longrightarrow> keeps (with_ctx k)"
  by (auto simp: keeps_def with_ctx_def)

lemma keeps_with_lex [keeps_intros]: "(\<And>i. keeps (k i)) \<Longrightarrow> keeps (with_lex name k)"
  by (auto simp: keeps_def with_lex_def split: option.splits)

lemma keeps_def_lex [keeps_intros]: "keeps (def_lex name)"
  by (auto simp: keeps_def def_lex_def extends_def vars_grow_def split: list.splits)

lemma keeps_modify [keeps_intros]:
  "keeps (modify (cc_logical_update Suc))" "keeps (modify (cc_anon_update Suc))"
  "keeps (modify (cc_in_class_update f))" "keeps (modify (cc_param_no_update g))"
  "keeps (modify (\<lambda>s. s\<lparr>cc_subnames := cc_subnames s @ ns s\<rparr>))"
  by (simp_all add: keeps_def modify_def extends_def)

lemma keeps_if [keeps_intros]: "(c \<Longrightarrow> keeps a) \<Longrightarrow> (\<not> c \<Longrightarrow> keeps b) \<Longrightarrow> keeps (if c then a else b)"
  by simp

subsection \<open>Brackets\<close>

lemma run_all_append: "run_all (ms @ ns) s = andthen (run_all ms s) (\<lambda>_. run_all ns)"
proof (induction ms arbitrary: s)
  case (Cons m ms)
  then have "run_all (ms @ ns) = (\<lambda>s. andthen (run_all ms s) (\<lambda>_. run_all ns))" by (intro ext) simp
  then show ?case by (simp add: andthen_assoc)
qed simp

lemma extends_vars_cong:
  "extends (s\<lparr>cc_vars := vs\<rparr>) s' \<Longrightarrow> extends s (s'\<lparr>cc_vars := cc_vars s\<rparr>)"
  by (auto simp: extends_def)

lemma keeps_scoped [keeps_intros]:
  assumes "\<forall>m \<in> set ms. keeps m"
  shows "keeps (scoped ms)"
  unfolding keeps_def
proof (intro allI impI)
  fix s s' assume "scoped ms s = Ret () s'"
  then obtain s1 s2 s3 where s1: "sayln ''  pone_push_scope(world);'' s = Ret () s1"
    and s2: "run_all ms (cc_vars_update ((#) {}) s1) = Ret () s2"
    and s3: "sayln ''  pone_pop_scope(world);'' s2 = Ret () s3" "s' = s3\<lparr>cc_vars := tl (cc_vars s3)\<rparr>"
    by (auto simp: scoped_def PUSH_SCOPE_def POP_SCOPE_def run_all_append andthen_Ret_iff
        push_vars_stack_def pop_vars_stack_def modify_def split: if_splits)
  have "cc_vars_update ((#) {}) s1 = s1\<lparr>cc_vars := {} # cc_vars s1\<rparr>" by simp
  then have e2: "extends (s1\<lparr>cc_vars := {} # cc_vars s1\<rparr>) s2" using keepsD [OF keeps_run_all] assms s2 by metis
  have e1: "extends s s1" and e3: "extends s2 s3" using keepsD keeps_texts(3) s1 s3(1) by blast+
  have "cc_vars s' = cc_vars s1"
    using extends_trans [OF e2 e3] by (auto simp: s3(2) extends_def vars_grow_def)
  then have "s' = s3\<lparr>cc_vars := cc_vars s1\<rparr>" by (simp add: s3(2))
  then have "extends s1 s'" using extends_vars_cong [OF extends_trans [OF e2 e3]] by simp
  with e1 show "extends s s'" by (rule extends_trans)
qed

lemma keeps_looped [keeps_intros]:
  assumes "\<forall>m \<in> set ms. keeps m"
  shows "keeps (looped ms)"
  unfolding keeps_def
proof (intro allI impI)
  fix s s' assume "looped ms s = Ret () s'"
  then obtain s2 where s2: "run_all ms (s\<lparr>cc_loops := length (cc_vars s) # cc_loops s\<rparr>) = Ret () s2"
    and s': "s' = s2\<lparr>cc_loops := tl (cc_loops s2)\<rparr>"
    by (auto simp: looped_def PUSH_LOOP_STACK_def POP_LOOP_STACK_def run_all_append andthen_Ret_iff
        modify_def split: if_splits)
  have "extends (s\<lparr>cc_loops := length (cc_vars s) # cc_loops s\<rparr>) s2"
    using keepsD [OF keeps_run_all] assms s2 by blast
  then show "extends s s'" by (auto simp: s' extends_def)
qed

lemma keeps_in_new_sub [keeps_intros]:
  assumes "keeps body"
  shows "keeps (in_new_sub body)"
  unfolding keeps_def
proof (intro allI impI)
  fix s s' assume "in_new_sub body s = Ret () s'"
  then obtain s2 where s2: "body (s\<lparr>cc_subs := cc_subs s @ [[]], cc_cur := Some (length (cc_subs s))\<rparr>) = Ret () s2"
    and s': "s' = s2\<lparr>cc_cur := cc_cur s\<rparr>"
    by (auto simp: in_new_sub_def andthen_Ret_iff)
  have e: "extends (s\<lparr>cc_subs := cc_subs s @ [[]], cc_cur := Some (length (cc_subs s))\<rparr>) s2"
    using keepsD [OF assms s2] .
  have "cc_subs s2 ! i = cc_subs s ! i" if "i < length (cc_subs s)" for i
    using e that by (auto simp: extends_def grows_def nth_append dest: spec [of _ i])
  moreover have "cc_buf s2 = cc_buf s" using e by (simp add: extends_def grows_def)
  ultimately show "extends s s'" using e by (auto simp: s' extends_def)
qed

subsection \<open>Every construct\<close>

lemma keeps_literals [keeps_intros]:
  "keeps (emit_literal c e b)" "keeps (emit_regexp b)" "keeps (emit_bytes b)" "keeps (emit_string b)"
  "keeps (emit_number b)" "keeps (get_lex b)" "keeps (emit_ident b)" "keeps (emit_attribute b)"
  by (auto simp: emit_literal_def emit_regexp_def emit_bytes_def emit_string_def emit_number_def get_lex_def
      emit_ident_def emit_attribute_def intro!: keeps_intros)

lemma keeps_emit_int [keeps_intros]: "keeps (emit_int i)"
  unfolding keeps_def
proof (intro allI impI)
  fix s s' assume "emit_int i s = Ret () s'"
  then obtain h where "run_all [say ''((pone_val*)&(pone_const_int_'', emit (dec_of_int (sint i)), say ''))'']
      (s\<lparr>cc_ints := h\<rparr>) = Ret () s'"
    by (auto simp: emit_int_def split: option.splits prod.splits)
  moreover have "keeps (run_all [say ''((pone_val*)&(pone_const_int_'', emit (dec_of_int (sint i)), say ''))''])"
    by (auto intro!: keeps_intros)
  ultimately have "extends (s\<lparr>cc_ints := h\<rparr>) s'" by (rule keepsD [rotated])
  then show "extends s s'" by (simp add: extends_def)
qed

lemma keeps_INPLACE [keeps_intros]: "keeps b \<Longrightarrow> keeps (INPLACE f v b)"
  by (auto simp: INPLACE_def intro!: keeps_intros)

lemma keeps_binary [keeps_intros]:
  assumes "keeps a" "keeps b"
  shows "keeps (INFIX f a b)" "keeps (emit_pair k a b)" "keeps (emit_logical t op name a b)"
  using assms by (auto simp: INFIX_def emit_pair_def emit_logical_def Let_def intro!: keeps_intros)

lemma keeps_conditional [keeps_intros]: "keeps a \<Longrightarrow> keeps b \<Longrightarrow> keeps c \<Longrightarrow> keeps (emit_conditional a b c)"
  by (auto simp: emit_conditional_def intro!: keeps_intros)

lemma keeps_each [keeps_intros]:
  assumes "keeps sep" "\<forall>m \<in> set ms. keeps m"
  shows "keeps (each_after sep ms)" "keeps (each_before ms sep)"
  using assms by (auto simp: each_after_def each_before_def split: if_splits intro!: keeps_intros)

lemma keeps_comma_sep: "\<forall>m \<in> set ms. keeps m \<Longrightarrow> \<forall>m \<in> set (comma_sep ms). keeps m"
  by (induction ms rule: comma_sep.induct) (auto intro!: keeps_intros)

lemma keeps_calls [keeps_intros]:
  assumes "\<forall>m \<in> set ms. keeps m" "\<forall>g \<in> set gs. \<forall>m \<in> set g. keeps m"
  shows "keeps (emit_chain cs ms gs)" "keeps (emit_meta_method_call cs ms gs)" "keeps (emit_methodcall l cs ms gs)"
  using assms
  by (auto simp: emit_chain_def emit_meta_method_call_def emit_methodcall_def split: option.splits
      intro!: keeps_intros)

lemma keeps_it_methodcall [keeps_intros]:
  "\<forall>g \<in> set gs. \<forall>m \<in> set g. keeps m \<Longrightarrow> keeps (emit_it_methodcall l cs gs)"
  by (auto simp: emit_it_methodcall_def intro!: keeps_intros)

lemma keeps_hash_entries:
  "\<forall>g \<in> set gs. \<forall>m \<in> set g. keeps m \<Longrightarrow> \<forall>m \<in> set (hash_entries cs gs). keeps m"
  by (induction cs gs rule: hash_entries.induct) (auto intro!: keeps_intros)

lemma keeps_hash [keeps_intros]:
  assumes "\<forall>g \<in> set gs. \<forall>m \<in> set g. keeps m"
  shows "keeps (emit_hash cs gs)"
  using keeps_hash_entries [OF assms] by (auto simp: emit_hash_def intro!: keeps_intros)

lemma keeps_leave [keeps_intros]: "keeps (emit_leave how)"
  by (auto simp: emit_leave_def split: list.splits intro!: keeps_intros)

lemma keeps_lists [keeps_intros]:
  assumes "\<forall>m \<in> set ms. keeps m"
  shows "keeps (emit_funcall l cs ms)" "keeps (emit_array ms)" "keeps (emit_statements ms)" "keeps (emit_if cs ms)"
    "keeps (emit_else ms)" "keeps (emit_block ms)"
proof -
  have "\<forall>m \<in> set (drop 2 ms). keeps m" using assms in_set_dropD by fast
  with assms show "keeps (emit_if cs ms)" by (auto simp: emit_if_def intro!: keeps_intros)
qed (use assms in \<open>auto simp: emit_funcall_def emit_array_def emit_statements_def emit_else_def emit_block_def
      split: list.splits intro!: keeps_intros\<close>)

lemma keeps_branches [keeps_intros]:
  assumes "keeps a" "keeps b"
  shows "keeps (emit_for a b)" "keeps (emit_while a b)" "keeps (emit_elsif a b)"
  using assms by (auto simp: emit_for_def emit_while_def emit_elsif_def intro!: keeps_intros)

lemma keeps_unary [keeps_intros]:
  assumes "keeps a"
  shows "keeps (emit_class c a)" "keeps (emit_return a)"
  using assms by (auto simp: emit_class_def emit_return_def intro!: keeps_intros)

lemma keeps_my [keeps_intros]: "keeps (emit_my c)"
  by (auto simp: emit_my_def intro!: keeps_intros)

lemma keeps_assignment [keeps_intros]:
  assumes "\<forall>m \<in> set ms. keeps m" "\<forall>g \<in> set gs. \<forall>m \<in> set g. keeps m"
  shows "keeps (emit_list_assignment cs ms gs)"
proof -
  have list: "keeps (assign_list vs b)" if "keeps b" for vs b
  proof -
    have "\<forall>m \<in> set (comma_sep (map (\<lambda>v. with_pv v quote) vs)). keeps m"
      by (intro keeps_comma_sep) (auto intro!: keeps_intros)
    with that show ?thesis by (auto simp: assign_list_def intro!: keeps_intros)
  qed
  have "keeps (assign_var v b)" "keeps (assign_at f ks g b)" if "keeps b" "\<forall>m \<in> set g. keeps m" for v b f ks g
    using that by (auto simp: assign_var_def assign_at_def intro!: keeps_intros)
  with list assms show ?thesis by (auto simp: emit_list_assignment_def intro!: keeps_intros)
qed

lemma keeps_try [keeps_intros]: "keeps b \<Longrightarrow> keeps (emit_try b)"
  by (auto simp: emit_try_def dec_anon_def fun_params_def intro!: keeps_intros)

lemma keeps_functions [keeps_intros]:
  assumes "keeps p" "keeps b"
  shows "keeps (emit_anon_func p b)" "keeps (emit_named_func name p b)"
  using assms
  by (auto simp: emit_anon_func_def emit_named_func_def func_text_def dec_anon_def fun_params_def
      intro!: keeps_intros)

lemma keeps_params_from: "\<forall>m \<in> set ms. keeps m \<Longrightarrow> \<forall>m \<in> set (params_from i ms). keeps m"
  by (induction i ms rule: params_from.induct) (auto intro!: keeps_intros)

lemma keeps_params [keeps_intros]:
  assumes "\<forall>m \<in> set ms. keeps m"
  shows "keeps (emit_param cs ms)" "keeps (emit_params cs ms)" "keeps (run_all (comma_sep ms))"
  using assms keeps_params_from [OF assms, of 0] keeps_comma_sep [OF assms]
  by (auto simp: emit_param_def emit_params_def Let_def intro!: keeps_intros)

lemma keeps_func [keeps_intros]:
  assumes "\<forall>m \<in> set ms. keeps m" "\<forall>m \<in> set rs. keeps m"
  shows "keeps (emit_func cs ms rs)"
  using assms by (auto simp: emit_func_def intro!: keeps_intros)

lemma keeps_use [keeps_intros]: "keeps (emit_use cs)"
  by (auto simp: emit_use_def Let_def intro!: keeps_intros)

subsection \<open>Every tree\<close>

lemma map_of_all: "map_of xs t = Some m \<Longrightarrow> list_all (\<lambda>(k, v). P v) xs \<Longrightarrow> P m"
  by (auto simp: list_all_iff dest!: map_of_SomeD)

lemma keeps_kids_code:
  assumes "\<forall>m \<in> set ms. keeps m" "\<forall>g \<in> set gs. \<forall>m \<in> set g. keeps m" "\<forall>m \<in> set rs. keeps m"
    and "kids_code t l cs ms gs rs = Some m"
  shows "keeps m"
  by (rule map_of_all [OF assms(4) [unfolded kids_code_def]])
    (use assms(1-3) in \<open>simp, intro conjI; auto intro!: keeps_intros\<close>)

lemma keeps_operator_code:
  assumes "\<forall>m \<in> set ms. keeps m" "operator_code t cs ms = Some m"
  shows "keeps m"
  using assms by (auto simp: operator_code_def split: option.splits intro!: keeps_intros)

lemma keeps_string_code: "string_code t = Some f \<Longrightarrow> keeps (f b)"
  unfolding string_code_def by (erule map_of_all) (simp add: keeps_intros)

lemma keeps_case_option:
  "(x = None \<Longrightarrow> keeps a) \<Longrightarrow> (\<And>y. x = Some y \<Longrightarrow> keeps (f y)) \<Longrightarrow> keeps (case x of None \<Rightarrow> a | Some y \<Rightarrow> f y)"
  by (cases x) simp_all

lemma keeps_members [keeps_intros]:
  "keeps (case n of NInt _ _ i \<Rightarrow> emit_int i | _ \<Rightarrow> undefined_c)"
  "keeps (case n of NNum _ _ x \<Rightarrow> emit_number (ff x) | _ \<Rightarrow> undefined_c)"
  by (cases n; simp add: keeps_intros)+

lemma keeps_compile_node:
  assumes "\<forall>m \<in> set ms. keeps m" "\<forall>g \<in> set gs. \<forall>m \<in> set g. keeps m" "\<forall>m \<in> set rs. keeps m"
  shows "keeps (compile_node ff n ms gs rs)"
  unfolding compile_node_def Let_def
  by (intro keeps_case_option keeps_if keeps_texts keeps_leave keeps_members keeps_with_pv keeps_with_kids
      keeps_undefined; erule keeps_kids_code [OF assms] keeps_operator_code [OF assms(1)] keeps_string_code)

lemma keeps_compile_tree: "keeps (pone_compile_tree ff n)"
proof (induction ff n rule: pone_compile_tree.induct)
  case (1 ff n)
  have "keeps (compiled_return (pone_compile_tree ff) c)"
    if "node_type n = PVIP_NODE_TRY \<or> node_type n = PVIP_NODE_FUNC" "c \<in> set (node_kids n)" for c
    using 1(3) [OF that] by (auto simp: compiled_return_def split: option.splits intro: keeps_undefined)
  with 1(1,2) show ?case
    by (subst pone_compile_tree.simps) (intro keeps_compile_node; auto)
qed

text \<open>
  C17: compiling a tree only appends to the text being written and to the list of functions; it
  changes no text written before, leaves the stacks of scopes and loops as they were, but for new names in
  the innermost scope, and goes on in the same text.
\<close>

theorem compile_extends:
  assumes "pone_compile_tree ff n s = Ret () s'"
  shows "extends s s'"
  by (rule keepsD [OF keeps_compile_tree assms])

theorem compile_extends_witness:
  "\<exists>s'. pone_compile_tree (\<lambda>_. []) (NKids PVIP_NODE_NOP 1 []) pone_compile_ctx_new = Ret () s' \<and>
     extends pone_compile_ctx_new s' \<and> cc_buf s' = bs ''pone_nil()''"
proof -
  have "pone_compile_tree (\<lambda>_. []) (NKids PVIP_NODE_NOP 1 []) pone_compile_ctx_new =
      Ret () (pone_compile_ctx_new\<lparr>cc_buf := bs ''pone_nil()''\<rparr>)"
    by (subst pone_compile_tree.simps)
      (simp add: compile_node_def plain_text_def node_type_defs say_def emit_def pone_compile_ctx_new_def)
  then show ?thesis using compile_extends by fastforce
qed

section \<open>String literals\<close>

subsection \<open>How C reads a literal\<close>

text \<open>
  The compiler is called with \<^verbatim>\<open>-std=c99\<close>, which replaces trigraphs first. A literal is then read up to
  the next quote that is not escaped; only the simple escapes are covered, no others are written.
\<close>

fun trigraph :: "byte \<Rightarrow> byte option" where
  "trigraph c = map_of
     [(61, 35), (47, 92), (39, 94), (40, 91), (41, 93), (33, 124), (60, 123), (62, 125), (45, 126)] c"

fun trigraphs :: "bytes \<Rightarrow> bytes" where
  "trigraphs (a # b # c # cs) =
     (case trigraph c of
        Some d \<Rightarrow> if a = 63 \<and> b = 63 then d # trigraphs cs else a # trigraphs (b # c # cs)
      | None \<Rightarrow> a # trigraphs (b # c # cs))"
| "trigraphs cs = cs"

definition simple_escape :: "byte \<Rightarrow> byte option" where
  "simple_escape = map_of
     [(97, 7), (98, 8), (116, 9), (110, 10), (118, 11), (102, 12), (114, 13), (92, 92), (34, 34), (39, 39), (63, 63)]"

fun c_chars :: "bytes \<Rightarrow> (bytes \<times> bytes) option" where
  "c_chars [] = None"
| "c_chars (c # cs) =
     (if c = 34 then Some ([], cs)
      else if c = 10 then None
      else if c = 92
      then (case cs of
              [] \<Rightarrow> None
            | e # es \<Rightarrow>
                (case simple_escape e of
                   None \<Rightarrow> None
                 | Some d \<Rightarrow> map_option (\<lambda>(b, r). (d # b, r)) (c_chars es)))
      else map_option (\<lambda>(b, r). (c # b, r)) (c_chars cs))"

text \<open>The bytes of the literal at the start of a text, and what follows it.\<close>

definition c_literal :: "bytes \<Rightarrow> (bytes \<times> bytes) option" where
  "c_literal src = (case trigraphs src of c # cs \<Rightarrow> if c = 34 then c_chars cs else None | [] \<Rightarrow> None)"

subsection \<open>Literals that the compiler writes\<close>

fun no_qq :: "bytes \<Rightarrow> bool" where
  "no_qq (a # b # cs) \<longleftrightarrow> \<not> (a = 63 \<and> b = 63) \<and> no_qq (b # cs)"
| "no_qq _ \<longleftrightarrow> True"

lemma no_qq_Cons: "no_qq (a # cs) \<longleftrightarrow> \<not> (a = 63 \<and> take 1 cs = [63]) \<and> no_qq cs"
  by (cases cs) auto

lemma trigraphs_Cons: "\<not> (a = 63 \<and> take 1 cs = [63]) \<Longrightarrow> trigraphs (a # cs) = a # trigraphs cs"
proof (cases cs)
  case (Cons b ds)
  then show "\<not> (a = 63 \<and> take 1 cs = [63]) \<Longrightarrow> trigraphs (a # cs) = a # trigraphs cs"
    by (cases ds) (auto split: option.splits)
qed simp

lemma trigraphs_Cons_quote [simp]: "trigraphs (34 # rest) = 34 # trigraphs rest"
  by (rule trigraphs_Cons) simp

lemma trigraphs_quote: "no_qq xs \<Longrightarrow> trigraphs (xs @ 34 # rest) = xs @ trigraphs (34 # rest)"
proof (induction xs)
  case (Cons a xs)
  then have "\<not> (a = 63 \<and> take 1 (xs @ 34 # rest) = [63])" by (cases xs) (auto simp: no_qq_Cons)
  then show ?case using Cons trigraphs_Cons [of a "xs @ 34 # rest"] by (simp add: no_qq_Cons)
qed simp

lemma str_escape_shape:
  "(\<exists>e. str_escape c = [92, e] \<and> simple_escape e = Some c \<and> c \<noteq> 63 \<and> e \<noteq> 63) \<or>
   str_escape c = [c] \<and> c \<noteq> 34 \<and> c \<noteq> 10 \<and> c \<noteq> 92"
  by (simp add: str_escape_def escape_with_def simple_escape_def)

lemma str_escape_cases:
  obtains e where "str_escape c = [92, e]" "simple_escape e = Some c" "c \<noteq> 63" "e \<noteq> 63"
  | "str_escape c = [c]" "c \<noteq> 34" "c \<noteq> 10" "c \<noteq> 92"
  using str_escape_shape [of c] by blast

lemma no_qq_escaped: "no_qq b \<Longrightarrow> no_qq (concat (map str_escape b))"
proof (induction b)
  case (Cons c cs)
  then have IH: "no_qq (concat (map str_escape cs))" by (simp add: no_qq_Cons)
  show ?case
  proof (cases c rule: str_escape_cases)
    case (1 e)
    then show ?thesis using IH by (simp add: no_qq_Cons)
  next
    case 2
    have "take 1 (concat (map str_escape cs)) = [63] \<Longrightarrow> take 1 cs = [63]"
    proof (cases cs)
      case (Cons d ds)
      then show "take 1 (concat (map str_escape cs)) = [63] \<Longrightarrow> take 1 cs = [63]"
        by (cases d rule: str_escape_cases) auto
    qed simp
    then show ?thesis using 2 IH Cons.prems by (auto simp: no_qq_Cons)
  qed
qed simp

lemma c_chars_escaped: "c_chars (concat (map str_escape b) @ 34 # rest) = Some (b, rest)"
proof (induction b)
  case (Cons c cs)
  then show ?case by (cases c rule: str_escape_cases) auto
qed simp

lemma emit_emit: "andthen (emit a s) (\<lambda>_. emit b) = emit (a @ b) s"
  by (auto simp: emit_def split: option.splits)

lemma run_all_Cons: "run_all (m # ms) = (\<lambda>s. andthen (m s) (\<lambda>_. run_all ms))"
  by (rule ext) simp

lemma run_all_emits: "run_all (emit a # map emit chunks) = emit (a @ concat chunks)"
proof (induction chunks arbitrary: a)
  case (Cons b chunks)
  have "run_all (emit a # map emit (b # chunks)) s = run_all (emit (a @ b) # map emit chunks) s" for s
    by (simp add: andthen_assoc run_all_Cons flip: emit_emit)
  then show ?case using Cons [of "a @ b"] by (simp add: fun_eq_iff)
qed (auto simp: fun_eq_iff emit_def split: option.splits)

lemma emit_literal_text:
  "emit_literal ctor esc b = emit (bs ctor @ bs ''(world, '' @ (34 # concat (map esc b) @ [34]) @ bs '', '' @
     dec_of_nat (length b) @ bs '')'')"
  using run_all_emits [of "bs ctor" "[bs ''(world, '', 34 # concat (map esc b) @ [34], bs '', '', dec_of_nat (length b), bs '')'']"]
  by (simp add: emit_literal_def say_def quote_def dec_def)

lemma compile_string: "pone_compile_tree ff (NStr PVIP_NODE_STRING l b) = emit_string b"
  by (subst pone_compile_tree.simps)
    (simp add: compile_node_def plain_text_def string_code_def with_pv_def node_type_defs)

lemma compile_bytes: "pone_compile_tree ff (NStr PVIP_NODE_BYTES l b) = emit_bytes b"
  by (subst pone_compile_tree.simps)
    (simp add: compile_node_def plain_text_def string_code_def with_pv_def node_type_defs)

text \<open>
  C18: the literal that is written for a string reads back in C as exactly the bytes of the string, and
  ends where it should, whatever bytes they are, as long as no two question marks follow each
  other.
\<close>

theorem string_literal_roundtrip:
  assumes "no_qq b"
  shows "\<exists>lit. pone_compile_tree ff (NStr PVIP_NODE_STRING l b) =
      emit (bs ''pone_str_new_const(world, '' @ lit @ bs '', '' @ dec_of_nat (length b) @ bs '')'') \<and>
    (\<forall>rest. c_literal (lit @ rest) = Some (b, trigraphs rest))"
proof (intro exI conjI allI)
  let ?lit = "34 # concat (map str_escape b) @ [34]"
  show "pone_compile_tree ff (NStr PVIP_NODE_STRING l b) =
      emit (bs ''pone_str_new_const(world, '' @ ?lit @ bs '', '' @ dec_of_nat (length b) @ bs '')'')"
    by (simp add: compile_string emit_string_def emit_literal_text bs_def)
  fix rest
  show "c_literal (?lit @ rest) = Some (b, trigraphs rest)"
    using trigraphs_quote [OF no_qq_escaped [OF assms], of rest]
    by (simp add: c_literal_def c_chars_escaped)
qed

theorem string_literal_roundtrip_witness:
  "\<exists>lit. pone_compile_tree (\<lambda>_. []) (NStr PVIP_NODE_STRING 1 [34, 92, 10, 0, 63]) =
      emit (bs ''pone_str_new_const(world, '' @ lit @ bs '', '' @ dec_of_nat (length [34, 92, 10, 0, 63 :: byte]) @ bs '')'') \<and>
    c_literal (lit @ bs '');'') = Some ([34, 92, 10, 0, 63], trigraphs (bs '');''))"
  using string_literal_roundtrip [of "[34, 92, 10, 0, 63]" "\<lambda>_. []" 1] by auto

text \<open>
  Strings with two question marks can be read as something else, and can leave the literal: the three
  bytes of \<open>??/\<close> and a quote become an escaped backslash and the end of the literal. In literals for bytes
  and regular expressions a quote is not escaped at all and ends them.
\<close>

theorem literal_cut_short:
  "(\<exists>lit. pone_compile_tree ff (NStr PVIP_NODE_STRING l [63, 63, 47, 34, 33]) =
       emit (bs ''pone_str_new_const(world, '' @ lit @ bs '', 5)'') \<and> c_literal lit = Some ([92], [33, 34])) \<and>
   (\<exists>lit. pone_compile_tree ff (NStr PVIP_NODE_BYTES l [65, 34, 66]) =
       emit (bs ''pone_bytes_new_const(world, '' @ lit @ bs '', 3)'') \<and> c_literal lit = Some ([65], [66, 34]))"
proof
  show "\<exists>lit. pone_compile_tree ff (NStr PVIP_NODE_STRING l [63, 63, 47, 34, 33]) =
       emit (bs ''pone_str_new_const(world, '' @ lit @ bs '', 5)'') \<and> c_literal lit = Some ([92], [33, 34])"
    by (intro exI [of _ "[34, 63, 63, 47, 92, 34, 33, 34]"])
      (simp add: compile_string emit_string_def emit_literal_text bs_def str_escape_def escape_with_def
        dec_of_nat.simps c_literal_def simple_escape_def)
  show "\<exists>lit. pone_compile_tree ff (NStr PVIP_NODE_BYTES l [65, 34, 66]) =
       emit (bs ''pone_bytes_new_const(world, '' @ lit @ bs '', 3)'') \<and> c_literal lit = Some ([65], [66, 34])"
    by (intro exI [of _ "[34, 65, 34, 66, 34]"])
      (simp add: compile_bytes emit_bytes_def emit_literal_text bs_def raw_escape_def escape_with_def
        dec_of_nat.simps c_literal_def simple_escape_def)
qed

section \<open>Variables\<close>

lemma find_lex_Some:
  "find_lex vs name = Some i \<Longrightarrow> i < length vs \<and> cstr name \<in> vs ! i \<and> (\<forall>j < i. cstr name \<notin> vs ! j)"
proof (induction vs arbitrary: i)
  case (Cons v vs)
  then show ?case by (cases i) (auto simp: less_Suc_eq_0_disj split: if_splits)
qed simp

lemma lex_chain_up:
  assumes "lex_chain h lx ms" "i < length ms"
  shows "\<exists>lx' parent tid. lex_up h i lx = Some lx' \<and> lx' \<noteq> Null \<and> val_as (h lx') = AsLex parent (ms ! i) tid \<and>
    lex_chain h lx' (drop i ms) \<and>
    (\<forall>m' v. val_as v = AsLex parent m' tid \<longrightarrow> lex_chain (h(lx' := v)) lx (ms[i := m']))"
  using assms
proof (induction ms arbitrary: lx i)
  case (Cons m ms)
  then obtain parent tid where p: "lx \<noteq> Null" "val_as (h lx) = AsLex parent m tid" "lex_chain h parent ms" by auto
  show ?case
  proof (cases i)
    case 0
    have "lex_chain (h(lx := v)) parent ms" for v
      by (rule lex_chain_outer [OF p(3) Cons.prems(1)]) simp
    then have "lex_chain (h(lx := v)) lx ((m # ms)[i := m'])" if "val_as v = AsLex parent m' tid" for m' v
      using p(1) that by (simp add: 0)
    moreover have "lex_up h i lx = Some lx" "val_as (h lx) = AsLex parent ((m # ms) ! i) tid"
      "lex_chain h lx (drop i (m # ms))" using p Cons.prems(1) by (simp_all add: 0)
    ultimately show ?thesis using p(1) by blast
  next
    case (Suc k)
    then have "k < length ms" using Cons.prems(2) by simp
    from Cons.IH [OF p(3) this] obtain lx' par' tid' where IH: "lex_up h k parent = Some lx'" "lx' \<noteq> Null"
      "val_as (h lx') = AsLex par' (ms ! k) tid'" "lex_chain h lx' (drop k ms)"
      "\<And>m' v. val_as v = AsLex par' m' tid' \<Longrightarrow> lex_chain (h(lx' := v)) parent (ms[k := m'])" by blast
    have "lx' \<noteq> lx"
    proof
      assume "lx' = lx"
      then have "m # ms = drop k ms" using lex_chain_unique [OF Cons.prems(1)] IH(4) by blast
      then have "length (m # ms) = length (drop k ms)" by simp
      then show False by simp
    qed
    then have "lex_chain (h(lx' := v)) lx ((m # ms)[i := m'])" if "val_as v = AsLex par' m' tid'" for m' v
      using p IH(5) [OF that] by (simp add: Suc)
    moreover have "lex_up h i lx = Some lx'" "val_as (h lx') = AsLex par' ((m # ms) ! i) tid'"
      "lex_chain h lx' (drop i (m # ms))" using p IH by (simp_all add: Suc)
    ultimately show ?thesis using IH(2) by blast
  qed
qed simp

lemma first_binding_update:
  "i < length ms \<Longrightarrow> (\<forall>j < i. str_kh_map (ms ! j) k = None) \<Longrightarrow> str_kh_map m' k = Some v \<Longrightarrow>
     first_binding (ms[i := m']) k = Some v"
proof (induction ms arbitrary: i)
  case (Cons m ms)
  show ?case
  proof (cases i)
    case (Suc j)
    then have "str_kh_map m k = None" using Cons.prems(2) by force
    moreover have "first_binding (ms[j := m']) k = Some v"
      using Cons.IH [of j] Cons.prems Suc by force
    ultimately show ?thesis using Suc by simp
  qed (use Cons.prems in simp)
qed simp



text \<open>An inner scope without names in one that binds \<open>b\<close>.\<close>

definition scopes_demo :: "ptr str_khash \<Rightarrow> pone_state" where
  "scopes_demo m = upd_world 0 (w_lex_update (\<lambda>_. Cell 0 0 1))
     (set_as (Cell 0 0 1) (AsLex (Cell 0 0 0) kh_init 0) (set_as (Cell 0 0 0) (AsLex Null m 0) release_demo))"


section \<open>Numbers of anonymous functions\<close>

lemma compile_anon:
  "pone_compile_tree ff (NKids PVIP_NODE_FUNC l (NKids PVIP_NODE_NOP l' cs # p # q # b # rest)) =
     emit_anon_func (pone_compile_tree ff p) (compiled_return (pone_compile_tree ff) b)"
  by (subst pone_compile_tree.simps)
    (simp add: compile_node_def plain_text_def string_code_def operator_code_def inplace_func_def infix_func_def
      pair_func_def logical_func_def prefix_text_def kids_code_def with_kids_def emit_func_def nth_c_def node_type_defs)


lemma anon_func_texts:
  assumes run: "emit_anon_func p b s = Ret () s'" and cur: "cc_cur s = None" and keep: "keeps p" "keeps b"
  shows "\<exists>body. cc_subs s' ! length (cc_subs s) =
      bs ''pone_val* pone_user_func_anon_'' @ dec_of_nat (Suc (cc_anon s)) @ 40 # body"
    and "cc_buf s' = cc_buf s @ bs ''pone_code_new(world, pone_user_func_anon_'' @ dec_of_nat (cc_anon s') @ [41]"
    and "length (cc_subs s) < length (cc_subs s')"
proof -
  define k where "k = length (cc_subs s)"
  define names where "names = cc_subnames s @ [bs ''pone_user_func_anon_'' @ dec_of_nat (Suc (cc_anon s))]"
  define s1 where "s1 = s\<lparr>cc_anon := Suc (cc_anon s), cc_subnames := names, cc_subs := cc_subs s @ [[]], cc_cur := Some k\<rparr>"
  define rest where "rest = [fun_params, scoped [say ''    const char* FUNC_NAME='', quote (bs ''<ANON>''), sayln '';'', p, b],
      sayln ''  return pone_nil();'', sayln ''}'']"
  define start where "start = bs ''pone_val* pone_user_func_anon_'' @ dec_of_nat (Suc (cc_anon s)) @ [40]"
  define s2 where "s2 = s1\<lparr>cc_subs := cc_subs s @ [start]\<rparr>"
  have head: "run_all ([say ''pone_val* pone_user_func_'', run_all [say ''anon_'', dec_anon], say ''(''] @ rest) s1 = run_all rest s2"
    unfolding s1_def s2_def start_def k_def
    by (simp add: emit_def say_def dec_anon_def dec_def with_ctx_def bs_def list_update_append nth_append)
  have inc: "cc_anon_update Suc s = s\<lparr>cc_anon := Suc (cc_anon s)\<rparr>" by (cases s) simp
  define last_part where "last_part = run_all [say ''pone_code_new(world, pone_user_func_anon_'', dec_anon, say '')'']"
  have "emit_anon_func p b s = andthen (in_new_sub (run_all ([say ''pone_val* pone_user_func_'',
      run_all [say ''anon_'', dec_anon], say ''(''] @ rest)) (s\<lparr>cc_anon := Suc (cc_anon s), cc_subnames := names\<rparr>)) (\<lambda>_. last_part)"
    by (simp add: emit_anon_func_def func_text_def modify_def inc names_def rest_def last_part_def)
  also have "\<dots> = andthen (run_all rest s2) (\<lambda>_ s3. last_part (s3\<lparr>cc_cur := None\<rparr>))"
    using head cur by (simp add: in_new_sub_def s1_def k_def andthen_assoc del: run_all.simps append.simps)
  finally have "andthen (run_all rest s2) (\<lambda>_ s3. last_part (s3\<lparr>cc_cur := None\<rparr>)) = Ret () s'"
    using run by simp
  then obtain s3 where s3: "run_all rest s2 = Ret () s3" and s': "last_part (s3\<lparr>cc_cur := None\<rparr>) = Ret () s'"
    by (auto simp: andthen_Ret_iff)
  have "keeps (run_all rest)"
    using keep by (auto simp: rest_def fun_params_def intro!: keeps_intros)
  then have e: "extends s2 s3" using s3 keepsD by blast
  have sub: "grows True start (cc_subs s3 ! k)" and buf: "cc_buf s3 = cc_buf s" and len: "k < length (cc_subs s3)"
    using e by (auto simp: extends_def s2_def s1_def k_def grows_def nth_append dest: spec [of _ k])
  have out: "s' = s3\<lparr>cc_cur := None, cc_buf := cc_buf s @ bs ''pone_code_new(world, pone_user_func_anon_'' @
      dec_of_nat (cc_anon s3) @ [41]\<rparr>"
    using s' by (simp add: last_part_def emit_def say_def dec_anon_def dec_def with_ctx_def buf bs_def)
  show "\<exists>body. cc_subs s' ! length (cc_subs s) =
      bs ''pone_val* pone_user_func_anon_'' @ dec_of_nat (Suc (cc_anon s)) @ 40 # body"
    using sub by (auto simp: out grows_def start_def k_def)
  show "cc_buf s' = cc_buf s @ bs ''pone_code_new(world, pone_user_func_anon_'' @ dec_of_nat (cc_anon s') @ [41]"
    "length (cc_subs s) < length (cc_subs s')"
    using len by (simp_all add: out k_def)
qed

lemma keeps_compiled_return: "keeps (compiled_return (pone_compile_tree ff) b)"
  by (auto simp: compiled_return_def split: option.splits intro: keeps_compile_tree keeps_undefined)

text \<open>
  An anonymous function is written under the number after the last one used, but the code that makes a
  value of it refers to the last number that was used when its body was done. The two differ as soon as the
  body contains another anonymous function or a \<open>try\<close>: the value is then the inner function.
\<close>

theorem anon_reference:
  assumes "pone_compile_tree ff (NKids PVIP_NODE_FUNC l (NKids PVIP_NODE_NOP l' cs # p # q # b # rest)) s = Ret () s'"
    and "cc_cur s = None"
  shows "(\<exists>body. cc_subs s' ! length (cc_subs s) =
      bs ''pone_val* pone_user_func_anon_'' @ dec_of_nat (Suc (cc_anon s)) @ 40 # body) \<and>
    cc_buf s' = cc_buf s @ bs ''pone_code_new(world, pone_user_func_anon_'' @ dec_of_nat (cc_anon s') @ [41]"
  using anon_func_texts [OF assms(1) [unfolded compile_anon] assms(2) keeps_compile_tree keeps_compiled_return] by blast

lemma compile_return: "pone_compile_tree ff (NKids PVIP_NODE_RETURN l [n]) = emit_return (pone_compile_tree ff n)"
  by (subst pone_compile_tree.simps)
    (simp add: compile_node_def plain_text_def string_code_def operator_code_def inplace_func_def infix_func_def
      pair_func_def logical_func_def prefix_text_def kids_code_def with_kids_def nth_c_def node_type_defs)

lemma compile_no_params: "pone_compile_tree ff (NKids PVIP_NODE_PARAMS l []) = emit_params [] []"
  by (subst pone_compile_tree.simps)
    (simp add: compile_node_def plain_text_def string_code_def operator_code_def inplace_func_def infix_func_def
      pair_func_def logical_func_def prefix_text_def kids_code_def with_kids_def node_type_defs)

lemma compile_nop: "pone_compile_tree ff (NKids PVIP_NODE_NOP l cs) = say ''pone_nil()''"
  by (subst pone_compile_tree.simps) (simp add: compile_node_def plain_text_def node_type_defs)

lemma compiled_return_value:
  "node_type n \<in> returned_kinds \<Longrightarrow> node_type n \<notin> {PVIP_NODE_IF, PVIP_NODE_ELSE, PVIP_NODE_BLOCK, PVIP_NODE_STATEMENTS} \<Longrightarrow>
     compiled_return (pone_compile_tree ff) n = emit_return (pone_compile_tree ff n)"
  by (simp add: compiled_return_def inject_return.simps compile_return)

definition anon_node :: "pone_node \<Rightarrow> pone_node" where
  "anon_node body = NKids PVIP_NODE_FUNC 1
     [NKids PVIP_NODE_NOP 1 [], NKids PVIP_NODE_PARAMS 1 [], NKids PVIP_NODE_NOP 1 [], body]"

lemma compile_anon_node:
  "node_type n \<in> returned_kinds \<Longrightarrow> node_type n \<notin> {PVIP_NODE_IF, PVIP_NODE_ELSE, PVIP_NODE_BLOCK, PVIP_NODE_STATEMENTS} \<Longrightarrow>
     pone_compile_tree ff (anon_node n) = emit_anon_func (emit_params [] []) (emit_return (pone_compile_tree ff n))"
  by (simp add: anon_node_def compile_anon compile_no_params compiled_return_value)

theorem anon_reference_witness:
  "\<exists>s' body. pone_compile_tree (\<lambda>_. []) (anon_node (anon_node (NKids PVIP_NODE_NOP 1 []))) pone_compile_ctx_new = Ret () s' \<and>
     cc_subs s' ! 0 = bs ''pone_val* pone_user_func_anon_1('' @ body \<and>
     cc_buf s' = bs ''pone_code_new(world, pone_user_func_anon_2)''"
proof -
  have kinds: "node_type (anon_node n) \<in> returned_kinds"
    "node_type (anon_node n) \<notin> {PVIP_NODE_IF, PVIP_NODE_ELSE, PVIP_NODE_BLOCK, PVIP_NODE_STATEMENTS}"
    "PVIP_NODE_NOP \<in> returned_kinds" "PVIP_NODE_NOP \<notin> {PVIP_NODE_IF, PVIP_NODE_ELSE, PVIP_NODE_BLOCK, PVIP_NODE_STATEMENTS}" for n
    by (simp add: anon_node_def returned_kinds_def, simp add: anon_node_def node_type_defs,
        simp add: returned_kinds_def, simp add: node_type_defs)
  have code: "pone_compile_tree (\<lambda>_. []) (anon_node (anon_node (NKids PVIP_NODE_NOP 1 []))) =
      emit_anon_func (emit_params [] []) (emit_return (emit_anon_func (emit_params [] []) (emit_return (say ''pone_nil()''))))"
    by (simp only: compile_anon_node [OF kinds(1,2)]
        compile_anon_node [of "NKids PVIP_NODE_NOP 1 []", unfolded node_type.simps, OF kinds(3,4)] compile_nop)
  have run: "\<exists>s'. pone_compile_tree (\<lambda>_. []) (anon_node (anon_node (NKids PVIP_NODE_NOP 1 []))) pone_compile_ctx_new = Ret () s' \<and>
      cc_anon s' = 2"
    by (simp add: code emit_anon_func_def func_text_def in_new_sub_def scoped_def PUSH_SCOPE_def POP_SCOPE_def
        push_vars_stack_def pop_vars_stack_def modify_def with_ctx_def emit_params_def emit_return_def fun_params_def
        dec_anon_def dec_def say_def sayln_def quote_def emit_def pone_compile_ctx_new_def)
  then obtain s' where s': "pone_compile_tree (\<lambda>_. []) (anon_node (anon_node (NKids PVIP_NODE_NOP 1 []))) pone_compile_ctx_new = Ret () s'"
    "cc_anon s' = 2" by blast
  have digits: "dec_of_nat 2 = [50]" "dec_of_nat (Suc 0) = [49]" by (simp_all add: dec_of_nat.simps)
  have "cc_cur pone_compile_ctx_new = None" "cc_subs pone_compile_ctx_new = []" "cc_buf pone_compile_ctx_new = []"
    "cc_anon pone_compile_ctx_new = 0" by (simp_all add: pone_compile_ctx_new_def)
  then have "(\<exists>body. cc_subs s' ! 0 = bs ''pone_val* pone_user_func_anon_'' @ [49] @ 40 # body) \<and>
      cc_buf s' = bs ''pone_code_new(world, pone_user_func_anon_'' @ [50] @ [41]"
    using anon_reference [OF s'(1) [unfolded anon_node_def [of "anon_node _"]]] s'(2) by (simp add: digits)
  then show ?thesis using s'(1) by (auto simp: bs_def)
qed

end
