(* ===== verification/Pone_Load.thy ===== *)
theory Pone_Load
  imports Pone_System Pone_Compile
begin

text \<open>
  From source to a value that can be called: the part of \<^verbatim>\<open>src/compile.c\<close> that parses, writes the C file, has it
  compiled and loads the result, and the loading of modules of \<^verbatim>\<open>src/module.c\<close>. The parser (generated by greg),
  the C compiler run by \<open>system\<close>, the dynamic loader and the functions in a shared object are fields of
  \<open>pone_tools\<close>; a failing one returns its message on the left.
\<close>

record pone_tools = pone_posix +
  e_parse_string :: "bytes \<Rightarrow> bytes + pone_node"
  e_parse_fp :: "nat \<Rightarrow> os_state \<Rightarrow> (bytes + pone_node) \<times> os_state" \<comment> \<open>it reads the stream\<close>
  e_node_name :: "PVIP_node_type_t \<Rightarrow> bytes" \<comment> \<open>the generated \<open>PVIP_node_name\<close>\<close>
  e_include_dir :: bytes \<comment> \<open>\<open>PONE_INCLUDE_DIR\<close> of the build\<close>
  e_system :: "bytes \<Rightarrow> os_state \<Rightarrow> int \<times> os_state"
  e_dlopen :: "os_state \<Rightarrow> bytes \<Rightarrow> bytes + nat"
  e_dlsym :: "nat \<Rightarrow> bytes \<Rightarrow> bytes + pone_funcptr_t"
  e_load :: "pone_funcptr_t \<Rightarrow> nat \<Rightarrow> ptr \<Rightarrow> unit pone" \<comment> \<open>a \<open>pone_loadfunc_t\<close>\<close>

text \<open>The C string of a value: \<open>pone_str_ptr(pone_str_c_str(world, v))\<close>.\<close>

definition c_text :: "('z pone_rt_scheme) \<Rightarrow> nat \<Rightarrow> ptr \<Rightarrow> bytes pone" where
  "c_text E w v s =
     andthen (pone_str_c_str E w v s) (\<lambda>c s.
     andthen (pone_str_ptr (e_depth E) c s) (\<lambda>b. Ret (cstr b)))"

text \<open>The same of a formatted string.\<close>

definition c_format :: "('z pone_rt_scheme) \<Rightarrow> nat \<Rightarrow> bytes \<Rightarrow> bytes pone" where
  "c_format E w t s = andthen (pone_str_new_vprintf w t s) (\<lambda>v. c_text E w v)"

section \<open>Parsing\<close>

definition parse_result :: "('z pone_rt_scheme) \<Rightarrow> nat \<Rightarrow> bytes \<Rightarrow> nat \<Rightarrow> bytes + pone_node \<Rightarrow> pone_node pone" where
  "parse_result E w msg len r s =
     (case r of
        Inr node \<Rightarrow> Ret node s
      | Inl err \<Rightarrow>
          andthen (pone_str_new_strdup w (msg @ [0]) len s) (\<lambda>m s.
          andthen (pone_str_append_c (e_depth E) w m err s) (\<lambda>_. pone_throw w m)))"

definition pone_parse_string :: "('z pone_tools_scheme) \<Rightarrow> nat \<Rightarrow> bytes \<Rightarrow> pone_node pone" where
  "pone_parse_string E w src =
     parse_result E w (bs ''Cannot parse string: '') (length ''Cannot parse string: '') (e_parse_string E (cstr src))"

text \<open>The length given is that of a shorter text, so that the message is cut.\<close>

definition pone_parse_fp :: "('z pone_tools_scheme) \<Rightarrow> nat \<Rightarrow> nat \<Rightarrow> pone_node pone" where
  "pone_parse_fp E w fp s =
     andthen (os_get (e_parse_fp E fp) s) (\<lambda>r.
     parse_result E w (bs ''Cannot parse string: '') (length ''Cannot parse: '') r)"

section \<open>Compiling\<close>

definition compiler_command :: "('z pone_tools_scheme) \<Rightarrow> bytes \<Rightarrow> bytes \<Rightarrow> bytes" where
  "compiler_command E so_filename c_filename =
     bs ''clang -x c -D_POSIX_C_SOURCE=200809L -rdynamic -fPIC -shared -I'' @
       (case e_getenv E (bs ''PONE_INCLUDE'') of Some d \<Rightarrow> d | None \<Rightarrow> e_include_dir E) @
       bs '' -I src/ -g -lm -std=c99 -o '' @ so_filename @ bs '' '' @ c_filename @ bs '' -L. -lpone''"

definition pone_compile_c :: "('z pone_tools_scheme) \<Rightarrow> nat \<Rightarrow> bytes \<Rightarrow> bytes \<Rightarrow> unit pone" where
  "pone_compile_c E w so_filename c_filename s =
     andthen (c_format E w (compiler_command E so_filename c_filename) s) (\<lambda>cmdline s.
     andthen (os_get (e_system E cmdline) s) (\<lambda>retval s.
     if retval \<noteq> 0 then pone_throw_str w (bs ''cannot compile generated C code'') s else Ret () s))"

text \<open>
  The file is opened before the translation, whose text is written in one piece here; a translation that
  stops the process leaves it empty.
\<close>

definition compile_node_file :: "('z pone_tools_scheme) \<Rightarrow> nat \<Rightarrow> pone_node \<Rightarrow> bytes \<Rightarrow> bytes \<Rightarrow> bytes \<Rightarrow> unit pone" where
  "compile_node_file E w node c_filename so_filename so_funcname s =
     andthen (os_get (c_fopen c_filename (bs ''w'')) s) (\<lambda>fp s.
     if fp = 0 then pone_throw_str w (bs ''cannot open generated C source file: '' @ c_filename) s
     else case pone_compile_node (e_fmt_f E (bs ''%f'')) node so_funcname pone_compile_ctx_new of
            Ret program _ \<Rightarrow>
              andthen (os_do (c_fwrite program fp) s) (\<lambda>_ s.
              andthen (os_do (c_fclose fp) s) (\<lambda>_.
              pone_compile_c E w so_filename c_filename))
          | Abort \<Rightarrow> Abort
          | Exit c \<Rightarrow> Exit c
          | _ \<Rightarrow> Undef)"

definition pone_load_dll :: "('z pone_tools_scheme) \<Rightarrow> nat \<Rightarrow> bytes \<Rightarrow> bytes \<Rightarrow> ptr pone" where
  "pone_load_dll E w so_path funcname s =
     (case e_dlopen E (st_os s) so_path of
        Inl err \<Rightarrow> pone_throw_str w (bs ''dlopen: '' @ err) s
      | Inr handle \<Rightarrow>
          (case e_dlsym E handle funcname of
             Inl err \<Rightarrow> pone_throw_str w (bs ''dlerror: '' @ err) s
           | Inr f \<Rightarrow>
               andthen (pone_code_new w f s) (\<lambda>code s.
               andthen (pone_lex_new w Null s) (\<lambda>lx s.
               Ret code (set_as code (AsCode f lx) s)))))"

text \<open>
  A context of the compiler is a value of \<open>Pone_Compile\<close>; here is its part on the heap: the list of the
  functions' names, and the opaque value that has it freed.
\<close>

definition compile_ctx_new :: "('z pone_rt_scheme) \<Rightarrow> nat \<Rightarrow> unit pone" where
  "compile_ctx_new E w s =
     andthen (os_get (c_new CtxObj) s) (\<lambda>ctx s.
     andthen (pone_ary_new w [] s) (\<lambda>_ s.
     andthen (pone_class_new E w ''CompilerContext'' s) (\<lambda>k s.
     andthen (pone_opaque_new w k ctx (Some ''pone_compile_ctx_finalize'') s) (\<lambda>_. Ret ()))))"

definition pone_compile_ctx_finalize :: "ptr \<Rightarrow> unit pone" where
  "pone_compile_ctx_finalize v s = andthen (pone_opaque_ptr v s) (\<lambda>ctx. os_do (c_free ctx))"

definition gen_tmpfile :: "('z pone_posix_scheme) \<Rightarrow> nat \<Rightarrow> bytes pone" where
  "gen_tmpfile E w s =
     andthen (pone_tmpfile_new E w s) (\<lambda>f s.
     andthen (pone_tmpfile_path_c E w f s) (\<lambda>b. Ret (cstr b)))"

definition so_funcname :: bytes where "so_funcname = bs ''pone_so_init_0''"

definition pone_compile_fp :: "('z pone_tools_scheme) \<Rightarrow> nat \<Rightarrow> nat \<Rightarrow> bytes \<Rightarrow> ptr pone" where
  "pone_compile_fp E w srcfp filename s =
     andthen (compile_ctx_new E w s) (\<lambda>_ s.
     andthen (pone_parse_fp E w srcfp s) (\<lambda>node s.
     andthen (c_format E w (filename @ bs ''.c'') s) (\<lambda>c_filename s.
     andthen (c_format E w (filename @ bs ''.so'') s) (\<lambda>so_filename s.
     andthen (compile_node_file E w node c_filename so_filename so_funcname s) (\<lambda>_.
     pone_load_dll E w so_filename so_funcname)))))"

definition pone_compile_str :: "('z pone_tools_scheme) \<Rightarrow> nat \<Rightarrow> bytes \<Rightarrow> ptr pone" where
  "pone_compile_str E w src s =
     andthen (compile_ctx_new E w s) (\<lambda>_ s.
     andthen (pone_parse_string E w src s) (\<lambda>node s.
     andthen (gen_tmpfile E w s) (\<lambda>c_filename s.
     andthen (gen_tmpfile E w s) (\<lambda>so_filename s.
     andthen (compile_node_file E w node c_filename so_filename so_funcname s) (\<lambda>_.
     pone_load_dll E w so_filename so_funcname)))))"

section \<open>Modules\<close>

definition PONE_DLL_EXT :: string where "PONE_DLL_EXT = ''so''"

text \<open>The loop of \<open>load_module\<close>, on the first \<open>len\<close> bytes of the buffer.\<close>

definition dll_name_char :: "byte \<Rightarrow> byte" where
  "dll_name_char c = (if c = 47 then 95 else c)"

definition underscore_slashes :: "ptr \<Rightarrow> unit pone" where
  "underscore_slashes v s =
     (case val_as (st_heap s v) of
        AsStr (StrBuf b) len \<Rightarrow>
          if len \<le> length b
          then Ret () (set_as v (AsStr (StrBuf (map dll_name_char (take len b) @ drop len b)) len) s)
          else Undef
      | _ \<Rightarrow> Undef)"

definition load_module :: "('z pone_tools_scheme) \<Rightarrow> nat \<Rightarrow> bytes \<Rightarrow> bytes \<Rightarrow> bytes \<Rightarrow> nat \<Rightarrow> bool pone" where
  "load_module E w from_dir name as as_len s =
     andthen (c_format E w (from_dir @ bs ''/'' @ name @ bs ''.'' @ bs PONE_DLL_EXT) s) (\<lambda>fullpath s.
     case e_stat E (st_os s) fullpath of
       Inl _ \<Rightarrow> Ret False s
     | Inr _ \<Rightarrow>
         andthen (pone_str_new_strdup w (name @ [0]) (length name) s) (\<lambda>funcname_tail s.
         andthen (underscore_slashes funcname_tail s) (\<lambda>_ s.
         andthen (pone_str_new_strdup w (bs ''PONE_DLL_'' @ [0]) (length ''PONE_DLL_'') s) (\<lambda>funcname s.
         andthen (pone_str_append E w funcname funcname_tail s) (\<lambda>_ s.
         case e_dlopen E (st_os s) fullpath of
           Inl err \<Rightarrow> pone_throw_str w (bs ''Could not load module '' @ fullpath @ bs '': '' @ err) s
         | Inr handle \<Rightarrow>
             andthen (c_text E w funcname s) (\<lambda>sym s.
             case e_dlsym E handle sym of
               Inl err \<Rightarrow>
                 pone_throw_str w (bs ''Could not load module '' @ fullpath @ bs ''(dlsym): '' @ err)
                   (put_out (err @ [10]) s)
             | Inr pone_load \<Rightarrow>
                 andthen (pone_module_new w name s) (\<lambda>module s.
                 andthen (e_load E pone_load w module s) (\<lambda>_ s.
                 andthen (export_module w as as_len module s) (\<lambda>_. Ret True)))))))))"

definition try_load_pn :: "('z pone_tools_scheme) \<Rightarrow> nat \<Rightarrow> ptr \<Rightarrow> bytes \<Rightarrow> bytes \<Rightarrow> nat \<Rightarrow> bool pone" where
  "try_load_pn E w dir name as as_len s =
     andthen (pone_stringify E w dir s) (\<lambda>path s.
     andthen (append_lit E w path ''/'' s) (\<lambda>_ s.
     andthen (pone_str_append_c (e_depth E) w path name s) (\<lambda>_ s.
     andthen (append_lit E w path ''.pn'' s) (\<lambda>_ s.
     andthen (c_text E w path s) (\<lambda>path_c s.
     andthen (os_get (c_fopen path_c (bs ''r'')) s) (\<lambda>fp s.
     if fp = 0
     then (case e_stat E (st_os s) path_c of
             Inl _ \<Rightarrow> Ret False s
           | Inr _ \<Rightarrow> pone_throw_str w (bs ''Cannot open '' @ path_c @ bs '': '' @ e_strerror E (os_errno (st_os s))) s)
     else andthen (pone_file_new w fp True s) (\<lambda>_ s.
          andthen (pone_compile_fp E w fp path_c s) (\<lambda>code s.
          let orig_lex = w_lex (st_world s w) in
          andthen (pone_save_tmp w orig_lex s) (\<lambda>_ s.
          andthen (pone_code_call E w (''module.c'', 161, ''try_load_pn'') code pone_nil [] (set_lex w Null s)) (\<lambda>module s.
          andthen (export_module w as as_len module (set_lex w orig_lex s)) (\<lambda>_. Ret True)))))))))))"

text \<open>The search over the directories from the \<open>i\<close>-th on; \<open>fuel\<close> bounds how many are looked at.\<close>

fun use_loop :: "nat \<Rightarrow> ('z pone_tools_scheme) \<Rightarrow> nat \<Rightarrow> ptr \<Rightarrow> bytes \<Rightarrow> bytes \<Rightarrow> nat \<Rightarrow> nat \<Rightarrow> bool pone" where
  "use_loop 0 E w inc name as as_len i s = Undef"
| "use_loop (Suc fuel) E w inc name as as_len i s =
     andthen (pone_ary_size inc s) (\<lambda>n s.
     if i < n
     then andthen (pone_ary_at_pos inc (int i) s) (\<lambda>dir s.
          andthen (try_load_pn E w dir name as as_len s) (\<lambda>found s.
          if found then Ret True s
          else andthen (pone_stringify E w dir s) (\<lambda>d s.
               andthen (c_text E w d s) (\<lambda>from_dir s.
               andthen (load_module E w from_dir name as as_len s) (\<lambda>found s.
               if found then Ret True s
               else use_loop fuel E w inc name as as_len (Suc i) s)))))
     else Ret False s)"

text \<open>The directories from the \<open>i\<close>-th on in the message.\<close>

fun list_dirs :: "nat \<Rightarrow> ('z pone_rt_scheme) \<Rightarrow> nat \<Rightarrow> ptr \<Rightarrow> ptr \<Rightarrow> nat \<Rightarrow> unit pone" where
  "list_dirs 0 E w inc msg i s = Undef"
| "list_dirs (Suc fuel) E w inc msg i s =
     andthen (pone_ary_size inc s) (\<lambda>n s.
     if i < n
     then andthen (append_lit E w msg ''    - '' s) (\<lambda>_ s.
          andthen (pone_ary_at_pos inc (int i) s) (\<lambda>dir s.
          andthen (pone_str_append E w msg dir s) (\<lambda>_ s.
          andthen (pone_str_append_c (e_depth E) w msg [10] s) (\<lambda>_.
          list_dirs fuel E w inc msg (Suc i)))))
     else Ret () s)"

definition pone_use :: "nat \<Rightarrow> ('z pone_tools_scheme) \<Rightarrow> nat \<Rightarrow> bytes \<Rightarrow> bytes \<Rightarrow> nat \<Rightarrow> unit pone" where
  "pone_use fuel E w name as as_len s =
     (let inc = u_inc (st_universe s) in
      andthen (use_loop fuel E w inc name as as_len 0 s) (\<lambda>found s.
      if found then Ret () s
      else andthen (pone_str_new_vprintf w
             (bs ''Could not load module '' @ [39] @ name @ [39] @ bs '': no such module in:'' @ [10, 10]) s) (\<lambda>msg s.
           andthen (list_dirs fuel E w inc msg 0 s) (\<lambda>_. pone_throw w msg))))"

end
