(* ===== verification/Pone_Load_Correct.thy ===== *)
theory Pone_Load_Correct
  imports Pone_Load Pone_Dispatch
begin

text \<open>
  What the C compiler is run on: the file that the translation is written to holds exactly the text of the
  program, and no other file has changed.
\<close>

definition file_text :: "os_state \<Rightarrow> bytes \<Rightarrow> bytes option" where
  "file_text os name = map_option (os_data os) (os_dir os name)"

text \<open>Addresses of new blocks are not NULL, and the inode of a new file is not in use.\<close>

definition os_wf :: "os_state \<Rightarrow> bool" where
  "os_wf os \<longleftrightarrow> 0 < os_next os \<and> (\<forall>name i. os_dir os name = Some i \<longrightarrow> i < os_next_inode os)"

text \<open>Two names of one file, as a hard link makes them.\<close>

definition linked :: "os_state \<Rightarrow> bytes \<Rightarrow> bytes \<Rightarrow> bool" where
  "linked os a b \<longleftrightarrow> os_dir os a \<noteq> None \<and> os_dir os a = os_dir os b"

definition file_writer :: "nat \<Rightarrow> int \<Rightarrow> c_file" where
  "file_writer i fd = \<lparr>f_inode = i, f_pos = 0, f_eof = False, f_err = False, f_read = False, f_write = True,
     f_append = False, f_fd = fd\<rparr>"

lemma mode_w: "c_mode_ok (bs ''w'')" "hd (bs ''w'') = 119" "43 \<notin> set (bs ''w'')"
  by (simp_all add: c_mode_ok_def bs_def)

lemma open_stream_w:
  "c_open_stream i fd (bs ''w'') os = c_new (FileObj (file_writer i fd)) os"
  by (simp add: c_open_stream_def mode_w file_writer_def)

text \<open>Opening a file for writing gives an empty file of that name, and a stream at its start.\<close>

lemma fopen_w:
  assumes "os_wf os" "c_fopen name (bs ''w'') os = (fp, os1)"
  shows "0 < fp"
    and "\<exists>i fd. c_stream fp os1 = Some (file_writer i fd) \<and> os_dir os1 = (os_dir os)(name \<mapsto> i) \<and>
           os_data os1 = (os_data os)(i := []) \<and> (os_dir os name = Some i \<or> i = os_next_inode os)"
proof -
  note defs = c_fopen_def mode_w open_stream_w c_new_def c_creat_def c_open_fd_def os_wf_def c_stream_def Let_def
  show "0 < fp" using assms by (auto simp: defs split: option.splits)
  show "\<exists>i fd. c_stream fp os1 = Some (file_writer i fd) \<and> os_dir os1 = (os_dir os)(name \<mapsto> i) \<and>
      os_data os1 = (os_data os)(i := []) \<and> (os_dir os name = Some i \<or> i = os_next_inode os)"
  proof (cases "os_dir os name")
    case None
    then show ?thesis using assms by (auto simp: defs)
  next
    case (Some i)
    then show ?thesis using assms by (auto simp: defs fun_upd_idem intro!: exI [of _ i])
  qed
qed

lemma overwrite_empty: "overwrite 0 b [] = b"
  by (simp add: overwrite_def)

lemma fwrite_writer:
  assumes "c_stream fp os = Some (file_writer i fd)" "os_data os i = []"
  shows "\<exists>os'. c_fwrite b fp os = Some (length b, os') \<and> os_dir os' = os_dir os \<and>
           os_data os' = (os_data os)(i := b) \<and> c_stream fp os' \<noteq> None"
  using assms
  by (auto simp: c_fwrite_def file_writer_def overwrite_empty set_obj_def c_stream_def split: if_splits)

lemma fclose_keeps:
  assumes "c_stream fp os \<noteq> None"
  shows "\<exists>ok os'. c_fclose fp os = Some (ok, os') \<and> os_dir os' = os_dir os \<and> os_data os' = os_data os"
proof -
  obtain f where "c_stream fp os = Some f" using assms by blast
  then show ?thesis by (cases "os_fd os (f_fd f)") (auto simp: c_fclose_def set_obj_def Let_def)
qed

lemma other_file_kept:
  assumes "os_wf os" "os_dir os' = (os_dir os)(name \<mapsto> i)" "os_data os' = (os_data os)(i := b)"
    "os_dir os name = Some i \<or> i = os_next_inode os"
  shows "file_text os' name = Some b"
    and "n \<noteq> name \<Longrightarrow> \<not> linked os n name \<Longrightarrow> file_text os' n = file_text os n"
proof -
  show "file_text os' name = Some b" using assms(2,3) by (simp add: file_text_def)
  assume n: "n \<noteq> name" "\<not> linked os n name"
  have "os_dir os n \<noteq> Some i"
    using assms(1,4) n(2) by (auto simp: os_wf_def linked_def)
  then show "file_text os' n = file_text os n"
    using assms(2,3) n(1) by (cases "os_dir os n") (simp_all add: file_text_def)
qed

lemma write_file:
  assumes "os_wf os" "c_fopen name (bs ''w'') os = (fp, os1)"
  shows "\<exists>n os2 ok os3. c_fwrite b fp os1 = Some (n, os2) \<and> c_fclose fp os2 = Some (ok, os3) \<and>
           file_text os3 name = Some b \<and> (\<forall>m. m \<noteq> name \<and> \<not> linked os m name \<longrightarrow> file_text os3 m = file_text os m)"
proof -
  obtain i fd where 1: "c_stream fp os1 = Some (file_writer i fd)" "os_dir os1 = (os_dir os)(name \<mapsto> i)"
      "os_data os1 = (os_data os)(i := [])" "os_dir os name = Some i \<or> i = os_next_inode os"
    using fopen_w(2) [OF assms] by blast
  obtain os2 where 2: "c_fwrite b fp os1 = Some (length b, os2)" "os_dir os2 = os_dir os1"
      "os_data os2 = (os_data os1)(i := b)" "c_stream fp os2 \<noteq> None"
    using fwrite_writer [OF 1(1)] 1(3) by fastforce
  obtain ok os3 where 3: "c_fclose fp os2 = Some (ok, os3)" "os_dir os3 = os_dir os2" "os_data os3 = os_data os2"
    using fclose_keeps [OF 2(4)] by blast
  have "os_dir os3 = (os_dir os)(name \<mapsto> i)" "os_data os3 = (os_data os)(i := b)"
    using 1 2 3 by simp_all
  from other_file_kept [OF assms(1) this 1(4)] 2(1) 3(1) show ?thesis by blast
qed

lemma compile_writes_program:
  assumes "os_wf (st_os s)"
  shows "\<exists>disk. (\<forall>program. file_text (disk program) c_filename = Some program \<and>
             (\<forall>n. n \<noteq> c_filename \<and> \<not> linked (st_os s) n c_filename \<longrightarrow>
                  file_text (disk program) n = file_text (st_os s) n)) \<and>
           compile_node_file E w node c_filename so_filename fname s =
             (case pone_compile_node (e_fmt_f E (bs ''%f'')) node fname pone_compile_ctx_new of
                Ret program _ \<Rightarrow> pone_compile_c E w so_filename c_filename (s\<lparr>st_os := disk program\<rparr>)
              | Abort \<Rightarrow> Abort | Exit c \<Rightarrow> Exit c | _ \<Rightarrow> Undef)"
proof -
  obtain fp os1 where o1: "c_fopen c_filename (bs ''w'') (st_os s) = (fp, os1)" by fastforce
  note wf = write_file [OF assms o1]
  have "\<forall>program. \<exists>os3 n os2 ok. c_fwrite program fp os1 = Some (n, os2) \<and> c_fclose fp os2 = Some (ok, os3) \<and>
      file_text os3 c_filename = Some program \<and>
      (\<forall>m. m \<noteq> c_filename \<and> \<not> linked (st_os s) m c_filename \<longrightarrow> file_text os3 m = file_text (st_os s) m)"
    using wf by blast
  then obtain disk where d: "\<And>program. \<exists>n os2 ok. c_fwrite program fp os1 = Some (n, os2) \<and>
      c_fclose fp os2 = Some (ok, disk program) \<and> file_text (disk program) c_filename = Some program \<and>
      (\<forall>m. m \<noteq> c_filename \<and> \<not> linked (st_os s) m c_filename \<longrightarrow>
         file_text (disk program) m = file_text (st_os s) m)"
    by metis
  have step: "andthen (os_do (c_fwrite program fp) (s\<lparr>st_os := os1\<rparr>))
      (\<lambda>_ s. andthen (os_do (c_fclose fp) s) (\<lambda>_. k)) = k (s\<lparr>st_os := disk program\<rparr>)" for program and k :: "unit pone"
    using d [of program] by (auto simp: os_do_def)
  have "fp \<noteq> 0" using fopen_w(1) [OF assms o1] by simp
  then have "compile_node_file E w node c_filename so_filename fname s =
      (case pone_compile_node (e_fmt_f E (bs ''%f'')) node fname pone_compile_ctx_new of
         Ret program _ \<Rightarrow> pone_compile_c E w so_filename c_filename (s\<lparr>st_os := disk program\<rparr>)
       | Abort \<Rightarrow> Abort | Exit c \<Rightarrow> Exit c | _ \<Rightarrow> Undef)"
    by (simp add: compile_node_file_def os_get_def os_do_def [of "\<lambda>os. Some (c_fopen c_filename (bs ''w'') os)"] o1 step
        split: outcome.split)
  with d show ?thesis by blast
qed

lemma blank_os_wf: "os_wf (st_os blank_state)"
  by (simp add: os_wf_def blank_state_def blank_os_def)

section \<open>Running the compiler\<close>

lemma text_ready_os:
  assumes "text_ready E w s"
  shows "text_ready E w (s\<lparr>st_os := x\<rparr>)"
proof -
  have "arena_wf w (s\<lparr>st_os := x\<rparr>) = arena_wf w s" by (rule arena_wf_cong) simp_all
  moreover have "class_at d s k m M \<Longrightarrow> class_at d (s\<lparr>st_os := x\<rparr>) k m M" for d k m M
    by (rule class_at_cong [rotated]) simp_all
  ultimately show ?thesis using assms by (auto simp: text_ready_def ary_ok_def) blast+
qed

text \<open>The C string of a formatted text without a NUL is the text.\<close>

lemma c_format_spec:
  assumes ready: "text_ready E w s" and room: "room w s 9" and d: "Suc 0 < e_depth E" and t: "0 \<notin> set t"
    and cs: "cs = w_caller_stack (st_world s w)"
  obtains s' where "c_format E w t s = Ret t s'" "step w {cs} 15 s s'" "ary_items cs s' = ary_items cs s"
proof -
  have wf: "arena_wf w s" and ok: "ary_ok cs s" using ready cs by (simp_all add: text_ready_def)
  obtain v s0 where v: "pone_obj_alloc w (AsStr (StrBuf (t @ [0])) (length t)) s = Ret v s0" "step w {} (Suc 0) s s0" "v \<noteq> Null"
    "\<not> pone_alive (st_heap s v)" "st_heap s0 = (st_heap s)(v := \<lparr>val_flags = 0, val_as = AsStr (StrBuf (t @ [0])) (length t)\<rparr>)"
    by (rule alloc_step [OF wf, of "AsStr (StrBuf (t @ [0])) (length t)"]) simp_all
  let ?s = "set_flags v PONE_FLAGS_STR_UTF8 s0"
  have st: "step w {cs} (Suc 0) s ?s"
    by (rule step_mono, rule step_flags [OF v(2,4)]) (simp add: v(5) pone_alive_iff)
  have fl: "PONE_FLAGS_STR_UTF8 AND PONE_FLAGS_STR_COPY = 0" "PONE_FLAGS_STR_UTF8 \<noteq> 0" by (simp_all add: flag_defs)
  have tv: "utf8_text 1 ?s v t"
    using v(3) fl by (simp add: utf8_text_def v(5) type_at_def pone_type_def has_flag_def pone_str_bytes_def)
  have "v \<noteq> cs" using v(4) ok by (auto simp: ary_ok_def pone_alive_iff)
  then have ok1: "ary_ok cs ?s" "ary_items cs ?s = ary_items cs s" using ok ary_kept [of ?s cs s] by (simp_all add: v(5))
  have w1: "cs = w_caller_stack (st_world ?s w)" using stepD(6) [OF st] cs by simp
  have ready1: "text_ready E w ?s" using text_ready_step [OF ready] st ok1(1) cs by simp
  have room1: "room w ?s 8" by (rule usesD [OF stepD(2) [OF st]], rule room_mono [OF room]) simp
  have d1: "1 < e_depth E" using d by simp
  obtain c s' where c: "andthen (pone_str_new_strdup w [0] 1 ?s) (\<lambda>z. pone_str_concat E w v z) = Ret c s'"
    "step w {cs} 14 ?s s'" "ary_items cs s' = ary_items cs ?s"
    "st_heap s' c = \<lparr>val_flags = PONE_FLAGS_STR_UTF8, val_as = AsStr (StrBuf (t @ [0])) (Suc (length t))\<rparr>"
    by (rule concat_nul [OF ready1 room1 tv d1 d w1])
  have b: "pone_str_bytes (e_depth E) v ?s = Ret t ?s" "type_at ?s v = PONE_STRING"
    using tv d by (auto simp: utf8_text_def intro: str_bytes_mono)
  have "pone_str_contains_null (e_depth E) v ?s = Ret False ?s"
    using b(1) t by (auto simp: pone_str_contains_null_def dest: in_set_butlastD)
  then have "pone_str_c_str E w v ?s = Ret c s'" using b(2) c(1) by (simp add: pone_str_c_str_def)
  moreover have "pone_str_ptr (e_depth E) c s' = Ret (t @ [0]) s'"
    using d fl by (cases "e_depth E") (simp_all add: c(4) has_flag_def)
  moreover have "cstr (t @ [0]) = t" using t by (auto simp: cstr_def takeWhile_append)
  ultimately have "c_format E w t s = Ret t s'"
    using v(1) by (simp add: c_format_def c_text_def pone_str_new_vprintf_def)
  moreover have "step w {cs} (Suc 0 + 14) s s'" by (rule step_trans [OF st c(2)])
  then have "step w {cs} 15 s s'" by simp
  ultimately show thesis using that c(3) ok1(2) by simp
qed


definition demo_tools :: "pone_tools \<Rightarrow> pone_tools" where
  "demo_tools E = E\<lparr>e_call := (\<lambda>f w self args s. pone_str_copy w self s), e_depth := 2,
     e_getenv := (\<lambda>_. None), e_include_dir := bs ''/usr/include'', e_system := (\<lambda>cmd os. (0, os))\<rparr>"

lemma nop_program: "\<exists>program ctx. pone_compile_node ff (NKids PVIP_NODE_NOP 1 []) fname pone_compile_ctx_new = Ret program ctx"
  by (simp add: pone_compile_node_def pone_compile_def push_vars_stack_def pop_vars_stack_def pone_compile_ctx_new_def
      pone_compile_tree.simps compile_node_def plain_text_def node_type_defs say_def emit_def modify_def)



end
