(* ===== verification/Pone_Start.thy ===== *)
theory Pone_Start
  imports Pone_Load Pone_Regex
begin

text \<open>
  The life of a process: creation and destruction of the universe (\<^verbatim>\<open>src/universe.c\<close>), the initialisers in their
  order (\<^verbatim>\<open>src/pone.c\<close>), the start of the signal thread (\<^verbatim>\<open>src/signal.c\<close>), the prologue of a worker
  (\<^verbatim>\<open>src/thread.c\<close>) and the command line (\<^verbatim>\<open>src/main.c\<close>). A world is named by a number that its creator chooses.
\<close>

record pone_host = pone_tools +
  e_kill :: "32 word \<Rightarrow> 32 word \<Rightarrow> os_state \<Rightarrow> os_state"
  e_signums :: "(string \<times> pone_int_t) list" \<comment> \<open>the signals of the platform\<close>

section \<open>Universe\<close>

definition pone_universe_init :: "unit pone" where
  "pone_universe_init s =
     Ret () (s\<lparr>st_universe := blank_universe\<lparr>u_signal_channels := replicate PONE_SIGNAL_HANDLERS_SIZE [],
                 u_globals := kh_init\<rparr>\<rparr>)"

fun free_worlds :: "finalizers \<Rightarrow> nat list \<Rightarrow> unit pone" where
  "free_worlds fin [] s = Ret () s"
| "free_worlds fin (w # ws) s = andthen (pone_world_free fin w s) (\<lambda>_. free_worlds fin ws)"

text \<open>
  The workers have seen \<open>end_time\<close> and left their loop when \<open>pthread_join\<close> returns. The world of the signal
  thread must exist, and the global one.
\<close>

definition pone_universe_destroy :: "finalizers \<Rightarrow> unit pone" where
  "pone_universe_destroy fin s =
     (let s = upd_universe (u_end_time_update (\<lambda>_. True)) s; U = st_universe s in
      andthen (free_worlds fin (u_worker_worlds U) s) (\<lambda>_ s.
      case (u_signal_world U, u_global_world U) of
        (Some sw, Some gw) \<Rightarrow>
          andthen (pone_world_free fin sw s) (\<lambda>_ s.
          andthen (case u_compiler_world U of Some cw \<Rightarrow> pone_world_free fin cw s | None \<Rightarrow> Ret () s) (\<lambda>_ s.
          andthen (pone_world_free fin gw s) (\<lambda>_ s.
          Ret () (s\<lparr>st_universe := blank_universe\<rparr>))))
      | _ \<Rightarrow> Undef))"

section \<open>Initialisation\<close>

definition meth_gc_request :: "('z pone_rt_scheme) \<Rightarrow> nat \<Rightarrow> ptr \<Rightarrow> ptr list \<Rightarrow> ptr pone" where
  "meth_gc_request E w self args s =
     andthen (args_none E w ''gc_request'' args s) (\<lambda>_ s.
     Ret pone_nil (upd_world w (w_gc_requested_update (\<lambda>_. True)) s))"

definition pone_gc_init :: "nat \<Rightarrow> unit pone" where
  "pone_gc_init w s =
     andthen (pone_code_new w ''meth_gc_request'' s) (\<lambda>code. pone_universe_set_global (bs ''gc_request'') code)"

text \<open>Both arguments of \<open>kill\<close> are cut to \<open>int\<close>; its result is not looked at.\<close>

definition meth_signal_kill :: "('z pone_host_scheme) \<Rightarrow> nat \<Rightarrow> ptr \<Rightarrow> ptr list \<Rightarrow> ptr pone" where
  "meth_signal_kill E w self args s =
     andthen (pone_arg E w ''signal.kill'' ''ii'' args s) (\<lambda>vs s.
     case vs of
       [PInt pid, PInt sig] \<Rightarrow> Ret pone_nil (s\<lparr>st_os := e_kill E (ucast pid) (ucast sig) (st_os s)\<rparr>)
     | _ \<Rightarrow> Undef)"

definition pone_signal_start_thread :: "nat \<Rightarrow> unit pone" where
  "pone_signal_start_thread sw s =
     andthen (pone_world_new sw s) (\<lambda>_ s. Ret () (upd_universe (u_signal_world_update (\<lambda>_. Some sw)) s))"

text \<open>
  The loop of the signal thread, for what \<open>sigwait\<close> delivers until the thread is cancelled: a signal, or a failure.
  \<open>handle_signal\<close> says what a signal does (\<open>Pone_Threads\<close>).
\<close>

fun signal_thread :: "(nat \<Rightarrow> bool) \<Rightarrow> ('z pone_rt_scheme) \<Rightarrow> nat \<Rightarrow> nat option list \<Rightarrow> chans \<Rightarrow> chans pone" where
  "signal_thread fatal E w [] C s = Ret C s"
| "signal_thread fatal E w (None # sigs) C s = Abort"
| "signal_thread fatal E w (Some sig # sigs) C s =
     andthen (handle_signal fatal E w sig C s) (\<lambda>C s.
     andthen (maybe_gc E w s) (\<lambda>_. signal_thread fatal E w sigs C))"

fun in_order :: "unit pone list \<Rightarrow> unit pone" where
  "in_order [] s = Ret () s"
| "in_order (f # fs) s = andthen (f s) (\<lambda>_. in_order fs)"

definition class_inits :: "('z pone_host_scheme) \<Rightarrow> nat \<Rightarrow> unit pone list" where
  "class_inits E w =
     [pone_nil_init E w, pone_int_init E w, pone_str_init E w, pone_num_init E w, pone_bool_init E w,
      pone_map_init E w, pone_code_init E w, pone_range_init E w, pone_regex_init E w, pone_thread_init w,
      pone_pair_init E w, pone_gc_init w, pone_channel_init E w, pone_errno_init E w, pone_module_init E w,
      pone_runtime_init E w, pone_file_init E w, pone_signal_init (e_signums E) w, pone_os_init E w,
      pone_builtin_init w, pone_time_init E w, pone_tmpfile_init E w, pone_exc_init E w, pone_path_init E w,
      pone_stat_init E w, pone_random_init w, pone_internals_init w]"

definition init_inc :: "nat \<Rightarrow> unit pone" where
  "init_inc w s =
     andthen (pone_str_lit w ''lib'' s) (\<lambda>lib s.
     andthen (pone_str_lit w ''blib'' s) (\<lambda>blib s.
     andthen (pone_ary_new w [lib, blib] s) (\<lambda>inc s.
     pone_universe_set_global (bs ''$*INC'') inc (upd_universe (u_inc_update (\<lambda>_. inc)) s))))"

definition init_iteration_end :: "('z pone_rt_scheme) \<Rightarrow> nat \<Rightarrow> unit pone" where
  "init_iteration_end E w s =
     andthen (pone_class_new E w ''IterationEnd'' s) (\<lambda>klass s.
     andthen (pone_obj_new w klass s) (\<lambda>v s.
     Ret () (upd_universe (u_instance_iteration_end_update (\<lambda>_. v)) s)))"

text \<open>The log of the collector is opened; what is written to it later is not part of the state.\<close>

definition open_gc_log :: "('z pone_sys_scheme) \<Rightarrow> unit pone" where
  "open_gc_log E s =
     (case e_getenv E (bs ''PONE_GC_LOG'') of
        Some name \<Rightarrow> if name \<noteq> [] then andthen (os_get (c_fopen name (bs ''w'')) s) (\<lambda>_. Ret ()) else Ret () s
      | None \<Rightarrow> Ret () s)"

definition pone_init :: "('z pone_host_scheme) \<Rightarrow> nat \<Rightarrow> nat \<Rightarrow> unit pone" where
  "pone_init E w sw s =
     andthen (pone_world_new w s) (\<lambda>_ s.
     andthen (pone_init_class E w (upd_universe (u_global_world_update (\<lambda>_. Some w)) s)) (\<lambda>k s.
     andthen (pone_ary_init E w (upd_universe (u_class_class_update (\<lambda>_. k)) s)) (\<lambda>_ s.
     if u_class_ary (st_universe s) = Null then Abort
     else in_order (class_inits E w @
            [init_inc w, init_iteration_end E w, open_gc_log E, pone_signal_start_thread sw]) s)))"

section \<open>Workers\<close>

text \<open>
  What \<open>thread_start\<close> does before its loop. An exception that reaches its handler, the outermost one, is
  reported and ends the process.
\<close>

definition thread_begin :: "nat \<Rightarrow> unit pone" where
  "thread_begin w s =
     (if w_err_handler_lexs (st_world s w) = [] then Undef
      else Ret () (upd_world w (\<lambda>W. W\<lparr>w_thread_id := st_self s,
             w_err_handler_lexs := (w_err_handler_lexs W)[0 := w_lex W]\<rparr>) s))"

definition catch_all :: "('z pone_rt_scheme) \<Rightarrow> nat \<Rightarrow> (unit, pone_state) outcome \<Rightarrow> (unit, pone_state) outcome" where
  "catch_all E w r =
     (case r of
        Jump n s \<Rightarrow> if n = 0 then pone_universe_default_err_handler E w s else Jump n s
      | _ \<Rightarrow> r)"

text \<open>
  One schedule of the workers: the one that \<open>pick\<close> chooses among those with a job runs it to its end, as
  its own thread; \<open>fuel\<close> bounds the number of jobs. It ends where \<open>pone_universe_wait_threads\<close> returns.
\<close>

definition worker_turn :: "('z pone_rt_scheme) \<Rightarrow> nat \<Rightarrow> unit pone" where
  "worker_turn E w s =
     (let self = st_self s in
      andthen (catch_all E w (andthen (thread_begin w (s\<lparr>st_self := w\<rparr>)) (\<lambda>_. thread_job E w))) (\<lambda>_ s.
      Ret () (s\<lparr>st_self := self\<rparr>)))"

fun run_workers :: "nat \<Rightarrow> (nat list \<Rightarrow> nat) \<Rightarrow> ('z pone_rt_scheme) \<Rightarrow> unit pone" where
  "run_workers fuel pick E s =
     andthen (pone_universe_wait_threads s) (\<lambda>r s.
     case r of
       Done _ \<Rightarrow> Ret () s
     | Wait \<Rightarrow>
         (case (fuel, filter (\<lambda>w. w_code (st_world s w) \<noteq> Null) (u_worker_worlds (st_universe s))) of
            (Suc f, w # ws) \<Rightarrow> andthen (worker_turn E (pick (w # ws)) s) (\<lambda>_. run_workers f pick E)
          | _ \<Rightarrow> Undef))"

declare run_workers.simps [simp del]

section \<open>Command line\<close>

text \<open>
  What \<open>getopt\<close> has delivered: its options, each with its argument, and the words that are left. \<open>v_next\<close>
  is a name for a new world, \<open>v_idle\<close> what \<open>pthread_mutex_trylock\<close> says, \<open>v_pick\<close> the order in which workers
  run, and \<open>v_lines\<close> what is typed at the prompt.
\<close>

record pone_argv =
  v_opts :: "(byte \<times> bytes) list"
  v_rest :: "bytes list"
  v_next :: "pone_state \<Rightarrow> nat"
  v_idle :: "nat \<Rightarrow> bool"
  v_pick :: "nat list \<Rightarrow> nat"
  v_lines :: "bytes list"

record main_opts =
  m_dump :: bool
  m_compile_only :: bool
  m_eval :: "bytes option"

text \<open>The build has no \<open>YY_DEBUG\<close>: the option \<open>y\<close> aborts.\<close>

fun parse_options :: "nat \<Rightarrow> (byte \<times> bytes) list \<Rightarrow> main_opts \<Rightarrow> main_opts pone" where
  "parse_options w [] m s = Ret m s"
| "parse_options w ((c, optarg) # opts) m s =
     (if c = 73 then
        andthen (pone_str_new_strdup w (optarg @ [0]) (length optarg) s) (\<lambda>d s.
        andthen (pone_ary_push (u_inc (st_universe s)) d s) (\<lambda>_.
        parse_options w opts m))
      else if c = 99 then parse_options w opts (m\<lparr>m_compile_only := True\<rparr>) s
      else if c = 101 then parse_options w opts (m\<lparr>m_eval := Some optarg\<rparr>) s
      else if c = 100 then parse_options w opts (m\<lparr>m_dump := True\<rparr>) s
      else if c = 121 then Abort
      else Exit 1)"

fun push_args :: "nat \<Rightarrow> ptr \<Rightarrow> bytes list \<Rightarrow> unit pone" where
  "push_args w args [] s = Ret () s"
| "push_args w args (a # as) s =
     andthen (pone_str_new_const w (a @ [0]) (length a) s) (\<lambda>v s.
     andthen (pone_ary_push args v s) (\<lambda>_. push_args w args as))"

definition dump_tree :: "('z pone_tools_scheme) \<Rightarrow> pone_node \<Rightarrow> unit pone" where
  "dump_tree E node s =
     (case pone_node_dump_sexp (e_node_name E) (e_fmt_f E (bs ''%f'')) node of
        Ret t _ \<Rightarrow> Ret () (put_out t s) | Abort \<Rightarrow> Abort | _ \<Rightarrow> Undef)"

definition run_code :: "nat \<Rightarrow> pone_argv \<Rightarrow> ('z pone_rt_scheme) \<Rightarrow> ptr \<Rightarrow> unit pone" where
  "run_code fuel V E code s =
     andthen (pone_thread_start fuel (v_idle V) (v_next V s) code s) (\<lambda>_. run_workers fuel (v_pick V) E)"

fun repl :: "nat \<Rightarrow> pone_argv \<Rightarrow> ('z pone_tools_scheme) \<Rightarrow> nat \<Rightarrow> bytes list \<Rightarrow> unit pone" where
  "repl fuel V E w [] s = Ret () s"
| "repl fuel V E w (line # ls) s =
     andthen (pone_push_scope w s) (\<lambda>_ s.
     andthen (pone_compile_str E w line s) (\<lambda>code s.
     andthen (run_code fuel V E code s) (\<lambda>_ s.
     andthen (pone_pop_scope w s) (\<lambda>_ s.
     andthen (maybe_gc E w s) (\<lambda>_. repl fuel V E w ls)))))"

text \<open>Without \<open>HOME\<close> the prompt copies a string from NULL. The history is not part of the state.\<close>

definition run_main :: "nat \<Rightarrow> pone_argv \<Rightarrow> ('z pone_tools_scheme) \<Rightarrow> nat \<Rightarrow> main_opts \<Rightarrow> unit pone" where
  "run_main fuel V E w m s =
     (case (m_eval m, v_rest V) of
        (Some src, _) \<Rightarrow>
          if m_dump m then andthen (pone_parse_string E w src s) (\<lambda>node. dump_tree E node)
          else andthen (pone_compile_str E w src s) (\<lambda>code s.
               if m_compile_only m then Ret () s else run_code fuel V E code s)
      | (None, filename # _) \<Rightarrow>
          andthen (os_get (c_fopen filename (bs ''r'')) s) (\<lambda>fp s.
          if fp = 0 then Exit 1
          else if m_dump m then andthen (pone_parse_fp E w fp s) (\<lambda>node. dump_tree E node)
          else andthen (pone_compile_fp E w fp filename s) (\<lambda>code s.
               if m_compile_only m then Ret () s else run_code fuel V E code s))
      | (None, []) \<Rightarrow>
          (case e_getenv E (bs ''HOME'') of
             None \<Rightarrow> Undef
           | Some _ \<Rightarrow> repl fuel V E w (v_lines V) s))"

definition main :: "nat \<Rightarrow> pone_argv \<Rightarrow> ('z pone_host_scheme) \<Rightarrow> nat \<Rightarrow> nat \<Rightarrow> nat \<Rightarrow> unit pone" where
  "main fuel V E gw sw w s =
     andthen (pone_universe_init s) (\<lambda>_ s.
     andthen (pone_init E gw sw s) (\<lambda>_ s.
     andthen (pone_world_new w s) (\<lambda>_ s.
     andthen (parse_options w (v_opts V) \<lparr>m_dump = False, m_compile_only = False, m_eval = None\<rparr>
               (upd_universe (u_compiler_world_update (\<lambda>_. Some w)) s)) (\<lambda>m s.
     andthen (pone_ary_new w [] s) (\<lambda>args s.
     andthen (push_args w args (v_rest V) (upd_universe (u_args_update (\<lambda>_. args)) s)) (\<lambda>_ s.
     andthen (pone_universe_set_global (bs ''$*ARGV'') args s) (\<lambda>_ s.
     andthen (catch_all E w (run_main fuel V E w m s)) (\<lambda>_.
     pone_universe_destroy (e_fin E)))))))))"

end
