(* ===== verification/Spec2Isabelle.thy ===== *)
theory Spec2Isabelle
  imports Khash_Table Val_Vec Worker_Sync Pone_Threads Pone_Json Pone_File_Correct Pone_System Pone_Regex Pone_Net
    Pone_Class_Table Pone_Dispatch Pone_Compile_Correct Pone_Load_Correct Pone_Start
begin

text \<open>
  A verification of Pone, a small Perl-like language: its run-time library and its compiler to C
  (\<^verbatim>\<open>src/src\<close>, \<^verbatim>\<open>src/include\<close>, \<^verbatim>\<open>src/ext\<close>).

  \<^bold>\<open>The program.\<close> A source file is parsed into a tree of nodes, the compiler turns the tree into C text, the
  text is compiled to a shared object and called. The object calls the run-time library: values live in
  arenas of a \<^emph>\<open>world\<close>, one world per thread, all worlds belong to one \<^emph>\<open>universe\<close> with the classes and global
  variables. Each world has its own garbage collector with a temporary stack as root set, a stack of
  exception handlers, a chain of variable scopes and a stack of callers. Threads exchange values over
  channels, which copy them into a world of their own. Scopes, instance variables, method tables and maps
  are hash tables of one macro library.

  \<^bold>\<open>The model.\<close> A C function of the run-time is a function from its arguments and a state to an
  \<open>outcome\<close> (\<open>Pone_Prelude\<close>): \<open>Ret\<close> a result and the new state, \<open>Jump\<close> to an exception handler
  (\<open>longjmp\<close>), \<open>Abort\<close> (a failed assertion or \<open>abort\<close>), \<open>Exit\<close>, or \<open>Undef\<close> where C leaves the behaviour
  undefined: overflow of \<open>long\<close>, access outside a buffer, a use of freed memory. The state
  \<open>pone_state\<close> (\<open>Pone_Value\<close>) has the heap of values, the worlds, the opaque bodies, the universe and the
  text printed; \<open>long\<close> is \<open>64 word\<close>, bytes are \<open>8 word\<close>. Allocation always succeeds. What is not part of
  the sources is a field of an environment record and an argument of the definitions that use it: the
  arithmetic and formatting of \<open>double\<close>, the functions of the C library, the Oniguruma library, the table
  of C functions behind code values (records \<open>pone_env\<close>, \<open>pone_rt\<close>, \<open>pone_libc\<close>, \<open>pone_sys\<close>, \<open>pone_posix\<close> and those
  that extend it). Files are the exception: \<open>C_Stdio\<close> models the streams of the C library by what its manual
  promises, so that reading and writing can be reasoned about; failing devices and permissions are left out.

  \<^bold>\<open>The theories\<close>, in the order of their imports, with the sources they model:

  \<^item> \<open>Khash\<close>, \<open>Khash_Correct\<close>, \<open>Khash_Rehash\<close>, \<open>Khash_Table\<close>: \<^verbatim>\<open>include/pone_khash.h\<close>, with the two bits of
    flags per bucket, the probe sequence and the rehash in place. Locale \<open>khash_keys\<close> says what keys need;
    \<open>key_table\<close> is the contract of a keyed table, which the sublocale derives from it; both are
    interpreted for strings, 64-bit integers and, in \<open>Pone_Containers\<close>, for string values. A table
    refines a finite map as long as it has fewer than \<open>2 ^ 30\<close> entries, beyond which the 32-bit sizes overflow.
  \<^item> \<open>Val_Vec\<close>: \<^verbatim>\<open>include/pone_val_vec.h\<close>, a vector whose deletion moves too few bytes.
  \<^item> \<open>Pone_Value\<close>, \<open>Pone_Alloc\<close>, \<open>Pone_GC\<close>: \<^verbatim>\<open>include/pone.h\<close>, \<^verbatim>\<open>src/alloc.c\<close>, \<^verbatim>\<open>src/scope.c\<close>, \<^verbatim>\<open>src/gc.c\<close>,
    \<^verbatim>\<open>src/opaque.c\<close>. Invariant \<open>arena_wf\<close>: the free list is exactly the dead cells. Allocation returns a
    fresh value; nested scopes are balanced; a collection keeps what is reachable and frees the rest, and
    stale marks of other worlds break that.
  \<^item> \<open>Pone_Data\<close>, \<open>Pone_Containers\<close>: the operations on integers, strings, arrays, objects and maps below
    method calls (\<^verbatim>\<open>src/int.c, num.c, str.c, array.c, obj.c, map.c\<close>). Locale \<open>mutable_seq\<close> is the contract of a
    sequence open at both ends, which arrays meet.
  \<^item> \<open>Pone_World\<close>, \<open>Pone_Call\<close>, \<open>Pone_Op\<close>: \<^verbatim>\<open>src/world.c\<close>, \<^verbatim>\<open>src/exc.c\<close>, \<^verbatim>\<open>src/class.c\<close>, \<^verbatim>\<open>src/code.c\<close>,
    \<^verbatim>\<open>src/arg.c\<close>, \<^verbatim>\<open>src/op.c\<close>: unwinding of exceptions, creation and release of worlds, method lookup and calls,
    variables, arithmetic and comparison.
  \<^item> \<open>Sort_R\<close>, \<open>Pone_Methods\<close>, \<open>Pone_Classes\<close>, \<open>Pone_Methods_Correct\<close>: \<^verbatim>\<open>src/sort_r.h\<close> and the methods of the
    built-in classes. Locale \<open>comparison\<close> is what the quicksort needs of its callback; the order of
    strings by bytes is the interpretation.
  \<^item> \<open>Pone_Class_Table\<close>, \<open>Pone_Dispatch\<close>: what classes and calls promise. Locale \<open>method_table\<close> is the contract of a
    table of methods, which a class on the heap meets: it refines a finite map from names to functions. A call enters
    the function with the caller's row on the stack of callers and in the scope of the code, and restores both. Through
    both, a text converts to a C string with its bytes. The theorems ask that no collection is due in between: \<open>room\<close>
    counts the values that can be allocated before one is requested.
  \<^item> \<open>Channel_Sync\<close>, \<open>Pone_Channel\<close>: \<^verbatim>\<open>src/channel.c\<close>, once as a step relation over threads that lock, wait and
    signal, once as operations on the heap.
  \<^item> \<open>Worker_Sync\<close>: the pool of workers of \<^verbatim>\<open>src/thread.c\<close> and \<^verbatim>\<open>src/universe.c\<close> as a step relation: starting jobs,
    running them, waiting for them, and the shutdown, with the mutex and condition of each world and of the list.
  \<^item> \<open>Pone_Builtin\<close>, \<open>Pone_Threads\<close>, \<open>Pone_Json\<close>: \<^verbatim>\<open>src/builtin.c\<close>, \<^verbatim>\<open>src/module.c\<close>, \<^verbatim>\<open>src/random.c\<close>,
    \<^verbatim>\<open>src/runtime.c\<close>, \<^verbatim>\<open>ext/math.c\<close>; \<^verbatim>\<open>src/thread.c\<close>, \<^verbatim>\<open>src/universe.c\<close>, \<^verbatim>\<open>src/signal.c\<close>; \<^verbatim>\<open>ext/json.c\<close>.
  \<^item> \<open>C_Stdio\<close>, \<open>Pone_File\<close>, \<open>Pone_File_Correct\<close>: streams, descriptors and blocks of the C library; \<^verbatim>\<open>src/file.c\<close>,
    \<^verbatim>\<open>src/stat.c\<close>, \<^verbatim>\<open>src/path.c\<close>, \<^verbatim>\<open>src/tmpfile.c\<close>. Reading the rest of a file and iterating over its lines are
    followed to their end.
  \<^item> \<open>Pone_System\<close>, \<open>Pone_Regex\<close>, \<open>Pone_Net\<close>: \<^verbatim>\<open>src/time.c\<close>, \<^verbatim>\<open>src/os.c\<close>, \<^verbatim>\<open>src/internals.c\<close> and the dumps of
    \<^verbatim>\<open>src/scope.c\<close> and \<^verbatim>\<open>src/op.c\<close>; \<^verbatim>\<open>src/re.c\<close>; \<^verbatim>\<open>ext/socket.c\<close>, \<^verbatim>\<open>ext/http_parser.c\<close>.
  \<^item> \<open>Pvip_String\<close>, \<open>Pvip_Node\<close>: \<^verbatim>\<open>src/pvip_string.c\<close>, \<^verbatim>\<open>src/pvip.h\<close>, \<^verbatim>\<open>src/pvip_node.c\<close>. Locale \<open>text_buffer\<close> is
    the contract of a buffer that only grows; both ways of writing to it are interpretations.
  \<^item> \<open>Pone_Compile\<close>, \<open>Pone_Compile_Correct\<close>: \<^verbatim>\<open>src/compile.c\<close>: every kind of node. Compiling only appends to the
    texts and leaves the stacks of the compiler as they were; string literals read back as their bytes;
    the index of a variable counts the scopes to the one that holds it at run time.
  \<^item> \<open>Pone_Load\<close>, \<open>Pone_Load_Correct\<close>: the rest of \<^verbatim>\<open>src/compile.c\<close>, from source text to a code value, and the
    loading of modules in \<^verbatim>\<open>src/module.c\<close>. The C compiler is run with its command line on a file that holds exactly the
    translation.
  \<^item> \<open>Pone_Start\<close>: \<^verbatim>\<open>src/pone.c\<close>, \<^verbatim>\<open>src/main.c\<close>, creation and destruction in \<^verbatim>\<open>src/universe.c\<close>, the start of the
    signal thread and of a worker: the composition of everything above into a process.

  \<^bold>\<open>Properties.\<close> Refinement: hash tables and classes of finite maps, arrays of lists, channels of queues, the printer of
  trees of its S-expressions. Types: trees hold what their kinds name. Invariants: allocator, scopes,
  channels and the worker pool in every interleaving, compiler stacks. Round trips: variables, integers and text,
  string literals. Termination and errors: iteration over lines, reading to the end of a file, unwinding,
  division. Several theorems show a defect of the code on a concrete state; they are stated as what the code
  does.

  \<^bold>\<open>Bounds and fuel.\<close> Probe loops, rehash, sorting and the compiler are total with termination proofs (the
  compiler by the weight of a tree). Chains that the C code follows without a bound (copies of strings,
  scopes, marking) take a depth, mostly \<open>e_depth\<close>; running out is \<open>Undef\<close>, and the theorems require
  or derive a depth that is enough. \<open>pone_gc_mark\<close> is proved to return whenever the depth exceeds the number
  of reachable values. \<open>stringify\<close> of the module json takes the nesting of the value. The loops that read a file take
  a number of turns, and the theorems on them say how many are enough for the length of the file; the search for a
  module takes the number of directories, \<open>run_workers\<close> the number of jobs.

  \<^bold>\<open>Not modelled.\<close> The parser is generated from \<^verbatim>\<open>src/pone.y\<close> by the vendored tool \<^verbatim>\<open>3rd/greg\<close>; it is a parameter, like
  the C compiler, the dynamic loader, the system calls beyond streams, Oniguruma and picohttpparser. The
  signal masks, tracing, the log of the collector and the history of the prompt have no definition. On
  the heap the workers run one job at a time; their interleaving, and that of the threads at a channel, is the subject
  of \<open>Worker_Sync\<close> and \<open>Channel_Sync\<close>, which leave out the values.
\<close>

end
